(* ===== verification/Prelude.thy ===== *)
theory Prelude
  imports Main "HOL-Library.Word" "HOL-Library.Multiset"
begin

text \<open>
  Shared vocabulary of the development: the result type of operations that can throw or
  abort, monadic folds over it, and the container models (\<open>std::map\<close> as a strictly sorted
  association list) that several components use. The laws of \<open>std::map\<close> are stated as the
  locale \<open>std_map\<close> and the list model is an interpretation of it.
\<close>

named_theorems res_simps \<open>rewriting of results of fallible operations\<close>

section \<open>Results of operations that can fail\<close>

text \<open>
  \<open>Out_of_range\<close> is the exception of \<open>std::map::at\<close>, \<open>Check_failed\<close> the abort of
  \<open>FML_CHECK\<close>, \<open>Undefined\<close> a call outside a library function's precondition
  (\<open>top\<close> of an empty queue, a null dereference), \<open>Invalid_argument\<close> the exception of the number
  parsers.
\<close>

datatype fml_error = Out_of_range | Check_failed | Undefined | Invalid_argument

type_synonym 'a res = "fml_error + 'a"

definition bindR :: "'e + 'a \<Rightarrow> ('a \<Rightarrow> 'e + 'b) \<Rightarrow> 'e + 'b" where
  "bindR m f = (case m of Inl e \<Rightarrow> Inl e | Inr x \<Rightarrow> f x)"

definition check :: "bool \<Rightarrow> unit res" where
  "check b = (if b then Inr () else Inl Check_failed)"

definition at_key :: "('k \<rightharpoonup> 'v) \<Rightarrow> 'k \<Rightarrow> 'v res" where
  "at_key m k = (case m k of None \<Rightarrow> Inl Out_of_range | Some v \<Rightarrow> Inr v)"

fun foldR :: "('a \<Rightarrow> 's \<Rightarrow> 'e + 's) \<Rightarrow> 'a list \<Rightarrow> 's \<Rightarrow> 'e + 's" where
  "foldR f [] s = Inr s"
| "foldR f (x # xs) s = bindR (f x s) (foldR f xs)"

text \<open>The contents of an \<open>fml::Mapping\<close>; a null mapping is \<open>None\<close> where one can occur.\<close>

type_synonym fml_mapping = "8 word list"

text \<open>The bytes of a string literal.\<close>

definition text_bytes :: "string \<Rightarrow> 8 word list" where
  "text_bytes s = map (\<lambda>c. word_of_nat (of_char c)) s"

lemma bindR_Inl [simp, res_simps]: "bindR (Inl e) f = Inl e"
  by (simp add: bindR_def)

lemma bindR_Inr [simp, res_simps]: "bindR (Inr x) f = f x"
  by (simp add: bindR_def)

lemma bindR_eq_Inr_iff: "bindR m f = Inr y \<longleftrightarrow> (\<exists>x. m = Inr x \<and> f x = Inr y)"
  by (cases m) auto

lemma bindR_cong [fundef_cong]:
  "m = m' \<Longrightarrow> (\<And>x. m' = Inr x \<Longrightarrow> f x = f' x) \<Longrightarrow> bindR m f = bindR m' f'"
  by (cases m') auto

lemma check_True [simp, res_simps]: "check True = Inr ()"
  by (simp add: check_def)

lemma check_False [simp, res_simps]: "check False = Inl Check_failed"
  by (simp add: check_def)

lemma check_eq_Inr_iff [simp]: "check b = Inr u \<longleftrightarrow> b"
  by (cases b) auto

lemma at_key_Some [simp, res_simps]: "m k = Some v \<Longrightarrow> at_key m k = Inr v"
  by (simp add: at_key_def)

lemma at_key_None [simp, res_simps]: "m k = None \<Longrightarrow> at_key m k = Inl Out_of_range"
  by (simp add: at_key_def)

lemma at_key_eq_Inr_iff [simp]: "at_key m k = Inr v \<longleftrightarrow> m k = Some v"
  by (cases "m k") auto

lemma foldR_cong [fundef_cong]:
  "xs = ys \<Longrightarrow> s = t \<Longrightarrow> (\<And>x u. x \<in> set ys \<Longrightarrow> f x u = g x u) \<Longrightarrow> foldR f xs s = foldR g ys t"
proof (induction ys arbitrary: xs s t)
  case Nil
  then show ?case by simp
next
  case (Cons y ys)
  then show ?case by (cases "g y t") auto
qed

lemma foldR_append: "foldR f (xs @ ys) s = bindR (foldR f xs s) (foldR f ys)"
proof (induction xs arbitrary: s)
  case Nil
  then show ?case by simp
next
  case (Cons x xs)
  then show ?case by (cases "f x s") simp_all
qed

lemma foldR_pure: "(\<And>x s. x \<in> set xs \<Longrightarrow> f x s = Inr (g x s)) \<Longrightarrow> foldR f xs s = Inr (fold g xs s)"
  by (induction xs arbitrary: s) auto

section \<open>Ordered maps\<close>

text \<open>
  \<open>std::map\<close>: an association list in ascending key order, which is the order of iteration.
  \<open>om_update\<close> is \<open>m[k] = v\<close>, \<open>om_delete\<close> is \<open>erase(k)\<close>, \<open>om_lookup\<close> is \<open>find\<close>.
\<close>

type_synonym ('k, 'v) omap = "('k \<times> 'v) list"

fun om_update :: "'k::linorder \<Rightarrow> 'v \<Rightarrow> ('k, 'v) omap \<Rightarrow> ('k, 'v) omap" where
  "om_update k v [] = [(k, v)]"
| "om_update k v ((k', v') # m) =
     (if k < k' then (k, v) # (k', v') # m
      else if k = k' then (k, v) # m
      else (k', v') # om_update k v m)"

definition om_delete :: "'k \<Rightarrow> ('k, 'v) omap \<Rightarrow> ('k, 'v) omap" where
  "om_delete k m = filter (\<lambda>(k', v). k' \<noteq> k) m"

definition om_lookup :: "('k, 'v) omap \<Rightarrow> 'k \<Rightarrow> 'v option" where
  "om_lookup m k = map_of m k"

definition om_wf :: "('k::linorder, 'v) omap \<Rightarrow> bool" where
  "om_wf m \<longleftrightarrow> sorted_wrt (<) (map fst m)"

locale std_map =
  fixes empty :: "'m"
    and update :: "'k \<Rightarrow> 'v \<Rightarrow> 'm \<Rightarrow> 'm"
    and delete :: "'k \<Rightarrow> 'm \<Rightarrow> 'm"
    and lookup :: "'m \<Rightarrow> 'k \<Rightarrow> 'v option"
    and wf :: "'m \<Rightarrow> bool"
  assumes lookup_empty: "lookup empty k = None"
    and lookup_update: "wf m \<Longrightarrow> lookup (update k v m) k' = (if k' = k then Some v else lookup m k')"
    and lookup_delete: "wf m \<Longrightarrow> lookup (delete k m) k' = (if k' = k then None else lookup m k')"
    and wf_empty: "wf empty"
    and wf_update: "wf m \<Longrightarrow> wf (update k v m)"
    and wf_delete: "wf m \<Longrightarrow> wf (delete k m)"
begin

lemma wf_fold_update: "wf m \<Longrightarrow> wf (fold (\<lambda>(k, v). update k v) kvs m)"
  by (induction kvs arbitrary: m) (auto simp: wf_update)

lemma lookup_fold_update:
  "wf m \<Longrightarrow> lookup (fold (\<lambda>(k, v). update k v) kvs m) k =
     (case map_of (rev kvs) k of None \<Rightarrow> lookup m k | Some v \<Rightarrow> Some v)"
  by (induction kvs arbitrary: m)
    (auto simp: wf_update lookup_update map_add_def split: option.splits)

lemma delete_update: "wf m \<Longrightarrow> lookup m k = None \<Longrightarrow> lookup (delete k (update k v m)) = lookup m"
  by (rule ext) (simp add: wf_update lookup_update lookup_delete)

end

lemma set_om_update: "set (map fst (om_update k v m)) = insert k (set (map fst m))"
  by (induction k v m rule: om_update.induct) auto

lemma om_wf_Nil [simp]: "om_wf []"
  by (simp add: om_wf_def)

lemma om_wf_Cons: "om_wf (kv # m) \<longleftrightarrow> (\<forall>k \<in> set (map fst m). fst kv < k) \<and> om_wf m"
  by (simp add: om_wf_def)

lemma om_wf_distinct: "om_wf m \<Longrightarrow> distinct (map fst m)"
  by (simp add: om_wf_def strict_sorted_iff)

lemma om_wf_update: "om_wf m \<Longrightarrow> om_wf (om_update k v m)"
proof (induction k v m rule: om_update.induct)
  case (1 k v)
  then show ?case by (simp add: om_wf_def)
next
  case (2 k v k' v' m)
  then show ?case
    using set_om_update [of k v m] by (force simp: om_wf_Cons)
qed

lemma om_wf_delete: "om_wf m \<Longrightarrow> om_wf (om_delete k m)"
  unfolding om_delete_def by (induction m) (auto simp: om_wf_Cons)

lemma om_lookup_Nil [simp]: "om_lookup [] k = None"
  by (simp add: om_lookup_def)

lemma om_lookup_update:
  "om_wf m \<Longrightarrow> om_lookup (om_update k v m) k' = (if k' = k then Some v else om_lookup m k')"
  unfolding om_lookup_def
  by (induction k v m rule: om_update.induct) (auto simp: om_wf_Cons)

lemma om_lookup_delete: "om_lookup (om_delete k m) k' = (if k' = k then None else om_lookup m k')"
  unfolding om_lookup_def om_delete_def by (induction m) auto

interpretation omap: std_map "[] :: ('k::linorder, 'v) omap" om_update om_delete om_lookup om_wf
  by unfold_locales (auto simp: om_lookup_update om_lookup_delete om_wf_update om_wf_delete)

lemma om_update_last:
  "om_wf (m @ [(k, v)]) \<Longrightarrow> om_update k v m = m @ [(k, v)]"
  by (induction k v m rule: om_update.induct) (auto simp: om_wf_def sorted_wrt_append)

lemma om_rebuild: "om_wf m \<Longrightarrow> fold (\<lambda>(k, v). om_update k v) m [] = m"
proof (induction m rule: rev_induct)
  case Nil
  then show ?case by simp
next
  case (snoc kv m)
  obtain k v where kv: "kv = (k, v)" by (cases kv)
  from snoc.prems have "om_wf m" by (simp add: om_wf_def sorted_wrt_append)
  with snoc.IH have "fold (\<lambda>(k, v). om_update k v) m [] = m" by blast
  with snoc.prems kv show ?case by (simp add: om_update_last)
qed

section \<open>Machine integers\<close>

type_synonym byte = "8 word"

lemma mod_neg_wrap:
  fixes k M :: int
  assumes "- M \<le> k" and "k < 0"
  shows "k mod M = k + M"
  using mod_pos_pos_trivial [of "k + M" M] assms by simp

lemma sint_inc:
  fixes x :: "32 word"
  shows "sint (x + 1) = (if sint x = 2147483647 then -2147483648 else sint x + 1)"
proof -
  have r: "-2147483648 \<le> sint x" "sint x < 2147483648"
    using sint_ge [of x] sint_lt [of x] by simp_all
  have "sint (x + 1) = signed_take_bit 31 (sint x + 1)" 
    by (simp add: sint_word_ariths)
  also have "\<dots> = (sint x + 1 + 2147483648) mod 4294967296 - 2147483648"
    by (simp add: signed_take_bit_eq_take_bit_shift take_bit_eq_mod)
  finally show ?thesis using r by auto
qed
lemma scast_32_64_mono:
  fixes x :: "32 word"
  assumes "x \<noteq> -1"
  shows "(scast x :: 64 word) < scast (x + 1)"
proof -
  have r: "-2147483648 \<le> sint x" "sint x < 2147483648"
    using sint_ge [of x] sint_lt [of x] by simp_all
  have u: "uint (scast y :: 64 word) = sint y mod 18446744073709551616" for y :: "32 word"
    unfolding scast_eq uint_word_of_int by simp
  have m: "uint (scast y :: 64 word) = (if sint y < 0 then sint y + 18446744073709551616 else sint y)"
    for y :: "32 word"
  proof -
    have "-2147483648 \<le> sint y" "sint y < 2147483648" using sint_ge [of y] sint_lt [of y] by simp_all
    then show ?thesis unfolding u
      by (cases "sint y < 0") (simp_all add: mod_neg_wrap mod_pos_pos_trivial)
  qed
  have "sint x \<noteq> sint (-1 :: 32 word)" using assms by (metis signed_word_eqI)
  with r show ?thesis unfolding word_less_alt m sint_inc by simp
qed

end
