(* ===== verification/Task_Source.thy ===== *)
theory Task_Source
  imports Prelude "HOL-Library.Product_Lexorder"
begin

text \<open>
  \<open>fml/delayed_task\<close>, \<open>fml/task_source\<close> and the identifiers they use. A \<open>DelayedTask\<close> is a
  closure with a target time, a registration order and a grade; a \<open>DelayedTaskQueue\<close> is a
  \<open>std::priority_queue\<close> under \<open>std::greater\<close>, so \<open>top\<close> is a task no other task is smaller than.
  A \<open>TaskSource\<close> holds a primary and a secondary queue; the secondary one can be paused (the \<open>int\<close> that counts the
  pauses is unbounded, exact below \<open>2\<^sup>3\<^sup>1\<close> of them).
  The contract of the priority queue is the locale \<open>min_queue\<close>; the list model interprets it.
\<close>

section \<open>Identifiers, time and grades\<close>

type_synonym TaskQueueId = "64 word"

text \<open>\<open>ULONG_MAX\<close> and \<open>ULONG_MAX - 1\<close> on a platform with 64-bit \<open>unsigned long\<close>.\<close>

definition kUnmerged :: TaskQueueId where
  "kUnmerged = 0xFFFFFFFFFFFFFFFF"

definition kInvalid :: TaskQueueId where
  "kInvalid = 0xFFFFFFFFFFFFFFFE"

definition is_valid :: "TaskQueueId \<Rightarrow> bool" where
  "is_valid q \<longleftrightarrow> q \<noteq> kInvalid"

text \<open>A \<open>TimePoint\<close> is its \<open>int64_t\<close> tick count; the code here only compares them.\<close>

type_synonym TimePoint = int

definition TimePoint_Max :: TimePoint where
  "TimePoint_Max = 9223372036854775807"

text \<open>A \<open>fml::closure\<close> is an opaque handle: the queues store closures and hand them back.\<close>

type_synonym closure = nat

datatype TaskSourceGrade = kUserInteraction | kDartEventLoop | kUnspecified

section \<open>Delayed tasks\<close>

record DelayedTask =
  task_order :: "64 word"
  task_closure :: closure
  target_time :: TimePoint
  task_grade :: TaskSourceGrade

definition make_task :: "64 word \<Rightarrow> closure \<Rightarrow> TimePoint \<Rightarrow> TaskSourceGrade \<Rightarrow> DelayedTask" where
  "make_task n c t g = \<lparr>task_order = n, task_closure = c, target_time = t, task_grade = g\<rparr>"

definition task_gt :: "DelayedTask \<Rightarrow> DelayedTask \<Rightarrow> bool" where
  "task_gt a b =
     (if target_time a = target_time b then task_order a > task_order b
      else target_time a > target_time b)"

text \<open>The key that \<open>operator>\<close> compares.\<close>

definition task_key :: "DelayedTask \<Rightarrow> TimePoint \<times> 64 word" where
  "task_key d = (target_time d, task_order d)"

section \<open>The priority queue of delayed tasks\<close>

type_synonym DelayedTaskQueue = "DelayedTask list"

fun dtq_push :: "DelayedTask \<Rightarrow> DelayedTaskQueue \<Rightarrow> DelayedTaskQueue" where
  "dtq_push d [] = [d]"
| "dtq_push d (x # q) = (if task_gt x d then d # x # q else x # dtq_push d q)"

definition dtq_top :: "DelayedTaskQueue \<Rightarrow> DelayedTask res" where
  "dtq_top q = (case q of [] \<Rightarrow> Inl Undefined | d # _ \<Rightarrow> Inr d)"

definition dtq_pop :: "DelayedTaskQueue \<Rightarrow> DelayedTaskQueue res" where
  "dtq_pop q = (case q of [] \<Rightarrow> Inl Undefined | _ # q' \<Rightarrow> Inr q')"

definition dtq_wf :: "DelayedTaskQueue \<Rightarrow> bool" where
  "dtq_wf q \<longleftrightarrow> sorted (map task_key q)"

section \<open>Task sources\<close>

record TaskSource =
  task_queue_id :: TaskQueueId
  primary_task_queue :: DelayedTaskQueue
  secondary_task_queue :: DelayedTaskQueue
  secondary_pause_requests :: int

record TopTask =
  top_queue_id :: TaskQueueId
  top_task :: DelayedTask

definition TaskSource_new :: "TaskQueueId \<Rightarrow> TaskSource" where
  "TaskSource_new i =
     \<lparr>task_queue_id = i, primary_task_queue = [], secondary_task_queue = [],
      secondary_pause_requests = 0\<rparr>"

definition ShutDown :: "TaskSource \<Rightarrow> TaskSource" where
  "ShutDown s = s\<lparr>primary_task_queue := [], secondary_task_queue := []\<rparr>"

definition source_RegisterTask :: "DelayedTask \<Rightarrow> TaskSource \<Rightarrow> TaskSource" where
  "source_RegisterTask d s =
     (case task_grade d of
        kUserInteraction \<Rightarrow> s\<lparr>primary_task_queue := dtq_push d (primary_task_queue s)\<rparr>
      | kUnspecified \<Rightarrow> s\<lparr>primary_task_queue := dtq_push d (primary_task_queue s)\<rparr>
      | kDartEventLoop \<Rightarrow> s\<lparr>secondary_task_queue := dtq_push d (secondary_task_queue s)\<rparr>)"

definition PopTask :: "TaskSourceGrade \<Rightarrow> TaskSource \<Rightarrow> TaskSource res" where
  "PopTask g s =
     (case g of
        kUserInteraction \<Rightarrow>
          bindR (dtq_pop (primary_task_queue s)) (\<lambda>q. Inr (s\<lparr>primary_task_queue := q\<rparr>))
      | kUnspecified \<Rightarrow>
          bindR (dtq_pop (primary_task_queue s)) (\<lambda>q. Inr (s\<lparr>primary_task_queue := q\<rparr>))
      | kDartEventLoop \<Rightarrow>
          bindR (dtq_pop (secondary_task_queue s)) (\<lambda>q. Inr (s\<lparr>secondary_task_queue := q\<rparr>)))"

definition source_GetNumPendingTasks :: "TaskSource \<Rightarrow> nat" where
  "source_GetNumPendingTasks s =
     (let size = length (primary_task_queue s) in
      if secondary_pause_requests s = 0 then size + length (secondary_task_queue s) else size)"

definition source_IsEmpty :: "TaskSource \<Rightarrow> bool" where
  "source_IsEmpty s \<longleftrightarrow> source_GetNumPendingTasks s = 0"

definition source_Top :: "TaskSource \<Rightarrow> TopTask res" where
  "source_Top s =
     bindR (check (\<not> source_IsEmpty s)) (\<lambda>_.
       if secondary_pause_requests s > 0 \<or> secondary_task_queue s = [] then
         bindR (dtq_top (primary_task_queue s)) (\<lambda>p.
           Inr \<lparr>top_queue_id = task_queue_id s, top_task = p\<rparr>)
       else if primary_task_queue s = [] then
         bindR (dtq_top (secondary_task_queue s)) (\<lambda>d.
           Inr \<lparr>top_queue_id = task_queue_id s, top_task = d\<rparr>)
       else
         bindR (dtq_top (primary_task_queue s)) (\<lambda>p.
         bindR (dtq_top (secondary_task_queue s)) (\<lambda>d.
           if task_gt p d then Inr \<lparr>top_queue_id = task_queue_id s, top_task = d\<rparr>
           else Inr \<lparr>top_queue_id = task_queue_id s, top_task = p\<rparr>)))"

definition PauseSecondary :: "TaskSource \<Rightarrow> TaskSource" where
  "PauseSecondary s = s\<lparr>secondary_pause_requests := secondary_pause_requests s + 1\<rparr>"

definition ResumeSecondary :: "TaskSource \<Rightarrow> TaskSource" where
  "ResumeSecondary s = s\<lparr>secondary_pause_requests := secondary_pause_requests s - 1\<rparr>"

text \<open>What a source offers, as a bag: the secondary tasks count only while nothing pauses them.\<close>

definition source_pending :: "TaskSource \<Rightarrow> DelayedTask multiset" where
  "source_pending s =
     mset (primary_task_queue s) +
     (if secondary_pause_requests s = 0 then mset (secondary_task_queue s) else {#})"

definition source_all :: "TaskSource \<Rightarrow> DelayedTask multiset" where
  "source_all s = mset (primary_task_queue s) + mset (secondary_task_queue s)"

text \<open>
  Well-formedness: both queues are heaps, every task is in the queue of its grade, and resumes
  never outnumber pauses (the code's \<open>FML_DCHECK\<close>).
\<close>

definition source_wf :: "TaskSource \<Rightarrow> bool" where
  "source_wf s \<longleftrightarrow>
     dtq_wf (primary_task_queue s) \<and> dtq_wf (secondary_task_queue s) \<and>
     list_all (\<lambda>d. task_grade d \<noteq> kDartEventLoop) (primary_task_queue s) \<and>
     list_all (\<lambda>d. task_grade d = kDartEventLoop) (secondary_task_queue s) \<and>
     secondary_pause_requests s \<ge> 0"

section \<open>The contract of a priority queue\<close>

locale min_queue =
  fixes empty :: "'q"
    and push :: "'a \<Rightarrow> 'q \<Rightarrow> 'q"
    and top :: "'q \<Rightarrow> fml_error + 'a"
    and pop :: "'q \<Rightarrow> fml_error + 'q"
    and key :: "'a \<Rightarrow> 'k::linorder"
    and invar :: "'q \<Rightarrow> bool"
    and bag :: "'q \<Rightarrow> 'a multiset"
  assumes bag_empty: "bag empty = {#}"
    and bag_push: "bag (push x q) = add_mset x (bag q)"
    and top_least: "invar q \<Longrightarrow> bag q \<noteq> {#} \<Longrightarrow>
          \<exists>x. top q = Inr x \<and> x \<in># bag q \<and> (\<forall>y \<in># bag q. key x \<le> key y)"
    and pop_top: "invar q \<Longrightarrow> top q = Inr x \<Longrightarrow>
          \<exists>q'. pop q = Inr q' \<and> bag q' = bag q - {#x#} \<and> invar q'"
    and top_nonempty: "top q = Inr x \<Longrightarrow> x \<in># bag q"
    and invar_empty: "invar empty"
    and invar_push: "invar q \<Longrightarrow> invar (push x q)"
begin

lemma top_least_key: "invar q \<Longrightarrow> top q = Inr x \<Longrightarrow> y \<in># bag q \<Longrightarrow> key x \<le> key y"
  using top_least [of q] by force

lemma push_new_top:
  assumes "invar q" and "\<forall>y \<in># bag q. key x < key y"
  shows "top (push x q) = Inr x"
proof -
  have ne: "bag (push x q) \<noteq> {#}" by (simp add: bag_push)
  obtain z where z: "top (push x q) = Inr z" "z \<in># bag (push x q)"
      "\<forall>y \<in># bag (push x q). key z \<le> key y"
    using top_least [OF invar_push [OF assms(1)] ne] by blast
  then have "z = x" using assms(2) by (force simp: bag_push)
  with z show ?thesis by simp
qed

lemma invar_push_all: "invar q \<Longrightarrow> invar (fold push xs q)"
  by (induction xs arbitrary: q) (auto simp: invar_push)

lemma bag_push_all: "bag (fold push xs q) = mset xs + bag q"
  by (induction xs arbitrary: q) (auto simp: bag_push)

end

section \<open>Lemmas on tasks and sources\<close>

lemma task_gt_key: "task_gt a b \<longleftrightarrow> task_key b < task_key a"
  by (auto simp: task_gt_def task_key_def)

lemma mset_dtq_push [simp]: "mset (dtq_push d q) = add_mset d (mset q)"
  by (induction d q rule: dtq_push.induct) auto

lemma set_dtq_push [simp]: "set (dtq_push d q) = insert d (set q)"
  by (simp flip: set_mset_mset)

lemma length_dtq_push [simp]: "length (dtq_push d q) = Suc (length q)"
  by (metis mset_dtq_push size_add_mset size_mset)

lemma dtq_wf_Nil [simp]: "dtq_wf []"
  by (simp add: dtq_wf_def)

lemma dtq_wf_Cons: "dtq_wf (d # q) \<longleftrightarrow> (\<forall>x \<in> set q. task_key d \<le> task_key x) \<and> dtq_wf q"
  by (simp add: dtq_wf_def)

lemma dtq_wf_push [intro]: "dtq_wf q \<Longrightarrow> dtq_wf (dtq_push d q)"
  by (induction d q rule: dtq_push.induct) (auto simp: dtq_wf_Cons task_gt_key)

lemma dtq_top_Cons [simp]: "dtq_top (d # q) = Inr d"
  by (simp add: dtq_top_def)

lemma dtq_pop_Cons [simp]: "dtq_pop (d # q) = Inr q"
  by (simp add: dtq_pop_def)

interpretation dtq: min_queue "[]" dtq_push dtq_top dtq_pop task_key dtq_wf mset
proof unfold_locales
  fix q :: DelayedTaskQueue
  assume "dtq_wf q" "mset q \<noteq> {#}"
  then show "\<exists>x. dtq_top q = Inr x \<and> x \<in># mset q \<and> (\<forall>y \<in># mset q. task_key x \<le> task_key y)"
    by (cases q) (auto simp: dtq_wf_Cons)
next
  fix q :: DelayedTaskQueue and x
  assume "dtq_wf q" "dtq_top q = Inr x"
  then show "\<exists>q'. dtq_pop q = Inr q' \<and> mset q' = mset q - {#x#} \<and> dtq_wf q'"
    by (cases q) (auto simp: dtq_wf_Cons dtq_top_def)
next
  fix q :: DelayedTaskQueue and x
  assume "dtq_top q = Inr x"
  then show "x \<in># mset q" by (cases q) (auto simp: dtq_top_def)
qed auto

lemmas source_defs = TaskSource_new_def ShutDown_def source_RegisterTask_def PopTask_def
  source_GetNumPendingTasks_def source_IsEmpty_def source_Top_def PauseSecondary_def
  ResumeSecondary_def

lemma source_GetNumPendingTasks_size:
  "source_GetNumPendingTasks s = size (source_pending s)"
  by (simp add: source_GetNumPendingTasks_def source_pending_def Let_def)

lemma source_IsEmpty_iff: "source_IsEmpty s \<longleftrightarrow> source_pending s = {#}"
  by (simp add: source_IsEmpty_def source_GetNumPendingTasks_size)

lemma source_wf_new [simp]: "source_wf (TaskSource_new i)"
  by (simp add: source_wf_def TaskSource_new_def)

lemma source_wf_ShutDown: "source_wf s \<Longrightarrow> source_wf (ShutDown s)"
  by (simp add: source_wf_def ShutDown_def)

lemma source_wf_Register: "source_wf s \<Longrightarrow> source_wf (source_RegisterTask d s)"
  by (auto simp: source_wf_def source_RegisterTask_def list_all_iff split: TaskSourceGrade.splits)

lemma source_wf_Pause: "source_wf s \<Longrightarrow> source_wf (PauseSecondary s)"
  by (simp add: source_wf_def PauseSecondary_def)

lemma source_wf_Resume:
  "source_wf s \<Longrightarrow> secondary_pause_requests s > 0 \<Longrightarrow> source_wf (ResumeSecondary s)"
  by (simp add: source_wf_def ResumeSecondary_def)

lemma source_all_Register: "source_all (source_RegisterTask d s) = add_mset d (source_all s)"
  by (simp add: source_all_def source_RegisterTask_def split: TaskSourceGrade.splits)

lemma source_id_simps [simp]:
  "task_queue_id (ShutDown s) = task_queue_id s"
  "task_queue_id (source_RegisterTask d s) = task_queue_id s"
  "task_queue_id (PauseSecondary s) = task_queue_id s"
  "task_queue_id (ResumeSecondary s) = task_queue_id s"
  "task_queue_id (TaskSource_new i) = i"
  by (simp_all add: source_defs split: TaskSourceGrade.splits)

text \<open>\<open>Top\<close> succeeds on every non-empty source and returns a least pending task.\<close>

lemma source_Top_least:
  assumes wf: "source_wf s" and ne: "\<not> source_IsEmpty s"
  shows "\<exists>t. source_Top s = Inr \<lparr>top_queue_id = task_queue_id s, top_task = t\<rparr> \<and>
             t \<in># source_pending s \<and> (\<forall>u \<in># source_pending s. task_key t \<le> task_key u)"
proof -
  let ?p = "primary_task_queue s" and ?d = "secondary_task_queue s"
  have p: "dtq_wf ?p" and d: "dtq_wf ?d" and n: "secondary_pause_requests s \<ge> 0"
    using wf by (auto simp: source_wf_def)
  show ?thesis
    using ne p d n unfolding source_Top_def source_IsEmpty_iff source_pending_def
    by (cases ?p; cases ?d)
       (auto simp: dtq_wf_Cons task_gt_key intro: order_trans dest: leD less_imp_le split: if_splits)
qed

text \<open>Popping the grade of the top task removes exactly that task.\<close>

lemma source_PopTask_top:
  assumes wf: "source_wf s" and top: "source_Top s = Inr \<lparr>top_queue_id = i, top_task = t\<rparr>"
  shows "\<exists>s'. PopTask (task_grade t) s = Inr s' \<and> source_wf s' \<and>
              source_pending s' = source_pending s - {#t#} \<and>
              source_all s' = source_all s - {#t#} \<and> t \<in># source_pending s \<and>
              task_queue_id s' = task_queue_id s"
proof -
  let ?p = "primary_task_queue s" and ?d = "secondary_task_queue s"
  note defs = source_Top_def source_IsEmpty_iff source_pending_def source_all_def source_wf_def
    PopTask_def
  show ?thesis
    using wf top unfolding defs
    by (cases ?p; cases ?d; cases "task_grade t")
       (auto simp: dtq_wf_Cons dtq_top_def check_def split: if_splits)
qed

end
