(* ===== verification/Task_Queues.thy ===== *)
theory Task_Queues
  imports Task_Source "HOL-Library.FSet"
begin

text \<open>
  \<open>fml/message_loop_task_queues\<close>: the singleton that holds every task queue of the process, with
  merging (one queue serves the tasks of others) and observers. Every public operation holds
  \<open>queue_mutex_\<close> for its whole body, so each is one atomic step on the record
  \<open>MessageLoopTaskQueues\<close>. \<open>FML_DCHECK\<close> is compiled out, as in a release build; the conditions
  it would check are preconditions of the step relation \<open>queues_step\<close>. Calls of
  \<open>Wakeable::WakeUp\<close> are recorded in \<open>wake_log\<close>.
\<close>

section \<open>State\<close>

type_synonym wakeable = nat
type_synonym thread = nat

record TaskQueueEntry =
  entry_wakeable :: "wakeable option"
  task_observers :: "(int, closure) omap"
  task_source :: TaskSource
  owner_of :: "TaskQueueId fset"
  subsumed_by :: TaskQueueId
  created_for :: TaskQueueId

record MessageLoopTaskQueues =
  queue_entries :: "TaskQueueId \<rightharpoonup> TaskQueueEntry"
  task_queue_id_counter :: "64 word"
  order_counter :: "32 word"
  tls_task_source_grade :: "thread \<rightharpoonup> TaskSourceGrade"
  wake_log :: "(wakeable \<times> TimePoint) list"

definition TaskQueueEntry_new :: "TaskQueueId \<Rightarrow> TaskQueueEntry" where
  "TaskQueueEntry_new i =
     \<lparr>entry_wakeable = None, task_observers = [], task_source = TaskSource_new i,
      owner_of = {||}, subsumed_by = kUnmerged, created_for = i\<rparr>"

text \<open>The constructor of the singleton sets the grade of the thread that runs it.\<close>

definition MessageLoopTaskQueues_new :: "thread \<Rightarrow> MessageLoopTaskQueues" where
  "MessageLoopTaskQueues_new th =
     \<lparr>queue_entries = Map.empty, task_queue_id_counter = 0, order_counter = 0,
      tls_task_source_grade = [th \<mapsto> kUnspecified], wake_log = []\<rparr>"

abbreviation entry_at :: "MessageLoopTaskQueues \<Rightarrow> TaskQueueId \<Rightarrow> TaskQueueEntry res" where
  "entry_at q i \<equiv> at_key (queue_entries q) i"

definition set_entry ::
  "TaskQueueId \<Rightarrow> TaskQueueEntry \<Rightarrow> MessageLoopTaskQueues \<Rightarrow> MessageLoopTaskQueues" where
  "set_entry i e q = q\<lparr>queue_entries := (queue_entries q)(i \<mapsto> e)\<rparr>"

section \<open>Queries under the lock\<close>

fun any_ofR :: "('a \<Rightarrow> bool res) \<Rightarrow> 'a list \<Rightarrow> bool res" where
  "any_ofR f [] = Inr False"
| "any_ofR f (x # xs) = bindR (f x) (\<lambda>b. if b then Inr True else any_ofR f xs)"

definition HasPendingTasksUnlocked :: "MessageLoopTaskQueues \<Rightarrow> TaskQueueId \<Rightarrow> bool res" where
  "HasPendingTasksUnlocked q i =
     bindR (entry_at q i) (\<lambda>entry.
       if subsumed_by entry \<noteq> kUnmerged then Inr False
       else if \<not> source_IsEmpty (task_source entry) then Inr True
       else any_ofR (\<lambda>s. bindR (entry_at q s) (\<lambda>e. Inr (\<not> source_IsEmpty (task_source e))))
              (sorted_list_of_fset (owner_of entry)))"

definition top_task_updater :: "TaskSource \<Rightarrow> TopTask option \<Rightarrow> TopTask option res" where
  "top_task_updater source best =
     (if source_IsEmpty source then Inr best
      else bindR (source_Top source) (\<lambda>other.
        case best of
          None \<Rightarrow> Inr (Some other)
        | Some b \<Rightarrow> if task_gt (top_task b) (top_task other) then Inr (Some other)
                    else Inr (Some b)))"

definition PeekNextTaskUnlocked :: "MessageLoopTaskQueues \<Rightarrow> TaskQueueId \<Rightarrow> TopTask res" where
  "PeekNextTaskUnlocked q i =
     bindR (entry_at q i) (\<lambda>entry.
       if owner_of entry = {||} then
         bindR (check (\<not> source_IsEmpty (task_source entry))) (\<lambda>_. source_Top (task_source entry))
       else
         bindR (top_task_updater (task_source entry) None) (\<lambda>best.
         bindR (foldR (\<lambda>s b. bindR (entry_at q s) (\<lambda>e. top_task_updater (task_source e) b))
                  (sorted_list_of_fset (owner_of entry)) best) (\<lambda>best.
           case best of None \<Rightarrow> Inl Check_failed | Some t \<Rightarrow> Inr t)))"

definition GetNextWakeTimeUnlocked :: "MessageLoopTaskQueues \<Rightarrow> TaskQueueId \<Rightarrow> TimePoint res" where
  "GetNextWakeTimeUnlocked q i =
     bindR (PeekNextTaskUnlocked q i) (\<lambda>t. Inr (target_time (top_task t)))"

definition WakeUpUnlocked ::
  "TaskQueueId \<Rightarrow> TimePoint \<Rightarrow> MessageLoopTaskQueues \<Rightarrow> MessageLoopTaskQueues res" where
  "WakeUpUnlocked i t q =
     bindR (entry_at q i) (\<lambda>e.
       case entry_wakeable e of
         None \<Rightarrow> Inr q
       | Some w \<Rightarrow> Inr (q\<lparr>wake_log := wake_log q @ [(w, t)]\<rparr>))"

text \<open>\<open>if (HasPendingTasksUnlocked(q)) WakeUpUnlocked(q, GetNextWakeTimeUnlocked(q))\<close>\<close>

definition wake_if_pending ::
  "TaskQueueId \<Rightarrow> MessageLoopTaskQueues \<Rightarrow> MessageLoopTaskQueues res" where
  "wake_if_pending i q =
     bindR (HasPendingTasksUnlocked q i) (\<lambda>b.
       if b then bindR (GetNextWakeTimeUnlocked q i) (\<lambda>t. WakeUpUnlocked i t q) else Inr q)"

section \<open>Public operations\<close>

definition CreateTaskQueue :: "MessageLoopTaskQueues \<Rightarrow> TaskQueueId \<times> MessageLoopTaskQueues" where
  "CreateTaskQueue q =
     (let loop_id = task_queue_id_counter q in
      (loop_id, set_entry loop_id (TaskQueueEntry_new loop_id)
                  (q\<lparr>task_queue_id_counter := task_queue_id_counter q + 1\<rparr>)))"

definition Dispose :: "TaskQueueId \<Rightarrow> MessageLoopTaskQueues \<Rightarrow> MessageLoopTaskQueues res" where
  "Dispose i q =
     bindR (entry_at q i) (\<lambda>entry.
       let es = fold (\<lambda>s m. m(s := None)) (sorted_list_of_fset (owner_of entry)) (queue_entries q)
       in Inr (q\<lparr>queue_entries := es(i := None)\<rparr>))"

definition shut_down_entry ::
  "TaskQueueId \<Rightarrow> MessageLoopTaskQueues \<Rightarrow> MessageLoopTaskQueues res" where
  "shut_down_entry i q =
     bindR (entry_at q i) (\<lambda>e. Inr (set_entry i (e\<lparr>task_source := ShutDown (task_source e)\<rparr>) q))"

definition DisposeTasks :: "TaskQueueId \<Rightarrow> MessageLoopTaskQueues \<Rightarrow> MessageLoopTaskQueues res" where
  "DisposeTasks i q =
     bindR (entry_at q i) (\<lambda>entry.
     bindR (shut_down_entry i q) (\<lambda>q.
       foldR shut_down_entry (sorted_list_of_fset (owner_of entry)) q))"

text \<open>A thread that never ran a task and did not build the singleton holds a null pointer here.\<close>

definition GetCurrentTaskSourceGrade :: "thread \<Rightarrow> MessageLoopTaskQueues \<Rightarrow> TaskSourceGrade res" where
  "GetCurrentTaskSourceGrade th q =
     (case tls_task_source_grade q th of None \<Rightarrow> Inl Undefined | Some g \<Rightarrow> Inr g)"

text \<open>\<open>size_t order = order_++\<close>: the signed 32-bit counter wraps and is sign-extended to 64 bits.\<close>

definition next_order :: "MessageLoopTaskQueues \<Rightarrow> 64 word" where
  "next_order q = scast (order_counter q)"

definition RegisterTask ::
  "TaskQueueId \<Rightarrow> closure \<Rightarrow> TimePoint \<Rightarrow> TaskSourceGrade \<Rightarrow> MessageLoopTaskQueues
     \<Rightarrow> MessageLoopTaskQueues res" where
  "RegisterTask i c t g q =
     (let order = next_order q; q = q\<lparr>order_counter := order_counter q + 1\<rparr> in
      bindR (entry_at q i) (\<lambda>e.
        let q = set_entry i (e\<lparr>task_source := source_RegisterTask (make_task order c t g)
                                               (task_source e)\<rparr>) q;
            loop_to_wake = (if subsumed_by e \<noteq> kUnmerged then subsumed_by e else i)
        in wake_if_pending loop_to_wake q))"

definition HasPendingTasks :: "MessageLoopTaskQueues \<Rightarrow> TaskQueueId \<Rightarrow> bool res" where
  "HasPendingTasks q i = HasPendingTasksUnlocked q i"

definition GetNextTaskToRun ::
  "thread \<Rightarrow> TaskQueueId \<Rightarrow> TimePoint \<Rightarrow> MessageLoopTaskQueues
     \<Rightarrow> (closure option \<times> MessageLoopTaskQueues) res" where
  "GetNextTaskToRun th i from_time q =
     bindR (HasPendingTasksUnlocked q i) (\<lambda>b.
       if \<not> b then Inr (None, q)
       else
         bindR (PeekNextTaskUnlocked q i) (\<lambda>top.
         bindR (HasPendingTasksUnlocked q i) (\<lambda>b.
         bindR (if \<not> b then WakeUpUnlocked i TimePoint_Max q
                else bindR (GetNextWakeTimeUnlocked q i) (\<lambda>t. WakeUpUnlocked i t q)) (\<lambda>q.
           if target_time (top_task top) > from_time then Inr (None, q)
           else
             let invocation = task_closure (top_task top); g = task_grade (top_task top) in
             bindR (entry_at q (top_queue_id top)) (\<lambda>e.
             bindR (PopTask g (task_source e)) (\<lambda>s.
               Inr (Some invocation,
                    (set_entry (top_queue_id top) (e\<lparr>task_source := s\<rparr>) q)
                      \<lparr>tls_task_source_grade := (tls_task_source_grade q)(th \<mapsto> g)\<rparr>)))))))"

definition GetNumPendingTasks :: "MessageLoopTaskQueues \<Rightarrow> TaskQueueId \<Rightarrow> nat res" where
  "GetNumPendingTasks q i =
     bindR (entry_at q i) (\<lambda>entry.
       if subsumed_by entry \<noteq> kUnmerged then Inr 0
       else foldR (\<lambda>s n. bindR (entry_at q s) (\<lambda>e. Inr (n + source_GetNumPendingTasks (task_source e))))
              (sorted_list_of_fset (owner_of entry))
              (source_GetNumPendingTasks (task_source entry)))"

definition AddTaskObserver ::
  "TaskQueueId \<Rightarrow> int \<Rightarrow> closure \<Rightarrow> MessageLoopTaskQueues \<Rightarrow> MessageLoopTaskQueues res" where
  "AddTaskObserver i k c q =
     bindR (entry_at q i) (\<lambda>e.
       Inr (set_entry i (e\<lparr>task_observers := om_update k c (task_observers e)\<rparr>) q))"

definition RemoveTaskObserver ::
  "TaskQueueId \<Rightarrow> int \<Rightarrow> MessageLoopTaskQueues \<Rightarrow> MessageLoopTaskQueues res" where
  "RemoveTaskObserver i k q =
     bindR (entry_at q i) (\<lambda>e.
       Inr (set_entry i (e\<lparr>task_observers := om_delete k (task_observers e)\<rparr>) q))"

definition GetObserversToNotify :: "MessageLoopTaskQueues \<Rightarrow> TaskQueueId \<Rightarrow> closure list res" where
  "GetObserversToNotify q i =
     bindR (entry_at q i) (\<lambda>entry.
       if subsumed_by entry \<noteq> kUnmerged then Inr []
       else foldR (\<lambda>s obs. bindR (entry_at q s) (\<lambda>e. Inr (obs @ map snd (task_observers e))))
              (sorted_list_of_fset (owner_of entry)) (map snd (task_observers entry)))"

definition SetWakeable ::
  "TaskQueueId \<Rightarrow> wakeable \<Rightarrow> MessageLoopTaskQueues \<Rightarrow> MessageLoopTaskQueues res" where
  "SetWakeable i w q =
     bindR (entry_at q i) (\<lambda>e.
     bindR (check (entry_wakeable e = None)) (\<lambda>_.
       Inr (set_entry i (e\<lparr>entry_wakeable := Some w\<rparr>) q)))"

definition Merge ::
  "TaskQueueId \<Rightarrow> TaskQueueId \<Rightarrow> MessageLoopTaskQueues \<Rightarrow> (bool \<times> MessageLoopTaskQueues) res" where
  "Merge owner subsumed q =
     (if owner = subsumed then Inr (True, q)
      else
        bindR (entry_at q owner) (\<lambda>owner_entry.
        bindR (entry_at q subsumed) (\<lambda>subsumed_entry.
          if subsumed |\<in>| owner_of owner_entry then Inr (True, q)
          else if subsumed_by owner_entry \<noteq> kUnmerged then Inr (False, q)
          else if owner_of subsumed_entry \<noteq> {||} then Inr (False, q)
          else if subsumed_by subsumed_entry \<noteq> kUnmerged then Inr (False, q)
          else
            let q = set_entry owner (owner_entry\<lparr>owner_of := finsert subsumed (owner_of owner_entry)\<rparr>) q;
                q = set_entry subsumed (subsumed_entry\<lparr>subsumed_by := owner\<rparr>) q
            in bindR (wake_if_pending owner q) (\<lambda>q. Inr (True, q)))))"

definition Unmerge ::
  "TaskQueueId \<Rightarrow> TaskQueueId \<Rightarrow> MessageLoopTaskQueues \<Rightarrow> (bool \<times> MessageLoopTaskQueues) res" where
  "Unmerge owner subsumed q =
     bindR (entry_at q owner) (\<lambda>owner_entry.
       if owner_of owner_entry = {||} then Inr (False, q)
       else if subsumed_by owner_entry \<noteq> kUnmerged then Inr (False, q)
       else
         bindR (entry_at q subsumed) (\<lambda>subsumed_entry.
           if subsumed_by subsumed_entry = kUnmerged then Inr (False, q)
           else if subsumed |\<notin>| owner_of owner_entry then Inr (False, q)
           else
             let q = set_entry subsumed (subsumed_entry\<lparr>subsumed_by := kUnmerged\<rparr>) q in
             bindR (entry_at q owner) (\<lambda>owner_entry.
             let q = set_entry owner (owner_entry\<lparr>owner_of := owner_of owner_entry |-| {|subsumed|}\<rparr>) q in
             bindR (wake_if_pending owner q) (\<lambda>q.
             bindR (wake_if_pending subsumed q) (\<lambda>q. Inr (True, q))))))"

definition Owns :: "MessageLoopTaskQueues \<Rightarrow> TaskQueueId \<Rightarrow> TaskQueueId \<Rightarrow> bool res" where
  "Owns q owner subsumed =
     (if owner = kUnmerged \<or> subsumed = kUnmerged then Inr False
      else bindR (entry_at q owner) (\<lambda>e. Inr (subsumed |\<in>| owner_of e)))"

definition GetSubsumedTaskQueueId :: "MessageLoopTaskQueues \<Rightarrow> TaskQueueId \<Rightarrow> TaskQueueId fset res" where
  "GetSubsumedTaskQueueId q owner = bindR (entry_at q owner) (\<lambda>e. Inr (owner_of e))"

definition PauseSecondarySource ::
  "TaskQueueId \<Rightarrow> MessageLoopTaskQueues \<Rightarrow> MessageLoopTaskQueues res" where
  "PauseSecondarySource i q =
     bindR (entry_at q i) (\<lambda>e.
       Inr (set_entry i (e\<lparr>task_source := PauseSecondary (task_source e)\<rparr>) q))"

definition ResumeSecondarySource ::
  "TaskQueueId \<Rightarrow> MessageLoopTaskQueues \<Rightarrow> MessageLoopTaskQueues res" where
  "ResumeSecondarySource i q =
     bindR (entry_at q i) (\<lambda>e.
       wake_if_pending i (set_entry i (e\<lparr>task_source := ResumeSecondary (task_source e)\<rparr>) q))"

end
