(* ===== verification/Task_Queues_Correct.thy ===== *)
theory Task_Queues_Correct
  imports Task_Queues
begin

text \<open>
  What \<open>MessageLoopTaskQueues\<close> guarantees: the ownership invariant of merged queues, which every
  operation keeps; the scheduling contract of \<open>GetNextTaskToRun\<close> against the bag of visible
  tasks; the effect of merging, unmerging, pausing and disposing on that bag.
\<close>

section \<open>Invariant\<close>

text \<open>
  The three states of the header comment: an owner is not subsumed, a subsumed queue owns nothing
  and is recorded by its owner, and every recorded queue points back.
\<close>

definition entries_wf :: "(TaskQueueId \<rightharpoonup> TaskQueueEntry) \<Rightarrow> bool" where
  "entries_wf m \<longleftrightarrow>
     (\<forall>i e. m i = Some e \<longrightarrow>
        i \<noteq> kUnmerged \<and> source_wf (task_source e) \<and> task_queue_id (task_source e) = i \<and>
        created_for e = i \<and> om_wf (task_observers e) \<and>
        (subsumed_by e \<noteq> kUnmerged \<longrightarrow>
           owner_of e = {||} \<and> (\<exists>oe. m (subsumed_by e) = Some oe \<and> i |\<in>| owner_of oe)) \<and>
        (\<forall>s. s |\<in>| owner_of e \<longrightarrow> (\<exists>se. m s = Some se \<and> subsumed_by se = i)))"

definition queues_wf :: "MessageLoopTaskQueues \<Rightarrow> bool" where
  "queues_wf q \<longleftrightarrow>
     entries_wf (queue_entries q) \<and> (\<forall>i \<in> dom (queue_entries q). i < task_queue_id_counter q)"

text \<open>The bag of tasks that a loop on queue \<open>i\<close> can see.\<close>

definition pending_at :: "(TaskQueueId \<rightharpoonup> TaskQueueEntry) \<Rightarrow> TaskQueueId \<Rightarrow> DelayedTask multiset" where
  "pending_at m i = (case m i of None \<Rightarrow> {#} | Some e \<Rightarrow> source_pending (task_source e))"

definition visible :: "MessageLoopTaskQueues \<Rightarrow> TaskQueueId \<Rightarrow> DelayedTask multiset" where
  "visible q i =
     (case queue_entries q i of
        None \<Rightarrow> {#}
      | Some e \<Rightarrow>
          if subsumed_by e \<noteq> kUnmerged then {#}
          else source_pending (task_source e) + (\<Sum>s \<in> fset (owner_of e). pending_at (queue_entries q) s))"

text \<open>The queues that the loop on queue \<open>i\<close> serves: itself and the queues it owns.\<close>

definition members :: "MessageLoopTaskQueues \<Rightarrow> TaskQueueId \<Rightarrow> TaskQueueId set" where
  "members q i =
     (case queue_entries q i of
        None \<Rightarrow> {}
      | Some e \<Rightarrow> if subsumed_by e \<noteq> kUnmerged then {} else insert i (fset (owner_of e)))"

section \<open>Consequences of the invariant\<close>

lemma entries_wfD:
  assumes "entries_wf m" and "m i = Some e"
  shows "i \<noteq> kUnmerged" and "source_wf (task_source e)" and "task_queue_id (task_source e) = i"
    and "created_for e = i" and "om_wf (task_observers e)"
  using assms by (auto simp: entries_wf_def)

lemma entries_wf_subsumed:
  "entries_wf m \<Longrightarrow> m i = Some e \<Longrightarrow> subsumed_by e \<noteq> kUnmerged \<Longrightarrow>
     owner_of e = {||} \<and> (\<exists>oe. m (subsumed_by e) = Some oe \<and> i |\<in>| owner_of oe)"
  by (auto simp: entries_wf_def)

lemma entries_wf_owned:
  "entries_wf m \<Longrightarrow> m i = Some e \<Longrightarrow> s |\<in>| owner_of e \<Longrightarrow> \<exists>se. m s = Some se \<and> subsumed_by se = i"
  by (auto simp: entries_wf_def)

lemma entries_wf_owner_unmerged:
  assumes "entries_wf m" and "m i = Some e" and "owner_of e \<noteq> {||}"
  shows "subsumed_by e = kUnmerged"
  using entries_wf_subsumed [OF assms(1,2)] assms(3) by auto

lemma entries_wf_irrefl:
  assumes "entries_wf m" and "m i = Some e"
  shows "i |\<notin>| owner_of e"
proof
  assume "i |\<in>| owner_of e"
  with assms obtain se where "m i = Some se" "subsumed_by se = i"
    using entries_wf_owned by blast
  with assms have "subsumed_by e = i" by simp
  with assms \<open>i |\<in>| owner_of e\<close> show False
    using entries_wf_subsumed [of m i e] entries_wfD(1) [of m i e] by auto
qed

lemma queues_wf_entries [simp]: "queues_wf q \<Longrightarrow> entries_wf (queue_entries q)"
  by (simp add: queues_wf_def)

lemma queue_entries_set_entry [simp]:
  "queue_entries (set_entry i e q) = (queue_entries q)(i \<mapsto> e)"
  by (simp add: set_entry_def)

lemma set_entry_simps [simp]:
  "task_queue_id_counter (set_entry i e q) = task_queue_id_counter q"
  "order_counter (set_entry i e q) = order_counter q"
  "tls_task_source_grade (set_entry i e q) = tls_task_source_grade q"
  "wake_log (set_entry i e q) = wake_log q"
  by (simp_all add: set_entry_def)

text \<open>Fields outside the entries and the counter of identifiers do not matter.\<close>

lemma queues_wf_irrelevant [simp]:
  "queues_wf (q\<lparr>order_counter := n\<rparr>) = queues_wf q"
  "queues_wf (q\<lparr>tls_task_source_grade := g\<rparr>) = queues_wf q"
  "queues_wf (q\<lparr>wake_log := l\<rparr>) = queues_wf q"
  by (simp_all add: queues_wf_def)

lemma visible_irrelevant [simp]:
  "visible (q\<lparr>order_counter := n\<rparr>) i = visible q i"
  "visible (q\<lparr>tls_task_source_grade := g\<rparr>) i = visible q i"
  "visible (q\<lparr>wake_log := l\<rparr>) i = visible q i"
  by (simp_all add: visible_def split: option.split)

text \<open>Replacing the source, the observers or the wakeable of an entry keeps the invariant.\<close>

lemma entries_wf_update:
  assumes "entries_wf m" and "m i = Some e"
    and "subsumed_by e' = subsumed_by e" and "owner_of e' = owner_of e"
    and "created_for e' = created_for e"
    and "source_wf (task_source e')" and "task_queue_id (task_source e') = i"
    and "om_wf (task_observers e')"
  shows "entries_wf (m(i \<mapsto> e'))"
proof -
  have keep: "(\<exists>x. (m(i \<mapsto> e')) k = Some x \<and> s |\<in>| owner_of x) \<longleftrightarrow> (\<exists>x. m k = Some x \<and> s |\<in>| owner_of x)"
    "(\<exists>x. (m(i \<mapsto> e')) k = Some x \<and> subsumed_by x = j) \<longleftrightarrow> (\<exists>x. m k = Some x \<and> subsumed_by x = j)"
    for k s j using assms(2,3,4) by auto
  show ?thesis
    unfolding entries_wf_def keep using assms(3-8) entries_wfD [OF assms(1)]
      entries_wf_subsumed [OF assms(1)] entries_wf_owned [OF assms(1)] assms(2)
    by (auto split: if_splits)
qed

lemma queues_wf_set_entry:
  assumes "queues_wf q" and "queue_entries q i = Some e" and "entries_wf ((queue_entries q)(i \<mapsto> e'))"
  shows "queues_wf (set_entry i e' q)"
  using assms by (auto simp: queues_wf_def)

lemma queues_wf_set_source:
  assumes "queues_wf q" and "queue_entries q i = Some e"
    and "source_wf s" and "task_queue_id s = i"
  shows "queues_wf (set_entry i (e\<lparr>task_source := s\<rparr>) q)"
  by (rule queues_wf_set_entry [OF assms(1,2)], rule entries_wf_update [OF queues_wf_entries [OF assms(1)] assms(2)])
     (use assms entries_wfD(4,5) [OF queues_wf_entries [OF assms(1)] assms(2)] in auto)

section \<open>Queries\<close>

lemma any_ofR_pure:
  "(\<And>x. x \<in> set xs \<Longrightarrow> f x = Inr (p x)) \<Longrightarrow> any_ofR f xs = Inr (\<exists>x \<in> set xs. p x)"
  by (induction xs) auto

lemma owned_source:
  assumes "queues_wf q" and "queue_entries q i = Some e" and "s |\<in>| owner_of e"
  obtains se where "queue_entries q s = Some se" "source_wf (task_source se)"
    "task_queue_id (task_source se) = s" "subsumed_by se = i"
  using entries_wf_owned [OF queues_wf_entries [OF assms(1)] assms(2,3)]
    entries_wfD(2,3) [OF queues_wf_entries [OF assms(1)], of s] by auto

lemma fset_sorted_list [simp]: "set (sorted_list_of_fset S) = fset S"
  by (simp add: sorted_list_of_fset.rep_eq)

lemma sorted_list_of_fset_empty [simp]: "sorted_list_of_fset {||} = []"
  by (simp add: sorted_list_of_fset.rep_eq)

lemma HasPendingTasksUnlocked_visible:
  assumes "queues_wf q" and "queue_entries q i = Some e"
  shows "HasPendingTasksUnlocked q i = Inr (visible q i \<noteq> {#})"
proof -
  let ?f = "\<lambda>s. bindR (entry_at q s) (\<lambda>e. Inr (source_pending (task_source e) \<noteq> {#}))"
  have f: "?f s = Inr (pending_at (queue_entries q) s \<noteq> {#})" if "s \<in> fset (owner_of e)" for s
    using that owned_source [OF assms] by (force simp: pending_at_def)
  have "any_ofR ?f (sorted_list_of_fset (owner_of e)) =
      Inr (\<exists>s \<in> fset (owner_of e). pending_at (queue_entries q) s \<noteq> {#})"
    using any_ofR_pure [of "sorted_list_of_fset (owner_of e)" ?f] f by simp
  then show ?thesis
    unfolding HasPendingTasksUnlocked_def visible_def using assms(2)
    by (simp add: source_IsEmpty_iff sum_eq_empty_iff)
qed

text \<open>A best candidate so far: least in its bag and the top of one of the queues looked at.\<close>

definition best_of ::
  "(TaskQueueId \<rightharpoonup> TaskQueueEntry) \<Rightarrow> TaskQueueId set \<Rightarrow> TopTask option \<Rightarrow> DelayedTask multiset \<Rightarrow> bool" where
  "best_of m S best B =
     (case best of
        None \<Rightarrow> B = {#}
      | Some b \<Rightarrow> top_queue_id b \<in> S \<and> top_task b \<in># B \<and>
          (\<forall>u \<in># B. task_key (top_task b) \<le> task_key u) \<and>
          (\<exists>e. m (top_queue_id b) = Some e \<and> source_Top (task_source e) = Inr b))"

lemma top_task_updater_best:
  assumes "m s = Some e" and "source_wf (task_source e)" and "task_queue_id (task_source e) = s"
    and "best_of m S best B"
  shows "\<exists>best'. top_task_updater (task_source e) best = Inr best' \<and>
           best_of m (insert s S) best' (B + source_pending (task_source e))"
proof (cases "source_IsEmpty (task_source e)")
  case True
  with assms(4) show ?thesis
    by (auto simp: top_task_updater_def source_IsEmpty_iff best_of_def split: option.splits)
next
  case False
  then obtain t where t: "source_Top (task_source e) = Inr \<lparr>top_queue_id = s, top_task = t\<rparr>"
      "t \<in># source_pending (task_source e)"
      "\<forall>u \<in># source_pending (task_source e). task_key t \<le> task_key u"
    using source_Top_least [OF assms(2)] assms(3) by auto
  show ?thesis
  proof (cases best)
    case None
    with t False assms(1,4) show ?thesis by (simp add: top_task_updater_def best_of_def)
  next
    case (Some b)
    with t False assms(1,4) show ?thesis
      by (auto simp: top_task_updater_def best_of_def task_gt_key intro: order_trans less_imp_le
          dest: leI)
  qed
qed

lemma fold_updater_best:
  assumes "\<And>s. s \<in> set xs \<Longrightarrow> \<exists>e. m s = Some e \<and> source_wf (task_source e) \<and>
             task_queue_id (task_source e) = s"
    and "best_of m S best B"
  shows "\<exists>best'. foldR (\<lambda>s b. bindR (at_key m s) (\<lambda>e. top_task_updater (task_source e) b)) xs best
             = Inr best' \<and> best_of m (S \<union> set xs) best' (B + (\<Sum>s\<leftarrow>xs. pending_at m s))"
  using assms
proof (induction xs arbitrary: best B S)
  case Nil
  then show ?case by simp
next
  case (Cons s xs)
  obtain e where e: "m s = Some e" "source_wf (task_source e)" "task_queue_id (task_source e) = s"
    using Cons.prems(1) [of s] by auto
  obtain b where b: "top_task_updater (task_source e) best = Inr b"
      "best_of m (insert s S) b (B + source_pending (task_source e))"
    using top_task_updater_best [OF e Cons.prems(2)] by blast
  from Cons.IH [OF _ b(2)] Cons.prems(1) b(1) e(1) show ?case
    by (auto simp: pending_at_def add.assoc)
qed

lemma sum_list_sorted_list_of_fset:
  "(\<Sum>s\<leftarrow>sorted_list_of_fset S. f s) = (\<Sum>s \<in> fset S. f s :: 'a multiset)"
  by (simp add: sorted_list_of_fset.rep_eq sum_list_distinct_conv_sum_set)

text \<open>
  \<open>PeekNextTaskUnlocked\<close> never fails its \<open>FML_CHECK\<close>s when something is visible, and returns a
  least visible task together with the queue that holds it on top.
\<close>

lemma PeekNextTaskUnlocked_least:
  assumes wf: "queues_wf q" and i: "queue_entries q i = Some e" and ne: "visible q i \<noteq> {#}"
  shows "\<exists>b. PeekNextTaskUnlocked q i = Inr b \<and> best_of (queue_entries q) (members q i) (Some b) (visible q i)"
proof -
  have src: "source_wf (task_source e)" "task_queue_id (task_source e) = i"
    using entries_wfD(2,3) [OF queues_wf_entries [OF wf] i] by auto
  have un: "subsumed_by e = kUnmerged" using ne i by (auto simp: visible_def split: if_splits)
  then have mem: "members q i = insert i (fset (owner_of e))" using i by (simp add: members_def)
  show ?thesis
  proof (cases "owner_of e = {||}")
    case True
    with un i have vis: "visible q i = source_pending (task_source e)" by (simp add: visible_def)
    with ne have "\<not> source_IsEmpty (task_source e)" by (simp add: source_IsEmpty_iff)
    from source_Top_least [OF src(1) this] obtain t where
      "source_Top (task_source e) = Inr \<lparr>top_queue_id = i, top_task = t\<rparr>"
      "t \<in># source_pending (task_source e)"
      "\<forall>u \<in># source_pending (task_source e). task_key t \<le> task_key u"
      using src(2) by auto
    with \<open>\<not> source_IsEmpty (task_source e)\<close> True i show ?thesis
      by (simp add: PeekNextTaskUnlocked_def best_of_def vis mem)
  next
    case False
    have "best_of (queue_entries q) {} None {#}" by (simp add: best_of_def)
    from top_task_updater_best [OF i src this] obtain b0 where
      b0: "top_task_updater (task_source e) None = Inr b0"
        "best_of (queue_entries q) {i} b0 (source_pending (task_source e))" by auto
    have "\<exists>se. queue_entries q s = Some se \<and> source_wf (task_source se) \<and>
        task_queue_id (task_source se) = s" if "s \<in> set (sorted_list_of_fset (owner_of e))" for s
      using owned_source [OF wf i, of s] that by auto
    from fold_updater_best [of "sorted_list_of_fset (owner_of e)", OF this b0(2)] obtain b1 where
      b1: "foldR (\<lambda>s b. bindR (entry_at q s) (\<lambda>e. top_task_updater (task_source e) b))
             (sorted_list_of_fset (owner_of e)) b0 = Inr b1"
          "best_of (queue_entries q) (members q i) b1 (visible q i)"
      using un i mem by (auto simp: visible_def sum_list_sorted_list_of_fset)
    with ne obtain b where "b1 = Some b" by (cases b1) (auto simp: best_of_def)
    with b0 b1 False i show ?thesis by (auto simp: PeekNextTaskUnlocked_def)
  qed
qed

lemma wake_if_pending_ok:
  assumes "queues_wf q" and "queue_entries q i = Some e"
  shows "\<exists>l. wake_if_pending i q = Inr (q\<lparr>wake_log := l\<rparr>)"
proof (cases "visible q i = {#}")
  case True
  then have "wake_if_pending i q = Inr (q\<lparr>wake_log := wake_log q\<rparr>)"
    using HasPendingTasksUnlocked_visible [OF assms] by (simp add: wake_if_pending_def)
  then show ?thesis by blast
next
  case False
  from PeekNextTaskUnlocked_least [OF assms False] obtain b
    where "PeekNextTaskUnlocked q i = Inr b" by blast
  with False show ?thesis
    using HasPendingTasksUnlocked_visible [OF assms] assms(2)
    by (cases "entry_wakeable e")
       (auto simp: wake_if_pending_def GetNextWakeTimeUnlocked_def WakeUpUnlocked_def
         intro: exI [of _ "wake_log q"])
qed

section \<open>Every operation keeps the invariant\<close>

lemma wake_if_pending_wf:
  "queues_wf q \<Longrightarrow> queue_entries q i = Some e \<Longrightarrow> wake_if_pending i q = Inr q' \<Longrightarrow>
     queues_wf q' \<and> queue_entries q' = queue_entries q"
  using wake_if_pending_ok [of q i e] by auto

lemma entries_wf_fresh:
  assumes wf: "entries_wf m" and n: "m n = None" "n \<noteq> kUnmerged"
  shows "entries_wf (m(n \<mapsto> TaskQueueEntry_new n))"
proof -
  have keep: "m k = Some x \<Longrightarrow> (m(n \<mapsto> y)) k = Some x" for k x y using n(1) by auto
  have "owner_of f = {||} \<and> (\<exists>x. (m(n \<mapsto> y)) (subsumed_by f) = Some x \<and> k |\<in>| owner_of x)"
    if "m k = Some f" "subsumed_by f \<noteq> kUnmerged" for k f y
    using entries_wf_subsumed [OF wf that] keep by blast
  moreover have "\<exists>x. (m(n \<mapsto> y)) t = Some x \<and> subsumed_by x = k"
    if "m k = Some f" "t |\<in>| owner_of f" for k f t y
    using entries_wf_owned [OF wf that] keep by blast
  ultimately show ?thesis
    unfolding entries_wf_def using entries_wfD [OF wf] n(2)
    by (simp add: TaskQueueEntry_new_def)
qed

lemma CreateTaskQueue_wf:
  assumes wf: "queues_wf q" and fresh: "task_queue_id_counter q \<noteq> kUnmerged"
  shows "queues_wf (snd (CreateTaskQueue q))"
proof -
  let ?n = "task_queue_id_counter q"
  have below: "i < ?n" if "queue_entries q i = Some e" for i e
    using wf that by (auto simp: queues_wf_def)
  have le: "?n < ?n + 1" using fresh unfolding kUnmerged_def by (unat_arith, simp)
  have "queue_entries q ?n = None" using below by (metis not_Some_eq order.irrefl)
  then have "entries_wf ((queue_entries q)(?n \<mapsto> TaskQueueEntry_new ?n))"
    using entries_wf_fresh queues_wf_entries [OF wf] fresh by blast
  moreover have "\<forall>i \<in> dom ((queue_entries q)(?n \<mapsto> TaskQueueEntry_new ?n)). i < ?n + 1"
    using below le by (auto intro: order.strict_trans)
  ultimately show ?thesis by (simp add: queues_wf_def CreateTaskQueue_def Let_def)
qed

lemma fold_delete: "fold (\<lambda>s m. m(s := None)) xs m = m |` (- set xs)"
  by (induction xs arbitrary: m) (auto simp: restrict_map_def fun_eq_iff)

lemma Dispose_wf:
  assumes wf: "queues_wf q" and i: "queue_entries q i = Some e" and un: "subsumed_by e = kUnmerged"
  shows "\<exists>q'. Dispose i q = Inr q' \<and> queues_wf q' \<and>
           queue_entries q' = queue_entries q |` (- insert i (fset (owner_of e)))"
proof -
  let ?m = "queue_entries q |` (- insert i (fset (owner_of e)))"
  have m: "(fold (\<lambda>s m. m(s := None)) (sorted_list_of_fset (owner_of e)) (queue_entries q))(i := None) = ?m"
    by (auto simp: fold_delete restrict_map_def fun_eq_iff)
  note es = queues_wf_entries [OF wf]
  have "entries_wf ?m"
    unfolding entries_wf_def
  proof (intro allI impI)
    fix j f assume jf: "?m j = Some f"
    then have j: "queue_entries q j = Some f" and nj: "j \<noteq> i" "j |\<notin>| owner_of e"
      by (auto simp: restrict_map_def split: if_splits)
    have own: "\<exists>se. ?m s = Some se \<and> subsumed_by se = j" if "s |\<in>| owner_of f" for s
    proof -
      from entries_wf_owned [OF es j that] obtain se where
        se: "queue_entries q s = Some se" "subsumed_by se = j" by blast
      have "s \<noteq> i" using se un i entries_wfD(1) [OF es j] by auto
      moreover have "s |\<notin>| owner_of e" using se entries_wf_owned [OF es i, of s] nj by auto
      ultimately show ?thesis using se by (simp add: restrict_map_def)
    qed
    have sub: "owner_of f = {||} \<and> (\<exists>oe. ?m (subsumed_by f) = Some oe \<and> j |\<in>| owner_of oe)"
      if "subsumed_by f \<noteq> kUnmerged"
    proof -
      from entries_wf_subsumed [OF es j that] obtain oe where
        oe: "owner_of f = {||}" "queue_entries q (subsumed_by f) = Some oe" "j |\<in>| owner_of oe" by blast
      have "subsumed_by f \<noteq> i" using oe i nj by auto
      moreover have "subsumed_by f |\<notin>| owner_of e"
      proof
        assume "subsumed_by f |\<in>| owner_of e"
        from entries_wf_owned [OF es i this] oe have "subsumed_by oe = i" by auto
        with entries_wf_owner_unmerged [OF es oe(2)] oe(3) entries_wfD(1) [OF es i] show False by auto
      qed
      ultimately show ?thesis using oe by (simp add: restrict_map_def)
    qed
    show "j \<noteq> kUnmerged \<and> source_wf (task_source f) \<and> task_queue_id (task_source f) = j \<and>
        created_for f = j \<and> om_wf (task_observers f) \<and>
        (subsumed_by f \<noteq> kUnmerged \<longrightarrow>
           owner_of f = {||} \<and> (\<exists>oe. ?m (subsumed_by f) = Some oe \<and> j |\<in>| owner_of oe)) \<and>
        (\<forall>s. s |\<in>| owner_of f \<longrightarrow> (\<exists>se. ?m s = Some se \<and> subsumed_by se = j))"
      using entries_wfD [OF es j] own sub by blast
  qed
  with wf i m show ?thesis
    by (auto simp: Dispose_def Let_def queues_wf_def restrict_map_def split: if_splits)
qed

lemma shut_down_entry_wf:
  assumes "queues_wf q" and "queue_entries q i = Some e"
  shows "shut_down_entry i q = Inr (set_entry i (e\<lparr>task_source := ShutDown (task_source e)\<rparr>) q)"
    and "queues_wf (set_entry i (e\<lparr>task_source := ShutDown (task_source e)\<rparr>) q)"
  using assms entries_wfD(2,3) [OF queues_wf_entries [OF assms(1)] assms(2)]
  by (simp_all add: shut_down_entry_def queues_wf_set_source source_wf_ShutDown)

lemma fold_shut_down:
  assumes "queues_wf q" and "\<And>s. s \<in> set xs \<Longrightarrow> s \<in> dom (queue_entries q)"
  shows "\<exists>q'. foldR shut_down_entry xs q = Inr q' \<and> queues_wf q' \<and>
           dom (queue_entries q') = dom (queue_entries q) \<and>
           (\<forall>s e. queue_entries q s = Some e \<longrightarrow> queue_entries q' s =
              Some (if s \<in> set xs then e\<lparr>task_source := ShutDown (task_source e)\<rparr> else e))"
  using assms
proof (induction xs arbitrary: q)
  case Nil
  then show ?case by simp
next
  case (Cons s xs)
  then obtain e where e: "queue_entries q s = Some e" by fastforce
  let ?q = "set_entry s (e\<lparr>task_source := ShutDown (task_source e)\<rparr>) q"
  have d: "dom (queue_entries ?q) = dom (queue_entries q)" using e by auto
  have dx: "k \<in> dom (queue_entries ?q)" if "k \<in> set xs" for k
    unfolding d using Cons.prems(2) that by simp
  from Cons.IH [OF shut_down_entry_wf(2) [OF Cons.prems(1) e] dx]
  obtain q' where q': "foldR shut_down_entry xs ?q = Inr q'" "queues_wf q'"
      "dom (queue_entries q') = dom (queue_entries ?q)"
      "\<forall>k f. queue_entries ?q k = Some f \<longrightarrow> queue_entries q' k =
         Some (if k \<in> set xs then f\<lparr>task_source := ShutDown (task_source f)\<rparr> else f)"
    by blast
  have "queue_entries q' k = Some (if k \<in> set (s # xs) then f\<lparr>task_source := ShutDown (task_source f)\<rparr> else f)"
    if "queue_entries q k = Some f" for k f
    using q'(4) [rule_format, of k] that e by (cases "k = s") (auto simp: ShutDown_def)
  with q' d show ?case using shut_down_entry_wf(1) [OF Cons.prems(1) e] by simp
qed

lemma DisposeTasks_wf:
  assumes wf: "queues_wf q" and i: "queue_entries q i = Some e"
  shows "\<exists>q'. DisposeTasks i q = Inr q' \<and> queues_wf q' \<and>
           dom (queue_entries q') = dom (queue_entries q) \<and>
           (\<forall>s f. queue_entries q s = Some f \<longrightarrow> queue_entries q' s =
              Some (if s = i \<or> s |\<in>| owner_of e
                    then f\<lparr>task_source := ShutDown (task_source f)\<rparr> else f))"
proof -
  have "\<And>s. s \<in> set (i # sorted_list_of_fset (owner_of e)) \<Longrightarrow> s \<in> dom (queue_entries q)"
    using i owned_source [OF wf i] by (auto elim: owned_source)
  from fold_shut_down [of q "i # sorted_list_of_fset (owner_of e)", OF wf this] show ?thesis
    using i by (simp add: DisposeTasks_def)
qed

lemma register_source_wf:
  assumes "queues_wf q" and "queue_entries q i = Some e"
  shows "queues_wf (set_entry i (e\<lparr>task_source := source_RegisterTask d (task_source e)\<rparr>) q)"
  using assms entries_wfD(2,3) [OF queues_wf_entries [OF assms(1)] assms(2)]
  by (simp add: queues_wf_set_source source_wf_Register)

text \<open>The loop that a registration wakes exists: the queue itself or its owner.\<close>

lemma loop_to_wake_exists:
  assumes "queues_wf q" and "queue_entries q i = Some e"
  shows "\<exists>oe. queue_entries q (if subsumed_by e \<noteq> kUnmerged then subsumed_by e else i) = Some oe"
  using entries_wf_subsumed [OF queues_wf_entries [OF assms(1)] assms(2)] assms(2) by auto

definition registered ::
  "TaskQueueId \<Rightarrow> closure \<Rightarrow> TimePoint \<Rightarrow> TaskSourceGrade \<Rightarrow> TaskQueueEntry \<Rightarrow>
     MessageLoopTaskQueues \<Rightarrow> MessageLoopTaskQueues" where
  "registered i c t g e q =
     set_entry i (e\<lparr>task_source := source_RegisterTask (make_task (next_order q) c t g) (task_source e)\<rparr>)
       (q\<lparr>order_counter := order_counter q + 1\<rparr>)"

lemma RegisterTask_wf:
  assumes wf: "queues_wf q" and i: "queue_entries q i = Some e"
  shows "\<exists>l. RegisterTask i c t g q = Inr ((registered i c t g e q)\<lparr>wake_log := l\<rparr>)"
    and "queues_wf (registered i c t g e q)"
proof -
  let ?q = "registered i c t g e q"
  show wf': "queues_wf ?q"
    unfolding registered_def using register_source_wf [of "q\<lparr>order_counter := order_counter q + 1\<rparr>" i e]
      wf i by simp
  obtain oe where "queue_entries q (if subsumed_by e \<noteq> kUnmerged then subsumed_by e else i) = Some oe"
    using loop_to_wake_exists [OF wf i] by blast
  then obtain oe' where
    oe': "queue_entries ?q (if subsumed_by e \<noteq> kUnmerged then subsumed_by e else i) = Some oe'"
    by (simp add: registered_def) metis
  from wake_if_pending_ok [OF wf' oe'] i show "\<exists>l. RegisterTask i c t g q = Inr (?q\<lparr>wake_log := l\<rparr>)"
    by (simp add: RegisterTask_def Let_def registered_def)
qed

lemma observers_wf:
  assumes "queues_wf q" and "queue_entries q i = Some e"
  shows "queues_wf (set_entry i (e\<lparr>task_observers := om_update k c (task_observers e)\<rparr>) q)"
    and "queues_wf (set_entry i (e\<lparr>task_observers := om_delete k (task_observers e)\<rparr>) q)"
    and "queues_wf (set_entry i (e\<lparr>entry_wakeable := w\<rparr>) q)"
proof -
  note es = queues_wf_entries [OF assms(1)]
  note ed = entries_wfD [OF es assms(2)]
  show "queues_wf (set_entry i (e\<lparr>task_observers := om_update k c (task_observers e)\<rparr>) q)"
    by (rule queues_wf_set_entry [OF assms], rule entries_wf_update [OF es assms(2)])
       (use ed in \<open>simp_all add: om_wf_update\<close>)
  show "queues_wf (set_entry i (e\<lparr>task_observers := om_delete k (task_observers e)\<rparr>) q)"
    by (rule queues_wf_set_entry [OF assms], rule entries_wf_update [OF es assms(2)])
       (use ed in \<open>simp_all add: om_wf_delete\<close>)
  show "queues_wf (set_entry i (e\<lparr>entry_wakeable := w\<rparr>) q)"
    by (rule queues_wf_set_entry [OF assms], rule entries_wf_update [OF es assms(2)])
       (use ed in simp_all)
qed

text \<open>The two writes of a successful merge, and of a successful unmerge.\<close>

definition merged ::
  "TaskQueueId \<Rightarrow> TaskQueueId \<Rightarrow> TaskQueueEntry \<Rightarrow> TaskQueueEntry \<Rightarrow>
     MessageLoopTaskQueues \<Rightarrow> MessageLoopTaskQueues" where
  "merged i j oe se q =
     set_entry j (se\<lparr>subsumed_by := i\<rparr>) (set_entry i (oe\<lparr>owner_of := finsert j (owner_of oe)\<rparr>) q)"

definition unmerged ::
  "TaskQueueId \<Rightarrow> TaskQueueId \<Rightarrow> TaskQueueEntry \<Rightarrow> TaskQueueEntry \<Rightarrow>
     MessageLoopTaskQueues \<Rightarrow> MessageLoopTaskQueues" where
  "unmerged i j oe se q =
     set_entry i (oe\<lparr>owner_of := owner_of oe |-| {|j|}\<rparr>) (set_entry j (se\<lparr>subsumed_by := kUnmerged\<rparr>) q)"

lemma merged_wf:
  assumes wf: "queues_wf q" and i: "queue_entries q i = Some oe" and j: "queue_entries q j = Some se"
    and ne: "i \<noteq> j" and o: "subsumed_by oe = kUnmerged" and s: "subsumed_by se = kUnmerged"
    and so: "owner_of se = {||}"
  shows "queues_wf (merged i j oe se q)"
proof -
  let ?m = "(queue_entries q)(i \<mapsto> oe\<lparr>owner_of := finsert j (owner_of oe)\<rparr>, j \<mapsto> se\<lparr>subsumed_by := i\<rparr>)"
  note es = queues_wf_entries [OF wf]
  have nown: "j |\<notin>| owner_of f" if "queue_entries q k = Some f" for k f
    using entries_wf_owned [OF es that, of j] j s entries_wfD(1) [OF es that] by auto
  have "entries_wf ?m"
    unfolding entries_wf_def
  proof (intro allI impI)
    fix k f assume kf: "?m k = Some f"
    have base: "\<exists>f0. queue_entries q k = Some f0 \<and> task_source f = task_source f0 \<and>
        created_for f = created_for f0 \<and> task_observers f = task_observers f0"
      using kf i j by (auto split: if_splits)
    have own: "\<exists>x. ?m t = Some x \<and> subsumed_by x = k" if "t |\<in>| owner_of f" for t
    proof (cases "t = j")
      case True
      then show ?thesis using kf that nown so by (auto split: if_splits)
    next
      case False
      then have "\<exists>f0. queue_entries q k = Some f0 \<and> t |\<in>| owner_of f0"
        using kf that i j so by (auto split: if_splits)
      then obtain x where x: "queue_entries q t = Some x" "subsumed_by x = k"
        using entries_wf_owned [OF es] by blast
      have "t \<noteq> i" using x i o base entries_wfD(1) [OF es] by auto
      with x False show ?thesis by simp
    qed
    have sub: "owner_of f = {||} \<and> (\<exists>x. ?m (subsumed_by f) = Some x \<and> k |\<in>| owner_of x)"
      if "subsumed_by f \<noteq> kUnmerged"
    proof (cases "k = j")
      case True
      then show ?thesis using kf so ne by (auto split: if_splits)
    next
      case False
      then have k: "queue_entries q k = Some f" using kf o that by (auto split: if_splits)
      from entries_wf_subsumed [OF es k that] obtain x where
        x: "owner_of f = {||}" "queue_entries q (subsumed_by f) = Some x" "k |\<in>| owner_of x" by blast
      have "subsumed_by f \<noteq> j" using x j so by auto
      with x i show ?thesis by (auto simp: ne)
    qed
    show "k \<noteq> kUnmerged \<and> source_wf (task_source f) \<and> task_queue_id (task_source f) = k \<and>
        created_for f = k \<and> om_wf (task_observers f) \<and>
        (subsumed_by f \<noteq> kUnmerged \<longrightarrow>
           owner_of f = {||} \<and> (\<exists>x. ?m (subsumed_by f) = Some x \<and> k |\<in>| owner_of x)) \<and>
        (\<forall>t. t |\<in>| owner_of f \<longrightarrow> (\<exists>x. ?m t = Some x \<and> subsumed_by x = k))"
      using base entries_wfD [OF es] own sub by auto
  qed
  with wf i j show ?thesis by (auto simp: merged_def queues_wf_def)
qed

lemma unmerged_wf:
  assumes wf: "queues_wf q" and i: "queue_entries q i = Some oe" and j: "queue_entries q j = Some se"
    and o: "subsumed_by oe = kUnmerged" and own: "j |\<in>| owner_of oe"
  shows "queues_wf (unmerged i j oe se q)"
proof -
  let ?m = "(queue_entries q)(j \<mapsto> se\<lparr>subsumed_by := kUnmerged\<rparr>, i \<mapsto> oe\<lparr>owner_of := owner_of oe |-| {|j|}\<rparr>)"
  note es = queues_wf_entries [OF wf]
  have ne: "i \<noteq> j" using entries_wf_irrefl [OF es i] own by auto
  have sj: "subsumed_by se = i" using entries_wf_owned [OF es i own] j by auto
  then have so: "owner_of se = {||}"
    using entries_wf_subsumed [OF es j] entries_wfD(1) [OF es i] by auto
  have "entries_wf ?m"
    unfolding entries_wf_def
  proof (intro allI impI)
    fix k f assume kf: "?m k = Some f"
    have base: "\<exists>f0. queue_entries q k = Some f0 \<and> task_source f = task_source f0 \<and>
        created_for f = created_for f0 \<and> task_observers f = task_observers f0"
      using kf i j by (auto split: if_splits)
    have ow: "\<exists>x. ?m t = Some x \<and> subsumed_by x = k" if t: "t |\<in>| owner_of f" for t
    proof -
      obtain f0 where f0: "queue_entries q k = Some f0" "t |\<in>| owner_of f0" "t = j \<Longrightarrow> k \<noteq> i"
        using kf t i j so by (auto split: if_splits)
      obtain x where x: "queue_entries q t = Some x" "subsumed_by x = k"
        using entries_wf_owned [OF es f0(1,2)] by blast
      have "t \<noteq> i" using x i o f0(1) entries_wfD(1) [OF es] by auto
      moreover have "t \<noteq> j" using x j sj f0(3) by auto
      ultimately show ?thesis using x by simp
    qed
    have sub: "owner_of f = {||} \<and> (\<exists>x. ?m (subsumed_by f) = Some x \<and> k |\<in>| owner_of x)"
      if un: "subsumed_by f \<noteq> kUnmerged"
    proof -
      have kn: "k \<noteq> i" "k \<noteq> j" using kf un o by (auto split: if_splits)
      then have k: "queue_entries q k = Some f" using kf by (auto split: if_splits)
      from entries_wf_subsumed [OF es k un] obtain x where
        x: "owner_of f = {||}" "queue_entries q (subsumed_by f) = Some x" "k |\<in>| owner_of x" by blast
      have "subsumed_by f \<noteq> j" using x j so by auto
      with x i kn show ?thesis by auto
    qed
    show "k \<noteq> kUnmerged \<and> source_wf (task_source f) \<and> task_queue_id (task_source f) = k \<and>
        created_for f = k \<and> om_wf (task_observers f) \<and>
        (subsumed_by f \<noteq> kUnmerged \<longrightarrow>
           owner_of f = {||} \<and> (\<exists>x. ?m (subsumed_by f) = Some x \<and> k |\<in>| owner_of x)) \<and>
        (\<forall>t. t |\<in>| owner_of f \<longrightarrow> (\<exists>x. ?m t = Some x \<and> subsumed_by x = k))"
      using base entries_wfD [OF es] ow sub by auto
  qed
  with wf i j show ?thesis by (auto simp: unmerged_def queues_wf_def)
qed

lemma Merge_cases:
  assumes wf: "queues_wf q" and i: "queue_entries q i = Some oe" and j: "queue_entries q j = Some se"
  shows "\<exists>b q'. Merge i j q = Inr (b, q') \<and> queues_wf q' \<and>
     (if i = j \<or> j |\<in>| owner_of oe then b \<and> q' = q
      else if subsumed_by oe \<noteq> kUnmerged \<or> owner_of se \<noteq> {||} \<or> subsumed_by se \<noteq> kUnmerged
      then \<not> b \<and> q' = q
      else b \<and> (\<exists>l. q' = (merged i j oe se q)\<lparr>wake_log := l\<rparr>))"
proof (cases "i = j \<or> j |\<in>| owner_of oe \<or> subsumed_by oe \<noteq> kUnmerged \<or> owner_of se \<noteq> {||} \<or>
    subsumed_by se \<noteq> kUnmerged")
  case True
  with wf i j show ?thesis by (auto simp: Merge_def)
next
  case False
  then have wf': "queues_wf (merged i j oe se q)" using merged_wf [OF wf i j] by simp
  have "queue_entries (merged i j oe se q) i = Some (oe\<lparr>owner_of := finsert j (owner_of oe)\<rparr>)"
    using False by (simp add: merged_def)
  from wake_if_pending_ok [OF wf' this] obtain l where
    "wake_if_pending i (merged i j oe se q) = Inr ((merged i j oe se q)\<lparr>wake_log := l\<rparr>)" by blast
  with False i j wf' show ?thesis by (auto simp: Merge_def Let_def merged_def)
qed

lemma Unmerge_cases:
  assumes wf: "queues_wf q" and i: "queue_entries q i = Some oe" and j: "queue_entries q j = Some se"
  shows "\<exists>b q'. Unmerge i j q = Inr (b, q') \<and> queues_wf q' \<and>
     (if j |\<in>| owner_of oe then b \<and> (\<exists>l. q' = (unmerged i j oe se q)\<lparr>wake_log := l\<rparr>)
      else \<not> b \<and> q' = q)"
proof (cases "j |\<in>| owner_of oe")
  case False
  with wf i j show ?thesis by (auto simp: Unmerge_def)
next
  case True
  note es = queues_wf_entries [OF wf]
  have o: "owner_of oe \<noteq> {||}" "subsumed_by oe = kUnmerged"
    using True entries_wf_owner_unmerged [OF es i] by auto
  have sj: "subsumed_by se = i" "i \<noteq> kUnmerged" "i \<noteq> j"
    using entries_wf_owned [OF es i True] j entries_wfD(1) [OF es i] entries_wf_irrefl [OF es i] True
    by auto
  let ?q = "unmerged i j oe se q"
  have wf': "queues_wf ?q" by (rule unmerged_wf [OF wf i j o(2) True])
  have ei: "queue_entries ?q i = Some (oe\<lparr>owner_of := owner_of oe |-| {|j|}\<rparr>)"
    by (simp add: unmerged_def)
  have ej: "queue_entries ?q j = Some (se\<lparr>subsumed_by := kUnmerged\<rparr>)"
    using sj by (simp add: unmerged_def)
  from wake_if_pending_ok [OF wf' ei] obtain l where
    l: "wake_if_pending i ?q = Inr (?q\<lparr>wake_log := l\<rparr>)" by blast
  have "\<exists>l'. wake_if_pending j (?q\<lparr>wake_log := l\<rparr>) = Inr (?q\<lparr>wake_log := l'\<rparr>)"
    using wake_if_pending_ok [of "?q\<lparr>wake_log := l\<rparr>" j] wf' ej by auto
  with l True i j o sj wf' show ?thesis by (auto simp: Unmerge_def Let_def unmerged_def)
qed

lemma PauseSecondarySource_wf:
  assumes "queues_wf q" and "queue_entries q i = Some e"
  shows "queues_wf (set_entry i (e\<lparr>task_source := PauseSecondary (task_source e)\<rparr>) q)"
  using assms entries_wfD(2,3) [OF queues_wf_entries [OF assms(1)] assms(2)]
  by (simp add: queues_wf_set_source source_wf_Pause)

lemma ResumeSecondarySource_wf:
  assumes "queues_wf q" and "queue_entries q i = Some e"
    and "secondary_pause_requests (task_source e) > 0"
  shows "queues_wf (set_entry i (e\<lparr>task_source := ResumeSecondary (task_source e)\<rparr>) q)" (is "queues_wf ?q")
    and "\<exists>l. ResumeSecondarySource i q =
           Inr ((set_entry i (e\<lparr>task_source := ResumeSecondary (task_source e)\<rparr>) q)\<lparr>wake_log := l\<rparr>)"
proof -
  show wf': "queues_wf ?q"
    using assms entries_wfD(2,3) [OF queues_wf_entries [OF assms(1)] assms(2)]
    by (simp add: queues_wf_set_source source_wf_Resume)
  from wake_if_pending_ok [OF wf', of i] assms(2)
  show "\<exists>l. ResumeSecondarySource i q = Inr (?q\<lparr>wake_log := l\<rparr>)"
    by (simp add: ResumeSecondarySource_def)
qed

section \<open>Which loop serves which queue\<close>

lemma finite_members [simp]: "finite (members q i)"
  by (simp add: members_def split: option.split)

lemma visible_members:
  assumes "queues_wf q"
  shows "visible q i = (\<Sum>s \<in> members q i. pending_at (queue_entries q) s)"
  using entries_wf_irrefl [OF queues_wf_entries [OF assms]]
  by (auto simp: visible_def members_def pending_at_def split: option.splits)

lemma members_unique:
  assumes wf: "queues_wf q" and k: "queue_entries q k = Some e"
  shows "k \<in> members q i \<longleftrightarrow> i = (if subsumed_by e \<noteq> kUnmerged then subsumed_by e else k)"
proof -
  note es = queues_wf_entries [OF wf]
  show ?thesis
  proof (cases "subsumed_by e = kUnmerged")
    case True
    have "k |\<notin>| owner_of f" if "queue_entries q i = Some f" for f
      using entries_wf_owned [OF es that, of k] True k entries_wfD(1) [OF es that] by auto
    then show ?thesis using True k by (auto simp: members_def split: option.splits)
  next
    case False
    then obtain oe where oe: "queue_entries q (subsumed_by e) = Some oe" "k |\<in>| owner_of oe"
      using entries_wf_subsumed [OF es k] by blast
    then have "subsumed_by oe = kUnmerged" using entries_wf_owner_unmerged [OF es] by auto
    moreover have "i = subsumed_by e" if "queue_entries q i = Some f" "k |\<in>| owner_of f" for f
      using entries_wf_owned [OF es that] k by auto
    ultimately show ?thesis using False k oe by (auto simp: members_def split: option.splits if_splits)
  qed
qed

lemma pending_at_set_source:
  "pending_at (m(k \<mapsto> e\<lparr>task_source := s\<rparr>)) i = (if i = k then source_pending s else pending_at m i)"
  by (simp add: pending_at_def)

lemma members_set_source:
  "queue_entries q k = Some e \<Longrightarrow> members (set_entry k (e\<lparr>task_source := s\<rparr>) q) i = members q i"
  by (simp add: members_def split: option.split)

lemma sum_update_one:
  fixes f :: "'a \<Rightarrow> 'b multiset"
  assumes "finite A"
  shows "(\<Sum>s \<in> A. if s = k then x else f s) = (if k \<in> A then sum f (A - {k}) + x else sum f A)"
proof (cases "k \<in> A")
  case True
  have "(\<Sum>s \<in> A - {k}. if s = k then x else f s) = sum f (A - {k})" by (rule sum.cong) auto
  with True assms show ?thesis by (simp add: sum.remove)
next
  case False
  then show ?thesis by (auto intro: sum.cong)
qed

text \<open>Only the loop that serves queue \<open>k\<close> sees a change of its source.\<close>

lemma visible_set_source:
  assumes wf: "queues_wf q" and k: "queue_entries q k = Some e"
    and s: "source_wf s" "task_queue_id s = k"
  shows "visible (set_entry k (e\<lparr>task_source := s\<rparr>) q) i =
     (if k \<in> members q i then (visible q i - source_pending (task_source e)) + source_pending s
      else visible q i)"
proof -
  let ?p = "pending_at (queue_entries q)"
  have "visible (set_entry k (e\<lparr>task_source := s\<rparr>) q) i =
      (if k \<in> members q i then sum ?p (members q i - {k}) + source_pending s else sum ?p (members q i))"
    using visible_members [OF queues_wf_set_source [OF wf k s]] k
    by (simp add: members_set_source pending_at_set_source sum_update_one)
  moreover have "sum ?p (members q i - {k}) = visible q i - source_pending (task_source e)"
    if "k \<in> members q i"
    using sum.remove [OF finite_members that, of ?p] k
    by (simp add: visible_members [OF wf] pending_at_def)
  ultimately show ?thesis by (simp add: visible_members [OF wf])
qed

lemma visible_contains:
  assumes "queues_wf q" and "queue_entries q k = Some e" and "k \<in> members q i"
  shows "source_pending (task_source e) \<subseteq># visible q i"
  using sum.remove [OF finite_members assms(3), of "pending_at (queue_entries q)"] assms
  by (simp add: visible_members pending_at_def)

end
