(* ===== verification/Task_Scheduling.thy ===== *)
theory Task_Scheduling
  imports Task_Queues_Correct
begin

text \<open>
  Executions of \<open>MessageLoopTaskQueues\<close> as sequences of its public operations, and the properties
  of the scheduler: ownership in every reachable state, the contract of \<open>GetNextTaskToRun\<close>,
  first-in-first-out order of equal target times, merging and unmerging, pausing, disposal.
\<close>

section \<open>The contract of GetNextTaskToRun\<close>

lemma WakeUpUnlocked_ok:
  assumes "queue_entries q i = Some e"
  shows "\<exists>l. WakeUpUnlocked i t q = Inr (q\<lparr>wake_log := l\<rparr>)"
proof (cases "entry_wakeable e")
  case None
  with assms have "WakeUpUnlocked i t q = Inr (q\<lparr>wake_log := wake_log q\<rparr>)"
    by (simp add: WakeUpUnlocked_def)
  then show ?thesis by blast
next
  case (Some w)
  with assms show ?thesis by (auto simp: WakeUpUnlocked_def)
qed

definition popped_state ::
  "thread \<Rightarrow> TopTask \<Rightarrow> TaskQueueEntry \<Rightarrow> TaskSource \<Rightarrow> MessageLoopTaskQueues \<Rightarrow> MessageLoopTaskQueues" where
  "popped_state th b ek s q =
     (set_entry (top_queue_id b) (ek\<lparr>task_source := s\<rparr>) q)
       \<lparr>tls_task_source_grade := (tls_task_source_grade q)(th \<mapsto> task_grade (top_task b))\<rparr>"

lemma GetNextTaskToRun_cases:
  assumes wf: "queues_wf q" and i: "queue_entries q i = Some e"
  obtains (empty) "visible q i = {#}" "GetNextTaskToRun th i now q = Inr (None, q)"
  | (not_due) b l where "best_of (queue_entries q) (members q i) (Some b) (visible q i)"
      "target_time (top_task b) > now"
      "GetNextTaskToRun th i now q = Inr (None, q\<lparr>wake_log := l\<rparr>)"
  | (due) b ek s l where "best_of (queue_entries q) (members q i) (Some b) (visible q i)"
      "target_time (top_task b) \<le> now"
      "queue_entries q (top_queue_id b) = Some ek" "source_Top (task_source ek) = Inr b"
      "PopTask (task_grade (top_task b)) (task_source ek) = Inr s"
      "GetNextTaskToRun th i now q =
         Inr (Some (task_closure (top_task b)), popped_state th b ek s (q\<lparr>wake_log := l\<rparr>))"
proof (cases "visible q i = {#}")
  case True
  then show ?thesis
    using HasPendingTasksUnlocked_visible [OF wf i] by (intro empty) (simp_all add: GetNextTaskToRun_def)
next
  case False
  obtain b where b: "PeekNextTaskUnlocked q i = Inr b"
      "best_of (queue_entries q) (members q i) (Some b) (visible q i)"
    using PeekNextTaskUnlocked_least [OF wf i False] by blast
  obtain ek where ek: "queue_entries q (top_queue_id b) = Some ek" "source_Top (task_source ek) = Inr b"
    using b(2) by (auto simp: best_of_def)
  have ekwf: "source_wf (task_source ek)" using entries_wfD(2) [OF queues_wf_entries [OF wf] ek(1)] .
  obtain s where s: "PopTask (task_grade (top_task b)) (task_source ek) = Inr s"
    using source_PopTask_top [OF ekwf, of "top_queue_id b" "top_task b"] ek(2) by auto
  obtain l where l: "WakeUpUnlocked i (target_time (top_task b)) q = Inr (q\<lparr>wake_log := l\<rparr>)"
    using WakeUpUnlocked_ok [OF i] by blast
  note step = False b(1) ek(1) s l HasPendingTasksUnlocked_visible [OF wf i]
  show ?thesis
  proof (cases "target_time (top_task b) > now")
    case True
    with step have "GetNextTaskToRun th i now q = Inr (None, q\<lparr>wake_log := l\<rparr>)"
      by (simp add: GetNextTaskToRun_def GetNextWakeTimeUnlocked_def)
    with b(2) True show ?thesis by (rule not_due)
  next
    case False
    with step have "GetNextTaskToRun th i now q =
        Inr (Some (task_closure (top_task b)), popped_state th b ek s (q\<lparr>wake_log := l\<rparr>))"
      by (simp add: GetNextTaskToRun_def GetNextWakeTimeUnlocked_def popped_state_def)
    with b(2) False ek s show ?thesis by (intro due) auto
  qed
qed

lemma replace_submultiset:
  assumes "P \<subseteq># V" and "t \<in># P"
  shows "V - P + (P - {#t#}) = V - {#t#}"
proof -
  obtain W where V: "V = P + W" using assms(1) by (auto simp: subset_mset.le_iff_add)
  obtain P' where P: "P = add_mset t P'" using assms(2) by (metis mset_add)
  show ?thesis by (simp add: V P)
qed

text \<open>The bag view of a popped task.\<close>

lemma popped_state_wf:
  assumes wf: "queues_wf q" and b: "best_of (queue_entries q) (members q i) (Some b) (visible q i)"
    and ek: "queue_entries q (top_queue_id b) = Some ek" "source_Top (task_source ek) = Inr b"
    and s: "PopTask (task_grade (top_task b)) (task_source ek) = Inr s"
  shows "queues_wf (popped_state th b ek s (q\<lparr>wake_log := l\<rparr>))" (is "queues_wf ?q")
    and "visible (popped_state th b ek s (q\<lparr>wake_log := l\<rparr>)) i = visible q i - {#top_task b#}"
    and "source_all s \<subseteq># source_all (task_source ek)"
proof -
  have mem: "top_queue_id b \<in> members q i" using b by (simp add: best_of_def)
  note ewf = entries_wfD(2,3) [OF queues_wf_entries [OF wf] ek(1)]
  have p: "source_wf s" "source_pending s = source_pending (task_source ek) - {#top_task b#}"
      "top_task b \<in># source_pending (task_source ek)" "task_queue_id s = top_queue_id b"
      "source_all s = source_all (task_source ek) - {#top_task b#}"
    using source_PopTask_top [OF ewf(1), of "top_queue_id b" "top_task b"] ek(2) s ewf(2) by auto
  let ?w = "q\<lparr>wake_log := l\<rparr>"
  have w: "queues_wf ?w" "queue_entries ?w (top_queue_id b) = Some ek" "members ?w i = members q i"
    using wf ek(1) by (simp_all add: members_def)
  from queues_wf_set_source [OF w(1,2) p(1,4)] show "queues_wf ?q" by (simp add: popped_state_def)
  show "visible ?q i = visible q i - {#top_task b#}"
    using visible_set_source [OF w(1,2) p(1,4), of i] w(3) mem
      replace_submultiset [OF visible_contains [OF wf ek(1) mem] p(3)]
    by (simp add: popped_state_def p(2))
  show "source_all s \<subseteq># source_all (task_source ek)" by (simp add: p(5))
qed

section \<open>Executions\<close>

text \<open>
  One step is one public operation that succeeds, under the conditions the code asserts with
  \<open>FML_DCHECK\<close> (a queue that is disposed of is not subsumed, a resume matches a pause) and with an
  identifier left to give out. The number counts registered tasks.
\<close>

inductive queues_step :: "MessageLoopTaskQueues \<Rightarrow> nat \<Rightarrow> MessageLoopTaskQueues \<Rightarrow> bool" where
  create: "task_queue_id_counter q \<noteq> kUnmerged \<Longrightarrow> queues_step q 0 (snd (CreateTaskQueue q))"
| dispose: "queue_entries q i = Some e \<Longrightarrow> subsumed_by e = kUnmerged \<Longrightarrow> Dispose i q = Inr q' \<Longrightarrow>
    queues_step q 0 q'"
| dispose_tasks: "DisposeTasks i q = Inr q' \<Longrightarrow> queues_step q 0 q'"
| register: "RegisterTask i c t g q = Inr q' \<Longrightarrow> queues_step q 1 q'"
| next_task: "GetNextTaskToRun th i now q = Inr (r, q') \<Longrightarrow> queues_step q 0 q'"
| add_observer: "AddTaskObserver i k c q = Inr q' \<Longrightarrow> queues_step q 0 q'"
| remove_observer: "RemoveTaskObserver i k q = Inr q' \<Longrightarrow> queues_step q 0 q'"
| set_wakeable: "SetWakeable i w q = Inr q' \<Longrightarrow> queues_step q 0 q'"
| merge: "Merge i j q = Inr (b, q') \<Longrightarrow> queues_step q 0 q'"
| unmerge: "Unmerge i j q = Inr (b, q') \<Longrightarrow> queues_step q 0 q'"
| pause: "PauseSecondarySource i q = Inr q' \<Longrightarrow> queues_step q 0 q'"
| resume: "queue_entries q i = Some e \<Longrightarrow> secondary_pause_requests (task_source e) > 0 \<Longrightarrow>
    ResumeSecondarySource i q = Inr q' \<Longrightarrow> queues_step q 0 q'"

inductive queues_reach :: "nat \<Rightarrow> MessageLoopTaskQueues \<Rightarrow> bool" where
  start: "queues_reach 0 (MessageLoopTaskQueues_new th)"
| step: "queues_reach n q \<Longrightarrow> queues_step q k q' \<Longrightarrow> queues_reach (n + k) q'"

text \<open>Every task held anywhere, visible or paused.\<close>

definition all_tasks :: "MessageLoopTaskQueues \<Rightarrow> DelayedTask set" where
  "all_tasks q = (\<Union>e \<in> ran (queue_entries q). set_mset (source_all (task_source e)))"

lemma all_tasks_iff:
  "t \<in> all_tasks q \<longleftrightarrow> (\<exists>i e. queue_entries q i = Some e \<and> t \<in># source_all (task_source e))"
  by (auto simp: all_tasks_def ran_def)

lemma all_tasks_mono:
  assumes "\<And>i e'. queue_entries q' i = Some e' \<Longrightarrow>
     \<exists>e. queue_entries q i = Some e \<and> source_all (task_source e') \<subseteq># source_all (task_source e)"
  shows "all_tasks q' \<subseteq> all_tasks q"
  using assms by (fastforce simp: all_tasks_iff dest: mset_subset_eqD)

lemma visible_all_tasks: "queues_wf q \<Longrightarrow> t \<in># visible q i \<Longrightarrow> t \<in> all_tasks q"
  by (auto simp: visible_members set_mset_sum pending_at_def source_pending_def source_all_def
      all_tasks_iff split: option.splits if_splits)

lemma source_all_simps [simp]:
  "source_all (ShutDown s) = {#}"
  "source_all (PauseSecondary s) = source_all s"
  "source_all (ResumeSecondary s) = source_all s"
  "source_all (TaskSource_new i) = {#}"
  by (simp_all add: source_all_def source_defs)

text \<open>
  One step: the invariant is kept; a step that registers nothing adds no task and leaves the
  order counter alone; a registration adds one task with the next order.
\<close>

definition step_effect :: "MessageLoopTaskQueues \<Rightarrow> nat \<Rightarrow> MessageLoopTaskQueues \<Rightarrow> bool" where
  "step_effect q k q' \<longleftrightarrow> queues_wf q' \<and>
     (if k = 0 then order_counter q' = order_counter q \<and> all_tasks q' \<subseteq> all_tasks q
      else order_counter q' = order_counter q + 1 \<and>
           (\<exists>c t g. all_tasks q' = insert (make_task (next_order q) c t g) (all_tasks q)))"

lemma step_effectI:
  assumes "queues_wf q'" and "order_counter q' = order_counter q"
    and "\<And>i e'. queue_entries q' i = Some e' \<Longrightarrow>
     \<exists>e. queue_entries q i = Some e \<and> source_all (task_source e') \<subseteq># source_all (task_source e)"
  shows "step_effect q 0 q'"
  using assms all_tasks_mono [of q' q] by (simp add: step_effect_def)

lemma step_effect_set_entry:
  assumes "queues_wf (set_entry i e' q)" and "queue_entries q i = Some e"
    and "source_all (task_source e') \<subseteq># source_all (task_source e)"
  shows "step_effect q 0 (set_entry i e' q)" and "step_effect q 0 ((set_entry i e' q)\<lparr>wake_log := l\<rparr>)"
  by (rule step_effectI; use assms in \<open>auto split: if_splits\<close>)+

lemma step_effect_refl: "queues_wf q \<Longrightarrow> step_effect q 0 (q\<lparr>wake_log := l\<rparr>)"
  by (auto simp: step_effect_def all_tasks_def)

lemma wake_log_refl: "q\<lparr>wake_log := wake_log q\<rparr> = q" for q :: MessageLoopTaskQueues
  by simp

lemma all_tasks_registered:
  assumes i: "queue_entries q i = Some e"
  shows "all_tasks (registered i c t g e q) = insert (make_task (next_order q) c t g) (all_tasks q)"
proof -
  let ?d = "make_task (next_order q) c t g"
  have "x \<in> all_tasks (registered i c t g e q) \<longleftrightarrow> x = ?d \<or> x \<in> all_tasks q" for x
  proof
    assume "x \<in> all_tasks (registered i c t g e q)"
    then show "x = ?d \<or> x \<in> all_tasks q"
      using i by (auto simp: registered_def all_tasks_iff source_all_Register split: if_splits)
  next
    assume "x = ?d \<or> x \<in> all_tasks q"
    then have "(\<exists>j f. queue_entries q j = Some f \<and> j \<noteq> i \<and> x \<in># source_all (task_source f)) \<or>
        x \<in># source_all (source_RegisterTask ?d (task_source e))"
      using i unfolding all_tasks_iff source_all_Register
      by (metis option.inject union_single_eq_member insert_noteq_member add_mset_add_single union_iff)
    then show "x \<in> all_tasks (registered i c t g e q)"
      by (auto simp: registered_def all_tasks_iff)
  qed
  then show ?thesis by auto
qed

lemma step_effect_register:
  assumes wf: "queues_wf q" and i: "queue_entries q i = Some e"
  shows "step_effect q 1 ((registered i c t g e q)\<lparr>wake_log := l\<rparr>)"
proof -
  show ?thesis
    using RegisterTask_wf(2) [OF wf i] all_tasks_registered [OF i, of c t g]
    by (auto simp: step_effect_def registered_def all_tasks_def)
qed

lemma step_effect_merge:
  assumes "queues_wf (merged i j oe se q)" "queue_entries q i = Some oe" "queue_entries q j = Some se"
  shows "step_effect q 0 ((merged i j oe se q)\<lparr>wake_log := l\<rparr>)"
  by (rule step_effectI) (use assms in \<open>auto simp: merged_def split: if_splits\<close>)

lemma step_effect_unmerge:
  assumes "queues_wf (unmerged i j oe se q)" "queue_entries q i = Some oe" "queue_entries q j = Some se"
  shows "step_effect q 0 ((unmerged i j oe se q)\<lparr>wake_log := l\<rparr>)"
  by (rule step_effectI) (use assms in \<open>auto simp: unmerged_def split: if_splits\<close>)

lemma step_effect_next_task:
  assumes wf: "queues_wf q" and i: "queue_entries q i = Some e"
    and r: "GetNextTaskToRun th i now q = Inr (r, q')"
  shows "step_effect q 0 q'"
  using wf i
proof (cases rule: GetNextTaskToRun_cases [where th = th and now = now])
  case empty
  with r wf step_effect_refl [of q "wake_log q"] show ?thesis by simp
next
  case (not_due b l)
  with r have "q' = q\<lparr>wake_log := l\<rparr>" by simp
  with wf show ?thesis by (simp add: step_effect_refl)
next
  case (due b ek s l)
  note p = popped_state_wf(1) [OF wf due(1,3-5), where th = th and l = l] popped_state_wf(3) [OF wf due(1,3-5)]
  from r due(6) have q': "q' = popped_state th b ek s (q\<lparr>wake_log := l\<rparr>)" by simp
  show ?thesis
    unfolding q' by (rule step_effectI) (use p due(3) in \<open>auto simp: popped_state_def split: if_splits\<close>)
qed

lemma shut_down_order:
  "foldR shut_down_entry xs q = Inr q' \<Longrightarrow> order_counter q' = order_counter q"
  by (induction xs arbitrary: q) (auto simp: shut_down_entry_def bindR_eq_Inr_iff)

lemma DisposeTasks_order:
  "queue_entries q i = Some e \<Longrightarrow> DisposeTasks i q = Inr q' \<Longrightarrow> order_counter q' = order_counter q"
  by (auto simp: DisposeTasks_def shut_down_entry_def bindR_eq_Inr_iff dest!: shut_down_order)

lemma queues_step_effect:
  assumes "queues_step q k q'" and "queues_wf q"
  shows "step_effect q k q'"
  using assms
proof (cases rule: queues_step.cases)
  case create
  have "all_tasks (snd (CreateTaskQueue q)) \<subseteq> all_tasks q"
    by (auto simp: CreateTaskQueue_def Let_def all_tasks_iff TaskQueueEntry_new_def split: if_splits)
       blast
  with create CreateTaskQueue_wf [OF assms(2)] show ?thesis
    by (simp add: step_effect_def CreateTaskQueue_def Let_def)
next
  case (dispose i e)
  with Dispose_wf [OF assms(2), of i e] show ?thesis unfolding dispose(1)
    by (intro step_effectI) (auto simp: Dispose_def Let_def restrict_map_def split: if_splits)
next
  case (dispose_tasks i)
  then obtain e where e: "queue_entries q i = Some e"
    by (auto simp: DisposeTasks_def bindR_eq_Inr_iff)
  with DisposeTasks_wf [OF assms(2) e] dispose_tasks have
    d: "queues_wf q'" "dom (queue_entries q') = dom (queue_entries q)"
      "\<And>s f. queue_entries q s = Some f \<Longrightarrow> queue_entries q' s =
         Some (if s = i \<or> s |\<in>| owner_of e then f\<lparr>task_source := ShutDown (task_source f)\<rparr> else f)"
    by auto
  show ?thesis unfolding dispose_tasks(1)
  proof (rule step_effectI)
    show "order_counter q' = order_counter q" using DisposeTasks_order [OF e] dispose_tasks by simp
    fix s f' assume "queue_entries q' s = Some f'"
    moreover then obtain f where "queue_entries q s = Some f" using d(2) by blast
    ultimately show "\<exists>f. queue_entries q s = Some f \<and> source_all (task_source f') \<subseteq># source_all (task_source f)"
      using d(3) [of s f] by (auto split: if_splits)
  qed (rule d(1))
next
  case (register i c t g)
  then obtain e where e: "queue_entries q i = Some e"
    by (auto simp: RegisterTask_def Let_def bindR_eq_Inr_iff)
  from RegisterTask_wf(1) [OF assms(2) e, of c t g] obtain l
    where "RegisterTask i c t g q = Inr ((registered i c t g e q)\<lparr>wake_log := l\<rparr>)" by blast
  with register step_effect_register [OF assms(2) e, of l c t g] show ?thesis by simp
next
  case (next_task th i now r)
  then obtain e where "queue_entries q i = Some e"
    by (auto simp: GetNextTaskToRun_def HasPendingTasksUnlocked_def bindR_eq_Inr_iff)
  with next_task assms(2) step_effect_next_task show ?thesis by blast
next
  case (add_observer i key c)
  then obtain e where e: "queue_entries q i = Some e"
    "q' = set_entry i (e\<lparr>task_observers := om_update key c (task_observers e)\<rparr>) q"
    by (auto simp: AddTaskObserver_def bindR_eq_Inr_iff)
  with observers_wf(1) [OF assms(2) e(1)] step_effect_set_entry(1) [of i _ q e] add_observer
  show ?thesis by simp
next
  case (remove_observer i key)
  then obtain e where e: "queue_entries q i = Some e"
    "q' = set_entry i (e\<lparr>task_observers := om_delete key (task_observers e)\<rparr>) q"
    by (auto simp: RemoveTaskObserver_def bindR_eq_Inr_iff)
  with observers_wf(2) [OF assms(2) e(1)] step_effect_set_entry(1) [of i _ q e] remove_observer
  show ?thesis by simp
next
  case (set_wakeable i w)
  then obtain e where e: "queue_entries q i = Some e" "q' = set_entry i (e\<lparr>entry_wakeable := Some w\<rparr>) q"
    by (auto simp: SetWakeable_def bindR_eq_Inr_iff)
  with observers_wf(3) [OF assms(2) e(1)] step_effect_set_entry(1) [of i _ q e] set_wakeable
  show ?thesis by simp
next
  case (merge i j b)
  show ?thesis
  proof (cases "i = j")
    case True
    with merge assms(2) step_effect_refl [of q "wake_log q"] show ?thesis by (simp add: Merge_def)
  next
    case False
    with merge obtain oe se where e: "queue_entries q i = Some oe" "queue_entries q j = Some se"
      by (auto simp: Merge_def bindR_eq_Inr_iff)
    from Merge_cases [OF assms(2) e] merge
    consider "q' = q" | l where "q' = (merged i j oe se q)\<lparr>wake_log := l\<rparr>" "queues_wf q'"
      by (auto split: if_splits)
    then show ?thesis
      using merge(1) e step_effect_merge [of i j oe se q] step_effect_refl [OF assms(2), of "wake_log q"]
      by cases auto
  qed
next
  case (unmerge i j b)
  then obtain oe where oe: "queue_entries q i = Some oe"
    by (auto simp: Unmerge_def bindR_eq_Inr_iff)
  show ?thesis
  proof (cases "queue_entries q j")
    case None
    with unmerge oe have "q' = q" by (auto simp: Unmerge_def split: if_splits)
    with unmerge(1) step_effect_refl [OF assms(2), of "wake_log q"] show ?thesis by simp
  next
    case (Some se)
    from Unmerge_cases [OF assms(2) oe Some] unmerge
    consider "q' = q" | l where "q' = (unmerged i j oe se q)\<lparr>wake_log := l\<rparr>" "queues_wf q'"
      by (auto split: if_splits)
    then show ?thesis
      using unmerge(1) oe Some step_effect_unmerge [of i j oe se q]
        step_effect_refl [OF assms(2), of "wake_log q"]
      by cases auto
  qed
next
  case (pause i)
  then obtain e where e: "queue_entries q i = Some e"
    "q' = set_entry i (e\<lparr>task_source := PauseSecondary (task_source e)\<rparr>) q"
    by (auto simp: PauseSecondarySource_def bindR_eq_Inr_iff)
  with PauseSecondarySource_wf [OF assms(2) e(1)] step_effect_set_entry(1) [of i _ q e] pause
  show ?thesis by simp
next
  case (resume i e)
  with ResumeSecondarySource_wf [OF assms(2)] step_effect_set_entry(2) [of i _ q e] show ?thesis
    by fastforce
qed

lemma queues_new_wf: "queues_wf (MessageLoopTaskQueues_new th)"
  by (simp add: queues_wf_def entries_wf_def MessageLoopTaskQueues_new_def)

lemma queues_reach_wf: "queues_reach n q \<Longrightarrow> queues_wf q"
proof (induction rule: queues_reach.induct)
  case (start th)
  show ?case by (rule queues_new_wf)
next
  case (step n q k q')
  then show ?case using queues_step_effect by (auto simp: step_effect_def)
qed

text \<open>
  Orders: while fewer than \<open>2 ^ 32\<close> tasks were registered, every task held has an order below the
  next one to be given out. The sign extension keeps this true past \<open>2 ^ 31\<close>.
\<close>

lemma next_order_grows: "order_counter q \<noteq> -1 \<Longrightarrow> order_counter q' = order_counter q + 1 \<Longrightarrow>
    next_order q < next_order q'"
  using scast_32_64_mono [of "order_counter q"] by (simp add: next_order_def)

lemma word32_not_minus_one: "unat (w :: 32 word) = n \<Longrightarrow> n < 4294967295 \<Longrightarrow> w \<noteq> -1"
  by (auto simp: unsigned_minus_1_eq_mask mask_eq_exp_minus_1)

lemma queues_reach_orders:
  "queues_reach n q \<Longrightarrow> n < 2 ^ 32 \<Longrightarrow>
     unat (order_counter q) = n \<and> (\<forall>t \<in> all_tasks q. task_order t < next_order q)"
proof (induction rule: queues_reach.induct)
  case (start th)
  show ?case by (simp add: MessageLoopTaskQueues_new_def all_tasks_def)
next
  case (step n q k q')
  have eff: "step_effect q k q'" by (rule queues_step_effect [OF step.hyps(2) queues_reach_wf [OF step.hyps(1)]])
  show ?case
  proof (cases "k = 0")
    case True
    with eff step show ?thesis by (auto simp: step_effect_def next_order_def)
  next
    case False
    then have k: "k = 1" using step.hyps(2) by (auto elim: queues_step.cases)
    have n: "unat (order_counter q) = n" "n < 4294967295"
      using step.IH step.prems k by simp_all
    have c: "order_counter q' = order_counter q + 1" using eff False by (simp add: step_effect_def)
    have lt: "next_order q < next_order q'"
      using next_order_grows [OF word32_not_minus_one [OF n] c] .
    have "unat (order_counter q') = n + 1" using c n by (simp add: unat_word_ariths)
    moreover have "task_order t < next_order q'" if "t \<in> all_tasks q'" for t
    proof -
      from that eff False have "t \<in> all_tasks q \<or> task_order t = next_order q"
        by (auto simp: step_effect_def make_task_def)
      then show ?thesis using step.IH step.prems k lt by auto
    qed
    ultimately show ?thesis using k by simp
  qed
qed

section \<open>More on visibility\<close>

lemma visible_num:
  assumes "queues_wf q" and "queue_entries q i = Some e"
  shows "GetNumPendingTasks q i = Inr (size (visible q i))"
proof -
  let ?f = "\<lambda>s n. bindR (entry_at q s) (\<lambda>e. Inr (n + source_GetNumPendingTasks (task_source e)))"
  let ?g = "\<lambda>s n. n + size (pending_at (queue_entries q) s)"
  have f: "?f s n = Inr (?g s n)" if "s \<in> fset (owner_of e)" for s n
    using owned_source [OF assms, of s] that
    by (force simp: pending_at_def source_GetNumPendingTasks_size)
  have "fold ?g xs n = n + size (\<Sum>s\<leftarrow>xs. pending_at (queue_entries q) s)" for xs n
    by (induction xs arbitrary: n) simp_all
  with foldR_pure [of "sorted_list_of_fset (owner_of e)" ?f ?g] f assms(2) show ?thesis
    by (simp add: GetNumPendingTasks_def visible_def sum_list_sorted_list_of_fset
        source_GetNumPendingTasks_size)
qed

lemma pending_at_ownership:
  "pending_at (m(k \<mapsto> e\<lparr>owner_of := S\<rparr>)) i = (if i = k then source_pending (task_source e) else pending_at m i)"
  "pending_at (m(k \<mapsto> e\<lparr>subsumed_by := p\<rparr>)) i = (if i = k then source_pending (task_source e) else pending_at m i)"
  by (simp_all add: pending_at_def)

lemma pending_at_merged:
  "queue_entries q i = Some oe \<Longrightarrow> queue_entries q j = Some se \<Longrightarrow>
     pending_at (queue_entries (merged i j oe se q)) s = pending_at (queue_entries q) s"
  by (simp add: merged_def pending_at_def)

lemma merged_members:
  assumes wf: "queues_wf q" and i: "queue_entries q i = Some oe" and j: "queue_entries q j = Some se"
    and ne: "i \<noteq> j" and o: "subsumed_by oe = kUnmerged" and s: "subsumed_by se = kUnmerged"
    and so: "owner_of se = {||}"
  shows "members (merged i j oe se q) k =
    (if k = i then insert j (members q i) else if k = j then {} else members q k)"
proof -
  have "i \<noteq> kUnmerged" using entries_wfD(1) [OF queues_wf_entries [OF wf] i] .
  with assms show ?thesis by (auto simp: members_def merged_def split: option.split)
qed

lemma visible_independent:
  "queue_entries q j = Some se \<Longrightarrow> subsumed_by se = kUnmerged \<Longrightarrow> owner_of se = {||} \<Longrightarrow>
     visible q j = pending_at (queue_entries q) j"
  by (simp add: visible_def pending_at_def)

section \<open>A concrete execution\<close>

text \<open>Two queues; then one task due at 10 on the first; then the second merged into the first.\<close>

definition example_queues :: MessageLoopTaskQueues where
  "example_queues = snd (CreateTaskQueue (snd (CreateTaskQueue (MessageLoopTaskQueues_new 0))))"

definition example_loaded :: MessageLoopTaskQueues where
  "example_loaded = registered 0 7 10 kUnspecified (TaskQueueEntry_new 0) example_queues"

lemma example_entries [simp]:
  "queue_entries example_queues 0 = Some (TaskQueueEntry_new 0)"
  "queue_entries example_queues 1 = Some (TaskQueueEntry_new 1)"
  by (simp_all add: example_queues_def CreateTaskQueue_def Let_def MessageLoopTaskQueues_new_def)

lemma example_reach: "queues_reach 0 example_queues"
proof -
  let ?q = "snd (CreateTaskQueue (MessageLoopTaskQueues_new 0))"
  have "queues_reach (0 + 0) ?q"
    by (rule queues_reach.step [OF queues_reach.start queues_step.create])
       (simp add: MessageLoopTaskQueues_new_def kUnmerged_def)
  then have "queues_reach (0 + 0 + 0) example_queues"
    unfolding example_queues_def
    by (rule queues_reach.step [OF _ queues_step.create])
       (simp add: CreateTaskQueue_def Let_def MessageLoopTaskQueues_new_def kUnmerged_def)
  then show ?thesis by simp
qed

lemma example_register: "RegisterTask 0 7 10 kUnspecified example_queues = Inr example_loaded"
  using RegisterTask_wf(1) [OF queues_reach_wf [OF example_reach] example_entries(1), of 7 10 kUnspecified]
  by (simp add: example_loaded_def RegisterTask_def Let_def registered_def TaskQueueEntry_new_def
      wake_if_pending_def HasPendingTasksUnlocked_def PeekNextTaskUnlocked_def
      GetNextWakeTimeUnlocked_def WakeUpUnlocked_def source_defs make_task_def)

lemma example_loaded_reach: "queues_reach 1 example_loaded"
  using queues_reach.step [OF example_reach queues_step.register [OF example_register]] by simp

lemma example_loaded_entry:
  "queue_entries example_loaded 0 =
     Some ((TaskQueueEntry_new 0)\<lparr>task_source :=
       source_RegisterTask (make_task 0 7 10 kUnspecified) (TaskSource_new 0)\<rparr>)"
  by (simp add: example_loaded_def registered_def next_order_def TaskQueueEntry_new_def
      example_queues_def CreateTaskQueue_def Let_def MessageLoopTaskQueues_new_def)

lemma example_loaded_visible: "visible example_loaded 0 = {#make_task 0 7 10 kUnspecified#}"
  by (simp add: visible_def example_loaded_entry TaskQueueEntry_new_def source_pending_def
      source_RegisterTask_def TaskSource_new_def make_task_def)

lemma example_merge: "\<exists>q'. Merge 0 1 example_queues = Inr (True, q')"
  using Merge_cases [OF queues_reach_wf [OF example_reach] example_entries]
  by (auto simp: TaskQueueEntry_new_def)

section \<open>Properties\<close>

text \<open>C1:
  in every reachable state, \<open>GetNextTaskToRun\<close> on an existing queue returns normally. It hands out
  nothing exactly when no visible task is due, and then changes no bag; otherwise it hands out the
  closure of a due task that no visible task precedes, removes exactly that task, and records the
  task's grade for the calling thread.\<close>

theorem next_task_is_least_due:
  assumes "queues_reach n q" and "queue_entries q i = Some e"
  shows "\<exists>r q'. GetNextTaskToRun th i now q = Inr (r, q') \<and> queues_wf q' \<and>
    (case r of
       None \<Rightarrow> (\<forall>t \<in># visible q i. now < target_time t) \<and> queue_entries q' = queue_entries q
     | Some c \<Rightarrow> \<exists>t \<in># visible q i. task_closure t = c \<and> target_time t \<le> now \<and>
         (\<forall>u \<in># visible q i. \<not> task_gt t u) \<and> visible q' i = visible q i - {#t#} \<and>
         tls_task_source_grade q' th = Some (task_grade t))"
  using queues_reach_wf [OF assms(1)] assms(2)
proof (cases rule: GetNextTaskToRun_cases [where th = th and now = now])
  case empty
  with queues_reach_wf [OF assms(1)] show ?thesis by simp
next
  case (not_due b l)
  have "now < target_time t" if "t \<in># visible q i" for t
    using not_due(1,2) that by (force simp: best_of_def task_key_def)
  with not_due(3) queues_reach_wf [OF assms(1)] show ?thesis by auto
next
  case (due b ek s l)
  note p = popped_state_wf(1,2) [OF queues_reach_wf [OF assms(1)] due(1,3-5), where th = th and l = l]
  have "top_task b \<in># visible q i" "\<forall>u \<in># visible q i. \<not> task_gt (top_task b) u"
    using due(1) by (auto simp: best_of_def task_gt_key leD)
  with due(2,6) p show ?thesis by (auto simp: popped_state_def)
qed

theorem next_task_is_least_due_witness:
  "\<exists>q'. queues_reach 1 example_loaded \<and>
     GetNextTaskToRun 3 0 20 example_loaded = Inr (Some 7, q') \<and> visible q' 0 = {#}"
proof -
  obtain r q' where r: "GetNextTaskToRun 3 0 20 example_loaded = Inr (r, q')" and
    c: "case r of
       None \<Rightarrow> (\<forall>t \<in># visible example_loaded 0. 20 < target_time t) \<and>
         queue_entries q' = queue_entries example_loaded
     | Some c \<Rightarrow> \<exists>t \<in># visible example_loaded 0. task_closure t = c \<and> target_time t \<le> 20 \<and>
         (\<forall>u \<in># visible example_loaded 0. \<not> task_gt t u) \<and>
         visible q' 0 = visible example_loaded 0 - {#t#} \<and>
         tls_task_source_grade q' 3 = Some (task_grade t)"
    using next_task_is_least_due [OF example_loaded_reach example_loaded_entry, of 3 20] by blast
  then show ?thesis
    using example_loaded_reach by (cases r) (auto simp: example_loaded_visible make_task_def)
qed

text \<open>C2:
  in every reachable state a queue is an owner, subsumed, or independent, and no two of these;
  ownership is recorded on both sides, so the owned queues of \<open>i\<close> are exactly those that name
  \<open>i\<close> as their owner.\<close>

theorem ownership_states:
  assumes "queues_reach n q" and "queue_entries q i = Some e"
  shows "\<not> (owner_of e \<noteq> {||} \<and> subsumed_by e \<noteq> kUnmerged) \<and>
         (s |\<in>| owner_of e \<longleftrightarrow> (\<exists>se. queue_entries q s = Some se \<and> subsumed_by se = i))"
proof
  note es = queues_wf_entries [OF queues_reach_wf [OF assms(1)]]
  show "\<not> (owner_of e \<noteq> {||} \<and> subsumed_by e \<noteq> kUnmerged)"
    using entries_wf_subsumed [OF es assms(2)] by auto
  show "s |\<in>| owner_of e \<longleftrightarrow> (\<exists>se. queue_entries q s = Some se \<and> subsumed_by se = i)"
    using entries_wf_owned [OF es assms(2), of s] entries_wf_subsumed [OF es, of s]
      entries_wfD(1) [OF es assms(2)] assms(2) by fastforce
qed

theorem ownership_states_witness:
  "queues_reach 0 example_queues \<and> queue_entries example_queues 0 = Some (TaskQueueEntry_new 0) \<and>
   (1 |\<in>| owner_of (TaskQueueEntry_new 0) \<longleftrightarrow>
      (\<exists>se. queue_entries example_queues 1 = Some se \<and> subsumed_by se = 0))"
  using ownership_states [OF example_reach example_entries(1), of 1] example_reach by simp

text \<open>C3:
  first in, first out: while fewer than \<open>2 ^ 32 - 1\<close> tasks were registered, a newly registered task
  is ordered behind every task already held whose target time is not later, so by the contract of
  \<open>GetNextTaskToRun\<close> it never overtakes one of them.\<close>

theorem register_is_fifo:
  assumes "queues_reach n q" and "n < 2 ^ 32 - 1" and "RegisterTask i c t g q = Inr q'"
  shows "\<exists>d. task_closure d = c \<and> target_time d = t \<and> task_grade d = g \<and>
             all_tasks q' = insert d (all_tasks q) \<and>
             (\<forall>u \<in> all_tasks q. target_time u \<le> t \<longrightarrow> task_gt d u)"
proof -
  note wf = queues_reach_wf [OF assms(1)]
  obtain e where e: "queue_entries q i = Some e"
    using assms(3) by (auto simp: RegisterTask_def Let_def bindR_eq_Inr_iff)
  let ?d = "make_task (next_order q) c t g"
  obtain l where "q' = (registered i c t g e q)\<lparr>wake_log := l\<rparr>"
    using RegisterTask_wf(1) [OF wf e, of c t g] assms(3) by auto
  then have "all_tasks q' = insert ?d (all_tasks q)"
    using all_tasks_registered [OF e] by (simp add: all_tasks_def)
  moreover have "\<forall>u \<in> all_tasks q. task_order u < next_order q"
    using queues_reach_orders [OF assms(1)] assms(2) by simp
  ultimately show ?thesis
    by (intro exI [of _ ?d]) (auto simp: make_task_def task_gt_def)
qed

theorem register_is_fifo_witness:
  "queues_reach 0 example_queues \<and> (0::nat) < 2 ^ 32 - 1 \<and>
   RegisterTask 0 7 10 kUnspecified example_queues = Inr example_loaded \<and>
   (\<exists>d. task_closure d = 7 \<and> all_tasks example_loaded = insert d (all_tasks example_queues))"
  using register_is_fifo [OF example_reach _ example_register] example_reach example_register by auto

text \<open>C21:
  a successful merge of two independent queues hands the tasks of the subsumed queue to the owner
  and leaves every other loop's tasks alone; the subsumed loop sees nothing.\<close>

theorem merge_moves_tasks:
  assumes "queues_reach n q" and "queue_entries q i = Some oe" and "queue_entries q j = Some se"
    and "i \<noteq> j" and "j |\<notin>| owner_of oe" and "Merge i j q = Inr (True, q')"
  shows "visible q' k =
    (if k = i then visible q i + visible q j else if k = j then {#} else visible q k)"
proof -
  note wf = queues_reach_wf [OF assms(1)]
  from Merge_cases [OF wf assms(2,3)] assms(4-6) obtain l where
    l: "q' = (merged i j oe se q)\<lparr>wake_log := l\<rparr>" and
    un: "subsumed_by oe = kUnmerged" "subsumed_by se = kUnmerged" "owner_of se = {||}"
    by (auto split: if_splits)
  note wf' = merged_wf [OF wf assms(2,3,4) un]
  note mem = merged_members [OF wf assms(2,3,4) un]
  have v: "visible q' k = sum (pending_at (queue_entries q)) (members (merged i j oe se q) k)" for k
    using visible_members [OF wf', of k] l pending_at_merged [OF assms(2,3)] by simp
  have "j \<notin> members q i" using members_unique [OF wf assms(3), of i] un assms(4) by simp
  then have "visible q' i = visible q i + visible q j"
    using v [of i] mem [of i] visible_independent [OF assms(3) un(2,3)] visible_members [OF wf, of i]
    by simp
  moreover have "visible q' j = {#}" using v [of j] mem [of j] assms(4) by simp
  moreover have "visible q' k = visible q k" if "k \<noteq> i" "k \<noteq> j"
    using v [of k] mem [of k] that visible_members [OF wf, of k] by simp
  ultimately show ?thesis by simp
qed

theorem merge_moves_tasks_witness:
  "\<exists>q'. queues_reach 0 example_queues \<and> Merge 0 1 example_queues = Inr (True, q') \<and>
     visible q' 0 = visible example_queues 0 + visible example_queues 1"
proof -
  obtain q' where q': "Merge 0 1 example_queues = Inr (True, q')" using example_merge by blast
  have "1 |\<notin>| owner_of (TaskQueueEntry_new 0)" by (simp add: TaskQueueEntry_new_def)
  from merge_moves_tasks [OF example_reach example_entries _ this q', of 0] q' example_reach
  show ?thesis by auto
qed

text \<open>C22:
  unmerging undoes a merge: after a merge that joined two independent queues, \<open>Unmerge\<close> of the
  same pair succeeds and restores every queue entry.\<close>

theorem unmerge_undoes_merge:
  assumes "queues_reach n q" and "queue_entries q i = Some oe" and "queue_entries q j = Some se"
    and "i \<noteq> j" and "j |\<notin>| owner_of oe" and "Merge i j q = Inr (True, q')"
  shows "\<exists>q''. Unmerge i j q' = Inr (True, q'') \<and> queue_entries q'' = queue_entries q"
proof -
  note wf = queues_reach_wf [OF assms(1)]
  from Merge_cases [OF wf assms(2,3)] assms(4-6) obtain l where
    l: "q' = (merged i j oe se q)\<lparr>wake_log := l\<rparr>" "queues_wf q'" and
    un: "subsumed_by oe = kUnmerged" "subsumed_by se = kUnmerged" "owner_of se = {||}"
    by (auto split: if_splits)
  let ?oe = "oe\<lparr>owner_of := finsert j (owner_of oe)\<rparr>" and ?se = "se\<lparr>subsumed_by := i\<rparr>"
  have e: "queue_entries q' i = Some ?oe" "queue_entries q' j = Some ?se"
    using l assms(4) by (simp_all add: merged_def)
  from Unmerge_cases [OF l(2) e] obtain q'' l'' where
    q'': "Unmerge i j q' = Inr (True, q'')" "q'' = (unmerged i j ?oe ?se q')\<lparr>wake_log := l''\<rparr>"
    by auto
  have "finsert j (owner_of oe) |-| {|j|} = owner_of oe" using assms(5) by auto
  then have "queue_entries q'' = queue_entries q"
    using q''(2) l assms(2-4) un by (auto simp: unmerged_def merged_def fun_eq_iff)
  with q'' show ?thesis by blast
qed

theorem unmerge_undoes_merge_witness:
  "\<exists>q' q''. queues_reach 0 example_queues \<and> Merge 0 1 example_queues = Inr (True, q') \<and>
     Unmerge 0 1 q' = Inr (True, q'') \<and> queue_entries q'' = queue_entries example_queues"
proof -
  obtain q' where q': "Merge 0 1 example_queues = Inr (True, q')" using example_merge by blast
  have "1 |\<notin>| owner_of (TaskQueueEntry_new 0)" by (simp add: TaskQueueEntry_new_def)
  from unmerge_undoes_merge [OF example_reach example_entries _ this q'] q' example_reach
  show ?thesis by auto
qed

text \<open>Every queue is served by exactly one loop, its owner if it is subsumed and itself otherwise, so no
  task can be handed out by two loops and none is orphaned.\<close>

theorem one_loop_serves_a_queue:
  assumes "queues_reach n q" and "queue_entries q k = Some e"
  shows "\<exists>!i. k \<in> members q i"
  using members_unique [OF queues_reach_wf [OF assms(1)] assms(2)] by simp

theorem one_loop_serves_a_queue_witness:
  "queues_reach 0 example_queues \<and> queue_entries example_queues 1 = Some (TaskQueueEntry_new 1) \<and>
   (\<exists>!i. 1 \<in> members example_queues i)"
  using one_loop_serves_a_queue [OF example_reach example_entries(2)] example_reach by simp

text \<open>the pending counters agree with the bag of visible tasks: \<open>GetNumPendingTasks\<close> is its size and
  \<open>HasPendingTasks\<close> tells whether it is empty, on every existing queue, merged or not.\<close>

theorem pending_counters_agree:
  assumes "queues_reach n q" and "queue_entries q i = Some e"
  shows "GetNumPendingTasks q i = Inr (size (visible q i)) \<and>
         HasPendingTasks q i = Inr (visible q i \<noteq> {#})"
  using visible_num HasPendingTasksUnlocked_visible queues_reach_wf [OF assms(1)] assms(2)
  by (simp add: HasPendingTasks_def)

theorem pending_counters_agree_witness:
  "queues_reach 0 example_queues \<and>
   GetNumPendingTasks example_queues 0 = Inr (size (visible example_queues 0))"
  using pending_counters_agree [OF example_reach example_entries(1)] example_reach by simp

end
