(* ===== verification/Message_Loop.thy ===== *)
theory Message_Loop
  imports Task_Scheduling
begin

text \<open>
  \<open>fml/message_loop_impl\<close>: a loop owns one task queue, runs its due tasks and notifies its
  observers. What a closure does when it is called is a parameter \<open>run\<close> (closures come from the
  clients of the loop); so is the platform's \<open>Run\<close>. A flush may go on forever when closures keep
  registering due tasks, so it is a partial function: \<open>None\<close> is a flush that does not return.
\<close>

section \<open>State and operations\<close>

datatype FlushType = kSingle | kAll

record MessageLoopImpl =
  impl_queue_id :: TaskQueueId
  terminated :: bool

record LoopWorld =
  w_loop :: MessageLoopImpl
  w_queues :: MessageLoopTaskQueues

type_synonym effect = "closure \<Rightarrow> LoopWorld \<Rightarrow> LoopWorld"

definition MessageLoopImpl_new ::
  "wakeable \<Rightarrow> MessageLoopTaskQueues \<Rightarrow> LoopWorld res" where
  "MessageLoopImpl_new this q =
     (let (i, q) = CreateTaskQueue q in
      bindR (SetWakeable i this q) (\<lambda>q.
        Inr \<lparr>w_loop = \<lparr>impl_queue_id = i, terminated = False\<rparr>, w_queues = q\<rparr>))"

definition MessageLoopImpl_delete :: "LoopWorld \<Rightarrow> MessageLoopTaskQueues res" where
  "MessageLoopImpl_delete w = Dispose (impl_queue_id (w_loop w)) (w_queues w)"

definition PostTask :: "closure \<Rightarrow> TimePoint \<Rightarrow> LoopWorld \<Rightarrow> LoopWorld res" where
  "PostTask c t w =
     (if terminated (w_loop w) then Inr w
      else bindR (RegisterTask (impl_queue_id (w_loop w)) c t kUnspecified (w_queues w)) (\<lambda>q.
        Inr (w\<lparr>w_queues := q\<rparr>)))"

text \<open>A null callback is logged and ignored.\<close>

definition loop_AddTaskObserver :: "int \<Rightarrow> closure option \<Rightarrow> LoopWorld \<Rightarrow> LoopWorld res" where
  "loop_AddTaskObserver key callback w =
     (case callback of
        None \<Rightarrow> Inr w
      | Some c \<Rightarrow> bindR (AddTaskObserver (impl_queue_id (w_loop w)) key c (w_queues w)) (\<lambda>q.
          Inr (w\<lparr>w_queues := q\<rparr>)))"

definition loop_RemoveTaskObserver :: "int \<Rightarrow> LoopWorld \<Rightarrow> LoopWorld res" where
  "loop_RemoveTaskObserver key w =
     bindR (RemoveTaskObserver (impl_queue_id (w_loop w)) key (w_queues w)) (\<lambda>q.
       Inr (w\<lparr>w_queues := q\<rparr>))"

text \<open>The body of the \<open>do \<dots> while\<close> loop; \<open>trace\<close> collects the closures called, in order.\<close>

partial_function (option) FlushTasks ::
  "effect \<Rightarrow> thread \<Rightarrow> TimePoint \<Rightarrow> FlushType \<Rightarrow> LoopWorld \<Rightarrow> closure list
     \<Rightarrow> (closure list \<times> LoopWorld) res option" where
  "FlushTasks run th now type w trace =
     (case GetNextTaskToRun th (impl_queue_id (w_loop w)) now (w_queues w) of
        Inl err \<Rightarrow> Some (Inl err)
      | Inr (invocation, q) \<Rightarrow>
          (case invocation of
             None \<Rightarrow> Some (Inr (trace, w\<lparr>w_queues := q\<rparr>))
           | Some c \<Rightarrow>
               (let w = run c (w\<lparr>w_queues := q\<rparr>) in
                case GetObserversToNotify (w_queues w) (impl_queue_id (w_loop w)) of
                  Inl err \<Rightarrow> Some (Inl err)
                | Inr observers \<Rightarrow>
                    (let w = fold run observers w; trace = trace @ c # observers in
                     if type = kSingle then Some (Inr (trace, w))
                     else FlushTasks run th now type w trace))))"

definition RunExpiredTasksNow ::
  "effect \<Rightarrow> thread \<Rightarrow> TimePoint \<Rightarrow> LoopWorld \<Rightarrow> (closure list \<times> LoopWorld) res option" where
  "RunExpiredTasksNow run th now w = FlushTasks run th now kAll w []"

definition RunSingleExpiredTaskNow ::
  "effect \<Rightarrow> thread \<Rightarrow> TimePoint \<Rightarrow> LoopWorld \<Rightarrow> (closure list \<times> LoopWorld) res option" where
  "RunSingleExpiredTaskNow run th now w = FlushTasks run th now kSingle w []"

definition set_terminated :: "LoopWorld \<Rightarrow> LoopWorld" where
  "set_terminated w = w\<lparr>w_loop := (w_loop w)\<lparr>terminated := True\<rparr>\<rparr>"

text \<open>\<open>now\<close> is the clock when the loop returned from the platform's \<open>Run\<close>.\<close>

definition DoRun ::
  "(LoopWorld \<Rightarrow> LoopWorld) \<Rightarrow> effect \<Rightarrow> thread \<Rightarrow> TimePoint \<Rightarrow> LoopWorld
     \<Rightarrow> (closure list \<times> LoopWorld) res option" where
  "DoRun platform_Run run th now w =
     (if terminated (w_loop w) then Some (Inr ([], w))
      else
        let w = set_terminated (platform_Run w) in
        case RunExpiredTasksNow run th now w of
          None \<Rightarrow> None
        | Some r \<Rightarrow> Some (bindR r (\<lambda>(trace, w).
            bindR (DisposeTasks (impl_queue_id (w_loop w)) (w_queues w)) (\<lambda>q.
              Inr (trace, w\<lparr>w_queues := q\<rparr>)))))"

definition DoTerminate :: "(LoopWorld \<Rightarrow> LoopWorld) \<Rightarrow> LoopWorld \<Rightarrow> LoopWorld" where
  "DoTerminate platform_Terminate w = platform_Terminate (set_terminated w)"

section \<open>Flushing\<close>

definition due :: "TimePoint \<Rightarrow> DelayedTask multiset \<Rightarrow> DelayedTask multiset" where
  "due now B = filter_mset (\<lambda>t. target_time t \<le> now) B"

abbreviation w_visible :: "LoopWorld \<Rightarrow> DelayedTask multiset" where
  "w_visible w \<equiv> visible (w_queues w) (impl_queue_id (w_loop w))"

text \<open>
  Worlds in which the loop's queue exists in a well-formed store, and closures that keep such
  worlds and register no task that is already due. No code clears \<open>terminated_\<close>.
\<close>

definition world_ok :: "LoopWorld \<Rightarrow> bool" where
  "world_ok w \<longleftrightarrow> queues_wf (w_queues w) \<and> impl_queue_id (w_loop w) \<in> dom (queue_entries (w_queues w))"

definition quiet :: "TimePoint \<Rightarrow> effect \<Rightarrow> bool" where
  "quiet now run \<longleftrightarrow>
     (\<forall>c w. world_ok w \<longrightarrow>
        world_ok (run c w) \<and> due now (w_visible (run c w)) \<subseteq># due now (w_visible w) \<and>
        (terminated (w_loop w) \<longrightarrow> terminated (w_loop (run c w))))"

lemma quietD:
  assumes "quiet now run" and "world_ok w"
  shows "world_ok (run c w)" and "due now (w_visible (run c w)) \<subseteq># due now (w_visible w)"
    and "terminated (w_loop w) \<longrightarrow> terminated (w_loop (run c w))"
  using assms by (auto simp: quiet_def)

lemma quiet_fold:
  "quiet now run \<Longrightarrow> world_ok w \<Longrightarrow>
     world_ok (fold run cs w) \<and> due now (w_visible (fold run cs w)) \<subseteq># due now (w_visible w) \<and>
     (terminated (w_loop w) \<longrightarrow> terminated (w_loop (fold run cs w)))"
proof (induction cs arbitrary: w)
  case Nil
  then show ?case by simp
next
  case (Cons c cs)
  then have "world_ok (run c w)" "due now (w_visible (run c w)) \<subseteq># due now (w_visible w)"
    "terminated (w_loop w) \<longrightarrow> terminated (w_loop (run c w))"
    by (auto simp: quiet_def)
  with Cons.IH [of "run c w"] Cons.prems(1) show ?case by (auto intro: subset_mset.trans)
qed

lemma GetObserversToNotify_ok:
  assumes "queues_wf q" and "queue_entries q i = Some e"
  shows "\<exists>obs. GetObserversToNotify q i = Inr obs"
proof (cases "subsumed_by e = kUnmerged")
  case True
  let ?f = "\<lambda>s obs. bindR (entry_at q s) (\<lambda>e. Inr (obs @ map snd (task_observers e)))"
  let ?g = "\<lambda>s obs. obs @ (case queue_entries q s of None \<Rightarrow> [] | Some e \<Rightarrow> map snd (task_observers e))"
  have "?f s obs = Inr (?g s obs)" if mem: "s \<in> set (sorted_list_of_fset (owner_of e))" for s obs
  proof -
    obtain se where "queue_entries q s = Some se"
      using owned_source [OF assms, of s] mem by auto
    then show ?thesis by simp
  qed
  then have "foldR ?f (sorted_list_of_fset (owner_of e)) (map snd (task_observers e)) =
      Inr (fold ?g (sorted_list_of_fset (owner_of e)) (map snd (task_observers e)))"
    by (rule foldR_pure)
  then have "GetObserversToNotify q i =
      Inr (fold ?g (sorted_list_of_fset (owner_of e)) (map snd (task_observers e)))"
    using assms(2) True unfolding GetObserversToNotify_def by simp
  then show ?thesis by blast
next
  case False
  with assms(2) show ?thesis by (simp add: GetObserversToNotify_def)
qed

lemma GetObserversToNotify_cong:
  assumes same: "\<And>s. map_option (\<lambda>e. (subsumed_by e, owner_of e, task_observers e)) (queue_entries q' s) =
     map_option (\<lambda>e. (subsumed_by e, owner_of e, task_observers e)) (queue_entries q s)"
  shows "GetObserversToNotify q' i = GetObserversToNotify q i"
proof -
  have obs: "bindR (entry_at q' s) (\<lambda>e. Inr (obs @ map snd (task_observers e))) =
      bindR (entry_at q s) (\<lambda>e. Inr (obs @ map snd (task_observers e)))" for s obs
    using same [of s] by (cases "queue_entries q s"; cases "queue_entries q' s") auto
  show ?thesis
    using same [of i] unfolding GetObserversToNotify_def obs
    by (cases "queue_entries q i"; cases "queue_entries q' i") auto
qed

text \<open>One round of a flush: nothing is due, or the least due task is taken out.\<close>

lemma flush_round:
  assumes "world_ok w"
  obtains (idle) q where "due now (w_visible w) = {#}"
      "GetNextTaskToRun th (impl_queue_id (w_loop w)) now (w_queues w) = Inr (None, q)"
      "world_ok (w\<lparr>w_queues := q\<rparr>)" "w_visible (w\<lparr>w_queues := q\<rparr>) = w_visible w"
  | (task) t q where "t \<in># due now (w_visible w)" "\<forall>u \<in># w_visible w. task_key t \<le> task_key u"
      "GetNextTaskToRun th (impl_queue_id (w_loop w)) now (w_queues w) = Inr (Some (task_closure t), q)"
      "world_ok (w\<lparr>w_queues := q\<rparr>)" "w_visible (w\<lparr>w_queues := q\<rparr>) = w_visible w - {#t#}"
      "GetObserversToNotify q (impl_queue_id (w_loop w)) =
         GetObserversToNotify (w_queues w) (impl_queue_id (w_loop w))"
proof -
  let ?i = "impl_queue_id (w_loop w)" and ?q = "w_queues w"
  obtain e where wf: "queues_wf ?q" and e: "queue_entries ?q ?i = Some e"
    using assms by (auto simp: world_ok_def)
  show ?thesis
    using wf e
  proof (cases rule: GetNextTaskToRun_cases [where th = th and now = now])
    case empty
    with assms show ?thesis by (intro idle [of ?q]) (simp_all add: due_def)
  next
    case (not_due b l)
    have "due now (w_visible w) = {#}"
      using not_due(1,2) by (force simp: due_def best_of_def task_key_def filter_mset_eq_mempty_iff)
    with not_due(3) assms show ?thesis by (intro idle [of "?q\<lparr>wake_log := l\<rparr>"]) (simp_all add: world_ok_def)
  next
    case (due b ek s l)
    note p = popped_state_wf(1,2) [OF wf due(1,3-5), where th = th and l = l]
    show ?thesis
    proof (rule task [of "top_task b" "popped_state th b ek s (?q\<lparr>wake_log := l\<rparr>)"])
      show "top_task b \<in># due now (w_visible w)" "\<forall>u \<in># w_visible w. task_key (top_task b) \<le> task_key u"
        using due(1,2) by (auto simp: due_def best_of_def)
      show "world_ok (w\<lparr>w_queues := popped_state th b ek s (?q\<lparr>wake_log := l\<rparr>)\<rparr>)"
        using p(1) assms by (auto simp: world_ok_def popped_state_def)
      show "GetObserversToNotify (popped_state th b ek s (?q\<lparr>wake_log := l\<rparr>)) ?i = GetObserversToNotify ?q ?i"
        by (rule GetObserversToNotify_cong) (use due(3) in \<open>simp add: popped_state_def\<close>)
    qed (use due(6) p(2) in simp_all)
  qed
qed

text \<open>
  A flush of quiet closures returns, and leaves nothing due. The measure is the number of due
  tasks, which every round lowers.
\<close>

lemma FlushTasks_returns:
  assumes "quiet now run" and "world_ok w"
  shows "\<exists>trace' w'. FlushTasks run th now kAll w trace = Some (Inr (trace', w')) \<and> world_ok w' \<and>
           due now (w_visible w') = {#} \<and> (terminated (w_loop w) \<longrightarrow> terminated (w_loop w'))"
  using assms(2)
proof (induction "size (due now (w_visible w))" arbitrary: w trace rule: less_induct)
  case less
  from less.prems show ?case
  proof (cases rule: flush_round [where th = th and now = now])
    case (idle q)
    then show ?thesis by (simp add: FlushTasks.simps [of run th now kAll w])
  next
    case (task t q)
    let ?w = "run (task_closure t) (w\<lparr>w_queues := q\<rparr>)"
    have w: "world_ok ?w" "due now (w_visible ?w) \<subseteq># due now (w_visible w - {#t#})"
        "terminated (w_loop w) \<longrightarrow> terminated (w_loop ?w)"
      using quietD [OF assms(1) task(4), of "task_closure t"] unfolding task(5) by simp_all
    obtain obs where obs: "GetObserversToNotify (w_queues ?w) (impl_queue_id (w_loop ?w)) = Inr obs"
      using GetObserversToNotify_ok w(1) unfolding world_ok_def by blast
    have f: "world_ok (fold run obs ?w)" "due now (w_visible (fold run obs ?w)) \<subseteq># due now (w_visible w - {#t#})"
        "terminated (w_loop w) \<longrightarrow> terminated (w_loop (fold run obs ?w))"
      using quiet_fold [OF assms(1) w(1), of obs] w(2,3) subset_mset.trans by blast+
    have "size (due now (w_visible w - {#t#})) < size (due now (w_visible w))"
      using task(1) by (simp add: due_def size_Diff1_less)
    with f(2) have "size (due now (w_visible (fold run obs ?w))) < size (due now (w_visible w))"
      using size_mset_mono order_le_less_trans by blast
    from less.hyps [OF this f(1), of "trace @ task_closure t # obs"] f(3) show ?thesis
      using task(3) obs by (auto simp: FlushTasks.simps [of run th now kAll w] Let_def)
  qed
qed

text \<open>Closures that leave the world alone are run in the order of their keys.\<close>

definition inert :: effect where
  "inert c w = w"

lemma inert_quiet: "quiet now inert"
  by (simp add: quiet_def inert_def)

lemma fold_inert [simp]: "fold inert cs w = w"
  by (induction cs) (simp_all add: inert_def)

lemma sorted_task_keys_Cons:
  "\<forall>u \<in># V. task_key t \<le> task_key u \<Longrightarrow> mset ts \<subseteq># V \<Longrightarrow> sorted (map task_key ts) \<Longrightarrow>
     sorted (map task_key (t # ts))"
  by (auto dest: mset_subset_eqD)

lemma FlushTasks_in_order:
  assumes "world_ok w" and "GetObserversToNotify (w_queues w) (impl_queue_id (w_loop w)) = Inr []"
  shows "\<exists>ts q'. FlushTasks inert th now kAll w trace =
             Some (Inr (trace @ map task_closure ts, w\<lparr>w_queues := q'\<rparr>)) \<and>
           mset ts = due now (w_visible w) \<and> sorted (map task_key ts) \<and>
           visible q' (impl_queue_id (w_loop w)) = w_visible w - mset ts"
  using assms
proof (induction "size (due now (w_visible w))" arbitrary: w trace rule: less_induct)
  case less
  from less.prems(1) show ?case
  proof (cases rule: flush_round [where th = th and now = now])
    case (idle q)
    have "FlushTasks inert th now kAll w trace = Some (Inr (trace, w\<lparr>w_queues := q\<rparr>))"
      using idle(2) by (simp add: FlushTasks.simps [of inert th now kAll w])
    with idle(1,4) show ?thesis by (intro exI [of _ "[]"] exI [of _ q]) simp
  next
    case (task t q)
    let ?w = "w\<lparr>w_queues := q\<rparr>"
    have d: "due now (w_visible ?w) = due now (w_visible w) - {#t#}"
      using task(1,5) by (simp add: due_def)
    have "size (due now (w_visible ?w)) < size (due now (w_visible w))"
      unfolding d using task(1) by (simp add: size_Diff1_less)
    from less.hyps [OF this task(4), of "trace @ [task_closure t]"] less.prems(2) task(6)
    obtain ts q' where ts: "FlushTasks inert th now kAll ?w (trace @ [task_closure t]) =
        Some (Inr ((trace @ [task_closure t]) @ map task_closure ts, ?w\<lparr>w_queues := q'\<rparr>))"
      "mset ts = due now (w_visible ?w)" "sorted (map task_key ts)"
      "visible q' (impl_queue_id (w_loop w)) = w_visible ?w - mset ts" by auto
    have "FlushTasks inert th now kAll w trace = FlushTasks inert th now kAll ?w (trace @ [task_closure t])"
      using task(3,6) less.prems(2) by (simp add: FlushTasks.simps [of inert th now kAll w] inert_def Let_def)
    moreover have "mset ts \<subseteq># w_visible w"
      unfolding ts(2) task(5) due_def
      using multiset_filter_subset diff_subset_eq_self subset_mset.trans by blast
    then have "sorted (map task_key (t # ts))" by (rule sorted_task_keys_Cons [OF task(2) _ ts(3)])
    moreover have "mset (t # ts) = due now (w_visible w)" using ts(2) d task(1) by simp
    moreover have "visible q' (impl_queue_id (w_loop w)) = w_visible w - mset (t # ts)"
      using ts(4) task(5) by simp
    ultimately show ?thesis using ts(1) by (intro exI [of _ "t # ts"] exI [of _ q']) simp
  qed
qed

lemma DisposeTasks_empties:
  assumes "queues_wf q" and "queue_entries q i = Some e"
  shows "\<exists>q'. DisposeTasks i q = Inr q' \<and> visible q' i = {#}"
proof -
  obtain q' where q': "DisposeTasks i q = Inr q'"
    "\<And>s f. queue_entries q s = Some f \<Longrightarrow> queue_entries q' s =
       Some (if s = i \<or> s |\<in>| owner_of e then f\<lparr>task_source := ShutDown (task_source f)\<rparr> else f)"
    using DisposeTasks_wf [OF assms] by blast
  have sd: "source_pending (ShutDown s) = {#}" for s by (simp add: source_pending_def ShutDown_def)
  have "pending_at (queue_entries q') s = {#}" if "s |\<in>| owner_of e" for s
    using entries_wf_owned [OF queues_wf_entries [OF assms(1)] assms(2) that] q'(2) [of s] that
    by (auto simp: pending_at_def sd)
  then have "visible q' i = {#}" using q'(2) [OF assms(2)] by (simp add: visible_def sd)
  with q'(1) show ?thesis by blast
qed

section \<open>Properties\<close>

text \<open>C4:
  a flush returns whenever the closures it runs register no task that is already due: it does not
  starve, it cannot fail, and afterwards no visible task of the loop is due.\<close>

theorem flush_drains_due_tasks:
  assumes "queues_reach n q" and "queue_entries q i = Some e" and "quiet now run"
  shows "\<exists>trace w'.
    RunExpiredTasksNow run th now \<lparr>w_loop = \<lparr>impl_queue_id = i, terminated = b\<rparr>, w_queues = q\<rparr> =
      Some (Inr (trace, w')) \<and>
    (\<forall>t \<in># w_visible w'. now < target_time t)"
proof -
  have "world_ok \<lparr>w_loop = \<lparr>impl_queue_id = i, terminated = b\<rparr>, w_queues = q\<rparr>"
    using queues_reach_wf [OF assms(1)] assms(2) by (auto simp: world_ok_def)
  from FlushTasks_returns [OF assms(3) this, of th "[]"] show ?thesis
    by (auto simp: RunExpiredTasksNow_def due_def filter_mset_eq_mempty_iff not_le)
qed

theorem flush_drains_due_tasks_witness:
  "\<exists>trace w'. queues_reach 1 example_loaded \<and> quiet 20 inert \<and>
    RunExpiredTasksNow inert 0 20
      \<lparr>w_loop = \<lparr>impl_queue_id = 0, terminated = False\<rparr>, w_queues = example_loaded\<rparr> =
      Some (Inr (trace, w')) \<and> (\<forall>t \<in># w_visible w'. 20 < target_time t)"
  using flush_drains_due_tasks [OF example_loaded_reach example_loaded_entry inert_quiet]
    example_loaded_reach inert_quiet by blast

text \<open>C5:
  with closures that touch no queue and no observers, a flush runs exactly the due tasks, each
  once, in ascending order of target time and registration, and leaves the others.\<close>

theorem flush_runs_in_order:
  assumes "queues_reach n q" and "queue_entries q i = Some e" and "GetObserversToNotify q i = Inr []"
  shows "\<exists>ts w'.
    RunExpiredTasksNow inert th now \<lparr>w_loop = \<lparr>impl_queue_id = i, terminated = b\<rparr>, w_queues = q\<rparr> =
      Some (Inr (map task_closure ts, w')) \<and>
    mset ts = filter_mset (\<lambda>t. target_time t \<le> now) (visible q i) \<and>
    sorted (map task_key ts) \<and> visible (w_queues w') i = visible q i - mset ts"
proof -
  let ?w = "\<lparr>w_loop = \<lparr>impl_queue_id = i, terminated = b\<rparr>, w_queues = q\<rparr>"
  have "world_ok ?w" using queues_reach_wf [OF assms(1)] assms(2) by (auto simp: world_ok_def)
  moreover have "GetObserversToNotify (w_queues ?w) (impl_queue_id (w_loop ?w)) = Inr []"
    using assms(3) by simp
  ultimately show ?thesis
    using FlushTasks_in_order [of ?w th now "[]"] by (fastforce simp: RunExpiredTasksNow_def due_def)
qed

theorem flush_runs_in_order_witness:
  "\<exists>w'. queues_reach 1 example_loaded \<and> GetObserversToNotify example_loaded 0 = Inr [] \<and>
    RunExpiredTasksNow inert 0 20
      \<lparr>w_loop = \<lparr>impl_queue_id = 0, terminated = False\<rparr>, w_queues = example_loaded\<rparr> =
      Some (Inr ([7], w'))"
proof -
  have obs: "GetObserversToNotify example_loaded 0 = Inr []"
    by (simp add: GetObserversToNotify_def example_loaded_entry TaskQueueEntry_new_def)
  obtain ts w' where ts: "RunExpiredTasksNow inert 0 20
      \<lparr>w_loop = \<lparr>impl_queue_id = 0, terminated = False\<rparr>, w_queues = example_loaded\<rparr> =
      Some (Inr (map task_closure ts, w'))"
    "mset ts = filter_mset (\<lambda>t. target_time t \<le> 20) (visible example_loaded 0)"
    using flush_runs_in_order [OF example_loaded_reach example_loaded_entry obs] by blast
  then have "map task_closure ts = [7]"
    by (simp add: example_loaded_visible make_task_def)
  with ts(1) obs example_loaded_reach show ?thesis by auto
qed

text \<open>Shutting down: after the platform loop returns, \<open>DoRun\<close> runs what is due, drops every remaining
  task, and leaves the loop terminated, so later posts are discarded and it cannot be run again.\<close>

theorem do_run_shuts_down:
  assumes "quiet now run" and "world_ok (platform_Run w)" and "\<not> terminated (w_loop w)"
  shows "\<exists>trace w'. DoRun platform_Run run th now w = Some (Inr (trace, w')) \<and>
    terminated (w_loop w') \<and> w_visible w' = {#} \<and> PostTask c t w' = Inr w' \<and>
    DoRun platform_Run run th now w' = Some (Inr ([], w'))"
proof -
  let ?w = "set_terminated (platform_Run w)"
  have ok: "world_ok ?w" using assms(2) by (simp add: world_ok_def set_terminated_def)
  obtain trace w1 where w1: "FlushTasks run th now kAll ?w [] = Some (Inr (trace, w1))" "world_ok w1"
      "terminated (w_loop ?w) \<longrightarrow> terminated (w_loop w1)"
    using FlushTasks_returns [OF assms(1) ok, of th "[]"] by blast
  obtain e where "queues_wf (w_queues w1)" "queue_entries (w_queues w1) (impl_queue_id (w_loop w1)) = Some e"
    using w1(2) by (auto simp: world_ok_def)
  then obtain q' where q': "DisposeTasks (impl_queue_id (w_loop w1)) (w_queues w1) = Inr q'"
      "visible q' (impl_queue_id (w_loop w1)) = {#}"
    using DisposeTasks_empties by blast
  have "DoRun platform_Run run th now w = Some (Inr (trace, w1\<lparr>w_queues := q'\<rparr>))"
    using assms(3) w1(1) q'(1) by (simp add: DoRun_def Let_def RunExpiredTasksNow_def)
  moreover have "terminated (w_loop w1)" using w1(3) by (simp add: set_terminated_def)
  ultimately show ?thesis using q'(2) by (simp add: PostTask_def DoRun_def)
qed

theorem do_run_shuts_down_witness:
  "\<exists>trace w'.
    DoRun (\<lambda>w. w) inert 0 20
      \<lparr>w_loop = \<lparr>impl_queue_id = 0, terminated = False\<rparr>, w_queues = example_loaded\<rparr> =
      Some (Inr (trace, w')) \<and> terminated (w_loop w') \<and> w_visible w' = {#}"
proof -
  have "world_ok \<lparr>w_loop = \<lparr>impl_queue_id = 0, terminated = False\<rparr>, w_queues = example_loaded\<rparr>"
    using queues_reach_wf [OF example_loaded_reach] example_loaded_entry by (auto simp: world_ok_def)
  from do_run_shuts_down [OF inert_quiet [of 20], where platform_Run = "\<lambda>w. w" and th = 0, OF this]
  show ?thesis by simp blast
qed

end
