(* ===== verification/Thread_Merger.thy ===== *)
theory Thread_Merger
  imports Task_Scheduling
begin

text \<open>
  \<open>fml/shared_thread_merger\<close> and \<open>fml/raster_thread_merger\<close>: leases that keep the raster queue
  merged into the platform queue. Several raster mergers (callers) can share one lease table; the
  shared objects live in a heap, so sharing is visible. The mutexes make each operation atomic;
  waiting on the condition variable is modelled by the guard that ends the wait.
\<close>

section \<open>SharedThreadMerger\<close>

type_synonym RasterThreadMergerId = nat

record SharedThreadMerger =
  sm_owner :: TaskQueueId
  sm_subsumed :: TaskQueueId
  enabled :: bool
  lease_term_by_caller :: "(RasterThreadMergerId, nat) omap"

definition SharedThreadMerger_new :: "TaskQueueId \<Rightarrow> TaskQueueId \<Rightarrow> SharedThreadMerger" where
  "SharedThreadMerger_new owner subsumed =
     \<lparr>sm_owner = owner, sm_subsumed = subsumed, enabled = True, lease_term_by_caller = []\<rparr>"

definition IsAllLeaseTermsZeroUnSafe :: "SharedThreadMerger \<Rightarrow> bool" where
  "IsAllLeaseTermsZeroUnSafe m \<longleftrightarrow> list_all (\<lambda>(c, n). n = 0) (lease_term_by_caller m)"

definition shared_IsMergedUnSafe :: "SharedThreadMerger \<Rightarrow> bool" where
  "shared_IsMergedUnSafe m \<longleftrightarrow> \<not> IsAllLeaseTermsZeroUnSafe m"

definition shared_IsEnabledUnSafe :: "SharedThreadMerger \<Rightarrow> bool" where
  "shared_IsEnabledUnSafe m = enabled m"

definition SetEnabledUnSafe :: "bool \<Rightarrow> SharedThreadMerger \<Rightarrow> SharedThreadMerger" where
  "SetEnabledUnSafe b m = m\<lparr>enabled := b\<rparr>"

type_synonym merger_state = "SharedThreadMerger \<times> MessageLoopTaskQueues"

definition set_lease :: "RasterThreadMergerId \<Rightarrow> nat \<Rightarrow> SharedThreadMerger \<Rightarrow> SharedThreadMerger" where
  "set_lease caller n m = m\<lparr>lease_term_by_caller := om_update caller n (lease_term_by_caller m)\<rparr>"

definition shared_MergeWithLease ::
  "RasterThreadMergerId \<Rightarrow> nat \<Rightarrow> merger_state \<Rightarrow> (bool \<times> merger_state) res" where
  "shared_MergeWithLease caller lease_term st =
     (case st of (m, q) \<Rightarrow>
        if shared_IsMergedUnSafe m then Inr (True, m, q)
        else
          bindR (Merge (sm_owner m) (sm_subsumed m) q) (\<lambda>(success, q).
          bindR (check success) (\<lambda>_.
            Inr (success, set_lease caller lease_term m, q))))"

definition UnMergeNowUnSafe :: "merger_state \<Rightarrow> (bool \<times> merger_state) res" where
  "UnMergeNowUnSafe st =
     (case st of (m, q) \<Rightarrow>
        bindR (check (IsAllLeaseTermsZeroUnSafe m)) (\<lambda>_.
        bindR (Unmerge (sm_owner m) (sm_subsumed m) q) (\<lambda>(success, q).
        bindR (check success) (\<lambda>_. Inr (success, m, q)))))"

definition shared_UnMergeNowIfLastOne ::
  "RasterThreadMergerId \<Rightarrow> merger_state \<Rightarrow> (bool \<times> merger_state) res" where
  "shared_UnMergeNowIfLastOne caller st =
     (case st of (m, q) \<Rightarrow>
        let m = m\<lparr>lease_term_by_caller := om_delete caller (lease_term_by_caller m)\<rparr> in
        if lease_term_by_caller m = [] \<or> IsAllLeaseTermsZeroUnSafe m then UnMergeNowUnSafe (m, q)
        else Inr (True, m, q))"

definition shared_DecrementLease ::
  "RasterThreadMergerId \<Rightarrow> merger_state \<Rightarrow> (bool \<times> merger_state) res" where
  "shared_DecrementLease caller st =
     (case st of (m, q) \<Rightarrow>
        bindR
          (case om_lookup (lease_term_by_caller m) caller of
             Some n \<Rightarrow> bindR (check (n > 0)) (\<lambda>_. Inr (set_lease caller (n - 1) m))
           | None \<Rightarrow> Inr m) (\<lambda>m.
        if IsAllLeaseTermsZeroUnSafe m then
          bindR (UnMergeNowUnSafe (m, q)) (\<lambda>(_, st). Inr (True, st))
        else Inr (False, m, q)))"

definition shared_ExtendLeaseTo ::
  "RasterThreadMergerId \<Rightarrow> nat \<Rightarrow> SharedThreadMerger \<Rightarrow> SharedThreadMerger" where
  "shared_ExtendLeaseTo caller lease_term m = set_lease caller lease_term m"

section \<open>RasterThreadMerger\<close>

datatype RasterThreadStatus = kRemainsMerged | kRemainsUnmerged | kUnmergedNow

record RasterThreadMerger =
  rm_id :: RasterThreadMergerId
  platform_queue_id :: TaskQueueId
  gpu_queue_id :: TaskQueueId
  shared_merger :: nat
  merge_unmerge_callback :: "closure option"

text \<open>
  The heap of shared mergers, the task queues, and what happened outside: the callbacks made and
  the \<open>notify_one\<close> calls on \<open>merged_condition_\<close>.
\<close>

record MergerWorld =
  shared_mergers :: "nat \<rightharpoonup> SharedThreadMerger"
  mw_queues :: MessageLoopTaskQueues
  callbacks_made :: "closure list"
  notifications :: nat

definition deref :: "RasterThreadMerger \<Rightarrow> MergerWorld \<Rightarrow> SharedThreadMerger res" where
  "deref r w = (case shared_mergers w (shared_merger r) of None \<Rightarrow> Inl Undefined | Some m \<Rightarrow> Inr m)"

definition store_shared :: "RasterThreadMerger \<Rightarrow> merger_state \<Rightarrow> MergerWorld \<Rightarrow> MergerWorld" where
  "store_shared r st w =
     w\<lparr>shared_mergers := (shared_mergers w)(shared_merger r \<mapsto> fst st), mw_queues := snd st\<rparr>"

definition call_back :: "RasterThreadMerger \<Rightarrow> bool \<Rightarrow> MergerWorld \<Rightarrow> MergerWorld" where
  "call_back r success w =
     (case merge_unmerge_callback r of
        Some c \<Rightarrow> if success then w\<lparr>callbacks_made := callbacks_made w @ [c]\<rparr> else w
      | None \<Rightarrow> w)"

definition notify_one :: "MergerWorld \<Rightarrow> MergerWorld" where
  "notify_one w = w\<lparr>notifications := notifications w + 1\<rparr>"

definition SetMergeUnmergeCallback :: "closure option \<Rightarrow> RasterThreadMerger \<Rightarrow> RasterThreadMerger" where
  "SetMergeUnmergeCallback c r = r\<lparr>merge_unmerge_callback := c\<rparr>"

text \<open>\<open>this\<close> and \<open>fresh\<close> are the addresses the two allocations return.\<close>

definition RasterThreadMerger_new ::
  "RasterThreadMergerId \<Rightarrow> nat \<Rightarrow> TaskQueueId \<Rightarrow> TaskQueueId \<Rightarrow> MergerWorld \<Rightarrow> RasterThreadMerger \<times> MergerWorld" where
  "RasterThreadMerger_new this fresh platform_id gpu_id w =
     (\<lparr>rm_id = this, platform_queue_id = platform_id, gpu_queue_id = gpu_id, shared_merger = fresh,
       merge_unmerge_callback = None\<rparr>,
      w\<lparr>shared_mergers := (shared_mergers w)(fresh \<mapsto> SharedThreadMerger_new platform_id gpu_id)\<rparr>)"

definition CreateOrShareThreadMerger ::
  "RasterThreadMergerId \<Rightarrow> nat \<Rightarrow> RasterThreadMerger option \<Rightarrow> TaskQueueId \<Rightarrow> TaskQueueId \<Rightarrow> MergerWorld
     \<Rightarrow> RasterThreadMerger \<times> MergerWorld" where
  "CreateOrShareThreadMerger this fresh parent_merger platform_id raster_id w =
     (case parent_merger of
        Some p \<Rightarrow>
          if platform_queue_id p = platform_id \<and> gpu_queue_id p = raster_id then
            (\<lparr>rm_id = this, platform_queue_id = platform_id, gpu_queue_id = raster_id,
              shared_merger = shared_merger p, merge_unmerge_callback = None\<rparr>, w)
          else RasterThreadMerger_new this fresh platform_id raster_id w
      | None \<Rightarrow> RasterThreadMerger_new this fresh platform_id raster_id w)"

definition TaskQueuesAreSame :: "RasterThreadMerger \<Rightarrow> bool" where
  "TaskQueuesAreSame r \<longleftrightarrow> platform_queue_id r = gpu_queue_id r"

definition IsMergedUnSafe :: "RasterThreadMerger \<Rightarrow> MergerWorld \<Rightarrow> bool res" where
  "IsMergedUnSafe r w =
     (if TaskQueuesAreSame r then Inr True
      else bindR (deref r w) (\<lambda>m. Inr (shared_IsMergedUnSafe m)))"

definition IsEnabledUnSafe :: "RasterThreadMerger \<Rightarrow> MergerWorld \<Rightarrow> bool res" where
  "IsEnabledUnSafe r w = bindR (deref r w) (\<lambda>m. Inr (shared_IsEnabledUnSafe m))"

definition MergeWithLease :: "nat \<Rightarrow> RasterThreadMerger \<Rightarrow> MergerWorld \<Rightarrow> MergerWorld res" where
  "MergeWithLease lease_term r w =
     (if TaskQueuesAreSame r then Inr w
      else
        bindR (IsEnabledUnSafe r w) (\<lambda>en.
        if \<not> en then Inr w
        else
          bindR (IsMergedUnSafe r w) (\<lambda>mg.
          if mg then Inr (notify_one w)
          else
            bindR (deref r w) (\<lambda>m.
            bindR (shared_MergeWithLease (rm_id r) lease_term (m, mw_queues w)) (\<lambda>(success, st).
              Inr (notify_one (call_back r success (store_shared r st w))))))))"

definition UnMergeNowIfLastOne :: "RasterThreadMerger \<Rightarrow> MergerWorld \<Rightarrow> MergerWorld res" where
  "UnMergeNowIfLastOne r w =
     (if TaskQueuesAreSame r then Inr w
      else
        bindR (IsEnabledUnSafe r w) (\<lambda>en.
        if \<not> en then Inr w
        else
          bindR (deref r w) (\<lambda>m.
          bindR (shared_UnMergeNowIfLastOne (rm_id r) (m, mw_queues w)) (\<lambda>(success, st).
            Inr (call_back r success (store_shared r st w))))))"

text \<open>\<open>current\<close> is the queue of the calling thread's message loop.\<close>

definition IsOnPlatformThread :: "TaskQueueId \<Rightarrow> RasterThreadMerger \<Rightarrow> bool" where
  "IsOnPlatformThread current r \<longleftrightarrow> current = platform_queue_id r"

definition IsOnRasterizingThread :: "TaskQueueId \<Rightarrow> RasterThreadMerger \<Rightarrow> MergerWorld \<Rightarrow> bool res" where
  "IsOnRasterizingThread current r w =
     bindR (IsMergedUnSafe r w) (\<lambda>mg.
       if mg then Inr (IsOnPlatformThread current r) else Inr (\<not> IsOnPlatformThread current r))"

definition ExtendLeaseTo :: "nat \<Rightarrow> RasterThreadMerger \<Rightarrow> MergerWorld \<Rightarrow> MergerWorld res" where
  "ExtendLeaseTo lease_term r w =
     (if TaskQueuesAreSame r then Inr w
      else
        bindR (IsEnabledUnSafe r w) (\<lambda>en.
        if \<not> en then Inr w
        else
          bindR (deref r w) (\<lambda>m.
            Inr (store_shared r (shared_ExtendLeaseTo (rm_id r) lease_term m, mw_queues w) w))))"

definition IsMerged :: "RasterThreadMerger \<Rightarrow> MergerWorld \<Rightarrow> bool res" where
  "IsMerged r w = IsMergedUnSafe r w"

definition Enable :: "RasterThreadMerger \<Rightarrow> MergerWorld \<Rightarrow> MergerWorld res" where
  "Enable r w = bindR (deref r w) (\<lambda>m. Inr (store_shared r (SetEnabledUnSafe True m, mw_queues w) w))"

definition Disable :: "RasterThreadMerger \<Rightarrow> MergerWorld \<Rightarrow> MergerWorld res" where
  "Disable r w = bindR (deref r w) (\<lambda>m. Inr (store_shared r (SetEnabledUnSafe False m, mw_queues w) w))"

definition IsEnabled :: "RasterThreadMerger \<Rightarrow> MergerWorld \<Rightarrow> bool res" where
  "IsEnabled r w = IsEnabledUnSafe r w"

text \<open>Whether a thread that calls \<open>WaitUntilMerged\<close> in this state can go on.\<close>

definition WaitUntilMerged_passes :: "TaskQueueId \<Rightarrow> RasterThreadMerger \<Rightarrow> MergerWorld \<Rightarrow> bool res" where
  "WaitUntilMerged_passes current r w =
     (if TaskQueuesAreSame r then Inr True
      else bindR (check (IsOnPlatformThread current r)) (\<lambda>_. IsMergedUnSafe r w))"

definition DecrementLease ::
  "RasterThreadMerger \<Rightarrow> MergerWorld \<Rightarrow> (RasterThreadStatus \<times> MergerWorld) res" where
  "DecrementLease r w =
     (if TaskQueuesAreSame r then Inr (kRemainsMerged, w)
      else
        bindR (IsMergedUnSafe r w) (\<lambda>mg.
        if \<not> mg then Inr (kRemainsUnmerged, w)
        else
          bindR (IsEnabledUnSafe r w) (\<lambda>en.
          if \<not> en then Inr (kRemainsMerged, w)
          else
            bindR (deref r w) (\<lambda>m.
            bindR (shared_DecrementLease (rm_id r) (m, mw_queues w)) (\<lambda>(unmerged_after_decrement, st).
              if unmerged_after_decrement then
                Inr (kUnmergedNow, call_back r True (store_shared r st w))
              else Inr (kRemainsMerged, store_shared r st w))))))"

end
