(* ===== verification/Thread_Merger_Correct.thy ===== *)
theory Thread_Merger_Correct
  imports Thread_Merger
begin

text \<open>
  The lease protocol: the lease table says "merged" exactly when the task queues are merged, a
  lease of \<open>n\<close> frames ends with the \<open>n\<close>-th decrement unless another caller holds one, and the last caller's withdrawal unmerges.
\<close>

section \<open>The invariant of a shared merger\<close>

text \<open>When nothing is merged both queues are free to be merged.\<close>

definition merger_ok :: "merger_state \<Rightarrow> bool" where
  "merger_ok st \<longleftrightarrow>
     (case st of (m, q) \<Rightarrow>
        queues_wf q \<and> om_wf (lease_term_by_caller m) \<and> sm_owner m \<noteq> sm_subsumed m \<and>
        (\<exists>oe se. queue_entries q (sm_owner m) = Some oe \<and> queue_entries q (sm_subsumed m) = Some se \<and>
           (shared_IsMergedUnSafe m \<longleftrightarrow> sm_subsumed m |\<in>| owner_of oe) \<and>
           (\<not> shared_IsMergedUnSafe m \<longrightarrow>
              subsumed_by oe = kUnmerged \<and> subsumed_by se = kUnmerged \<and> owner_of se = {||})))"

lemma all_zero_iff:
  "om_wf (lease_term_by_caller m) \<Longrightarrow>
     IsAllLeaseTermsZeroUnSafe m \<longleftrightarrow> (\<forall>c n. om_lookup (lease_term_by_caller m) c = Some n \<longrightarrow> n = 0)"
  using om_wf_distinct [of "lease_term_by_caller m"]
  by (auto simp: IsAllLeaseTermsZeroUnSafe_def om_lookup_def list_all_iff)

lemma set_lease_simps [simp]:
  "sm_owner (set_lease c n m) = sm_owner m"
  "sm_subsumed (set_lease c n m) = sm_subsumed m"
  "enabled (set_lease c n m) = enabled m"
  "lease_term_by_caller (set_lease c n m) = om_update c n (lease_term_by_caller m)"
  by (simp_all add: set_lease_def)

lemma set_lease_merged:
  "om_wf (lease_term_by_caller m) \<Longrightarrow>
     shared_IsMergedUnSafe (set_lease c n m) \<longleftrightarrow>
       n > 0 \<or> (\<exists>c' n'. c' \<noteq> c \<and> om_lookup (lease_term_by_caller m) c' = Some n' \<and> n' > 0)"
  by (auto simp: shared_IsMergedUnSafe_def all_zero_iff om_wf_update om_lookup_update)

lemma merged_iff:
  "om_wf (lease_term_by_caller m) \<Longrightarrow>
     shared_IsMergedUnSafe m \<longleftrightarrow> (\<exists>c n. om_lookup (lease_term_by_caller m) c = Some n \<and> n > 0)"
  by (auto simp: shared_IsMergedUnSafe_def all_zero_iff)

lemma merger_ok_Merge:
  assumes "merger_ok (m, q)" and "\<not> shared_IsMergedUnSafe m"
  obtains oe se l where "queue_entries q (sm_owner m) = Some oe" "queue_entries q (sm_subsumed m) = Some se"
    "Merge (sm_owner m) (sm_subsumed m) q =
       Inr (True, (merged (sm_owner m) (sm_subsumed m) oe se q)\<lparr>wake_log := l\<rparr>)"
    "queues_wf (merged (sm_owner m) (sm_subsumed m) oe se q)" "sm_owner m \<noteq> sm_subsumed m"
    "sm_subsumed m |\<notin>| owner_of oe" "subsumed_by se = kUnmerged"
proof -
  let ?i = "sm_owner m" and ?j = "sm_subsumed m"
  obtain oe se where e: "queue_entries q ?i = Some oe" "queue_entries q ?j = Some se"
    and f: "queues_wf q" "?i \<noteq> ?j" "?j |\<notin>| owner_of oe" "subsumed_by oe = kUnmerged"
      "subsumed_by se = kUnmerged" "owner_of se = {||}"
    using assms by (auto simp: merger_ok_def)
  from Merge_cases [OF f(1) e] f obtain l where
    "Merge ?i ?j q = Inr (True, (merged ?i ?j oe se q)\<lparr>wake_log := l\<rparr>)" by auto
  with that e f merged_wf [OF f(1) e f(2,4,5,6)] show ?thesis by blast
qed

lemma merger_ok_MergeWithLease:
  assumes ok: "merger_ok (m, q)" and n: "n > 0"
  shows "\<exists>m' q'. shared_MergeWithLease c n (m, q) = Inr (True, m', q') \<and> merger_ok (m', q') \<and>
           shared_IsMergedUnSafe m' \<and>
           (\<not> shared_IsMergedUnSafe m \<longrightarrow> m' = set_lease c n m)"
proof (cases "shared_IsMergedUnSafe m")
  case True
  with ok show ?thesis by (simp add: shared_MergeWithLease_def)
next
  case False
  have wfl: "om_wf (lease_term_by_caller m)" using ok by (simp add: merger_ok_def)
  from merger_ok_Merge [OF ok False] obtain oe se l where
    e: "queue_entries q (sm_owner m) = Some oe" "queue_entries q (sm_subsumed m) = Some se"
    and mg: "Merge (sm_owner m) (sm_subsumed m) q =
       Inr (True, (merged (sm_owner m) (sm_subsumed m) oe se q)\<lparr>wake_log := l\<rparr>)"
    and wf: "queues_wf (merged (sm_owner m) (sm_subsumed m) oe se q)" "sm_owner m \<noteq> sm_subsumed m" .
  have "merger_ok (set_lease c n m, (merged (sm_owner m) (sm_subsumed m) oe se q)\<lparr>wake_log := l\<rparr>)"
    using wf n wfl set_lease_merged [OF wfl, of c n]
    by (simp add: merger_ok_def om_wf_update merged_def)
  with False mg n set_lease_merged [OF wfl, of c n] show ?thesis
    by (simp add: shared_MergeWithLease_def)
qed

lemma UnMergeNowUnSafe_ok:
  assumes ok: "merger_ok (m0, q)" "shared_IsMergedUnSafe m0"
    and m: "sm_owner m = sm_owner m0" "sm_subsumed m = sm_subsumed m0" "om_wf (lease_term_by_caller m)"
      "\<not> shared_IsMergedUnSafe m"
  shows "\<exists>q'. UnMergeNowUnSafe (m, q) = Inr (True, m, q') \<and> merger_ok (m, q') \<and>
           (\<exists>oe se l. queue_entries q (sm_owner m) = Some oe \<and> queue_entries q (sm_subsumed m) = Some se \<and>
              q' = (unmerged (sm_owner m) (sm_subsumed m) oe se q)\<lparr>wake_log := l\<rparr>)"
proof -
  let ?i = "sm_owner m" and ?j = "sm_subsumed m"
  obtain oe se where e: "queue_entries q ?i = Some oe" "queue_entries q ?j = Some se"
    and f: "queues_wf q" "?i \<noteq> ?j" "?j |\<in>| owner_of oe"
    using ok m(1,2) by (auto simp: merger_ok_def)
  note es = queues_wf_entries [OF f(1)]
  have s: "subsumed_by se = ?i" using entries_wf_owned [OF es e(1) f(3)] e(2) by auto
  have so: "owner_of se = {||}"
    using entries_wf_subsumed [OF es e(2)] s entries_wfD(1) [OF es e(1)] by simp
  have o: "subsumed_by oe = kUnmerged" using entries_wf_owner_unmerged [OF es e(1)] f(3) by auto
  from Unmerge_cases [OF f(1) e] f(3) obtain l where
    un: "Unmerge ?i ?j q = Inr (True, (unmerged ?i ?j oe se q)\<lparr>wake_log := l\<rparr>)"
      "queues_wf ((unmerged ?i ?j oe se q)\<lparr>wake_log := l\<rparr>)" by auto
  have "merger_ok (m, (unmerged ?i ?j oe se q)\<lparr>wake_log := l\<rparr>)"
    using un(2) m(3,4) f(2) o so by (auto simp: merger_ok_def unmerged_def)
  with un(1) m(4) e show ?thesis
    by (auto simp: UnMergeNowUnSafe_def shared_IsMergedUnSafe_def)
qed

lemma merger_ok_leases:
  assumes "merger_ok (m0, q)" and "shared_IsMergedUnSafe m0" and "shared_IsMergedUnSafe m"
    and "sm_owner m = sm_owner m0" "sm_subsumed m = sm_subsumed m0" "om_wf (lease_term_by_caller m)"
  shows "merger_ok (m, q)"
  using assms by (auto simp: merger_ok_def)

text \<open>Decrementing: the caller has no lease recorded or a positive one.\<close>

lemma merger_ok_DecrementLease:
  assumes ok: "merger_ok (m, q)" "shared_IsMergedUnSafe m"
    and lease: "\<And>n. om_lookup (lease_term_by_caller m) c = Some n \<Longrightarrow> n > 0"
  shows "\<exists>b m' q'. shared_DecrementLease c (m, q) = Inr (b, m', q') \<and> merger_ok (m', q') \<and>
           b = (\<not> shared_IsMergedUnSafe m') \<and>
           m' = (case om_lookup (lease_term_by_caller m) c of None \<Rightarrow> m | Some n \<Rightarrow> set_lease c (n - 1) m) \<and>
           (if b then \<exists>oe se l. queue_entries q (sm_owner m) = Some oe \<and>
              queue_entries q (sm_subsumed m) = Some se \<and>
              q' = (unmerged (sm_owner m) (sm_subsumed m) oe se q)\<lparr>wake_log := l\<rparr>
            else q' = q)"
proof -
  have wfl: "om_wf (lease_term_by_caller m)" using ok by (simp add: merger_ok_def)
  let ?m = "case om_lookup (lease_term_by_caller m) c of None \<Rightarrow> m | Some n \<Rightarrow> set_lease c (n - 1) m"
  have m: "sm_owner ?m = sm_owner m" "sm_subsumed ?m = sm_subsumed m" "om_wf (lease_term_by_caller ?m)"
    using wfl by (auto simp: om_wf_update split: option.splits)
  have dec: "shared_DecrementLease c (m, q) =
      (if IsAllLeaseTermsZeroUnSafe ?m then bindR (UnMergeNowUnSafe (?m, q)) (\<lambda>(_, st). Inr (True, st))
       else Inr (False, ?m, q))"
    using lease by (auto simp: shared_DecrementLease_def split: option.splits)
  show ?thesis
  proof (cases "shared_IsMergedUnSafe ?m")
    case True
    with dec merger_ok_leases [OF ok True m] show ?thesis
      by (intro exI [of _ False]) (simp add: shared_IsMergedUnSafe_def)
  next
    case False
    from UnMergeNowUnSafe_ok [OF ok m False] obtain q' where
      "UnMergeNowUnSafe (?m, q) = Inr (True, ?m, q')" "merger_ok (?m, q')"
      "\<exists>oe se l. queue_entries q (sm_owner m) = Some oe \<and> queue_entries q (sm_subsumed m) = Some se \<and>
         q' = (unmerged (sm_owner m) (sm_subsumed m) oe se q)\<lparr>wake_log := l\<rparr>"
      unfolding m(1,2) by blast
    with dec False show ?thesis
      by (intro exI [of _ True] exI [of _ ?m] exI [of _ q']) (simp add: shared_IsMergedUnSafe_def)
  qed
qed

lemma merger_ok_UnMergeNowIfLastOne:
  assumes ok: "merger_ok (m, q)" "shared_IsMergedUnSafe m"
  shows "\<exists>m' q'. shared_UnMergeNowIfLastOne c (m, q) = Inr (True, m', q') \<and> merger_ok (m', q') \<and>
           m' = m\<lparr>lease_term_by_caller := om_delete c (lease_term_by_caller m)\<rparr>"
proof -
  have wfl: "om_wf (lease_term_by_caller m)" using ok by (simp add: merger_ok_def)
  let ?m = "m\<lparr>lease_term_by_caller := om_delete c (lease_term_by_caller m)\<rparr>"
  have m: "sm_owner ?m = sm_owner m" "sm_subsumed ?m = sm_subsumed m" "om_wf (lease_term_by_caller ?m)"
    using wfl by (simp_all add: om_wf_delete)
  have empty: "om_delete c (lease_term_by_caller m) = [] \<Longrightarrow> IsAllLeaseTermsZeroUnSafe ?m"
    by (simp add: IsAllLeaseTermsZeroUnSafe_def)
  have un: "shared_UnMergeNowIfLastOne c (m, q) =
      (if IsAllLeaseTermsZeroUnSafe ?m then UnMergeNowUnSafe (?m, q) else Inr (True, ?m, q))"
    using empty by (auto simp: shared_UnMergeNowIfLastOne_def Let_def)
  show ?thesis
  proof (cases "shared_IsMergedUnSafe ?m")
    case True
    with un merger_ok_leases [OF ok True m] show ?thesis by (simp add: shared_IsMergedUnSafe_def)
  next
    case False
    with un UnMergeNowUnSafe_ok [OF ok m False] show ?thesis by (auto simp: shared_IsMergedUnSafe_def)
  qed
qed

section \<open>Executions of the lease protocol\<close>

text \<open>
  The callers' obligations are those the code asserts: positive lease terms, extending and
  withdrawing only while merged, and no decrement of a lease that already reached zero.
\<close>

inductive lease_step :: "merger_state \<Rightarrow> merger_state \<Rightarrow> bool" where
  merge: "n > 0 \<Longrightarrow> shared_MergeWithLease c n st = Inr (b, st') \<Longrightarrow> lease_step st st'"
| withdraw: "shared_IsMergedUnSafe (fst st) \<Longrightarrow> shared_UnMergeNowIfLastOne c st = Inr (b, st') \<Longrightarrow>
    lease_step st st'"
| decrement: "shared_IsMergedUnSafe (fst st) \<Longrightarrow>
    om_lookup (lease_term_by_caller (fst st)) c \<noteq> Some 0 \<Longrightarrow>
    shared_DecrementLease c st = Inr (b, st') \<Longrightarrow> lease_step st st'"
| extend: "shared_IsMergedUnSafe m \<Longrightarrow> n > 0 \<Longrightarrow> lease_step (m, q) (shared_ExtendLeaseTo c n m, q)"
| enable: "lease_step (m, q) (SetEnabledUnSafe b m, q)"

inductive lease_reach :: "merger_state \<Rightarrow> bool" where
  start: "queues_reach k q \<Longrightarrow> queue_entries q i = Some oe \<Longrightarrow> queue_entries q j = Some se \<Longrightarrow> i \<noteq> j \<Longrightarrow>
    subsumed_by oe = kUnmerged \<Longrightarrow> subsumed_by se = kUnmerged \<Longrightarrow> owner_of se = {||} \<Longrightarrow>
    lease_reach (SharedThreadMerger_new i j, q)"
| step: "lease_reach st \<Longrightarrow> lease_step st st' \<Longrightarrow> lease_reach st'"

lemma merger_ok_new:
  assumes wf: "queues_wf q" and e: "queue_entries q i = Some oe" "queue_entries q j = Some se" "i \<noteq> j"
    and f: "subsumed_by oe = kUnmerged" "subsumed_by se = kUnmerged" "owner_of se = {||}"
  shows "merger_ok (SharedThreadMerger_new i j, q)"
proof -
  have "j |\<notin>| owner_of oe"
    using entries_wf_owned [OF queues_wf_entries [OF wf] e(1), of j] e f(2)
      entries_wfD(1) [OF queues_wf_entries [OF wf] e(1)] by auto
  with assms show ?thesis
    by (simp add: merger_ok_def SharedThreadMerger_new_def shared_IsMergedUnSafe_def
        IsAllLeaseTermsZeroUnSafe_def)
qed

lemma lease_step_ok:
  assumes "lease_step st st'" and "merger_ok st"
  shows "merger_ok st'"
  using assms
proof (cases rule: lease_step.cases)
  case (merge n c b)
  with assms(2) merger_ok_MergeWithLease [of "fst st" "snd st" n c] show ?thesis by auto
next
  case (withdraw c b)
  with assms(2) merger_ok_UnMergeNowIfLastOne [of "fst st" "snd st" c] show ?thesis by auto
next
  case (decrement c b)
  with assms(2) merger_ok_DecrementLease [of "fst st" "snd st" c] show ?thesis
    by (cases "om_lookup (lease_term_by_caller (fst st)) c") auto
next
  case (extend m n q c)
  then have wfl: "om_wf (lease_term_by_caller m)" using assms(2) by (simp add: merger_ok_def)
  have "merger_ok (set_lease c n m, q)"
    by (rule merger_ok_leases [of m])
       (use extend assms(2) wfl set_lease_merged [OF wfl, of c n] in \<open>auto simp: om_wf_update\<close>)
  with extend show ?thesis by (simp add: shared_ExtendLeaseTo_def)
next
  case (enable m q b)
  with assms(2) show ?thesis
    by (simp add: merger_ok_def SetEnabledUnSafe_def shared_IsMergedUnSafe_def
        IsAllLeaseTermsZeroUnSafe_def)
qed

lemma lease_reach_ok: "lease_reach st \<Longrightarrow> merger_ok st"
proof (induction rule: lease_reach.induct)
  case (start k q i oe j se)
  then show ?case using merger_ok_new queues_reach_wf by blast
next
  case (step st st')
  then show ?case using lease_step_ok by blast
qed

section \<open>A raster merger over its shared merger\<close>

definition raster_ok :: "RasterThreadMerger \<Rightarrow> MergerWorld \<Rightarrow> SharedThreadMerger \<Rightarrow> bool" where
  "raster_ok r w m \<longleftrightarrow>
     platform_queue_id r \<noteq> gpu_queue_id r \<and> shared_mergers w (shared_merger r) = Some m \<and>
     enabled m \<and> merger_ok (m, mw_queues w)"

lemma raster_ok_deref [simp]:
  assumes "raster_ok r w m"
  shows "deref r w = Inr m" and "\<not> TaskQueuesAreSame r"
    and "IsEnabledUnSafe r w = Inr True" and "IsMergedUnSafe r w = Inr (shared_IsMergedUnSafe m)"
    and "merger_ok (m, mw_queues w)"
  using assms by (auto simp: raster_ok_def deref_def TaskQueuesAreSame_def IsEnabledUnSafe_def
      IsMergedUnSafe_def shared_IsEnabledUnSafe_def)

lemma shared_mergers_frame [simp]:
  "shared_mergers (call_back r b w) = shared_mergers w"
  "shared_mergers (notify_one w) = shared_mergers w"
  "mw_queues (call_back r b w) = mw_queues w"
  "mw_queues (notify_one w) = mw_queues w"
  "shared_mergers (store_shared r st w) = (shared_mergers w)(shared_merger r \<mapsto> fst st)"
  "mw_queues (store_shared r st w) = snd st"
  by (simp_all add: call_back_def notify_one_def store_shared_def split: option.split)

fun decrement_times :: "nat \<Rightarrow> RasterThreadMerger \<Rightarrow> MergerWorld \<Rightarrow> (RasterThreadStatus list \<times> MergerWorld) res" where
  "decrement_times 0 r w = Inr ([], w)"
| "decrement_times (Suc n) r w =
     bindR (DecrementLease r w) (\<lambda>(s, w). bindR (decrement_times n r w) (\<lambda>(ss, w). Inr (s # ss, w)))"

text \<open>Whether a caller other than this merger holds a lease.\<close>

definition others_hold :: "RasterThreadMerger \<Rightarrow> SharedThreadMerger \<Rightarrow> bool" where
  "others_hold r m \<longleftrightarrow> (\<exists>c k. c \<noteq> rm_id r \<and> om_lookup (lease_term_by_caller m) c = Some k \<and> k > 0)"

lemma raster_ok_wf: "raster_ok r w m \<Longrightarrow> om_wf (lease_term_by_caller m)"
  by (simp add: raster_ok_def merger_ok_def)

lemma others_hold_set_lease:
  "om_wf (lease_term_by_caller m) \<Longrightarrow> others_hold r (set_lease (rm_id r) n m) \<longleftrightarrow> others_hold r m"
  by (auto simp: others_hold_def om_lookup_update)

lemma set_lease_merged_own:
  "om_wf (lease_term_by_caller m) \<Longrightarrow>
     shared_IsMergedUnSafe (set_lease (rm_id r) n m) \<longleftrightarrow> n > 0 \<or> others_hold r m"
  by (auto simp: set_lease_merged others_hold_def)

lemma merged_own:
  assumes "om_wf (lease_term_by_caller m)" and "om_lookup (lease_term_by_caller m) (rm_id r) = Some (Suc n)"
  shows "shared_IsMergedUnSafe m"
  using assms by (auto simp: merged_iff)

text \<open>One decrement of a positive lease: it unmerges if the lease ends with it and no other caller holds one.\<close>

lemma DecrementLease_own:
  assumes ok: "raster_ok r w m" and lk: "om_lookup (lease_term_by_caller m) (rm_id r) = Some (Suc n)"
  shows "\<exists>w'. DecrementLease r w = Inr (if n = 0 \<and> \<not> others_hold r m then kUnmergedNow else kRemainsMerged, w') \<and>
           raster_ok r w' (set_lease (rm_id r) n m) \<and>
           (if n = 0 \<and> \<not> others_hold r m then \<exists>oe se lg. queue_entries (mw_queues w) (sm_owner m) = Some oe \<and>
              queue_entries (mw_queues w) (sm_subsumed m) = Some se \<and>
              mw_queues w' = (unmerged (sm_owner m) (sm_subsumed m) oe se (mw_queues w))\<lparr>wake_log := lg\<rparr>
            else mw_queues w' = mw_queues w)"
proof -
  let ?last = "n = 0 \<and> \<not> others_hold r m"
  have mg: "shared_IsMergedUnSafe m" by (rule merged_own [OF raster_ok_wf [OF ok] lk])
  have mg': "shared_IsMergedUnSafe (set_lease (rm_id r) n m) \<longleftrightarrow> \<not> ?last"
    using set_lease_merged_own [OF raster_ok_wf [OF ok]] by auto
  from merger_ok_DecrementLease [OF raster_ok_deref(5) [OF ok] mg, of "rm_id r"] lk obtain b q' where
    d: "shared_DecrementLease (rm_id r) (m, mw_queues w) = Inr (b, set_lease (rm_id r) n m, q')"
      "merger_ok (set_lease (rm_id r) n m, q')" "b \<longleftrightarrow> ?last"
      "if b then \<exists>oe se lg. queue_entries (mw_queues w) (sm_owner m) = Some oe \<and>
              queue_entries (mw_queues w) (sm_subsumed m) = Some se \<and>
              q' = (unmerged (sm_owner m) (sm_subsumed m) oe se (mw_queues w))\<lparr>wake_log := lg\<rparr>
       else q' = mw_queues w"
    using mg' by auto
  let ?s = "store_shared r (set_lease (rm_id r) n m, q') w"
  let ?w = "if b then call_back r True ?s else ?s"
  have "DecrementLease r w = Inr (if ?last then kUnmergedNow else kRemainsMerged, ?w)"
    using raster_ok_deref [OF ok] mg d(1,3) by (simp add: DecrementLease_def)
  moreover have "raster_ok r ?w (set_lease (rm_id r) n m)"
    using ok d(2) by (simp add: raster_ok_def)
  moreover have "mw_queues ?w = q'" by simp
  ultimately show ?thesis using d(3,4) by (cases ?last) auto
qed

lemma own_lease_after:
  "raster_ok r w m \<Longrightarrow> om_lookup (lease_term_by_caller (set_lease (rm_id r) n m)) (rm_id r) = Some n"
  by (simp add: om_lookup_update raster_ok_wf)

lemma decrement_times_sole:
  assumes "raster_ok r w m" and "om_lookup (lease_term_by_caller m) (rm_id r) = Some (Suc n)"
    and "\<not> others_hold r m"
  shows "\<exists>w' oe se lg. decrement_times (Suc n) r w = Inr (replicate n kRemainsMerged @ [kUnmergedNow], w') \<and>
     queue_entries (mw_queues w) (sm_owner m) = Some oe \<and>
     queue_entries (mw_queues w) (sm_subsumed m) = Some se \<and>
     mw_queues w' = (unmerged (sm_owner m) (sm_subsumed m) oe se (mw_queues w))\<lparr>wake_log := lg\<rparr>"
  using assms
proof (induction n arbitrary: w m)
  case 0
  from DecrementLease_own [OF 0(1,2)] 0(3) show ?case by auto
next
  case (Suc n)
  obtain w1 where w1: "DecrementLease r w = Inr (kRemainsMerged, w1)"
      "raster_ok r w1 (set_lease (rm_id r) (Suc n) m)" "mw_queues w1 = mw_queues w"
    using DecrementLease_own [OF Suc.prems(1,2)] by auto
  have "\<not> others_hold r (set_lease (rm_id r) (Suc n) m)"
    using Suc.prems(3) others_hold_set_lease [OF raster_ok_wf [OF Suc.prems(1)]] by simp
  from Suc.IH [OF w1(2) own_lease_after [OF Suc.prems(1)] this] w1(1,3) show ?case by auto
qed

lemma decrement_times_shared:
  assumes "raster_ok r w m" and "om_lookup (lease_term_by_caller m) (rm_id r) = Some n" and "others_hold r m"
  shows "\<exists>w' m'. decrement_times n r w = Inr (replicate n kRemainsMerged, w') \<and> raster_ok r w' m' \<and>
     om_lookup (lease_term_by_caller m') (rm_id r) = Some 0 \<and> others_hold r m' \<and> mw_queues w' = mw_queues w"
  using assms
proof (induction n arbitrary: w m)
  case 0
  then show ?case by auto
next
  case (Suc n)
  obtain w1 where w1: "DecrementLease r w = Inr (kRemainsMerged, w1)"
      "raster_ok r w1 (set_lease (rm_id r) n m)" "mw_queues w1 = mw_queues w"
    using DecrementLease_own [OF Suc.prems(1,2)] Suc.prems(3) by auto
  have "others_hold r (set_lease (rm_id r) n m)"
    using Suc.prems(3) others_hold_set_lease [OF raster_ok_wf [OF Suc.prems(1)]] by simp
  from Suc.IH [OF w1(2) own_lease_after [OF Suc.prems(1)] this] w1(1,3) show ?case by auto
qed

lemma ExtendLeaseTo_merged:
  assumes ok: "raster_ok r w m" and mg: "shared_IsMergedUnSafe m" and n: "n > 0"
  shows "\<exists>w'. ExtendLeaseTo n r w = Inr w' \<and> raster_ok r w' (set_lease (rm_id r) n m) \<and> mw_queues w' = mw_queues w"
proof -
  let ?m = "set_lease (rm_id r) n m"
  have "merger_ok (?m, mw_queues w)"
    by (rule merger_ok_leases [OF raster_ok_deref(5) [OF ok] mg])
       (use n raster_ok_wf [OF ok] in \<open>simp_all add: set_lease_merged_own om_wf_update\<close>)
  then have "raster_ok r (store_shared r (?m, mw_queues w) w) ?m" using ok by (simp add: raster_ok_def)
  moreover have "ExtendLeaseTo n r w = Inr (store_shared r (?m, mw_queues w) w)"
    using raster_ok_deref [OF ok] by (simp add: ExtendLeaseTo_def shared_ExtendLeaseTo_def)
  ultimately show ?thesis by simp
qed

text \<open>A spent lease cannot be decremented while another caller still holds one.\<close>

lemma DecrementLease_spent:
  assumes ok: "raster_ok r w m" and "om_lookup (lease_term_by_caller m) (rm_id r) = Some 0" and "others_hold r m"
  shows "DecrementLease r w = Inl Check_failed"
proof -
  have "shared_IsMergedUnSafe m" using merged_iff [OF raster_ok_wf [OF ok]] assms(3) by (auto simp: others_hold_def)
  with raster_ok_deref [OF ok] assms(2) show ?thesis
    by (simp add: DecrementLease_def shared_DecrementLease_def)
qed

lemma MergeWithLease_fresh:
  assumes ok: "raster_ok r w m" and mg: "\<not> shared_IsMergedUnSafe m" and n: "n > 0"
  shows "\<exists>w' oe se lg. MergeWithLease n r w = Inr w' \<and> raster_ok r w' (set_lease (rm_id r) n m) \<and>
     queue_entries (mw_queues w) (sm_owner m) = Some oe \<and>
     queue_entries (mw_queues w) (sm_subsumed m) = Some se \<and>
     mw_queues w' = (merged (sm_owner m) (sm_subsumed m) oe se (mw_queues w))\<lparr>wake_log := lg\<rparr> \<and>
     sm_owner m \<noteq> sm_subsumed m \<and> sm_subsumed m |\<notin>| owner_of oe \<and> subsumed_by se = kUnmerged"
proof -
  from merger_ok_Merge [OF raster_ok_deref(5) [OF ok] mg] obtain oe se lg where
    e: "queue_entries (mw_queues w) (sm_owner m) = Some oe"
      "queue_entries (mw_queues w) (sm_subsumed m) = Some se"
    and mq: "Merge (sm_owner m) (sm_subsumed m) (mw_queues w) =
       Inr (True, (merged (sm_owner m) (sm_subsumed m) oe se (mw_queues w))\<lparr>wake_log := lg\<rparr>)"
    and f: "sm_owner m \<noteq> sm_subsumed m" "sm_subsumed m |\<notin>| owner_of oe" "subsumed_by se = kUnmerged" .
  let ?q = "(merged (sm_owner m) (sm_subsumed m) oe se (mw_queues w))\<lparr>wake_log := lg\<rparr>"
  have sh: "shared_MergeWithLease (rm_id r) n (m, mw_queues w) = Inr (True, set_lease (rm_id r) n m, ?q)"
    using mg mq by (simp add: shared_MergeWithLease_def)
  then have okq: "merger_ok (set_lease (rm_id r) n m, ?q)"
    using merger_ok_MergeWithLease [OF raster_ok_deref(5) [OF ok] n, of "rm_id r"] by auto
  let ?w = "notify_one (call_back r True (store_shared r (set_lease (rm_id r) n m, ?q) w))"
  have "MergeWithLease n r w = Inr ?w"
    using raster_ok_deref [OF ok] mg sh by (simp add: MergeWithLease_def)
  moreover have "raster_ok r ?w (set_lease (rm_id r) n m)" using ok okq by (simp add: raster_ok_def)
  moreover have "mw_queues ?w = ?q" by simp
  ultimately show ?thesis using e f by blast
qed

lemma sole_lease_ends:
  assumes ok: "raster_ok r w m" and mg: "\<not> shared_IsMergedUnSafe m"
  shows "\<exists>w1 w2. MergeWithLease (Suc n) r w = Inr w1 \<and>
    decrement_times (Suc n) r w1 = Inr (replicate n kRemainsMerged @ [kUnmergedNow], w2) \<and>
    queue_entries (mw_queues w2) = queue_entries (mw_queues w)"
proof -
  let ?i = "sm_owner m" and ?j = "sm_subsumed m"
  obtain w1 oe se lg where w1: "MergeWithLease (Suc n) r w = Inr w1" "raster_ok r w1 (set_lease (rm_id r) (Suc n) m)"
    and e: "queue_entries (mw_queues w) ?i = Some oe" "queue_entries (mw_queues w) ?j = Some se"
    and q1: "mw_queues w1 = (merged ?i ?j oe se (mw_queues w))\<lparr>wake_log := lg\<rparr>"
    and f: "?i \<noteq> ?j" "?j |\<notin>| owner_of oe" "subsumed_by se = kUnmerged"
    using MergeWithLease_fresh [OF ok mg, of "Suc n"] by blast
  have "\<not> others_hold r (set_lease (rm_id r) (Suc n) m)"
    unfolding others_hold_set_lease [OF raster_ok_wf [OF ok]]
    using mg by (auto simp: others_hold_def merged_iff [OF raster_ok_wf [OF ok]])
  from decrement_times_sole [OF w1(2) own_lease_after [OF ok] this] obtain w2 oe1 se1 lg2 where
    w2: "decrement_times (Suc n) r w1 = Inr (replicate n kRemainsMerged @ [kUnmergedNow], w2)"
    and e1: "queue_entries (mw_queues w1) ?i = Some oe1" "queue_entries (mw_queues w1) ?j = Some se1"
    and q2: "mw_queues w2 = (unmerged ?i ?j oe1 se1 (mw_queues w1))\<lparr>wake_log := lg2\<rparr>"
    by auto
  have eq: "oe1 = oe\<lparr>owner_of := finsert ?j (owner_of oe)\<rparr>" "se1 = se\<lparr>subsumed_by := ?i\<rparr>"
    using e1 q1 f(1) by (simp_all add: merged_def)
  have "finsert ?j (owner_of oe) |-| {|?j|} = owner_of oe" using f(2) by auto
  then have "queue_entries (mw_queues w2) = queue_entries (mw_queues w)"
    using q2 q1 e f eq by (auto simp: unmerged_def merged_def fun_eq_iff)
  with w1(1) w2 show ?thesis by blast
qed

lemma shared_lease_stays:
  assumes ok: "raster_ok r w m" and others: "others_hold r m"
  shows "\<exists>w1 w2. ExtendLeaseTo (Suc n) r w = Inr w1 \<and>
    decrement_times (Suc n) r w1 = Inr (replicate (Suc n) kRemainsMerged, w2) \<and>
    mw_queues w2 = mw_queues w \<and> DecrementLease r w2 = Inl Check_failed"
proof -
  have mg: "shared_IsMergedUnSafe m"
    using others merged_iff [OF raster_ok_wf [OF ok]] by (auto simp: others_hold_def)
  obtain w1 where w1: "ExtendLeaseTo (Suc n) r w = Inr w1" "raster_ok r w1 (set_lease (rm_id r) (Suc n) m)"
      "mw_queues w1 = mw_queues w"
    using ExtendLeaseTo_merged [OF ok mg, of "Suc n"] by blast
  have "others_hold r (set_lease (rm_id r) (Suc n) m)"
    using others others_hold_set_lease [OF raster_ok_wf [OF ok]] by simp
  from decrement_times_shared [OF w1(2) own_lease_after [OF ok] this] w1(1,3) show ?thesis
    by (auto dest!: DecrementLease_spent)
qed

section \<open>Properties\<close>

text \<open>C31:
  in every state reached by the lease protocol from two free queues, the lease table reports
  "merged" exactly when the platform queue owns the raster queue in the task queues.\<close>

theorem leases_track_ownership:
  assumes "lease_reach (m, q)"
  shows "Owns q (sm_owner m) (sm_subsumed m) = Inr (shared_IsMergedUnSafe m)"
proof -
  from lease_reach_ok [OF assms] obtain oe se where
    e: "queue_entries q (sm_owner m) = Some oe" "queue_entries q (sm_subsumed m) = Some se"
    and f: "queues_wf q" "shared_IsMergedUnSafe m \<longleftrightarrow> sm_subsumed m |\<in>| owner_of oe"
    by (auto simp: merger_ok_def)
  have "sm_owner m \<noteq> kUnmerged" "sm_subsumed m \<noteq> kUnmerged"
    using entries_wfD(1) [OF queues_wf_entries [OF f(1)]] e by auto
  with e f(2) show ?thesis by (simp add: Owns_def)
qed

text \<open>In such a state no protocol operation aborts: a merge with a positive lease, a withdrawal while
  merged, and a decrement of a lease that is absent or positive all return normally.\<close>

theorem lease_protocol_never_aborts:
  assumes "lease_reach (m, q)"
  shows "(n > 0 \<longrightarrow> (\<exists>r. shared_MergeWithLease c n (m, q) = Inr r)) \<and>
    (shared_IsMergedUnSafe m \<longrightarrow> (\<exists>r. shared_UnMergeNowIfLastOne c (m, q) = Inr r)) \<and>
    (shared_IsMergedUnSafe m \<and> om_lookup (lease_term_by_caller m) c \<noteq> Some 0 \<longrightarrow>
       (\<exists>r. shared_DecrementLease c (m, q) = Inr r))"
proof -
  note ok = lease_reach_ok [OF assms]
  have "\<exists>r. shared_DecrementLease c (m, q) = Inr r"
    if "shared_IsMergedUnSafe m" "om_lookup (lease_term_by_caller m) c \<noteq> Some 0"
    using merger_ok_DecrementLease [OF ok that(1), of c] that(2)
    by (cases "om_lookup (lease_term_by_caller m) c") auto
  then show ?thesis
    using merger_ok_MergeWithLease [OF ok, of n c] merger_ok_UnMergeNowIfLastOne [OF ok, of c] by blast
qed

text \<open>C20:
  a lease counts frames. When a merger whose queues are not merged takes a lease of \<open>n + 1\<close>, its first \<open>n\<close>
  decrements keep the threads merged, the next one unmerges them, and every task queue entry is then
  as it was before the merge. When the threads are merged because another caller holds a lease and this
  merger extends its own lease to \<open>n + 1\<close>, all \<open>n + 1\<close> decrements report that the threads remain merged and
  leave the task queues alone, and a further decrement fails the \<open>FML_CHECK\<close> of \<open>DecrementLease\<close> as long
  as the other lease lasts.\<close>

theorem lease_of_n_ends_after_n:
  assumes "raster_ok r w m"
  shows "(\<not> shared_IsMergedUnSafe m \<longrightarrow>
      (\<exists>w1 w2. MergeWithLease (Suc n) r w = Inr w1 \<and>
         decrement_times (Suc n) r w1 = Inr (replicate n kRemainsMerged @ [kUnmergedNow], w2) \<and>
         queue_entries (mw_queues w2) = queue_entries (mw_queues w))) \<and>
    (c \<noteq> rm_id r \<and> om_lookup (lease_term_by_caller m) c = Some (Suc k) \<longrightarrow>
      (\<exists>w1 w2. ExtendLeaseTo (Suc n) r w = Inr w1 \<and>
         decrement_times (Suc n) r w1 = Inr (replicate (Suc n) kRemainsMerged, w2) \<and>
         mw_queues w2 = mw_queues w \<and> DecrementLease r w2 = Inl Check_failed))"
  using sole_lease_ends [OF assms, of n] shared_lease_stays [OF assms, of n]
  by (auto simp: others_hold_def)

text \<open>The same for a caller whose lease is recorded as zero, whatever happened before.\<close>

theorem decrement_of_spent_lease_aborts:
  assumes "raster_ok r w m" and "om_lookup (lease_term_by_caller m) (rm_id r) = Some 0"
    and "om_lookup (lease_term_by_caller m) c = Some (Suc k)"
  shows "DecrementLease r w = Inl Check_failed"
proof -
  have "c \<noteq> rm_id r" using assms(2,3) by auto
  with assms(3) have "others_hold r m" by (force simp: others_hold_def)
  with DecrementLease_spent [OF assms(1,2)] show ?thesis .
qed

section \<open>Witnesses\<close>

definition example_merger :: RasterThreadMerger where
  "example_merger = \<lparr>rm_id = 1, platform_queue_id = 0, gpu_queue_id = 1, shared_merger = 0,
     merge_unmerge_callback = None\<rparr>"

definition example_world :: "SharedThreadMerger \<Rightarrow> MessageLoopTaskQueues \<Rightarrow> MergerWorld" where
  "example_world m q = \<lparr>shared_mergers = [0 \<mapsto> m], mw_queues = q, callbacks_made = [], notifications = 0\<rparr>"

lemma example_lease_start: "lease_reach (SharedThreadMerger_new 0 1, example_queues)"
  by (rule lease_reach.start [OF example_reach example_entries]) (simp_all add: TaskQueueEntry_new_def)

lemma example_merger_ok: "raster_ok example_merger (example_world (SharedThreadMerger_new 0 1) example_queues)
    (SharedThreadMerger_new 0 1)"
  using lease_reach_ok [OF example_lease_start]
  by (simp add: raster_ok_def example_merger_def example_world_def SharedThreadMerger_new_def)

theorem leases_track_ownership_witness:
  "lease_reach (SharedThreadMerger_new 0 1, example_queues) \<and>
   Owns example_queues 0 1 = Inr (shared_IsMergedUnSafe (SharedThreadMerger_new 0 1))"
  using leases_track_ownership [OF example_lease_start] example_lease_start
  by (simp add: SharedThreadMerger_new_def)

theorem lease_protocol_never_aborts_witness:
  "lease_reach (SharedThreadMerger_new 0 1, example_queues) \<and>
   (\<exists>r. shared_MergeWithLease 7 3 (SharedThreadMerger_new 0 1, example_queues) = Inr r)"
  using lease_protocol_never_aborts [OF example_lease_start, of 3 7] example_lease_start by simp

text \<open>Caller \<open>2\<close> holds a lease of four frames, and the queues are merged.\<close>

lemma example_shared_lease:
  obtains q where "merger_ok (set_lease 2 4 (SharedThreadMerger_new 0 1), q)"
    "shared_IsMergedUnSafe (set_lease 2 4 (SharedThreadMerger_new 0 1))"
proof -
  have "\<not> shared_IsMergedUnSafe (SharedThreadMerger_new 0 1)"
    by (simp add: shared_IsMergedUnSafe_def IsAllLeaseTermsZeroUnSafe_def SharedThreadMerger_new_def)
  with merger_ok_MergeWithLease [OF lease_reach_ok [OF example_lease_start], of 4 2] that show ?thesis by auto
qed

theorem lease_of_n_ends_after_n_witness:
  "(\<exists>w1 w2. MergeWithLease 3 example_merger (example_world (SharedThreadMerger_new 0 1) example_queues) = Inr w1 \<and>
    decrement_times 3 example_merger w1 = Inr ([kRemainsMerged, kRemainsMerged, kUnmergedNow], w2)) \<and>
   (\<exists>q w1 w2. ExtendLeaseTo 2 example_merger (example_world (set_lease 2 4 (SharedThreadMerger_new 0 1)) q) = Inr w1 \<and>
    decrement_times 2 example_merger w1 = Inr ([kRemainsMerged, kRemainsMerged], w2) \<and>
    DecrementLease example_merger w2 = Inl Check_failed)"
proof (rule conjI)
  have "\<not> shared_IsMergedUnSafe (SharedThreadMerger_new 0 1)"
    by (simp add: shared_IsMergedUnSafe_def IsAllLeaseTermsZeroUnSafe_def SharedThreadMerger_new_def)
  with lease_of_n_ends_after_n [OF example_merger_ok, of 2]
  have "\<exists>w1 w2. MergeWithLease (Suc 2) example_merger (example_world (SharedThreadMerger_new 0 1) example_queues) = Inr w1 \<and>
      decrement_times (Suc 2) example_merger w1 = Inr (replicate 2 kRemainsMerged @ [kUnmergedNow], w2)" by blast
  then show "\<exists>w1 w2. MergeWithLease 3 example_merger (example_world (SharedThreadMerger_new 0 1) example_queues) = Inr w1 \<and>
    decrement_times 3 example_merger w1 = Inr ([kRemainsMerged, kRemainsMerged, kUnmergedNow], w2)"
    by (simp add: numeral_eq_Suc del: decrement_times.simps)
next
  let ?m = "set_lease 2 4 (SharedThreadMerger_new 0 1)"
  obtain q where "merger_ok (?m, q)" by (rule example_shared_lease)
  then have "raster_ok example_merger (example_world ?m q) ?m"
    by (simp add: raster_ok_def example_merger_def example_world_def SharedThreadMerger_new_def)
  moreover have "2 \<noteq> rm_id example_merger" "om_lookup (lease_term_by_caller ?m) 2 = Some (Suc 3)"
    by (simp_all add: example_merger_def SharedThreadMerger_new_def om_lookup_def)
  ultimately have "\<exists>w1 w2. ExtendLeaseTo (Suc 1) example_merger (example_world ?m q) = Inr w1 \<and>
      decrement_times (Suc 1) example_merger w1 = Inr (replicate (Suc 1) kRemainsMerged, w2) \<and>
      mw_queues w2 = mw_queues (example_world ?m q) \<and> DecrementLease example_merger w2 = Inl Check_failed"
    using lease_of_n_ends_after_n [of example_merger _ ?m 1 2 3] by blast
  then show "\<exists>q w1 w2. ExtendLeaseTo 2 example_merger (example_world ?m q) = Inr w1 \<and>
    decrement_times 2 example_merger w1 = Inr ([kRemainsMerged, kRemainsMerged], w2) \<and>
    DecrementLease example_merger w2 = Inl Check_failed"
    unfolding numeral_2_eq_2 One_nat_def by (auto simp del: decrement_times.simps)
qed

theorem decrement_of_spent_lease_aborts_witness:
  "\<exists>q. DecrementLease example_merger
     (example_world (set_lease 1 0 (set_lease 2 4 (SharedThreadMerger_new 0 1))) q) = Inl Check_failed"
proof -
  let ?m1 = "set_lease 2 4 (SharedThreadMerger_new 0 1)"
  let ?m = "set_lease 1 0 ?m1"
  obtain q where q: "merger_ok (?m1, q)" "shared_IsMergedUnSafe ?m1" by (rule example_shared_lease)
  have "merger_ok (?m, q)"
    by (rule merger_ok_leases [OF q])
       (simp_all add: shared_IsMergedUnSafe_def IsAllLeaseTermsZeroUnSafe_def SharedThreadMerger_new_def
         om_wf_def)
  then have "raster_ok example_merger (example_world ?m q) ?m"
    by (simp add: raster_ok_def example_merger_def example_world_def SharedThreadMerger_new_def)
  from decrement_of_spent_lease_aborts [OF this, of 2 3] show ?thesis
    by (auto simp: example_merger_def SharedThreadMerger_new_def om_lookup_def)
qed

end
