(* ===== verification/Base64.thy ===== *)
theory Base64
  imports Prelude
begin

unbundle bit_operations_syntax

text \<open>
  \<open>shell/common/base64\<close>. The decoder reads from a buffer that may extend past \<open>srcLength\<close>: its
  inner loop looks at the byte behind the one it decodes and skips white space without comparing
  with \<open>end\<close>, so a read beyond the buffer is a result of the model. Output positions are naturals
  (the code's \<open>int i\<close> is exact below two gigabytes).
\<close>

section \<open>Tables\<close>

definition kDefaultEncode :: string where
  "kDefaultEncode = ''ABCDEFGHIJKLMNOPQRSTUVWXYZ'' @ ''abcdefghijklmnopqrstuvwxyz'' @ ''0123456789+/=''"

definition kDecodeData :: "int list" where
  "kDecodeData =
    [62, -1, -1, -1, 63, 52, 53, 54, 55, 56, 57, 58, 59, 60, 61, -1,
     -1, -1, -2, -1, -1, -1, 0,  1,  2,  3,  4,  5,  6,  7,  8,  9,
     10, 11, 12, 13, 14, 15, 16, 17, 18, 19, 20, 21, 22, 23, 24, 25,
     -1, -1, -1, -1, -1, -1, 26, 27, 28, 29, 30, 31, 32, 33, 34, 35,
     36, 37, 38, 39, 40, 41, 42, 43, 44, 45, 46, 47, 48, 49, 50, 51]"

text \<open>\<open>encode[k]\<close> as the byte stored in \<open>dst\<close>.\<close>

definition encode_char :: "32 word \<Rightarrow> byte" where
  "encode_char k = word_of_nat (of_char (kDefaultEncode ! unat k))"

definition EncodePad :: "32 word" where
  "EncodePad = 64"

section \<open>Encoding\<close>

definition EncodedSize :: "nat \<Rightarrow> nat" where
  "EncodedSize srcDataLength = ((srcDataLength + 2) div 3) * 4"

text \<open>The loop over whole groups and the remainder; integer promotion makes the bytes 32-bit.\<close>

fun encode_bytes :: "byte list \<Rightarrow> byte list" where
  "encode_bytes (x # y # z # src) =
     (let a = ucast x :: 32 word; b = ucast y; c = ucast z;
          d = c AND 0x3F;
          c = (drop_bit 6 c OR push_bit 2 b) AND 0x3F;
          b = (drop_bit 4 b OR push_bit 4 a) AND 0x3F;
          a = drop_bit 2 a
      in encode_char a # encode_char b # encode_char c # encode_char d # encode_bytes src)"
| "encode_bytes [] = []"
| "encode_bytes [x] =
     (let a = ucast x :: 32 word; k1 = 0; k2 = EncodePad
      in [encode_char (drop_bit 2 a), encode_char ((k1 OR push_bit 4 a) AND 0x3F), encode_char k2,
          encode_char EncodePad])"
| "encode_bytes [x, y] =
     (let a = ucast x :: 32 word; b = ucast y :: 32 word;
          k1 = drop_bit 4 b; k2 = push_bit 2 b AND 0x3F
      in [encode_char (drop_bit 2 a), encode_char ((k1 OR push_bit 4 a) AND 0x3F), encode_char k2,
          encode_char EncodePad])"

text \<open>The returned size and the bytes written to \<open>dst\<close>.\<close>

definition Encode :: "byte list \<Rightarrow> nat \<times> byte list" where
  "Encode src = (EncodedSize (length src), encode_bytes src)"

section \<open>Decoding\<close>

datatype Base64_Error = kBadPadding | kBadChar | Read_past_end

text \<open>
  How the inner loop ends: a NUL byte returns from \<open>Decode\<close>; otherwise the position behind the
  group, its sextets and the two padding flags.
\<close>

datatype group = Return | Group (next_pos: nat) (group_bytes: "byte list") (padTwo: bool) (padThree: bool)

definition pad_group :: "nat \<Rightarrow> byte list \<Rightarrow> nat \<Rightarrow> Base64_Error + group" where
  "pad_group p bytes byte =
     (if byte < 2 then Inl kBadPadding else Inr (Group p bytes (byte = 2) True))"

definition next_or_group :: "nat \<Rightarrow> byte list \<Rightarrow> nat \<Rightarrow> (unit \<Rightarrow> Base64_Error + group) \<Rightarrow> Base64_Error + group" where
  "next_or_group p bytes byte loop = (if byte < 4 then loop () else Inr (Group p bytes False False))"

lemma next_or_group_cong [fundef_cong]:
  "p = p' \<Longrightarrow> bytes = bytes' \<Longrightarrow> byte = byte' \<Longrightarrow> (byte' < 4 \<Longrightarrow> loop () = loop' ()) \<Longrightarrow>
     next_or_group p bytes byte loop = next_or_group p' bytes' byte' loop'"
  by (simp add: next_or_group_def)

function read_group :: "byte list \<Rightarrow> nat \<Rightarrow> byte list \<Rightarrow> nat \<Rightarrow> Base64_Error + group" where
  "read_group buf p bytes byte =
     (if length buf \<le> p then Inl Read_past_end
      else let srcByte = buf ! p; p = Suc p in
        if srcByte = 0 then Inr Return
        else if srcByte \<le> 32 then next_or_group p bytes byte (\<lambda>_. read_group buf p bytes byte)
        else if srcByte < 43 \<or> srcByte > 122 then Inl kBadChar
        else let decoded = kDecodeData ! unat (srcByte - 43);
                 bytes = bytes[byte := word_of_int decoded] in
          if decoded \<noteq> -2 then
            if decoded < 0 then Inl kBadChar
            else if length buf \<le> p then Inl Read_past_end
            else if buf ! p \<noteq> 0 then
              next_or_group p bytes (Suc byte) (\<lambda>_. read_group buf p bytes (Suc byte))
            else if Suc byte = 4 then Inr (Group p bytes False False)
            else pad_group p bytes (Suc byte)
          else pad_group p bytes byte)"
  by pat_completeness auto
termination
  by (relation "measure (\<lambda>(buf, p, bytes, byte). length buf - p)") auto

declare read_group.simps [simp del]

text \<open>The outer loop; \<open>out\<close> stays empty when \<open>dst\<close> is null.\<close>

definition emit :: "bool \<Rightarrow> byte \<Rightarrow> nat \<times> byte list \<Rightarrow> nat \<times> byte list" where
  "emit dst b s = (Suc (fst s), if dst then snd s @ [b] else snd s)"

definition group_one :: "byte list \<Rightarrow> byte" where
  "group_one bytes = push_bit 2 (bytes ! 0) OR drop_bit 4 (bytes ! 1)"

definition group_two :: "byte list \<Rightarrow> byte" where
  "group_two bytes = push_bit 4 (bytes ! 1) OR drop_bit 2 (bytes ! 2)"

definition group_three :: "byte list \<Rightarrow> byte" where
  "group_three bytes = push_bit 6 (bytes ! 2) OR bytes ! 3"

lemma read_group_advances:
  "read_group buf p bytes byte = Inr (Group q bs t h) \<Longrightarrow> p < q \<and> q \<le> length buf"
proof (induction buf p bytes byte rule: read_group.induct)
  case (1 buf p bytes byte)
  from "1.prems" show ?case
    using 1(1) [OF _ refl refl] 1(2) [OF _ refl refl _ _ _ refl refl]
    by (subst (asm) read_group.simps)
      (auto simp: Let_def next_or_group_def pad_group_def split: if_splits)
qed

function decode_groups :: "bool \<Rightarrow> byte list \<Rightarrow> nat \<Rightarrow> nat \<Rightarrow> nat \<times> byte list \<Rightarrow> Base64_Error + nat \<times> byte list" where
  "decode_groups dst buf srcLength p s =
     (if srcLength \<le> p then Inr s
      else case read_group buf p [0, 0, 0, 0] 0 of
          Inl e \<Rightarrow> Inl e
        | Inr Return \<Rightarrow> Inr s
        | Inr (Group q bytes two three) \<Rightarrow>
            let s = emit dst (group_one bytes) s in
            if two then Inr s
            else let s = emit dst (group_two bytes) s in
              if three then Inr s
              else decode_groups dst buf srcLength q (emit dst (group_three bytes) s))"
  by pat_completeness auto
termination
  by (relation "measure (\<lambda>(dst, buf, srcLength, p, s). srcLength - p)")
    (auto dest: read_group_advances)

declare decode_groups.simps [simp del]

definition Decode :: "byte list \<Rightarrow> nat \<Rightarrow> bool \<Rightarrow> Base64_Error + nat \<times> byte list" where
  "Decode buf srcLength dst = decode_groups dst buf srcLength 0 (0, [])"

section \<open>One character\<close>

lemma drop_ConsD:
  assumes "drop p buf = x # xs"
  shows "\<not> length buf \<le> p" "buf ! p = x" "drop (Suc p) buf = xs"
proof -
  show le: "\<not> length buf \<le> p" using assms by auto
  then have "buf ! p # drop (Suc p) buf = x # xs"
    using Cons_nth_drop_Suc [of p buf] assms by (simp only: not_le)
  then show "buf ! p = x" "drop (Suc p) buf = xs" by simp_all
qed

lemma encode_table:
  "list_all (\<lambda>n. let c = of_char (kDefaultEncode ! n) in
      43 \<le> c \<and> c \<le> 122 \<and> kDecodeData ! (c - 43) = int n) [0..<64]"
  by (simp add: kDefaultEncode_def kDecodeData_def Let_def
      upt_rec [of 0] upt_rec [of "Suc 0"] numeral_2_eq_2 [symmetric] upt_rec_numeral)

lemma encode_char:
  assumes "unat k < 64"
  shows "32 < encode_char k" "\<not> encode_char k < 43" "\<not> 122 < encode_char k"
    "kDecodeData ! unat (encode_char k - 43) = int (unat k)"
proof -
  define c where "c = (of_char (kDefaultEncode ! unat k) :: nat)"
  have c: "43 \<le> c" "c \<le> 122" "kDecodeData ! (c - 43) = int (unat k)"
    using encode_table [unfolded list_all_iff] assms by (auto simp: c_def Let_def)
  have e: "unat (encode_char k) = c"
    using c(2) by (simp add: encode_char_def c_def [symmetric] unat_of_nat)
  show lt: "32 < encode_char k" "\<not> encode_char k < 43" "\<not> 122 < encode_char k"
    using c by (simp_all add: word_less_nat_alt e)
  have "unat (encode_char k - 43) = c - 43"
    using lt(2) by (simp add: unat_sub not_less e)
  then show "kDecodeData ! unat (encode_char k - 43) = int (unat k)" using c(3) by simp
qed

lemma encode_char_pad: "encode_char EncodePad = 61"
  by code_simp

lemma encode_char_nonzero: "unat k < 64 \<Longrightarrow> encode_char k \<noteq> 0"
  using encode_char(1) [of k] by auto

lemma word_of_unat_cast: "(word_of_int (int (unat (k :: 32 word))) :: byte) = ucast k"
  by simp

lemma read_group_char:
  assumes "drop p buf = encode_char k # c # xs" and "unat k < 64"
  shows "read_group buf p bytes byte =
     (if c \<noteq> 0 then next_or_group (Suc p) (bytes[byte := ucast k]) (Suc byte)
         (\<lambda>_. read_group buf (Suc p) (bytes[byte := ucast k]) (Suc byte))
      else if Suc byte = 4 then Inr (Group (Suc p) (bytes[byte := ucast k]) False False)
      else pad_group (Suc p) (bytes[byte := ucast k]) (Suc byte))"
proof -
  note k = encode_char [OF assms(2)] encode_char_nonzero [OF assms(2)]
  note d = drop_ConsD(1,2) [OF assms(1)] drop_ConsD(1,2) [OF drop_ConsD(3) [OF assms(1)]]
  have r: "\<not> encode_char k \<le> 32" "uint k \<noteq> -2" "\<not> uint k < 0"
    using k(1) uint_ge_0 [of k] by (simp, linarith+)
  show ?thesis
    by (subst read_group.simps) (simp add: d k r Let_def)
qed

lemma read_group_pad:
  assumes "drop p buf = encode_char EncodePad # xs"
  shows "read_group buf p bytes byte = pad_group (Suc p) (bytes[byte := -2]) byte"
proof -
  note d = drop_ConsD(1,2) [OF assms, unfolded encode_char_pad]
  have "kDecodeData ! 18 = -2" by code_simp
  then show ?thesis by (subst read_group.simps) (simp add: d Let_def)
qed

section \<open>One group\<close>

lemma read_group_full:
  assumes "drop p buf = encode_char a # encode_char b # encode_char c # encode_char d # x # xs"
    and k: "unat a < 64" "unat b < 64" "unat c < 64" "unat d < 64"
  shows "read_group buf p [0, 0, 0, 0] 0 =
     Inr (Group (p + 4) [ucast a, ucast b, ucast c, ucast d] False False)"
proof -
  have q: "drop (Suc p) buf = encode_char b # encode_char c # encode_char d # x # xs"
    "drop (Suc (Suc p)) buf = encode_char c # encode_char d # x # xs"
    "drop (Suc (Suc (Suc p))) buf = encode_char d # x # xs"
    using drop_ConsD(3) [OF assms(1)] drop_ConsD(3) [OF drop_ConsD(3) [OF assms(1)]]
      drop_ConsD(3) [OF drop_ConsD(3) [OF drop_ConsD(3) [OF assms(1)]]] by simp_all
  show ?thesis
    using read_group_char [OF assms(1) k(1)] read_group_char [OF q(1) k(2)]
      read_group_char [OF q(2) k(3)] read_group_char [OF q(3) k(4)] encode_char_nonzero k
    by (simp add: next_or_group_def)
qed

lemma read_group_two:
  assumes "drop p buf = encode_char a # encode_char b # encode_char EncodePad # xs"
    and k: "unat a < 64" "unat b < 64"
  shows "read_group buf p [0, 0, 0, 0] 0 = Inr (Group (p + 3) [ucast a, ucast b, -2, 0] True True)"
proof -
  have q: "drop (Suc p) buf = encode_char b # encode_char EncodePad # xs"
    "drop (Suc (Suc p)) buf = encode_char EncodePad # xs"
    using drop_ConsD(3) [OF assms(1)] drop_ConsD(3) [OF drop_ConsD(3) [OF assms(1)]] by simp_all
  show ?thesis
    using read_group_char [OF assms(1) k(1)] read_group_char [OF q(1) k(2)] read_group_pad [OF q(2)]
      encode_char_nonzero k encode_char_pad
    by (simp add: next_or_group_def pad_group_def)
qed

lemma read_group_three:
  assumes "drop p buf = encode_char a # encode_char b # encode_char c # encode_char EncodePad # xs"
    and k: "unat a < 64" "unat b < 64" "unat c < 64"
  shows "read_group buf p [0, 0, 0, 0] 0 = Inr (Group (p + 4) [ucast a, ucast b, ucast c, -2] False True)"
proof -
  have q: "drop (Suc p) buf = encode_char b # encode_char c # encode_char EncodePad # xs"
    "drop (Suc (Suc p)) buf = encode_char c # encode_char EncodePad # xs"
    "drop (Suc (Suc (Suc p))) buf = encode_char EncodePad # xs"
    using drop_ConsD(3) [OF assms(1)] drop_ConsD(3) [OF drop_ConsD(3) [OF assms(1)]]
      drop_ConsD(3) [OF drop_ConsD(3) [OF drop_ConsD(3) [OF assms(1)]]] by simp_all
  show ?thesis
    using read_group_char [OF assms(1) k(1)] read_group_char [OF q(1) k(2)]
      read_group_char [OF q(2) k(3)] read_group_pad [OF q(3)] encode_char_nonzero k encode_char_pad
    by (simp add: next_or_group_def pad_group_def)
qed

section \<open>Bits of a group\<close>

lemma and_63: "unat (w AND 0x3F :: 32 word) < 64"
proof -
  have "w AND 0x3F = w AND mask 6" by (simp add: mask_eq_exp_minus_1)
  then have "w AND 0x3F < 2 ^ 6" using and_mask_less' [of 6 w] by simp
  then show ?thesis by (simp add: word_less_nat_alt)
qed

lemma sextet_shift: "unat (drop_bit 2 (ucast x :: 32 word)) < 64" for x :: byte
proof -
  have "unat (ucast x :: 32 word) < 256" using unsigned_less [of x, where 'a = nat]
    by (simp add: unsigned_ucast_eq take_bit_nat_eq_self)
  then show ?thesis by (simp add: unat_drop_bit_eq drop_bit_nat_def)
qed

lemma byte_eqI: "(\<And>n. n \<in> {0, 1, 2, 3, 4, 5, 6, 7} \<Longrightarrow> bit x n = bit y n) \<Longrightarrow> x = y" for x y :: byte
proof (rule bit_word_eqI)
  fix n
  assume eq: "\<And>n. n \<in> {0, 1, 2, 3, 4, 5, 6, 7} \<Longrightarrow> bit x n = bit y n" and lt: "n < LENGTH(8)"
  from lt have "n \<in> {0, 1, 2, 3, 4, 5, 6, 7}" by auto
  then show "bit x n = bit y n" by (rule eq)
qed

text \<open>\<open>v\<close> and \<open>w\<close> are what the next byte contributes to a sextet: its high bits, or nothing.\<close>

lemma group_bits:
  fixes x y z :: byte and v w :: "32 word"
  shows
    "(\<And>n. 4 \<le> n \<Longrightarrow> n < 8 \<Longrightarrow> \<not> bit w n) \<Longrightarrow>
       push_bit 2 (ucast (drop_bit 2 (ucast x :: 32 word)) :: byte) OR
       drop_bit 4 (ucast ((w OR push_bit 4 (ucast x)) AND 0x3F)) = x"
    "(\<And>n. 2 \<le> n \<Longrightarrow> n < 8 \<Longrightarrow> \<not> bit v n) \<Longrightarrow>
       push_bit 4 (ucast ((drop_bit 4 (ucast y) OR push_bit 4 (ucast x)) AND 0x3F :: 32 word) :: byte) OR
       drop_bit 2 (ucast ((v OR push_bit 2 (ucast y)) AND 0x3F)) = y"
    "push_bit 6 (ucast ((drop_bit 6 (ucast z) OR push_bit 2 (ucast y)) AND 0x3F :: 32 word) :: byte) OR
       ucast (ucast z AND 0x3F :: 32 word) = z"
  by (rule byte_eqI; auto simp: bit_simps numeral_2_eq_2 [symmetric])+

lemma byte_high_bits: "4 \<le> n \<Longrightarrow> \<not> bit (drop_bit 4 (ucast y :: 32 word)) n"
  "2 \<le> n \<Longrightarrow> \<not> bit (drop_bit 6 (ucast y :: 32 word)) n" for y :: byte
  using bit_imp_le_length [of y "4 + n"] bit_imp_le_length [of y "6 + n"] by (auto simp: bit_simps)

lemmas group_defs = group_one_def group_two_def group_three_def

lemma groups_decode:
  fixes x y z :: byte
  shows "group_one [ucast (drop_bit 2 (ucast x :: 32 word)),
      ucast ((drop_bit 4 (ucast y) OR push_bit 4 (ucast x)) AND 0x3F :: 32 word), c, d] = x"
    "group_one [ucast (drop_bit 2 (ucast x :: 32 word)), ucast (push_bit 4 (ucast x) AND 0x3F :: 32 word), c, d] = x"
    "group_two [a, ucast ((drop_bit 4 (ucast y) OR push_bit 4 (ucast x)) AND 0x3F :: 32 word),
      ucast ((drop_bit 6 (ucast z) OR push_bit 2 (ucast y)) AND 0x3F :: 32 word), d] = y"
    "group_two [a, ucast ((drop_bit 4 (ucast y) OR push_bit 4 (ucast x)) AND 0x3F :: 32 word),
      ucast (push_bit 2 (ucast y) AND 0x3F :: 32 word), d] = y"
    "group_three [a, b, ucast ((drop_bit 6 (ucast z) OR push_bit 2 (ucast y)) AND 0x3F :: 32 word),
      ucast (ucast z AND 0x3F :: 32 word)] = z"
  using group_bits(1) [of "drop_bit 4 (ucast y)" x] group_bits(1) [of 0 x]
    group_bits(2) [of "drop_bit 6 (ucast z)" y x] group_bits(2) [of 0 y x] group_bits(3) [of z y]
  by (simp_all add: group_defs byte_high_bits)

section \<open>Round trip\<close>

lemma emit_sel: "fst (emit dst b s) = Suc (fst s)" "snd (emit dst b s) = snd s @ (if dst then [b] else [])"
  by (simp_all add: emit_def)

lemma EncodedSize_simps [simp]:
  "EncodedSize 0 = 0" "EncodedSize (Suc 0) = 4" "EncodedSize (Suc (Suc 0)) = 4"
  "EncodedSize (Suc (Suc (Suc n))) = 4 + EncodedSize n"
proof -
  have "Suc (Suc (Suc n)) + 2 = n + 2 + 3" by simp
  then show "EncodedSize (Suc (Suc (Suc n))) = 4 + EncodedSize n"
    unfolding EncodedSize_def by (simp only: div_add_self2) simp
qed (simp_all add: EncodedSize_def)

lemma encode_bytes_length: "length (encode_bytes src) = EncodedSize (length src)"
  by (induction src rule: encode_bytes.induct) (simp_all add: Let_def)

lemma encode_bytes_nonempty: "encode_bytes src = [] \<longleftrightarrow> src = []"
  by (cases src rule: encode_bytes.cases) (simp_all add: Let_def)

lemma decode_encoded:
  assumes "drop p buf = encode_bytes src @ rest" and "rest \<noteq> [] \<or> length src mod 3 \<noteq> 0"
  shows "decode_groups dst buf (p + EncodedSize (length src)) p s =
     Inr (fst s + length src, snd s @ (if dst then src else []))"
  using assms
proof (induction src arbitrary: p s rule: encode_bytes.induct)
  case (1 x y z src)
  let ?a = "drop_bit 2 (ucast x :: 32 word)"
  let ?b = "(drop_bit 4 (ucast y) OR push_bit 4 (ucast x)) AND 0x3F :: 32 word"
  let ?c = "(drop_bit 6 (ucast z) OR push_bit 2 (ucast y)) AND 0x3F :: 32 word"
  let ?d = "ucast z AND 0x3F :: 32 word"
  have d: "drop p buf = encode_char ?a # encode_char ?b # encode_char ?c # encode_char ?d #
      encode_bytes src @ rest"
    using "1.prems"(1) by (simp add: Let_def)
  have ne: "encode_bytes src @ rest \<noteq> []"
    using "1.prems"(2) by (cases src) (auto simp: encode_bytes_nonempty)
  then obtain r rs where r: "encode_bytes src @ rest = r # rs" by (cases "encode_bytes src @ rest") auto
  have g: "read_group buf p [0, 0, 0, 0] 0 =
      Inr (Group (p + 4) [ucast ?a, ucast ?b, ucast ?c, ucast ?d] False False)"
    using read_group_full [OF d [unfolded r]] sextet_shift and_63 by blast
  have n: "drop (p + 4) buf = encode_bytes src @ rest" using d by (simp add: drop_drop [symmetric] add.commute [of p])
  have IH: "decode_groups dst buf (p + 4 + EncodedSize (length src)) (p + 4) s' =
      Inr (fst s' + length src, snd s' @ (if dst then src else []))" for s'
    using "1.IH" n "1.prems"(2) by simp
  show ?case
    using IH [of "emit dst z (emit dst y (emit dst x s))"]
    by (subst decode_groups.simps) (simp add: g groups_decode emit_sel add.assoc split: if_splits)
next
  case 2
  then show ?case by (subst decode_groups.simps) simp
next
  case (3 x)
  let ?a = "drop_bit 2 (ucast x :: 32 word)"
  let ?b = "push_bit 4 (ucast x) AND 0x3F :: 32 word"
  have "drop p buf = encode_char ?a # encode_char ?b # encode_char EncodePad # encode_char EncodePad # rest"
    using 3 by (simp add: Let_def)
  from read_group_two [OF this sextet_shift and_63] show ?case
    by (subst decode_groups.simps) (simp add: groups_decode emit_def)
next
  case (4 x y)
  let ?a = "drop_bit 2 (ucast x :: 32 word)"
  let ?b = "(drop_bit 4 (ucast y) OR push_bit 4 (ucast x)) AND 0x3F :: 32 word"
  let ?c = "push_bit 2 (ucast y) AND 0x3F :: 32 word"
  have "drop p buf = encode_char ?a # encode_char ?b # encode_char ?c # encode_char EncodePad # rest"
    using 4 by (simp add: Let_def)
  from read_group_three [OF this sextet_shift and_63 and_63] show ?case
    by (subst decode_groups.simps) (simp add: groups_decode emit_def)
qed

text \<open>C35: Decoding what \<open>Encode\<close> wrote returns the source, with or without a destination buffer the
  same length, whenever a byte can be read behind the encoded text (any byte, a NUL or not) or the
  text ends in padding; and \<open>Encode\<close> writes exactly the number of bytes it announces.\<close>

theorem base64_round_trip:
  assumes "rest \<noteq> [] \<or> length src mod 3 \<noteq> 0"
  shows "Decode (snd (Encode src) @ rest) (fst (Encode src)) dst =
      Inr (length src, if dst then src else []) \<and>
    length (snd (Encode src)) = fst (Encode src)"
  using decode_encoded [of 0 "encode_bytes src @ rest" src rest dst "(0, [])"] assms
  by (simp add: Decode_def Encode_def encode_bytes_length)

theorem base64_round_trip_witness:
  "Decode (snd (Encode [77, 97, 110]) @ [0]) 4 True = Inr (3, [77, 97, 110])"
  using base64_round_trip [of "[0]" "[77, 97, 110]" True] by (simp add: Encode_def)

section \<open>Sizing call\<close>

text \<open>A run without destination takes the same path as one with it.\<close>

lemma decode_sizing:
  "length (snd s) = fst s \<Longrightarrow> (case decode_groups True buf n p s of
      Inl e \<Rightarrow> decode_groups False buf n p (fst s, []) = Inl e
    | Inr r \<Rightarrow> length (snd r) = fst r \<and> decode_groups False buf n p (fst s, []) = Inr (fst r, []))"
proof (induction "n - p" arbitrary: p s rule: less_induct)
  case less
  show ?case
  proof (cases "n \<le> p")
    case True
    then show ?thesis using less.prems by (simp add: decode_groups.simps)
  next
    case False
    show ?thesis
    proof (cases "read_group buf p [0, 0, 0, 0] 0")
      case (Inl e)
      with False show ?thesis by (simp add: decode_groups.simps)
    next
      case (Inr g)
      show ?thesis
      proof (cases g)
        case Return
        with Inr False less.prems show ?thesis by (simp add: decode_groups.simps)
      next
        case (Group q bytes two three)
        with Inr read_group_advances have "n - q < n - p" using False by (simp add: diff_less_mono2 less_le_trans)
        from less.hyps [OF this, of "emit True (group_three bytes) (emit True (group_two bytes) (emit True (group_one bytes) s))"]
        have IH: "case decode_groups True buf n q
            (emit True (group_three bytes) (emit True (group_two bytes) (emit True (group_one bytes) s))) of
            Inl e \<Rightarrow> decode_groups False buf n q (Suc (Suc (Suc (fst s))), []) = Inl e
          | Inr r \<Rightarrow> length (snd r) = fst r \<and>
              decode_groups False buf n q (Suc (Suc (Suc (fst s))), []) = Inr (fst r, [])"
          using less.prems unfolding emit_sel by simp
        have step: "decode_groups dst buf n p t =
            (let t = emit dst (group_one bytes) t in
             if two then Inr t
             else let t = emit dst (group_two bytes) t in
               if three then Inr t
               else decode_groups dst buf n q (emit dst (group_three bytes) t))" for dst t
          using Inr Group False by (subst decode_groups.simps) simp
        have e: "emit False b (m, []) = (Suc m, [])" for b m by (simp add: emit_def)
        show ?thesis unfolding step Let_def e using IH less.prems by (simp add: emit_sel)
      qed
    qed
  qed
qed

text \<open>The sizing call with a null destination announces exactly the number of bytes the decoding
  call writes, and fails with the same error, on every input.\<close>

theorem base64_sizing_call_exact:
  "case Decode buf srcLength True of
     Inl e \<Rightarrow> Decode buf srcLength False = Inl e
   | Inr (n, out) \<Rightarrow> length out = n \<and> Decode buf srcLength False = Inr (n, [])"
  using decode_sizing [of "(0, [])" buf srcLength 0] unfolding Decode_def
  by (cases "decode_groups True buf srcLength 0 (0, [])") auto

section \<open>Reading behind the text\<close>

lemma read_group_overread:
  assumes "drop p buf = [encode_char a, encode_char b, encode_char c, encode_char d]"
    and k: "unat a < 64" "unat b < 64" "unat c < 64" "unat d < 64"
  shows "read_group buf p [0, 0, 0, 0] 0 = Inl Read_past_end"
proof -
  note q1 = drop_ConsD(3) [OF assms(1)]
  note q2 = drop_ConsD(3) [OF q1]
  note q3 = drop_ConsD(3) [OF q2]
  have last: "length buf \<le> Suc (Suc (Suc (Suc p)))" using drop_ConsD(3) [OF q3] by simp
  have r: "\<not> encode_char d \<le> 32" "uint d \<noteq> -2" "\<not> uint d < 0"
    using encode_char(1) [OF k(4)] uint_ge_0 [of d] by (simp, linarith+)
  have "read_group buf (Suc (Suc (Suc p))) bytes (Suc (Suc (Suc 0))) = Inl Read_past_end" for bytes
    by (subst read_group.simps)
      (simp add: Let_def last r drop_ConsD(1,2) [OF q3] encode_char [OF k(4)] encode_char_nonzero [OF k(4)])
  then show ?thesis
    using read_group_char [OF assms(1) k(1)] read_group_char [OF q1 k(2)]
      read_group_char [OF q2 k(3)] encode_char_nonzero k
    by (simp add: next_or_group_def)
qed

lemma decode_overread:
  assumes "drop p buf = encode_bytes src" and "src \<noteq> []" and "length src mod 3 = 0"
  shows "decode_groups dst buf (p + EncodedSize (length src)) p s = Inl Read_past_end"
  using assms
proof (induction src arbitrary: p s rule: encode_bytes.induct)
  case (1 x y z src)
  let ?a = "drop_bit 2 (ucast x :: 32 word)"
  let ?b = "(drop_bit 4 (ucast y) OR push_bit 4 (ucast x)) AND 0x3F :: 32 word"
  let ?c = "(drop_bit 6 (ucast z) OR push_bit 2 (ucast y)) AND 0x3F :: 32 word"
  let ?d = "ucast z AND 0x3F :: 32 word"
  have d: "drop p buf = encode_char ?a # encode_char ?b # encode_char ?c # encode_char ?d # encode_bytes src"
    using "1.prems"(1) by (simp add: Let_def)
  show ?case
  proof (cases "encode_bytes src")
    case Nil
    with d read_group_overread sextet_shift and_63 show ?thesis
      by (subst decode_groups.simps) simp
  next
    case (Cons r rs)
    have g: "read_group buf p [0, 0, 0, 0] 0 =
        Inr (Group (p + 4) [ucast ?a, ucast ?b, ucast ?c, ucast ?d] False False)"
      using read_group_full [OF d [unfolded Cons]] sextet_shift and_63 by blast
    have n: "drop (p + 4) buf = encode_bytes src"
      using d by (simp add: drop_drop [symmetric] add.commute [of p])
    have "src \<noteq> []" "length src mod 3 = 0" using Cons "1.prems"(3) by auto
    with "1.IH" n have "decode_groups dst buf (p + 4 + EncodedSize (length src)) (p + 4) s' = Inl Read_past_end"
      for s' by simp
    then show ?thesis by (subst decode_groups.simps) (simp add: g Let_def add.assoc)
  qed
qed simp_all

text \<open>With no readable byte behind it, a text without padding makes the decoder read past the end
  of its input although \<open>srcLength\<close> is right: the look-ahead \<open>*src\<close> is not guarded by \<open>end\<close>.\<close>

theorem base64_decode_overreads:
  assumes "src \<noteq> []" and "length src mod 3 = 0"
  shows "Decode (snd (Encode src)) (fst (Encode src)) dst = Inl Read_past_end"
  using decode_overread [of 0 "encode_bytes src" src dst "(0, [])"] assms
  by (simp add: Decode_def Encode_def)

theorem base64_decode_overreads_witness:
  "Decode (snd (Encode [77, 97, 110])) 4 True = Inl Read_past_end"
  using base64_decode_overreads [of "[77, 97, 110]" True] by (simp add: Encode_def)

end
