(* ===== verification/Byte_Streams.thy ===== *)
theory Byte_Streams
  imports Prelude
begin

text \<open>
  What the two standard codecs share: little-endian images of integers (both copy host integers
  with \<open>memcpy\<close>; the hosts are little-endian), padding to an alignment, IEEE comparison on bit
  patterns, and the contract of a value codec as the locale \<open>value_codec\<close>.
\<close>

section \<open>Integers in memory\<close>

fun le_bytes :: "nat \<Rightarrow> nat \<Rightarrow> byte list" where
  "le_bytes 0 x = []"
| "le_bytes (Suc n) x = word_of_nat x # le_bytes n (x div 256)"

fun le_nat :: "byte list \<Rightarrow> nat" where
  "le_nat [] = 0"
| "le_nat (b # bs) = unat b + 256 * le_nat bs"

lemma length_le_bytes [simp]: "length (le_bytes n x) = n"
  by (induction n arbitrary: x) auto

lemma le_nat_le_bytes: "x < 256 ^ n \<Longrightarrow> le_nat (le_bytes n x) = x"
proof (induction n arbitrary: x)
  case 0
  then show ?case by simp
next
  case (Suc n)
  then have "x div 256 < 256 ^ n" by (simp add: less_mult_imp_div_less mult.commute)
  with Suc.IH have "le_nat (le_bytes n (x div 256)) = x div 256" by blast
  then show ?case by (simp add: unat_of_nat)
qed

lemma le_nat_less: "le_nat bs < 256 ^ length bs"
proof (induction bs)
  case Nil
  then show ?case by simp
next
  case (Cons b bs)
  have "unat b < 256" using unsigned_less [of b, where 'a = nat] by simp
  with Cons show ?case by simp
qed

text \<open>An array of fixed-width elements.\<close>

definition array_bytes :: "nat \<Rightarrow> nat list \<Rightarrow> byte list" where
  "array_bytes width xs = concat (map (le_bytes width) xs)"

fun array_nats :: "nat \<Rightarrow> nat \<Rightarrow> byte list \<Rightarrow> nat list" where
  "array_nats width 0 bs = []"
| "array_nats width (Suc n) bs = le_nat (take width bs) # array_nats width n (drop width bs)"

lemma length_array_bytes [simp]: "length (array_bytes width xs) = length xs * width"
  by (induction xs) (auto simp: array_bytes_def)

lemma length_array_nats [simp]: "length (array_nats width n bs) = n"
  by (induction n arbitrary: bs) auto

lemma array_nats_bytes:
  "list_all (\<lambda>x. x < 256 ^ width) xs \<Longrightarrow> array_nats width (length xs) (array_bytes width xs) = xs"
  by (induction xs) (auto simp: array_bytes_def le_nat_le_bytes)

lemma unat_32_bound: "unat (w :: 32 word) < 256 ^ 4"
  using unsigned_less [of w, where 'a = nat] by simp

lemma unat_64_bound: "unat (w :: 64 word) < 256 ^ 8"
  using unsigned_less [of w, where 'a = nat] by simp

lemma array_nats_words:
  "array_nats 4 (length ws) (array_bytes 4 (map unat ws)) = map unat (ws :: 32 word list)"
  "array_nats 8 (length vs) (array_bytes 8 (map unat vs)) = map unat (vs :: 64 word list)"
  "array_nats 1 (length bs) (array_bytes 1 (map unat bs)) = map unat (bs :: byte list)"
proof -
  show "array_nats 4 (length ws) (array_bytes 4 (map unat ws)) = map unat ws"
    using array_nats_bytes [of 4 "map unat ws"] unat_32_bound by (simp add: list_all_iff)
  show "array_nats 8 (length vs) (array_bytes 8 (map unat vs)) = map unat vs"
    using array_nats_bytes [of 8 "map unat vs"] unat_64_bound by (simp add: list_all_iff)
  have "unat b < 256" for b :: byte using unsigned_less [of b, where 'a = nat] by simp
  then show "array_nats 1 (length bs) (array_bytes 1 (map unat bs)) = map unat bs"
    using array_nats_bytes [of 1 "map unat bs"] by (simp add: list_all_iff)
qed

lemma array_bytes_1 [simp]: "array_bytes 1 (map unat bs) = bs" for bs :: "byte list"
  by (induction bs) (simp_all add: array_bytes_def)

section \<open>Alignment\<close>

definition pad_length :: "nat \<Rightarrow> nat \<Rightarrow> nat" where
  "pad_length alignment n = (if n mod alignment = 0 then 0 else alignment - n mod alignment)"

lemma pad_length_dvd: "0 < a \<Longrightarrow> (n + pad_length a n) mod a = 0"
proof -
  assume "0 < a"
  then have "n mod a \<le> a" by (simp add: less_imp_le)
  have "(n + (a - n mod a)) mod a = (n mod a + (a - n mod a)) mod a" by (simp add: mod_simps)
  with \<open>n mod a \<le> a\<close> show ?thesis by (simp add: pad_length_def)
qed

section \<open>IEEE comparison on bit patterns\<close>

text \<open>
  \<open>ieee w p\<close> is the value of a pattern as a sign-magnitude integer, \<open>None\<close> for a NaN; \<open>w\<close> is the
  number of bits below the sign and \<open>infty\<close> the pattern of infinity. Ordered patterns compare as these
  integers do, and both zeros are 0.
\<close>

definition ieee_key :: "nat \<Rightarrow> nat \<Rightarrow> nat \<Rightarrow> int option" where
  "ieee_key w infty p =
     (let m = p mod 2 ^ w in
      if m > infty then None else Some (if p div 2 ^ w = 0 then int m else - int m))"

definition double_key :: "64 word \<Rightarrow> int option" where
  "double_key d = ieee_key 63 0x7FF0000000000000 (unat d)"

definition float_key :: "32 word \<Rightarrow> int option" where
  "float_key f = ieee_key 31 0x7F800000 (unat f)"

definition key_less :: "int option \<Rightarrow> int option \<Rightarrow> bool" where
  "key_less a b = (case (a, b) of (Some x, Some y) \<Rightarrow> x < y | _ \<Rightarrow> False)"

definition key_eq :: "int option \<Rightarrow> int option \<Rightarrow> bool" where
  "key_eq a b = (case (a, b) of (Some x, Some y) \<Rightarrow> x = y | _ \<Rightarrow> False)"

lemma key_eq_sym: "key_eq a b = key_eq b a"
  by (auto simp: key_eq_def split: option.splits)

section \<open>Contract of a value codec\<close>

text \<open>
  \<open>put v buf\<close> appends the image of \<open>v\<close>, which may depend on the alignment of the end of \<open>buf\<close>;
  \<open>get buf i\<close> reads at position \<open>i\<close> and returns the value and the position behind it. \<open>ok\<close> delimits
  the values that survive.
\<close>

locale value_codec =
  fixes put :: "'v \<Rightarrow> byte list \<Rightarrow> byte list"
    and get :: "byte list \<Rightarrow> nat \<Rightarrow> ('v \<times> nat) option"
    and ok :: "'v \<Rightarrow> bool"
  assumes write_extends: "ok v \<Longrightarrow> \<exists>bs. put v buf = buf @ bs"
    and read_write: "ok v \<Longrightarrow> get (put v buf @ rest) (length buf) = Some (v, length (put v buf))"
begin

lemma read_in_context:
  assumes "ok v" and "whole = put v buf @ rest"
  shows "get whole (length buf) = Some (v, length (put v buf))"
  using read_write assms by simp

lemma read_two:
  assumes "ok v" and "ok w"
  shows "get (put w (put v buf) @ rest) (length buf) = Some (v, length (put v buf)) \<and>
    get (put w (put v buf) @ rest) (length (put v buf)) = Some (w, length (put w (put v buf)))"
proof -
  from write_extends [OF assms(2)] obtain bs where "put w (put v buf) = put v buf @ bs" by blast
  then show ?thesis using read_write [OF assms(1), of buf "bs @ rest"] read_write [OF assms(2), of "put v buf" rest]
    by simp
qed

lemma read_three:
  assumes "ok u" and "ok v" and "ok w"
  shows "get (put w (put v (put u buf)) @ rest) (length buf) = Some (u, length (put u buf)) \<and>
    get (put w (put v (put u buf)) @ rest) (length (put u buf)) =
      Some (v, length (put v (put u buf))) \<and>
    get (put w (put v (put u buf)) @ rest) (length (put v (put u buf))) =
      Some (w, length (put w (put v (put u buf))))"
proof -
  from write_extends [OF assms(3)] obtain bs where
    w: "put w (put v (put u buf)) = put v (put u buf) @ bs" by blast
  show ?thesis
    using read_two [OF assms(1,2), of buf "bs @ rest"] read_write [OF assms(3), of "put v (put u buf)" rest] w
    by simp
qed

lemma fold_write_extends: "list_all ok vs \<Longrightarrow> \<exists>bs. fold put vs buf = buf @ bs"
proof (induction vs arbitrary: buf)
  case Nil
  then show ?case by simp
next
  case (Cons v vs)
  then obtain bs cs where "put v buf = buf @ bs" "fold put vs (put v buf) = put v buf @ cs"
    using write_extends [of v buf] by (metis list.pred_inject(2))
  then show ?case by simp
qed

text \<open>The values of a sequence are get back one after the other.\<close>

lemma read_fold:
  assumes "list_all ok (v # vs)"
  shows "get (fold put (v # vs) buf @ rest) (length buf) = Some (v, length (put v buf))"
proof -
  from fold_write_extends [of vs "put v buf"] assms obtain bs where
    "fold put vs (put v buf) = put v buf @ bs" by auto
  with read_write [of v buf "bs @ rest"] assms show ?thesis by simp
qed

end

end
