(* ===== verification/Standard_Codec.thy ===== *)
theory Standard_Codec
  imports Byte_Streams
begin

text \<open>
  The C++ client wrapper's standard codec: \<open>encodable_value.h\<close>, \<open>byte_buffer_streams.h\<close> and
  \<open>standard_codec.cc\<close>. Doubles and floats are their bit patterns; an \<open>EncodableMap\<close> is the list of its
  pairs in key order; a custom value is its address. \<open>size_t\<close> is a natural number: every size that
  reaches the wire is cut to 32 bits explicitly.
\<close>

section \<open>EncodableValue\<close>

datatype EncodableValue =
    Null
  | Bool bool
  | Int32 "32 word"
  | Int64 "64 word"
  | Double "64 word"
  | String "byte list"
  | UInt8List "byte list"
  | Int32List "32 word list"
  | Int64List "64 word list"
  | Float64List "64 word list"
  | EncodableList "EncodableValue list"
  | EncodableMap "(EncodableValue \<times> EncodableValue) list"
  | CustomEncodableValue nat
  | Float32List "32 word list"

fun variant_index :: "EncodableValue \<Rightarrow> nat" where
  "variant_index Null = 0"
| "variant_index (Bool b) = 1"
| "variant_index (Int32 i) = 2"
| "variant_index (Int64 i) = 3"
| "variant_index (Double d) = 4"
| "variant_index (String s) = 5"
| "variant_index (UInt8List xs) = 6"
| "variant_index (Int32List xs) = 7"
| "variant_index (Int64List xs) = 8"
| "variant_index (Float64List xs) = 9"
| "variant_index (EncodableList vs) = 10"
| "variant_index (EncodableMap m) = 11"
| "variant_index (CustomEncodableValue c) = 12"
| "variant_index (Float32List xs) = 13"

text \<open>\<open>std::lexicographical_compare\<close> with an element order.\<close>

fun lex_less :: "('a \<Rightarrow> 'a \<Rightarrow> bool) \<Rightarrow> 'a list \<Rightarrow> 'a list \<Rightarrow> bool" where
  "lex_less lt xs [] = False"
| "lex_less lt [] (y # ys) = True"
| "lex_less lt (x # xs) (y # ys) = (if lt x y then True else if lt y x then False else lex_less lt xs ys)"

text \<open>
  \<open>operator<\<close> of the variant: the index decides, then the alternatives' own order. The two loops are
  the lexicographic orders of vectors of values and of the pairs of maps.
\<close>

function value_less :: "EncodableValue \<Rightarrow> EncodableValue \<Rightarrow> bool"
and values_less :: "EncodableValue list \<Rightarrow> EncodableValue list \<Rightarrow> bool"
and pairs_less :: "(EncodableValue \<times> EncodableValue) list \<Rightarrow> (EncodableValue \<times> EncodableValue) list \<Rightarrow> bool"
where
  "value_less v w =
     (case (v, w) of
        (Bool a, Bool b) \<Rightarrow> \<not> a \<and> b
      | (Int32 a, Int32 b) \<Rightarrow> sint a < sint b
      | (Int64 a, Int64 b) \<Rightarrow> sint a < sint b
      | (Double a, Double b) \<Rightarrow> key_less (double_key a) (double_key b)
      | (String a, String b) \<Rightarrow> lex_less (<) a b
      | (UInt8List a, UInt8List b) \<Rightarrow> lex_less (<) a b
      | (Int32List a, Int32List b) \<Rightarrow> lex_less (\<lambda>x y. sint x < sint y) a b
      | (Int64List a, Int64List b) \<Rightarrow> lex_less (\<lambda>x y. sint x < sint y) a b
      | (Float64List a, Float64List b) \<Rightarrow> lex_less (\<lambda>x y. key_less (double_key x) (double_key y)) a b
      | (EncodableList a, EncodableList b) \<Rightarrow> values_less a b
      | (EncodableMap a, EncodableMap b) \<Rightarrow> pairs_less a b
      | (CustomEncodableValue a, CustomEncodableValue b) \<Rightarrow> a < b
      | (Float32List a, Float32List b) \<Rightarrow> lex_less (\<lambda>x y. key_less (float_key x) (float_key y)) a b
      | _ \<Rightarrow> variant_index v < variant_index w)"
| "values_less xs [] = False"
| "values_less [] (y # ys) = True"
| "values_less (x # xs) (y # ys) =
     (if value_less x y then True else if value_less y x then False else values_less xs ys)"
| "pairs_less xs [] = False"
| "pairs_less [] (y # ys) = True"
| "pairs_less ((k, v) # xs) ((k', v') # ys) =
     (let lt = (\<lambda>_. value_less k k' \<or> (\<not> value_less k' k \<and> value_less v v'));
          gt = (\<lambda>_. value_less k' k \<or> (\<not> value_less k k' \<and> value_less v' v))
      in if lt () then True else if gt () then False else pairs_less xs ys)"
  by pat_completeness auto
termination
  by (relation "measure (\<lambda>x. case x of
      Inl (v, w) \<Rightarrow> size v + size w
    | Inr (Inl (xs, ys)) \<Rightarrow> Suc (size_list size xs + size_list size ys)
    | Inr (Inr (xs, ys)) \<Rightarrow> Suc (size_list (size_prod size size) xs + size_list (size_prod size size) ys))")
    (auto split: EncodableValue.splits)

declare value_less.simps [simp del]

text \<open>\<open>map::emplace\<close> at the lower bound: an equivalent key that is present stays.\<close>

fun map_emplace :: "EncodableValue \<Rightarrow> EncodableValue \<Rightarrow> (EncodableValue \<times> EncodableValue) list \<Rightarrow>
    (EncodableValue \<times> EncodableValue) list" where
  "map_emplace k v [] = [(k, v)]"
| "map_emplace k v ((k', v') # m) =
     (if value_less k' k then (k', v') # map_emplace k v m
      else if value_less k k' then (k, v) # (k', v') # m
      else (k', v') # m)"

definition IsNull :: "EncodableValue \<Rightarrow> bool" where
  "IsNull v \<longleftrightarrow> v = Null"

datatype codec_error = Bad_variant_access

definition TryGetLongValue :: "EncodableValue \<Rightarrow> 64 word option" where
  "TryGetLongValue v = (case v of Int32 i \<Rightarrow> Some (scast i) | Int64 i \<Rightarrow> Some i | _ \<Rightarrow> None)"

definition LongValue :: "EncodableValue \<Rightarrow> codec_error + 64 word" where
  "LongValue v = (case v of Int32 i \<Rightarrow> Inr (scast i) | Int64 i \<Rightarrow> Inr i | _ \<Rightarrow> Inl Bad_variant_access)"

definition get_string :: "EncodableValue \<Rightarrow> codec_error + byte list" where
  "get_string v = (case v of String s \<Rightarrow> Inr s | _ \<Rightarrow> Inl Bad_variant_access)"

section \<open>Byte streams\<close>

record ByteBufferStreamReader =
  reader_bytes :: "byte list"
  reader_size :: nat
  location :: nat

definition ByteBufferStreamReader_new :: "byte list \<Rightarrow> nat \<Rightarrow> ByteBufferStreamReader" where
  "ByteBufferStreamReader_new bytes n = \<lparr>reader_bytes = bytes, reader_size = n, location = 0\<rparr>"

definition ReadByte :: "ByteBufferStreamReader \<Rightarrow> byte \<times> ByteBufferStreamReader" where
  "ReadByte r =
     (if location r \<ge> reader_size r then (0, r)
      else (reader_bytes r ! location r, r\<lparr>location := Suc (location r)\<rparr>))"

text \<open>\<open>ReadBytes\<close> into a buffer that holds \<open>buffer\<close>; a read beyond the end leaves it alone.\<close>

definition ReadBytes :: "byte list \<Rightarrow> ByteBufferStreamReader \<Rightarrow> byte list \<times> ByteBufferStreamReader" where
  "ReadBytes buffer r =
     (if location r + length buffer > reader_size r then (buffer, r)
      else (take (length buffer) (drop (location r) (reader_bytes r)),
            r\<lparr>location := location r + length buffer\<rparr>))"

definition ReadAlignment :: "nat \<Rightarrow> ByteBufferStreamReader \<Rightarrow> ByteBufferStreamReader" where
  "ReadAlignment alignment r =
     (if location r mod alignment \<noteq> 0
      then r\<lparr>location := location r + (alignment - location r mod alignment)\<rparr> else r)"

definition ReadInt32 :: "ByteBufferStreamReader \<Rightarrow> 32 word \<times> ByteBufferStreamReader" where
  "ReadInt32 r = (let (bs, r) = ReadBytes (le_bytes 4 0) r in (word_of_nat (le_nat bs), r))"

definition ReadInt64 :: "ByteBufferStreamReader \<Rightarrow> 64 word \<times> ByteBufferStreamReader" where
  "ReadInt64 r = (let (bs, r) = ReadBytes (le_bytes 8 0) r in (word_of_nat (le_nat bs), r))"

definition ReadDouble :: "ByteBufferStreamReader \<Rightarrow> 64 word \<times> ByteBufferStreamReader" where
  "ReadDouble r = (let (bs, r) = ReadBytes (le_bytes 8 0) r in (word_of_nat (le_nat bs), r))"

definition WriteByte :: "byte \<Rightarrow> byte list \<Rightarrow> byte list" where
  "WriteByte b buf = buf @ [b]"

definition WriteBytes :: "byte list \<Rightarrow> byte list \<Rightarrow> byte list" where
  "WriteBytes bs buf = buf @ bs"

definition WriteAlignment :: "nat \<Rightarrow> byte list \<Rightarrow> byte list" where
  "WriteAlignment alignment buf =
     (if length buf mod alignment \<noteq> 0
      then (WriteByte 0 ^^ (alignment - length buf mod alignment)) buf else buf)"

definition WriteInt32 :: "32 word \<Rightarrow> byte list \<Rightarrow> byte list" where
  "WriteInt32 v buf = WriteBytes (le_bytes 4 (unat v)) buf"

definition WriteInt64 :: "64 word \<Rightarrow> byte list \<Rightarrow> byte list" where
  "WriteInt64 v buf = WriteBytes (le_bytes 8 (unat v)) buf"

definition WriteDouble :: "64 word \<Rightarrow> byte list \<Rightarrow> byte list" where
  "WriteDouble v buf = WriteBytes (le_bytes 8 (unat v)) buf"

section \<open>Serializer: writing\<close>

definition EncodedTypeForValue :: "EncodableValue \<Rightarrow> byte" where
  "EncodedTypeForValue v =
     (case v of Null \<Rightarrow> 0 | Bool b \<Rightarrow> (if b then 1 else 2) | Int32 _ \<Rightarrow> 3 | Int64 _ \<Rightarrow> 4 | Double _ \<Rightarrow> 6
      | String _ \<Rightarrow> 7 | UInt8List _ \<Rightarrow> 8 | Int32List _ \<Rightarrow> 9 | Int64List _ \<Rightarrow> 10 | Float64List _ \<Rightarrow> 11
      | EncodableList _ \<Rightarrow> 12 | EncodableMap _ \<Rightarrow> 13 | Float32List _ \<Rightarrow> 14 | CustomEncodableValue _ \<Rightarrow> 0)"

definition WriteSize :: "nat \<Rightarrow> byte list \<Rightarrow> byte list" where
  "WriteSize sz buf =
     (if sz < 254 then WriteByte (word_of_nat sz) buf
      else if sz \<le> 0xffff then WriteBytes (le_bytes 2 sz) (WriteByte 254 buf)
      else WriteBytes (le_bytes 4 (sz mod 2 ^ 32)) (WriteByte 255 buf))"

text \<open>\<open>WriteVector<T>\<close>: \<open>type_size\<close> is \<open>sizeof(T)\<close>, the elements are their bit patterns.\<close>

definition WriteVector :: "nat \<Rightarrow> nat list \<Rightarrow> byte list \<Rightarrow> byte list" where
  "WriteVector type_size vector buf =
     (let buf = WriteSize (length vector) buf in
      if length vector = 0 then buf
      else WriteBytes (array_bytes type_size vector)
             (if type_size > 1 then WriteAlignment type_size buf else buf))"

fun WriteValue :: "EncodableValue \<Rightarrow> byte list \<Rightarrow> byte list" where
  "WriteValue v buf =
     (let buf = WriteByte (EncodedTypeForValue v) buf in
      case v of
        Null \<Rightarrow> buf
      | Bool _ \<Rightarrow> buf
      | Int32 i \<Rightarrow> WriteInt32 i buf
      | Int64 i \<Rightarrow> WriteInt64 i buf
      | Double d \<Rightarrow> WriteDouble d (WriteAlignment 8 buf)
      | String s \<Rightarrow> (let buf = WriteSize (length s) buf in if length s > 0 then WriteBytes s buf else buf)
      | UInt8List xs \<Rightarrow> WriteVector 1 (map unat xs) buf
      | Int32List xs \<Rightarrow> WriteVector 4 (map unat xs) buf
      | Int64List xs \<Rightarrow> WriteVector 8 (map unat xs) buf
      | Float64List xs \<Rightarrow> WriteVector 8 (map unat xs) buf
      | EncodableList vs \<Rightarrow> fold WriteValue vs (WriteSize (length vs) buf)
      | EncodableMap m \<Rightarrow>
          fold (\<lambda>kv buf. WriteValue (snd kv) (WriteValue (fst kv) buf)) m (WriteSize (length m) buf)
      | CustomEncodableValue _ \<Rightarrow> buf
      | Float32List xs \<Rightarrow> WriteVector 4 (map unat xs) buf)"

section \<open>Serializer: reading\<close>

definition ReadSize :: "ByteBufferStreamReader \<Rightarrow> nat \<times> ByteBufferStreamReader" where
  "ReadSize r =
     (let (b, r) = ReadByte r in
      if b < 254 then (unat b, r)
      else if b = 254 then (let (bs, r) = ReadBytes (le_bytes 2 0) r in (le_nat bs, r))
      else (let (bs, r) = ReadBytes (le_bytes 4 0) r in (le_nat bs, r)))"

definition ReadVector :: "nat \<Rightarrow> ByteBufferStreamReader \<Rightarrow> nat list \<times> ByteBufferStreamReader" where
  "ReadVector type_size r =
     (let (count, r) = ReadSize r;
          r = (if type_size > 1 then ReadAlignment type_size r else r);
          (bs, r) = ReadBytes (replicate (count * type_size) 0) r
      in (array_nats type_size count bs, r))"

text \<open>
  \<open>ReadValue\<close> and \<open>ReadValueOfType\<close> with their two loops. On an exhausted stream a type byte reads as 0,
  so a long list over a short stream is filled with nulls.
\<close>

function ReadValue :: "ByteBufferStreamReader \<Rightarrow> EncodableValue \<times> ByteBufferStreamReader"
and ReadValueOfType :: "byte \<Rightarrow> ByteBufferStreamReader \<Rightarrow> EncodableValue \<times> ByteBufferStreamReader"
and ReadListItems :: "nat \<Rightarrow> EncodableValue list \<Rightarrow> ByteBufferStreamReader \<Rightarrow>
    EncodableValue list \<times> ByteBufferStreamReader"
and ReadMapItems :: "nat \<Rightarrow> (EncodableValue \<times> EncodableValue) list \<Rightarrow> ByteBufferStreamReader \<Rightarrow>
    (EncodableValue \<times> EncodableValue) list \<times> ByteBufferStreamReader"
where
  "ReadValue r = ReadValueOfType (fst (ReadByte r)) (snd (ReadByte r))"
| "ReadValueOfType type r =
     (if type = 0 then (Null, r)
      else if type = 1 then (Bool True, r)
      else if type = 2 then (Bool False, r)
      else if type = 3 then (let (i, r) = ReadInt32 r in (Int32 i, r))
      else if type = 4 then (let (i, r) = ReadInt64 r in (Int64 i, r))
      else if type = 6 then (let (d, r) = ReadDouble (ReadAlignment 8 r) in (Double d, r))
      else if type = 5 \<or> type = 7 then
        (let (n, r) = ReadSize r; (s, r) = ReadBytes (replicate n 0) r in (String s, r))
      else if type = 8 then (let (xs, r) = ReadVector 1 r in (UInt8List (map word_of_nat xs), r))
      else if type = 9 then (let (xs, r) = ReadVector 4 r in (Int32List (map word_of_nat xs), r))
      else if type = 10 then (let (xs, r) = ReadVector 8 r in (Int64List (map word_of_nat xs), r))
      else if type = 11 then (let (xs, r) = ReadVector 8 r in (Float64List (map word_of_nat xs), r))
      else if type = 12 then
        (let (vs, r) = ReadListItems (fst (ReadSize r)) [] (snd (ReadSize r)) in (EncodableList vs, r))
      else if type = 13 then
        (let (m, r) = ReadMapItems (fst (ReadSize r)) [] (snd (ReadSize r)) in (EncodableMap m, r))
      else if type = 14 then (let (xs, r) = ReadVector 4 r in (Float32List (map word_of_nat xs), r))
      else (Null, r))"
| "ReadListItems 0 vs r = (vs, r)"
| "ReadListItems (Suc n) vs r = ReadListItems n (vs @ [fst (ReadValue r)]) (snd (ReadValue r))"
| "ReadMapItems 0 m r = (m, r)"
| "ReadMapItems (Suc n) m r =
     (let key = ReadValue r; value = ReadValue (snd key)
      in ReadMapItems n (map_emplace (fst key) (fst value) m) (snd value))"
  by pat_completeness auto

text \<open>No read moves the cursor back or changes the buffer.\<close>

definition advances :: "ByteBufferStreamReader \<Rightarrow> ByteBufferStreamReader \<Rightarrow> bool" where
  "advances r r' \<longleftrightarrow> reader_bytes r' = reader_bytes r \<and> reader_size r' = reader_size r \<and> location r \<le> location r'"

lemma advances_refl [simp]: "advances r r"
  by (simp add: advances_def)

lemma advances_trans [trans]: "advances r s \<Longrightarrow> advances s t \<Longrightarrow> advances r t"
  by (simp add: advances_def)

lemma ReadByte_advances: "advances r (snd (ReadByte r))"
  by (simp add: ReadByte_def advances_def)

lemma ReadBytes_advances: "advances r (snd (ReadBytes b r))"
  by (simp add: ReadBytes_def advances_def)

lemma ReadAlignment_advances: "advances r (ReadAlignment a r)"
  by (simp add: ReadAlignment_def advances_def)

lemma ReadSize_advances: "advances r (snd (ReadSize r))"
  using ReadByte_advances [of r] advances_trans ReadBytes_advances
  by (simp add: ReadSize_def case_prod_beta Let_def)

lemma ReadVector_advances: "advances r (snd (ReadVector w r))"
  using ReadSize_advances [of r] advances_trans ReadBytes_advances ReadAlignment_advances
  by (simp add: ReadVector_def case_prod_beta Let_def) meson

lemma scalar_advances:
  "advances r (snd (ReadInt32 r))" "advances r (snd (ReadInt64 r))"
  "advances r (snd (ReadDouble (ReadAlignment a r)))" "advances r (snd (ReadBytes b (snd (ReadSize r))))"
  using ReadBytes_advances ReadAlignment_advances ReadSize_advances advances_trans
  by (simp_all add: ReadInt32_def ReadInt64_def ReadDouble_def case_prod_beta) (meson advances_trans)+

lemmas read_advances = ReadByte_advances ReadBytes_advances ReadAlignment_advances ReadSize_advances
  ReadVector_advances scalar_advances

lemma read_value_advances:
  "ReadValue_ReadValueOfType_ReadListItems_ReadMapItems_dom (Inl (Inl r)) \<Longrightarrow> advances r (snd (ReadValue r))"
  "ReadValue_ReadValueOfType_ReadListItems_ReadMapItems_dom (Inl (Inr (type, r))) \<Longrightarrow>
     advances r (snd (ReadValueOfType type r))"
  "ReadValue_ReadValueOfType_ReadListItems_ReadMapItems_dom (Inr (Inl (n, vs, r))) \<Longrightarrow>
     advances r (snd (ReadListItems n vs r))"
  "ReadValue_ReadValueOfType_ReadListItems_ReadMapItems_dom (Inr (Inr (n, m, r))) \<Longrightarrow>
     advances r (snd (ReadMapItems n m r))"
proof (induction r and type r and n vs r and n m r
    rule: ReadValue_ReadValueOfType_ReadListItems_ReadMapItems.pinduct)
  case (1 r)
  then show ?case using ReadByte_advances [of r] advances_trans by (auto simp: ReadValue.psimps)
next
  case (2 type r)
  have "type = 12 \<Longrightarrow> advances r (snd (ReadListItems (fst (ReadSize r)) [] (snd (ReadSize r))))"
    by (rule advances_trans [OF ReadSize_advances]) (use 2 in simp)
  moreover have "type = 13 \<Longrightarrow> advances r (snd (ReadMapItems (fst (ReadSize r)) [] (snd (ReadSize r))))"
    by (rule advances_trans [OF ReadSize_advances]) (use 2 in simp)
  ultimately show ?case
    by (simp add: ReadValueOfType.psimps [OF 2(1)] case_prod_beta Let_def read_advances)
next
  case (3 vs r)
  then show ?case by (simp add: ReadListItems.psimps)
next
  case (4 n vs r)
  then show ?case using advances_trans by (auto simp: ReadListItems.psimps)
next
  case (5 m r)
  then show ?case by (simp add: ReadMapItems.psimps)
next
  case (6 n m r)
  then show ?case using advances_trans by (auto simp: ReadMapItems.psimps Let_def)
qed

text \<open>
  Every nested call starts behind a consumed type byte; on an exhausted stream the type is null and the
  sizes are 0. The second component counts the items still to be read.
\<close>

definition unread :: "ByteBufferStreamReader \<Rightarrow> nat" where
  "unread r = reader_size r - location r"

lemma unread_mono: "advances r s \<Longrightarrow> unread s \<le> unread r"
  by (auto simp: advances_def unread_def)

lemma ReadByte_unread: "unread (snd (ReadByte r)) < unread r \<or> fst (ReadByte r) = 0"
  by (auto simp: ReadByte_def unread_def)

lemma ReadSize_unread: "unread (snd (ReadSize r)) < unread r \<or> fst (ReadSize r) = 0"
proof (cases "location r < reader_size r")
  case True
  then have "unread (snd (ReadByte r)) < unread r" by (simp add: ReadByte_def unread_def)
  moreover have "advances (snd (ReadByte r)) (snd (ReadSize r))"
    using ReadBytes_advances by (simp add: ReadSize_def case_prod_beta Let_def)
  ultimately show ?thesis using unread_mono le_less_trans by blast
next
  case False
  then show ?thesis by (simp add: ReadSize_def ReadByte_def)
qed

termination ReadValue
proof (relation "measures [\<lambda>x. case x of
      Inl (Inl r) \<Rightarrow> unread r | Inl (Inr (type, r)) \<Rightarrow> unread r
    | Inr (Inl (n, vs, r)) \<Rightarrow> unread r | Inr (Inr (n, m, r)) \<Rightarrow> unread r,
    \<lambda>x. case x of
      Inl (Inl r) \<Rightarrow> 2 | Inl (Inr (type, r)) \<Rightarrow> if type = 0 then 0 else 1
    | Inr (Inl (n, vs, r)) \<Rightarrow> 3 * n | Inr (Inr (n, m, r)) \<Rightarrow> 3 * n]", goal_cases)
  case 1
  then show ?case by simp
next
  case (2 r)
  then show ?case using ReadByte_unread [of r] unread_mono [OF ReadByte_advances [of r]]
    by (auto simp: case_prod_beta)
next
  case (3 type r)
  then show ?case using ReadSize_unread [of r] unread_mono [OF ReadSize_advances [of r]]
    by (auto simp: case_prod_beta)
next
  case (4 type r)
  then show ?case using ReadSize_unread [of r] unread_mono [OF ReadSize_advances [of r]]
    by (auto simp: case_prod_beta)
next
  case (5 n vs r)
  then show ?case by simp
next
  case (6 n vs r)
  then show ?case by simp
next
  case (7 n vs r)
  then have "unread (snd (ReadValue r)) \<le> unread r" by (intro unread_mono read_value_advances(1))
  then show ?case by auto
next
  case (8 n m r)
  then show ?case by simp
next
  case (9 n m r x)
  then have "unread (snd (ReadValue r)) \<le> unread r" by (intro unread_mono read_value_advances(1))
  with 9 show ?case by auto
next
  case (10 n m r x y)
  then have "unread (snd y) \<le> unread r"
    by (intro unread_mono) (auto intro: advances_trans read_value_advances(1))
  then show ?case by auto
qed

declare ReadValue.simps [simp del] ReadValueOfType.simps [simp del] WriteValue.simps [simp del]

section \<open>Message codec\<close>

text \<open>A null pointer is \<open>None\<close>.\<close>

definition DecodeMessage :: "byte list option \<Rightarrow> EncodableValue" where
  "DecodeMessage message =
     (case message of
        None \<Rightarrow> Null
      | Some bytes \<Rightarrow> fst (ReadValue (ByteBufferStreamReader_new bytes (length bytes))))"

definition EncodeMessage :: "EncodableValue \<Rightarrow> byte list" where
  "EncodeMessage message = WriteValue message []"

section \<open>Method codec\<close>

record MethodCall =
  method_name :: "byte list"
  method_arguments :: "EncodableValue option"

text \<open>What is called on the \<open>MethodResult\<close>.\<close>

datatype method_result = Success "EncodableValue option" | Error "byte list" "byte list" "EncodableValue option"

definition opt_value :: "EncodableValue option \<Rightarrow> EncodableValue" where
  "opt_value v = (case v of None \<Rightarrow> Null | Some v \<Rightarrow> v)"

definition EncodeMethodCall :: "MethodCall \<Rightarrow> byte list" where
  "EncodeMethodCall call =
     WriteValue (opt_value (method_arguments call)) (WriteValue (String (method_name call)) [])"

definition DecodeMethodCall :: "byte list \<Rightarrow> MethodCall option" where
  "DecodeMethodCall message =
     (let (name, r) = ReadValue (ByteBufferStreamReader_new message (length message)) in
      case get_string name of
        Inl _ \<Rightarrow> None
      | Inr s \<Rightarrow> Some \<lparr>method_name = s, method_arguments = Some (fst (ReadValue r))\<rparr>)"

definition EncodeSuccessEnvelope :: "EncodableValue option \<Rightarrow> byte list" where
  "EncodeSuccessEnvelope result = WriteValue (opt_value result) (WriteByte 0 [])"

definition EncodeErrorEnvelope :: "byte list \<Rightarrow> byte list \<Rightarrow> EncodableValue option \<Rightarrow> byte list" where
  "EncodeErrorEnvelope error_code error_message error_details =
     WriteValue (opt_value error_details)
       (WriteValue (if error_message = [] then Null else String error_message)
         (WriteValue (String error_code) (WriteByte 1 [])))"

text \<open>\<open>None\<close> is the result \<open>false\<close>; a value that is no string is the exception of \<open>std::get\<close>.\<close>

definition DecodeAndProcessResponseEnvelope :: "byte list \<Rightarrow> codec_error + method_result option" where
  "DecodeAndProcessResponseEnvelope response =
     (let (flag, r) = ReadByte (ByteBufferStreamReader_new response (length response)) in
      if flag = 0 then
        (let (v, r) = ReadValue r in Inr (Some (Success (if IsNull v then None else Some v))))
      else if flag = 1 then
        (let (code, r) = ReadValue r; (message, r) = ReadValue r; (details, r) = ReadValue r in
         bindR (if IsNull message then Inr [] else get_string message) (\<lambda>message_string.
         bindR (get_string code) (\<lambda>code_string.
         Inr (Some (Error code_string message_string (if IsNull details then None else Some details))))))
      else Inr None)"

section \<open>Reading back what was written\<close>

text \<open>\<open>reader_at buf rest\<close> has read \<open>buf\<close> and has \<open>rest\<close> before it.\<close>

definition reader_at :: "byte list \<Rightarrow> byte list \<Rightarrow> ByteBufferStreamReader" where
  "reader_at buf rest = \<lparr>reader_bytes = buf @ rest, reader_size = length (buf @ rest), location = length buf\<rparr>"

definition reads_back :: "(byte list \<Rightarrow> byte list) \<Rightarrow> (ByteBufferStreamReader \<Rightarrow> 'a \<times> ByteBufferStreamReader) \<Rightarrow> 'a \<Rightarrow> bool" where
  "reads_back w f x \<longleftrightarrow>
     (\<forall>buf. \<exists>img. w buf = buf @ img \<and> (\<forall>rest. f (reader_at buf (img @ rest)) = (x, reader_at (buf @ img) rest)))"

lemma reads_backI:
  "(\<And>buf. w buf = buf @ img buf) \<Longrightarrow>
   (\<And>buf rest. f (reader_at buf (img buf @ rest)) = (x, reader_at (buf @ img buf) rest)) \<Longrightarrow> reads_back w f x"
  unfolding reads_back_def by blast

lemma reads_back_pure: "reads_back (\<lambda>buf. buf) (\<lambda>r. (x, r)) x"
  by (rule reads_backI [where img = "\<lambda>_. []"]) simp_all

lemma reads_back_bind:
  assumes "reads_back w f x" and "reads_back w' (g x) y"
  shows "reads_back (\<lambda>buf. w' (w buf)) (\<lambda>r. case f r of (a, r) \<Rightarrow> g a r) y"
  unfolding reads_back_def
proof
  fix buf
  from assms(1) obtain i where i: "w buf = buf @ i"
    "\<And>rest. f (reader_at buf (i @ rest)) = (x, reader_at (buf @ i) rest)"
    unfolding reads_back_def by blast
  from assms(2) obtain j where j: "w' (buf @ i) = (buf @ i) @ j"
    "\<And>rest. g x (reader_at (buf @ i) (j @ rest)) = (y, reader_at ((buf @ i) @ j) rest)"
    unfolding reads_back_def by blast
  show "\<exists>img. w' (w buf) = buf @ img \<and>
      (\<forall>rest. (case f (reader_at buf (img @ rest)) of (a, r) \<Rightarrow> g a r) = (y, reader_at (buf @ img) rest))"
    by (rule exI [of _ "i @ j"]) (simp add: i j [simplified])
qed

lemma reads_back_map:
  "reads_back w f x \<Longrightarrow> reads_back w (\<lambda>r. case f r of (a, r) \<Rightarrow> (g a, r)) (g x)"
  using reads_back_bind [of w f x "\<lambda>buf. buf" "\<lambda>a r. (g a, r)" "g x"]
    reads_back_pure [of "g x"] by simp

lemma reads_back_byte: "reads_back (WriteByte b) ReadByte b"
  by (rule reads_backI [where img = "\<lambda>_. [b]"])
    (simp_all add: WriteByte_def ReadByte_def reader_at_def nth_append)

lemma reads_back_bytes: "length buffer = length bs \<Longrightarrow> reads_back (WriteBytes bs) (ReadBytes buffer) bs"
  by (rule reads_backI [where img = "\<lambda>_. bs"])
    (simp_all add: WriteBytes_def ReadBytes_def reader_at_def)

lemma WriteByte_power: "(WriteByte b ^^ n) buf = buf @ replicate n b"
  by (induction n arbitrary: buf) (simp_all add: WriteByte_def replicate_append_same)

lemma reads_back_alignment: "reads_back (WriteAlignment a) (\<lambda>r. ((), ReadAlignment a r)) ()"
  by (rule reads_backI [where img = "\<lambda>buf. replicate (pad_length a (length buf)) 0"])
    (auto simp: WriteAlignment_def ReadAlignment_def reader_at_def WriteByte_power pad_length_def)

lemma reads_back_scalars:
  "reads_back (WriteInt32 i) ReadInt32 i" "reads_back (WriteInt64 j) ReadInt64 j"
  "reads_back (WriteDouble d) ReadDouble d"
proof -
  note w = reads_back_map [OF reads_back_bytes, of "le_bytes 4 0" "le_bytes 4 (unat i)"
    "\<lambda>bs. word_of_nat (le_nat bs) :: 32 word"]
  show "reads_back (WriteInt32 i) ReadInt32 i"
    using w unat_32_bound [of i] by (simp add: WriteInt32_def [abs_def] ReadInt32_def [abs_def] le_nat_le_bytes)
  show "reads_back (WriteInt64 j) ReadInt64 j" "reads_back (WriteDouble d) ReadDouble d"
    using reads_back_map [OF reads_back_bytes, of "le_bytes 8 0" "le_bytes 8 (unat j)" "\<lambda>bs. word_of_nat (le_nat bs) :: 64 word"]
      reads_back_map [OF reads_back_bytes, of "le_bytes 8 0" "le_bytes 8 (unat d)" "\<lambda>bs. word_of_nat (le_nat bs) :: 64 word"]
      unat_64_bound
    by (simp_all add: WriteInt64_def [abs_def] ReadInt64_def [abs_def] WriteDouble_def [abs_def]
        ReadDouble_def [abs_def] le_nat_le_bytes)
qed

text \<open>Sizes below $2^{32}$ survive.\<close>

lemma reads_back_size:
  assumes "n < 2 ^ 32"
  shows "reads_back (WriteSize n) ReadSize n"
proof -
  let ?R = "\<lambda>b r. if b < 254 then (unat (b :: byte), r)
      else if b = 254 then (case ReadBytes (le_bytes 2 0) r of (bs, r) \<Rightarrow> (le_nat bs, r))
      else (case ReadBytes (le_bytes 4 0) r of (bs, r) \<Rightarrow> (le_nat bs, r))"
  have R: "ReadSize = (\<lambda>r. case ReadByte r of (b, r) \<Rightarrow> ?R b r)"
    by (rule ext) (simp add: ReadSize_def Let_def case_prod_beta)
  consider "n < 254" | "254 \<le> n" "n \<le> 0xffff" | "0xffff < n" by linarith
  then show ?thesis
  proof cases
    case 1
    then have u: "unat (word_of_nat n :: byte) = n" by (simp add: unat_of_nat)
    then have "(word_of_nat n :: byte) < 254" using 1 by (simp add: word_less_nat_alt)
    then have "reads_back (\<lambda>buf. buf) (?R (word_of_nat n)) n" using reads_back_pure [of n] u by simp
    from reads_back_bind [where g = ?R, OF reads_back_byte this] 1 show ?thesis
      unfolding R by (simp add: WriteSize_def [abs_def])
  next
    case 2
    have "reads_back (WriteBytes (le_bytes 2 n)) (?R 254) n"
      using reads_back_map [OF reads_back_bytes, of "le_bytes 2 0" "le_bytes 2 n" le_nat] 2
      by (simp add: le_nat_le_bytes)
    from reads_back_bind [where g = ?R, OF reads_back_byte this] 2 show ?thesis
      unfolding R by (simp add: WriteSize_def [abs_def])
  next
    case 3
    have "reads_back (WriteBytes (le_bytes 4 n)) (?R 255) n"
      using reads_back_map [OF reads_back_bytes, of "le_bytes 4 0" "le_bytes 4 n" le_nat] assms
      by (simp add: le_nat_le_bytes)
    from reads_back_bind [where g = ?R, OF reads_back_byte this] 3 assms show ?thesis
      unfolding R by (simp add: WriteSize_def [abs_def])
  qed
qed

text \<open>A vector survives unless it is empty and its elements are wider than a byte.\<close>

lemma reads_back_vector:
  assumes "length xs < 2 ^ 32" and "list_all (\<lambda>x. x < 256 ^ w) xs" and "xs \<noteq> [] \<or> w = 1" and "0 < w"
  shows "reads_back (WriteVector w xs) (ReadVector w) xs"
proof -
  let ?A = "\<lambda>r. ((), if w > 1 then ReadAlignment w r else r)"
  let ?a = "\<lambda>buf. if w > 1 then WriteAlignment w buf else buf"
  let ?B = "\<lambda>n r. case ReadBytes (replicate (n * w) 0) r of (bs, r) \<Rightarrow> (array_nats w n bs, r)"
  have A: "reads_back ?a ?A ()" using reads_back_alignment [of w] reads_back_pure [of "()"]
    by (cases "w > 1") simp_all
  have B: "reads_back (WriteBytes (array_bytes w xs)) (?B (length xs)) xs"
    using reads_back_map [OF reads_back_bytes, of "replicate (length xs * w) 0" "array_bytes w xs"
        "array_nats w (length xs)"] array_nats_bytes [OF assms(2)] by simp
  have "reads_back (\<lambda>buf. WriteBytes (array_bytes w xs) (?a (WriteSize (length xs) buf)))
      (\<lambda>r. case ReadSize r of (n, r) \<Rightarrow> case ?A r of (_, r) \<Rightarrow> ?B n r) xs"
    by (rule reads_back_bind [OF reads_back_size [OF assms(1)], where g = "\<lambda>n r. case ?A r of (_, r) \<Rightarrow> ?B n r",
          OF reads_back_bind [OF A, where g = "\<lambda>_. ?B (length xs)", OF B]])
  moreover have "WriteVector w xs = (\<lambda>buf. WriteBytes (array_bytes w xs) (?a (WriteSize (length xs) buf)))"
    using assms(3) by (rule disjE) (auto simp: WriteVector_def Let_def WriteBytes_def array_bytes_def)
  moreover have "ReadVector w = (\<lambda>r. case ReadSize r of (n, r) \<Rightarrow> case ?A r of (_, r) \<Rightarrow> ?B n r)"
    by (rule ext) (simp add: ReadVector_def Let_def case_prod_beta)
  ultimately show ?thesis by simp
qed

lemma reads_back_vectors:
  "length xs < 2 ^ 32 \<Longrightarrow> xs \<noteq> [] \<Longrightarrow> reads_back (WriteVector 4 (map unat xs)) (ReadVector 4) (map unat (xs :: 32 word list))"
  "length ys < 2 ^ 32 \<Longrightarrow> ys \<noteq> [] \<Longrightarrow> reads_back (WriteVector 8 (map unat ys)) (ReadVector 8) (map unat (ys :: 64 word list))"
  "length zs < 2 ^ 32 \<Longrightarrow> reads_back (WriteVector 1 (map unat zs)) (ReadVector 1) (map unat (zs :: byte list))"
proof -
  have "unat z < 256" for z :: byte using unsigned_less [of z, where 'a = nat] by simp
  then show "length xs < 2 ^ 32 \<Longrightarrow> xs \<noteq> [] \<Longrightarrow> reads_back (WriteVector 4 (map unat xs)) (ReadVector 4) (map unat xs)"
    "length ys < 2 ^ 32 \<Longrightarrow> ys \<noteq> [] \<Longrightarrow> reads_back (WriteVector 8 (map unat ys)) (ReadVector 8) (map unat ys)"
    "length zs < 2 ^ 32 \<Longrightarrow> reads_back (WriteVector 1 (map unat zs)) (ReadVector 1) (map unat zs)"
    using unat_32_bound unat_64_bound by (auto intro!: reads_back_vector simp: list_all_iff)
qed

section \<open>Values that survive\<close>

text \<open>
  Lengths fit 32 bits, maps are in key order, there is no custom value, and no vector of multi-byte
  elements is empty (the writer skips the padding of an empty vector, the reader does not).
\<close>

fun serializable :: "EncodableValue \<Rightarrow> bool" where
  "serializable (String s) = (length s < 2 ^ 32)"
| "serializable (UInt8List xs) = (length xs < 2 ^ 32)"
| "serializable (Int32List xs) = (length xs < 2 ^ 32 \<and> xs \<noteq> [])"
| "serializable (Int64List xs) = (length xs < 2 ^ 32 \<and> xs \<noteq> [])"
| "serializable (Float64List xs) = (length xs < 2 ^ 32 \<and> xs \<noteq> [])"
| "serializable (Float32List xs) = (length xs < 2 ^ 32 \<and> xs \<noteq> [])"
| "serializable (EncodableList vs) = (length vs < 2 ^ 32 \<and> list_all serializable vs)"
| "serializable (EncodableMap m) =
     (length m < 2 ^ 32 \<and> sorted_wrt value_less (map fst m) \<and>
      list_all (\<lambda>kv. serializable (fst kv) \<and> serializable (snd kv)) m)"
| "serializable (CustomEncodableValue c) = False"
| "serializable v = True"

lemma emplace_last:
  "(\<forall>kv \<in> set m. value_less (fst kv) k) \<Longrightarrow> map_emplace k v m = m @ [(k, v)]"
  by (induction m) auto

lemma emplace_rebuild:
  "sorted_wrt value_less (map fst (acc @ m)) \<Longrightarrow> fold (\<lambda>kv. map_emplace (fst kv) (snd kv)) m acc = acc @ m"
proof (induction m arbitrary: acc)
  case Nil
  then show ?case by simp
next
  case (Cons kv m)
  then have "\<forall>kv' \<in> set acc. value_less (fst kv') (fst kv)" by (auto simp: sorted_wrt_append)
  then have "map_emplace (fst kv) (snd kv) acc = acc @ [kv]" by (simp add: emplace_last)
  with Cons.IH [of "acc @ [kv]"] Cons.prems show ?case by simp
qed

lemma reads_back_items:
  "(\<And>v. v \<in> set vs \<Longrightarrow> reads_back (WriteValue v) ReadValue v) \<Longrightarrow>
     reads_back (fold WriteValue vs) (ReadListItems (length vs) acc) (acc @ vs)"
proof (induction vs arbitrary: acc)
  case Nil
  then show ?case using reads_back_pure [of acc] by (simp add: id_def ext)
next
  case (Cons v vs)
  have "ReadListItems (length (v # vs)) acc = (\<lambda>r. case ReadValue r of (v, r) \<Rightarrow> ReadListItems (length vs) (acc @ [v]) r)"
    by (rule ext) (simp add: case_prod_beta)
  moreover have "fold WriteValue (v # vs) = (\<lambda>buf. fold WriteValue vs (WriteValue v buf))"
    by (rule ext) simp
  moreover have "reads_back (fold WriteValue vs) (ReadListItems (length vs) (acc @ [v])) (acc @ v # vs)"
    using Cons.IH [of "acc @ [v]"] Cons.prems by simp
  ultimately show ?case
    using reads_back_bind [where g = "\<lambda>v. ReadListItems (length vs) (acc @ [v])"] Cons.prems
    by (metis list.set_intros(1))
qed

lemma reads_back_pairs:
  "(\<And>kv. kv \<in> set m \<Longrightarrow> reads_back (WriteValue (fst kv)) ReadValue (fst kv) \<and>
       reads_back (WriteValue (snd kv)) ReadValue (snd kv)) \<Longrightarrow>
     reads_back (fold (\<lambda>kv buf. WriteValue (snd kv) (WriteValue (fst kv) buf)) m)
       (ReadMapItems (length m) acc) (fold (\<lambda>kv. map_emplace (fst kv) (snd kv)) m acc)"
proof (induction m arbitrary: acc)
  case Nil
  then show ?case using reads_back_pure [of acc] by (simp add: id_def ext)
next
  case (Cons kv m)
  let ?W = "fold (\<lambda>kv buf. WriteValue (snd kv) (WriteValue (fst kv) buf)) m"
  let ?M = "\<lambda>k v. ReadMapItems (length m) (map_emplace k v acc)"
  let ?y = "fold (\<lambda>kv. map_emplace (fst kv) (snd kv)) (kv # m) acc"
  have kv: "reads_back (WriteValue (fst kv)) ReadValue (fst kv)" "reads_back (WriteValue (snd kv)) ReadValue (snd kv)"
    using Cons.prems by auto
  have "ReadMapItems (length (kv # m)) acc = (\<lambda>r. case ReadValue r of (k, r) \<Rightarrow> case ReadValue r of (v, r) \<Rightarrow> ?M k v r)"
    by (rule ext) (simp add: case_prod_beta Let_def)
  moreover have "fold (\<lambda>kv buf. WriteValue (snd kv) (WriteValue (fst kv) buf)) (kv # m) =
      (\<lambda>buf. ?W (WriteValue (snd kv) (WriteValue (fst kv) buf)))"
    by (rule ext) simp
  moreover have "reads_back ?W (?M (fst kv) (snd kv)) ?y"
    using Cons.IH [of "map_emplace (fst kv) (snd kv) acc"] Cons.prems by simp
  then have "reads_back (\<lambda>buf. ?W (WriteValue (snd kv) buf))
      (\<lambda>r. case ReadValue r of (v, r) \<Rightarrow> ?M (fst kv) v r) ?y"
    by (rule reads_back_bind [where g = "?M (fst kv)", OF kv(2)])
  then have "reads_back (\<lambda>buf. ?W (WriteValue (snd kv) (WriteValue (fst kv) buf)))
      (\<lambda>r. case ReadValue r of (k, r) \<Rightarrow> case ReadValue r of (v, r) \<Rightarrow> ?M k v r) ?y"
    by (rule reads_back_bind [where g = "\<lambda>k r. case ReadValue r of (v, r) \<Rightarrow> ?M k v r", OF kv(1)])
  ultimately show ?case by simp
qed

lemma ReadValueOfType_cases:
  "ReadValueOfType 0 = (\<lambda>r. (Null, r))"
  "ReadValueOfType 1 = (\<lambda>r. (Bool True, r))"
  "ReadValueOfType 2 = (\<lambda>r. (Bool False, r))"
  "ReadValueOfType 3 = (\<lambda>r. case ReadInt32 r of (i, r) \<Rightarrow> (Int32 i, r))"
  "ReadValueOfType 4 = (\<lambda>r. case ReadInt64 r of (i, r) \<Rightarrow> (Int64 i, r))"
  "ReadValueOfType 6 = (\<lambda>r. case ((), ReadAlignment 8 r) of (u, r) \<Rightarrow> case ReadDouble r of (d, r) \<Rightarrow> (Double d, r))"
  "ReadValueOfType 7 = (\<lambda>r. case ReadSize r of (n, r) \<Rightarrow> case ReadBytes (replicate n 0) r of (s, r) \<Rightarrow> (String s, r))"
  "ReadValueOfType 8 = (\<lambda>r. case ReadVector 1 r of (xs, r) \<Rightarrow> (UInt8List (map word_of_nat xs), r))"
  "ReadValueOfType 9 = (\<lambda>r. case ReadVector 4 r of (xs, r) \<Rightarrow> (Int32List (map word_of_nat xs), r))"
  "ReadValueOfType 10 = (\<lambda>r. case ReadVector 8 r of (xs, r) \<Rightarrow> (Int64List (map word_of_nat xs), r))"
  "ReadValueOfType 11 = (\<lambda>r. case ReadVector 8 r of (xs, r) \<Rightarrow> (Float64List (map word_of_nat xs), r))"
  "ReadValueOfType 12 = (\<lambda>r. case (case ReadSize r of (n, r) \<Rightarrow> ReadListItems n [] r) of (vs, r) \<Rightarrow> (EncodableList vs, r))"
  "ReadValueOfType 13 = (\<lambda>r. case (case ReadSize r of (n, r) \<Rightarrow> ReadMapItems n [] r) of (m, r) \<Rightarrow> (EncodableMap m, r))"
  "ReadValueOfType 14 = (\<lambda>r. case ReadVector 4 r of (xs, r) \<Rightarrow> (Float32List (map word_of_nat xs), r))"
  by (rule ext; simp add: ReadValueOfType.simps case_prod_beta)+

text \<open>The type byte in front of a body.\<close>

lemma reads_back_typed:
  assumes "reads_back body (ReadValueOfType (EncodedTypeForValue v)) v"
    and "\<And>buf. WriteValue v buf = body (WriteByte (EncodedTypeForValue v) buf)"
  shows "reads_back (WriteValue v) ReadValue v"
proof -
  have "ReadValue = (\<lambda>r. case ReadByte r of (t, r) \<Rightarrow> ReadValueOfType t r)"
    by (rule ext) (simp add: ReadValue.simps case_prod_beta)
  moreover have "WriteValue v = (\<lambda>buf. body (WriteByte (EncodedTypeForValue v) buf))"
    using assms(2) by blast
  ultimately show ?thesis
    using reads_back_bind [where g = ReadValueOfType, OF reads_back_byte assms(1)] by simp
qed

lemma word_of_nat_unat_list [simp]: "map (word_of_nat \<circ> unat) xs = xs"
  by (induction xs) simp_all

lemma reads_back_string:
  assumes "length s < 2 ^ 32"
  shows "reads_back (\<lambda>buf. WriteBytes s (WriteSize (length s) buf)) (ReadValueOfType 7) (String s)"
proof -
  have "reads_back (WriteBytes s) (\<lambda>r. case ReadBytes (replicate (length s) 0) r of (s, r) \<Rightarrow> (String s, r)) (String s)"
    by (rule reads_back_map) (rule reads_back_bytes, simp)
  then show ?thesis unfolding ReadValueOfType_cases
    by (rule reads_back_bind [OF reads_back_size [OF assms],
          where g = "\<lambda>n r. case ReadBytes (replicate n 0) r of (s, r) \<Rightarrow> (String s, r)"])
qed

lemma reads_back_list:
  assumes "length vs < 2 ^ 32" and "\<And>v. v \<in> set vs \<Longrightarrow> reads_back (WriteValue v) ReadValue v"
  shows "reads_back (\<lambda>buf. fold WriteValue vs (WriteSize (length vs) buf)) (ReadValueOfType 12) (EncodableList vs)"
proof -
  have "reads_back (fold WriteValue vs) (ReadListItems (length vs) []) vs"
    using reads_back_items [of vs "[]"] assms(2) by simp
  from reads_back_bind [OF reads_back_size [OF assms(1)], where g = "\<lambda>n. ReadListItems n []", OF this]
  show ?thesis unfolding ReadValueOfType_cases by (rule reads_back_map)
qed

lemma reads_back_map_value:
  assumes "length m < 2 ^ 32" and "sorted_wrt value_less (map fst m)"
    and "\<And>kv. kv \<in> set m \<Longrightarrow> reads_back (WriteValue (fst kv)) ReadValue (fst kv) \<and>
       reads_back (WriteValue (snd kv)) ReadValue (snd kv)"
  shows "reads_back (\<lambda>buf. fold (\<lambda>kv buf. WriteValue (snd kv) (WriteValue (fst kv) buf)) m (WriteSize (length m) buf))
    (ReadValueOfType 13) (EncodableMap m)"
proof -
  have "reads_back (fold (\<lambda>kv buf. WriteValue (snd kv) (WriteValue (fst kv) buf)) m) (ReadMapItems (length m) []) m"
    using reads_back_pairs [of m "[]"] assms(3) emplace_rebuild [of "[]" m] assms(2) by simp
  from reads_back_bind [OF reads_back_size [OF assms(1)], where g = "\<lambda>n. ReadMapItems n []", OF this]
  show ?thesis unfolding ReadValueOfType_cases by (rule reads_back_map)
qed

lemma reads_back_double: "reads_back (\<lambda>buf. WriteDouble d (WriteAlignment 8 buf)) (ReadValueOfType 6) (Double d)"
  unfolding ReadValueOfType_cases
  by (rule reads_back_bind [OF reads_back_alignment, where g = "\<lambda>u r. case ReadDouble r of (d, r) \<Rightarrow> (Double d, r)"])
    (rule reads_back_map [OF reads_back_scalars(3)])

lemma reads_back_simple_values:
  "reads_back (WriteValue Null) ReadValue Null"
  "reads_back (WriteValue (Bool b)) ReadValue (Bool b)"
  "reads_back (WriteValue (Int32 i)) ReadValue (Int32 i)"
  "reads_back (WriteValue (Int64 j)) ReadValue (Int64 j)"
  "reads_back (WriteValue (Double d)) ReadValue (Double d)"
proof -
  show "reads_back (WriteValue Null) ReadValue Null"
    by (rule reads_back_typed [where body = "\<lambda>buf. buf"])
      (simp_all add: EncodedTypeForValue_def ReadValueOfType_cases WriteValue.simps reads_back_pure)
  show "reads_back (WriteValue (Bool b)) ReadValue (Bool b)"
    by (rule reads_back_typed [where body = "\<lambda>buf. buf"])
      (cases b; simp add: EncodedTypeForValue_def ReadValueOfType_cases WriteValue.simps reads_back_pure)+
  show "reads_back (WriteValue (Int32 i)) ReadValue (Int32 i)"
    by (rule reads_back_typed [where body = "WriteInt32 i"])
      (simp_all add: EncodedTypeForValue_def ReadValueOfType_cases WriteValue.simps reads_back_map reads_back_scalars)
  show "reads_back (WriteValue (Int64 j)) ReadValue (Int64 j)"
    by (rule reads_back_typed [where body = "WriteInt64 j"])
      (simp_all add: EncodedTypeForValue_def ReadValueOfType_cases WriteValue.simps reads_back_map reads_back_scalars)
  show "reads_back (WriteValue (Double d)) ReadValue (Double d)"
    by (rule reads_back_typed [OF _ WriteValue.simps [of "Double d", simplified Let_def EncodableValue.case]])
      (simp add: EncodedTypeForValue_def reads_back_double)
qed

lemma reads_back_string_value:
  assumes "length s < 2 ^ 32"
  shows "reads_back (WriteValue (String s)) ReadValue (String s)"
proof (rule reads_back_typed)
  show "reads_back (\<lambda>buf. WriteBytes s (WriteSize (length s) buf))
      (ReadValueOfType (EncodedTypeForValue (String s))) (String s)"
    using reads_back_string [OF assms] by (simp add: EncodedTypeForValue_def)
  show "WriteValue (String s) buf =
      WriteBytes s (WriteSize (length s) (WriteByte (EncodedTypeForValue (String s)) buf))" for buf
    by (simp add: WriteValue.simps Let_def WriteBytes_def)
qed

lemma reads_back_vector_values:
  "length bs < 2 ^ 32 \<Longrightarrow> reads_back (WriteValue (UInt8List bs)) ReadValue (UInt8List bs)"
  "length xs < 2 ^ 32 \<Longrightarrow> xs \<noteq> [] \<Longrightarrow> reads_back (WriteValue (Int32List xs)) ReadValue (Int32List xs)"
  "length ys < 2 ^ 32 \<Longrightarrow> ys \<noteq> [] \<Longrightarrow> reads_back (WriteValue (Int64List ys)) ReadValue (Int64List ys)"
  "length ys < 2 ^ 32 \<Longrightarrow> ys \<noteq> [] \<Longrightarrow> reads_back (WriteValue (Float64List ys)) ReadValue (Float64List ys)"
  "length xs < 2 ^ 32 \<Longrightarrow> xs \<noteq> [] \<Longrightarrow> reads_back (WriteValue (Float32List xs)) ReadValue (Float32List xs)"
proof -
  note read = EncodedTypeForValue_def ReadValueOfType_cases WriteValue.simps
  show "length bs < 2 ^ 32 \<Longrightarrow> reads_back (WriteValue (UInt8List bs)) ReadValue (UInt8List bs)"
    using reads_back_map [OF reads_back_vectors(3) [of bs], where g = "\<lambda>xs. UInt8List (map word_of_nat xs)"]
    by (intro reads_back_typed [where body = "WriteVector 1 (map unat bs)"]) (simp_all add: read)
  show "length xs < 2 ^ 32 \<Longrightarrow> xs \<noteq> [] \<Longrightarrow> reads_back (WriteValue (Int32List xs)) ReadValue (Int32List xs)"
    using reads_back_map [OF reads_back_vectors(1) [of xs], where g = "\<lambda>xs. Int32List (map word_of_nat xs)"]
    by (intro reads_back_typed [where body = "WriteVector 4 (map unat xs)"]) (simp_all add: read)
  show "length ys < 2 ^ 32 \<Longrightarrow> ys \<noteq> [] \<Longrightarrow> reads_back (WriteValue (Int64List ys)) ReadValue (Int64List ys)"
    using reads_back_map [OF reads_back_vectors(2) [of ys], where g = "\<lambda>xs. Int64List (map word_of_nat xs)"]
    by (intro reads_back_typed [where body = "WriteVector 8 (map unat ys)"]) (simp_all add: read)
  show "length ys < 2 ^ 32 \<Longrightarrow> ys \<noteq> [] \<Longrightarrow> reads_back (WriteValue (Float64List ys)) ReadValue (Float64List ys)"
    using reads_back_map [OF reads_back_vectors(2) [of ys], where g = "\<lambda>xs. Float64List (map word_of_nat xs)"]
    by (intro reads_back_typed [where body = "WriteVector 8 (map unat ys)"]) (simp_all add: read)
  show "length xs < 2 ^ 32 \<Longrightarrow> xs \<noteq> [] \<Longrightarrow> reads_back (WriteValue (Float32List xs)) ReadValue (Float32List xs)"
    using reads_back_map [OF reads_back_vectors(1) [of xs], where g = "\<lambda>xs. Float32List (map word_of_nat xs)"]
    by (intro reads_back_typed [where body = "WriteVector 4 (map unat xs)"]) (simp_all add: read)
qed

lemma reads_back_value: "serializable v \<Longrightarrow> reads_back (WriteValue v) ReadValue v"
proof (induction v)
  case (EncodableList vs)
  then have "reads_back (\<lambda>buf. fold WriteValue vs (WriteSize (length vs) buf)) (ReadValueOfType 12) (EncodableList vs)"
    by (intro reads_back_list) (auto simp: list_all_iff)
  then have "reads_back (\<lambda>buf. fold WriteValue vs (WriteSize (length vs) buf))
      (ReadValueOfType (EncodedTypeForValue (EncodableList vs))) (EncodableList vs)"
    by (simp add: EncodedTypeForValue_def)
  then show ?case by (rule reads_back_typed) (subst WriteValue.simps, simp add: Let_def)
next
  case (EncodableMap m)
  then have "reads_back (\<lambda>buf. fold (\<lambda>kv buf. WriteValue (snd kv) (WriteValue (fst kv) buf)) m (WriteSize (length m) buf))
      (ReadValueOfType 13) (EncodableMap m)"
    by (intro reads_back_map_value) (fastforce simp: list_all_iff prod_set_defs)+
  then have "reads_back (\<lambda>buf. fold (\<lambda>kv buf. WriteValue (snd kv) (WriteValue (fst kv) buf)) m (WriteSize (length m) buf))
      (ReadValueOfType (EncodedTypeForValue (EncodableMap m))) (EncodableMap m)"
    by (simp add: EncodedTypeForValue_def)
  then show ?case by (rule reads_back_typed) (subst WriteValue.simps, simp add: Let_def)
qed (simp_all add: reads_back_simple_values reads_back_string_value reads_back_vector_values)

section \<open>The codec contract\<close>

definition get_value :: "byte list \<Rightarrow> nat \<Rightarrow> (EncodableValue \<times> nat) option" where
  "get_value buf i =
     (let (v, r) = ReadValue \<lparr>reader_bytes = buf, reader_size = length buf, location = i\<rparr>
      in if reader_bytes r = buf \<and> reader_size r = length buf then Some (v, location r) else None)"

interpretation standard: value_codec WriteValue get_value serializable
proof
  fix v buf rest assume "serializable v"
  from reads_back_value [OF this] obtain img where w: "WriteValue v buf = buf @ img"
    and r: "\<And>rest. ReadValue (reader_at buf (img @ rest)) = (v, reader_at (buf @ img) rest)"
    unfolding reads_back_def by blast
  from w show "\<exists>bs. WriteValue v buf = buf @ bs" by blast
  show "get_value (WriteValue v buf @ rest) (length buf) = Some (v, length (WriteValue v buf))"
    using r [of rest] by (simp add: get_value_def w reader_at_def)
qed

lemma get_value_reader:
  "get_value buf i = Some (v, j) \<Longrightarrow> ReadValue \<lparr>reader_bytes = buf, reader_size = length buf, location = i\<rparr> =
     (v, \<lparr>reader_bytes = buf, reader_size = length buf, location = j\<rparr>)"
  by (cases "snd (ReadValue \<lparr>reader_bytes = buf, reader_size = length buf, location = i\<rparr>)")
    (auto simp: get_value_def Let_def case_prod_beta prod_eq_iff split: if_splits)

lemma serializable_opt: "pred_option serializable v \<Longrightarrow> serializable (opt_value v)"
  by (cases v) (auto simp: opt_value_def)

text \<open>C16: Every serializable message, however nested, decodes to itself from its encoding, whatever
  bytes follow it.\<close>

theorem standard_message_round_trip:
  assumes "serializable v"
  shows "DecodeMessage (Some (EncodeMessage v @ rest)) = v"
  using get_value_reader [OF standard.read_write [OF assms, of "[]" rest]]
  by (simp add: DecodeMessage_def EncodeMessage_def ByteBufferStreamReader_new_def)

theorem standard_message_round_trip_witness:
  "DecodeMessage (Some (EncodeMessage (EncodableMap [(String [97], EncodableList [Double 1, Int32 (-1)])]) @ [7])) =
     EncodableMap [(String [97], EncodableList [Double 1, Int32 (-1)])]"
  by (rule standard_message_round_trip) simp

lemma DecodeMethodCall_encoded:
  assumes "length (method_name call) < 2 ^ 32" and "pred_option serializable (method_arguments call)"
  shows "DecodeMethodCall (EncodeMethodCall call @ rest) =
     Some (call\<lparr>method_arguments := Some (opt_value (method_arguments call))\<rparr>)"
proof -
  have "serializable (String (method_name call))" using assms(1) by simp
  from standard.read_two [OF this serializable_opt [OF assms(2)], of "[]" rest]
  show ?thesis
    by (elim conjE) (drule get_value_reader, drule get_value_reader,
      simp add: DecodeMethodCall_def EncodeMethodCall_def ByteBufferStreamReader_new_def get_string_def)
qed

lemma DecodeEnvelope_encoded:
  assumes "pred_option serializable v" and "length code < 2 ^ 32" and "length message < 2 ^ 32"
  shows "DecodeAndProcessResponseEnvelope (EncodeSuccessEnvelope v) =
      Inr (Some (Success (if opt_value v = Null then None else v))) \<and>
    DecodeAndProcessResponseEnvelope (EncodeErrorEnvelope code message v) =
      Inr (Some (Error code message (if opt_value v = Null then None else v)))"
proof -
  note sv = serializable_opt [OF assms(1)]
  have v: "opt_value v \<noteq> Null \<Longrightarrow> Some (opt_value v) = v" by (cases v) (auto simp: opt_value_def)
  have byte: "ReadByte \<lparr>reader_bytes = b # bs, reader_size = Suc n, location = 0\<rparr> =
      (b, \<lparr>reader_bytes = b # bs, reader_size = Suc n, location = length [b]\<rparr>)" for b bs n
    by (simp add: ReadByte_def)
  have ext: "\<exists>bs. WriteValue w [b] = b # bs" if "serializable w" for w b
    using standard.write_extends [OF that, of "[b]"] by simp
  have "DecodeAndProcessResponseEnvelope (EncodeSuccessEnvelope v) =
      Inr (Some (Success (if opt_value v = Null then None else v)))"
  proof -
    from ext [OF sv] obtain bs where w: "WriteValue (opt_value v) [0] = 0 # bs" by blast
    from get_value_reader [OF standard.read_write [OF sv, of "[0]" "[]"]] show ?thesis
      using v by (simp add: DecodeAndProcessResponseEnvelope_def EncodeSuccessEnvelope_def WriteByte_def
          ByteBufferStreamReader_new_def w byte IsNull_def)
  qed
  moreover have "DecodeAndProcessResponseEnvelope (EncodeErrorEnvelope code message v) =
      Inr (Some (Error code message (if opt_value v = Null then None else v)))"
  proof -
    define m where "m = (if message = [] then Null else String message)"
    define whole where "whole = WriteValue (opt_value v) (WriteValue m (WriteValue (String code) [1]))"
    have c: "serializable (String code)" and m: "serializable m" using assms by (simp_all add: m_def)
    have e: "\<exists>bs. whole = [1] @ bs"
      using standard.fold_write_extends [of "[String code, m, opt_value v]" "[1]"] c m sv
      by (simp add: whole_def)
    then obtain bs where w: "whole = 1 # bs" by auto
    note r = standard.read_three [OF c m sv, of "[1]" "[]", folded whole_def, simplified]
    have "(if IsNull m then Inr [] else get_string m) = Inr message"
      by (simp add: m_def IsNull_def get_string_def)
    with r [THEN conjunct1, THEN get_value_reader] r [THEN conjunct2, THEN conjunct1, THEN get_value_reader]
      r [THEN conjunct2, THEN conjunct2, THEN get_value_reader]
    show ?thesis
      using v unfolding DecodeAndProcessResponseEnvelope_def EncodeErrorEnvelope_def WriteByte_def append_Nil
        m_def [symmetric] whole_def [symmetric] ByteBufferStreamReader_new_def
      by (simp add: w byte get_string_def IsNull_def)
  qed
  ultimately show ?thesis by blast
qed

section \<open>Empty vectors\<close>

lemma le_bytes_4:
  "le_bytes 4 n = [word_of_nat n, word_of_nat (n div 256), word_of_nat (n div 65536), word_of_nat (n div 16777216)]"
proof -
  have "(4 :: nat) = Suc (Suc (Suc (Suc 0)))" by simp
  then show ?thesis by (simp only: le_bytes.simps div_mult2_eq [symmetric]) simp
qed

lemma write_value_cases:
  "WriteValue (Int32 i) buf = WriteInt32 i (WriteByte 3 buf)"
  "WriteValue (Int64List xs) buf = WriteVector 8 (map unat xs) (WriteByte 10 buf)"
  "WriteValue (EncodableList vs) buf = fold WriteValue vs (WriteSize (length vs) (WriteByte 12 buf))"
  by (subst WriteValue.simps, simp add: EncodedTypeForValue_def)+

lemma encode_empty_vector:
  "EncodeMessage (EncodableList [Int64List [], Int32 i]) = [12, 2, 10, 0, 3] @ le_bytes 4 (unat i)"
  by (simp add: EncodeMessage_def write_value_cases WriteByte_def WriteSize_def
      WriteVector_def WriteInt32_def WriteBytes_def Let_def)

text \<open>An empty vector of multi-byte elements breaks what follows it: the writer emits no padding for
  it, the reader skips some, so the integer behind it is not read as it was written.\<close>

theorem empty_vector_corrupts_list:
  assumes "unat i < 2 ^ 24"
  shows "DecodeMessage (Some (EncodeMessage (EncodableList [Int64List [], Int32 i]))) =
     EncodableList [Int64List [], Null]"
proof -
  have z: "unat i div 16777216 = 0" using assms by simp
  define bs where "bs = EncodeMessage (EncodableList [Int64List [], Int32 i])"
  define r where "r n = \<lparr>reader_bytes = bs, reader_size = 9, location = n\<rparr>" for n
  have bs: "bs = [12, 2, 10, 0, 3, word_of_nat (unat i), word_of_nat (unat i div 256),
      word_of_nat (unat i div 65536), 0]"
    unfolding bs_def encode_empty_vector le_bytes_4 z by simp
  have byte: "ReadByte (r n) = (bs ! n, r (Suc n))" if "n < 9" for n
    using that by (simp add: ReadByte_def r_def)
  have size: "ReadSize (r n) = (unat (bs ! n), r (Suc n))" if "n < 9" "bs ! n < 254" for n
    using that by (simp add: ReadSize_def byte)
  have "ReadVector 8 (r 3) = ([], r 8)"
    using size [of 3] by (simp add: ReadVector_def bs) (simp add: r_def ReadAlignment_def ReadBytes_def)
  then have first: "ReadValue (r 2) = (Int64List [], r 8)"
    using byte [of 2] by (simp add: ReadValue.simps ReadValueOfType_cases bs)
  have second: "ReadValue (r 8) = (Null, r 9)"
    using byte [of 8] by (simp add: ReadValue.simps ReadValueOfType_cases bs)
  have items: "ReadListItems (Suc (Suc 0)) [] (r 2) = ([Int64List [], Null], r 9)"
    by (simp add: first second)
  have "ReadValue (r 0) = (EncodableList [Int64List [], Null], r 9)"
    using byte [of 0] size [of 1] items
    by (simp add: ReadValue.simps ReadValueOfType_cases bs numeral_2_eq_2 [symmetric])
  moreover have "length bs = 9" by (simp add: bs)
  ultimately show ?thesis
    unfolding bs_def [symmetric] by (simp add: DecodeMessage_def ByteBufferStreamReader_new_def r_def)
qed

theorem empty_vector_corrupts_list_witness:
  "DecodeMessage (Some (EncodeMessage (EncodableList [Int64List [], Int32 7]))) \<noteq>
     EncodableList [Int64List [], Int32 7]"
  using empty_vector_corrupts_list [of 7] by simp

end
