(* ===== verification/Command_Line.thy ===== *)
theory Command_Line
  imports Prelude
begin

text \<open>
  \<open>fml/command_line\<close>: turning \<open>argv\<close> into options and positional arguments, looking options up,
  and turning a command line back into \<open>argv\<close>. A \<open>std::string_view\<close> is a buffer and a length;
  the buffer extends past the view to a terminating NUL, which \<open>name.data()\<close> reads up to.
\<close>

section \<open>Strings\<close>

fun find_char :: "char \<Rightarrow> nat \<Rightarrow> string \<Rightarrow> nat option" where
  "find_char c i [] = None"
| "find_char c i (x # xs) = (if x = c then Some i else find_char c (Suc i) xs)"

text \<open>\<open>s.find(c, pos)\<close>; \<open>None\<close> is \<open>npos\<close>.\<close>

definition string_find :: "char \<Rightarrow> nat \<Rightarrow> string \<Rightarrow> nat option" where
  "string_find c pos s = find_char c pos (drop pos s)"

record string_view =
  sv_buffer :: string
  sv_size :: nat

definition sv_view :: "string_view \<Rightarrow> string" where
  "sv_view v = take (sv_size v) (sv_buffer v)"

text \<open>\<open>std::string(v.data())\<close>: the bytes up to the first NUL, whatever the size of the view.\<close>

definition sv_data :: "string_view \<Rightarrow> string" where
  "sv_data v = takeWhile (\<lambda>c. c \<noteq> CHR 0x00) (sv_buffer v)"

definition sv_of_string :: "string \<Rightarrow> string_view" where
  "sv_of_string s = \<lparr>sv_buffer = s @ [CHR 0x00], sv_size = length s\<rparr>"

section \<open>CommandLine\<close>

record Option =
  option_name :: string
  option_value :: string

record CommandLine =
  has_argv0 :: bool
  argv0 :: string
  options :: "Option list"
  positional_args :: "string list"
  option_index :: "string \<rightharpoonup> nat"

definition mk_option :: "string \<Rightarrow> string \<Rightarrow> Option" where
  "mk_option n v = \<lparr>option_name = n, option_value = v\<rparr>"

definition CommandLine_empty :: CommandLine where
  "CommandLine_empty =
     \<lparr>has_argv0 = False, argv0 = [], options = [], positional_args = [], option_index = Map.empty\<rparr>"

text \<open>The constructor's loop over \<open>options_\<close>.\<close>

fun index_options :: "nat \<Rightarrow> Option list \<Rightarrow> (string \<rightharpoonup> nat) \<Rightarrow> (string \<rightharpoonup> nat)" where
  "index_options i [] m = m"
| "index_options i (opt # os) m = index_options (Suc i) os (m(option_name opt \<mapsto> i))"

definition CommandLine_new :: "string \<Rightarrow> Option list \<Rightarrow> string list \<Rightarrow> CommandLine" where
  "CommandLine_new a os ps =
     \<lparr>has_argv0 = True, argv0 = a, options = os, positional_args = ps,
      option_index = index_options 0 os Map.empty\<rparr>"

text \<open>The result carries what the code stores through \<open>index\<close>.\<close>

definition HasOption :: "CommandLine \<Rightarrow> string_view \<Rightarrow> nat option" where
  "HasOption cl name = option_index cl (sv_data name)"

definition GetOptionValue :: "CommandLine \<Rightarrow> string_view \<Rightarrow> string option" where
  "GetOptionValue cl name =
     (case HasOption cl name of None \<Rightarrow> None | Some i \<Rightarrow> Some (option_value (options cl ! i)))"

definition GetOptionValues :: "CommandLine \<Rightarrow> string_view \<Rightarrow> string list" where
  "GetOptionValues cl name =
     map option_value (filter (\<lambda>opt. option_name opt = sv_view name) (options cl))"

definition GetOptionValueWithDefault :: "CommandLine \<Rightarrow> string_view \<Rightarrow> string \<Rightarrow> string" where
  "GetOptionValueWithDefault cl name d =
     (case HasOption cl name of None \<Rightarrow> d | Some i \<Rightarrow> option_value (options cl ! i))"

section \<open>CommandLineBuilder\<close>

record CommandLineBuilder =
  b_has_argv0 :: bool
  b_argv0 :: string
  b_options :: "Option list"
  b_positional_args :: "string list"
  started_positional_args :: bool

definition CommandLineBuilder_new :: CommandLineBuilder where
  "CommandLineBuilder_new =
     \<lparr>b_has_argv0 = False, b_argv0 = [], b_options = [], b_positional_args = [],
      started_positional_args = False\<rparr>"

definition starts_dash_dash :: "string \<Rightarrow> bool" where
  "starts_dash_dash arg \<longleftrightarrow> length arg \<ge> 2 \<and> arg ! 0 = CHR ''-'' \<and> arg ! 1 = CHR ''-''"

definition ProcessArg :: "string \<Rightarrow> CommandLineBuilder \<Rightarrow> bool \<times> CommandLineBuilder" where
  "ProcessArg arg b =
     (if \<not> b_has_argv0 b then (False, b\<lparr>b_has_argv0 := True, b_argv0 := arg\<rparr>)
      else if started_positional_args b then
        (b_positional_args b = [], b\<lparr>b_positional_args := b_positional_args b @ [arg]\<rparr>)
      else if \<not> starts_dash_dash arg then
        (b_positional_args b = [],
         b\<lparr>started_positional_args := True, b_positional_args := b_positional_args b @ [arg]\<rparr>)
      else if length arg = 2 then (False, b\<lparr>started_positional_args := True\<rparr>)
      else
        (case string_find CHR ''='' 3 arg of
           None \<Rightarrow> (False, b\<lparr>b_options := b_options b @ [mk_option (drop 2 arg) []]\<rparr>)
         | Some p \<Rightarrow>
             (False, b\<lparr>b_options := b_options b @
                [mk_option (take (p - 2) (drop 2 arg)) (drop (p + 1) arg)]\<rparr>)))"

definition Build :: "CommandLineBuilder \<Rightarrow> CommandLine" where
  "Build b =
     (if \<not> b_has_argv0 b then CommandLine_empty
      else CommandLine_new (b_argv0 b) (b_options b) (b_positional_args b))"

section \<open>Factory functions\<close>

fun process_args :: "nat \<Rightarrow> string list \<Rightarrow> nat \<Rightarrow> CommandLineBuilder \<Rightarrow> nat \<times> CommandLineBuilder" where
  "process_args it [] fp b = (fp, b)"
| "process_args it (arg # args) fp b =
     (let (first, b) = ProcessArg arg b in process_args (Suc it) args (if first then it else fp) b)"

text \<open>The iterator stored in \<open>first_positional_arg\<close> is an index into the arguments.\<close>

definition CommandLineFromIteratorsFindFirstPositionalArg :: "string list \<Rightarrow> CommandLine \<times> nat" where
  "CommandLineFromIteratorsFindFirstPositionalArg args =
     (let (fp, b) = process_args 0 args (length args) CommandLineBuilder_new in (Build b, fp))"

definition CommandLineFromIterators :: "string list \<Rightarrow> CommandLine" where
  "CommandLineFromIterators args = fst (CommandLineFromIteratorsFindFirstPositionalArg args)"

definition CommandLineFromIteratorsWithArgv0 :: "string \<Rightarrow> string list \<Rightarrow> CommandLine" where
  "CommandLineFromIteratorsWithArgv0 a args =
     Build (snd (process_args 0 args 0 (snd (ProcessArg a CommandLineBuilder_new))))"

text \<open>\<open>platform\<close> is what the host's \<open>CommandLineFromPlatform\<close> returns.\<close>

definition CommandLineFromPlatformOrArgcArgv :: "CommandLine option \<Rightarrow> string list \<Rightarrow> CommandLine" where
  "CommandLineFromPlatformOrArgcArgv platform argv =
     (case platform of Some cl \<Rightarrow> cl | None \<Rightarrow> CommandLineFromIterators argv)"

definition option_to_arg :: "Option \<Rightarrow> string" where
  "option_to_arg opt =
     (if option_value opt = [] then ''--'' @ option_name opt
      else ''--'' @ option_name opt @ ''='' @ option_value opt)"

definition CommandLineToArgv :: "CommandLine \<Rightarrow> string list" where
  "CommandLineToArgv cl =
     (if \<not> has_argv0 cl then []
      else
        argv0 cl # map option_to_arg (options cl) @
        (case positional_args cl of
           [] \<Rightarrow> []
         | p # ps \<Rightarrow> (if starts_dash_dash p then [''--''] else []) @ p # ps))"

section \<open>Searching\<close>

lemma find_char_None: "find_char c i s = None \<longleftrightarrow> c \<notin> set s"
  by (induction c i s rule: find_char.induct) auto

lemma find_char_append: "c \<notin> set xs \<Longrightarrow> find_char c i (xs @ c # ys) = Some (i + length xs)"
  by (induction xs arbitrary: i) auto

lemma find_char_Some:
  "find_char c i s = Some p \<Longrightarrow> \<exists>xs ys. s = xs @ c # ys \<and> p = i + length xs \<and> c \<notin> set xs"
proof (induction c i s rule: find_char.induct)
  case (1 c i)
  then show ?case by simp
next
  case (2 c i x xs)
  show ?case
  proof (cases "x = c")
    case True
    with 2 show ?thesis by (intro exI [of _ "[]"] exI [of _ xs]) simp
  next
    case False
    with 2 obtain as bs where "xs = as @ c # bs" "p = Suc i + length as" "c \<notin> set as" by auto
    with False show ?thesis by (intro exI [of _ "x # as"] exI [of _ bs]) auto
  qed
qed

section \<open>Well-formed command lines\<close>

text \<open>
  A name has a character and no equals sign after its first one (the parser starts looking at
  position 3 of the argument). A command line without \<open>argv[0]\<close> is empty.
\<close>

definition name_ok :: "string \<Rightarrow> bool" where
  "name_ok n \<longleftrightarrow> n \<noteq> [] \<and> CHR ''='' \<notin> set (tl n)"

definition cl_ok :: "CommandLine \<Rightarrow> bool" where
  "cl_ok cl \<longleftrightarrow>
     (if has_argv0 cl then
        list_all (\<lambda>opt. name_ok (option_name opt)) (options cl) \<and>
        option_index cl = index_options 0 (options cl) Map.empty
      else cl = CommandLine_empty)"

lemma dash_dash_cases:
  assumes "starts_dash_dash arg"
  obtains r where "arg = CHR ''-'' # CHR ''-'' # r"
proof -
  from assms obtain x y r where "arg = x # y # r"
    by (cases arg; cases "tl arg") (auto simp: starts_dash_dash_def)
  with assms that show ?thesis by (auto simp: starts_dash_dash_def)
qed

lemma starts_dash_dash_simps [simp]:
  "starts_dash_dash (CHR ''-'' # CHR ''-'' # r)"
  "\<not> starts_dash_dash []" "\<not> starts_dash_dash [x]"
  by (auto simp: starts_dash_dash_def)

text \<open>What an option argument parses to.\<close>

definition parse_option :: "string \<Rightarrow> Option" where
  "parse_option arg =
     (case string_find CHR ''='' 3 arg of
        None \<Rightarrow> mk_option (drop 2 arg) []
      | Some p \<Rightarrow> mk_option (take (p - 2) (drop 2 arg)) (drop (p + 1) arg))"

lemma ProcessArg_option:
  "b_has_argv0 b \<Longrightarrow> \<not> started_positional_args b \<Longrightarrow> starts_dash_dash arg \<Longrightarrow> length arg \<noteq> 2 \<Longrightarrow>
     ProcessArg arg b = (False, b\<lparr>b_options := b_options b @ [parse_option arg]\<rparr>)"
  by (simp add: ProcessArg_def parse_option_def split: option.split)

lemma drop_dashes [simp]: "drop 2 (x # y # r) = r" "drop 3 (x # y # z # r) = r"
  by (simp_all add: numeral_2_eq_2 numeral_3_eq_3)

lemma drop_option [simp]: "drop (4 + length ns) (x # y # n # ns @ e # v) = v"
  by (simp add: eval_nat_numeral)

text \<open>The two shapes of an option argument.\<close>

lemma parse_option_flag:
  "CHR ''='' \<notin> set ns \<Longrightarrow> parse_option (x # y # n # ns) = mk_option (n # ns) []"
  by (simp add: parse_option_def string_find_def find_char_None [THEN iffD2])

lemma parse_option_value:
  assumes "CHR ''='' \<notin> set ns"
  shows "parse_option (x # y # n # ns @ CHR ''='' # v) = mk_option (n # ns) v"
  using find_char_append [OF assms, of 3 v] by (simp add: parse_option_def string_find_def)

lemma parse_option_name_ok:
  assumes "starts_dash_dash arg" and "length arg \<noteq> 2"
  shows "name_ok (option_name (parse_option arg))"
proof -
  obtain n ns where arg: "arg = CHR ''-'' # CHR ''-'' # n # ns"
    using assms by (elim dash_dash_cases) (metis length_Cons list.size(3) neq_Nil_conv numeral_2_eq_2)
  show ?thesis
  proof (cases "CHR ''='' \<in> set ns")
    case True
    from split_list_first [OF this] obtain xs ys where "ns = xs @ CHR ''='' # ys" "CHR ''='' \<notin> set xs"
      by blast
    then show ?thesis by (simp add: arg parse_option_value name_ok_def mk_option_def)
  next
    case False
    then show ?thesis by (simp add: arg parse_option_flag name_ok_def mk_option_def)
  qed
qed

lemma parse_option_to_arg:
  assumes "name_ok (option_name opt)"
  shows "parse_option (option_to_arg opt) = opt" "starts_dash_dash (option_to_arg opt)"
    "length (option_to_arg opt) \<noteq> 2"
proof -
  obtain n ns where n: "option_name opt = n # ns" "CHR ''='' \<notin> set ns"
    using assms by (cases "option_name opt") (auto simp: name_ok_def)
  have "mk_option (n # ns) (option_value opt) = opt" using n(1) by (simp add: mk_option_def)
  then show "parse_option (option_to_arg opt) = opt"
    using parse_option_flag [OF n(2)] parse_option_value [OF n(2)] n(1)
    by (cases "option_value opt") (simp_all add: option_to_arg_def)
  show "starts_dash_dash (option_to_arg opt)" by (simp add: option_to_arg_def)
  show "length (option_to_arg opt) \<noteq> 2" using n(1) by (simp add: option_to_arg_def)
qed

section \<open>What a run of the builder produces\<close>

lemma process_args_cons:
  "process_args it (arg # args) fp b =
     process_args (Suc it) args (if fst (ProcessArg arg b) then it else fp) (snd (ProcessArg arg b))"
  by (simp add: case_prod_beta)

declare process_args.simps(2) [simp del]

lemma ProcessArg_positional:
  "b_has_argv0 b \<Longrightarrow> started_positional_args b \<Longrightarrow>
     ProcessArg arg b = (b_positional_args b = [], b\<lparr>b_positional_args := b_positional_args b @ [arg]\<rparr>)"
  by (simp add: ProcessArg_def)

lemma ProcessArg_first_positional:
  "b_has_argv0 b \<Longrightarrow> \<not> started_positional_args b \<Longrightarrow> \<not> starts_dash_dash arg \<Longrightarrow>
     ProcessArg arg b = (b_positional_args b = [],
       b\<lparr>started_positional_args := True, b_positional_args := b_positional_args b @ [arg]\<rparr>)"
  by (simp add: ProcessArg_def)

lemma ProcessArg_separator:
  "b_has_argv0 b \<Longrightarrow> \<not> started_positional_args b \<Longrightarrow>
     ProcessArg ''--'' b = (False, b\<lparr>started_positional_args := True\<rparr>)"
  by (simp add: ProcessArg_def)

text \<open>Once positional arguments have started, every further argument is positional.\<close>

lemma process_args_positional:
  "b_has_argv0 b \<Longrightarrow> started_positional_args b \<Longrightarrow>
     process_args it args fp b =
       (if b_positional_args b = [] \<and> args \<noteq> [] then it else fp,
        b\<lparr>b_positional_args := b_positional_args b @ args\<rparr>)"
  by (induction args arbitrary: it fp b) (auto simp: process_args_cons ProcessArg_positional)

lemma process_args_options:
  assumes "list_all (\<lambda>arg. starts_dash_dash arg \<and> length arg \<noteq> 2) os"
    and "b_has_argv0 b" and "\<not> started_positional_args b"
  shows "process_args it (os @ rest) fp b =
     process_args (it + length os) rest fp (b\<lparr>b_options := b_options b @ map parse_option os\<rparr>)"
  using assms
  by (induction os arbitrary: it b) (simp_all add: process_args_cons ProcessArg_option)

text \<open>
  Every argument vector is \<open>argv[0]\<close>, then option arguments, then at most one separator, then
  positional arguments, the first of which is no option when there is no separator.
\<close>

fun split_args :: "string list \<Rightarrow> string list \<times> bool \<times> string list" where
  "split_args [] = ([], False, [])"
| "split_args (arg # args) =
     (if \<not> starts_dash_dash arg then ([], False, arg # args)
      else if length arg = 2 then ([], True, args)
      else (let (os, sep, ps) = split_args args in (arg # os, sep, ps)))"

lemma split_args_props:
  assumes "split_args args = (os, sep, ps)"
  shows "list_all (\<lambda>arg. starts_dash_dash arg \<and> length arg \<noteq> 2) os"
    "args = os @ (if sep then [''--''] else []) @ ps"
    "\<not> sep \<Longrightarrow> ps \<noteq> [] \<Longrightarrow> \<not> starts_dash_dash (hd ps)"
  using assms
proof (induction args arbitrary: os)
  case Nil
  {
    case 1
    then show ?case by simp
  next
    case 2
    then show ?case by simp
  next
    case 3
    then show ?case by simp
  }
next
  case (Cons arg args)
  have sep: "starts_dash_dash arg \<Longrightarrow> length arg = 2 \<Longrightarrow> arg = ''--''"
    by (elim dash_dash_cases) auto
  {
    case 1
    then show ?case using Cons.IH(1) by (auto split: if_splits prod.splits)
  next
    case 2
    then show ?case using Cons.IH(2) sep by (fastforce split: if_splits prod.splits)
  next
    case 3
    then show ?case using Cons.IH(3) by (auto split: if_splits prod.splits)
  }
qed

lemma parse_split:
  assumes "split_args args = (os, sep, ps)"
  shows "CommandLineFromIteratorsFindFirstPositionalArg (a # args) =
     (CommandLine_new a (map parse_option os) ps,
      if ps = [] then Suc (length args) else Suc (length os + (if sep then 1 else 0)))"
proof -
  note p = split_args_props [OF assms]
  define b where "b = CommandLineBuilder_new\<lparr>b_has_argv0 := True, b_argv0 := a\<rparr>"
  define bo where "bo = b\<lparr>b_options := map parse_option os\<rparr>"
  have b: "b_has_argv0 b" "\<not> started_positional_args b" "b_options b = []"
    "b_has_argv0 bo" "\<not> started_positional_args bo" "b_positional_args bo = []"
    by (simp_all add: b_def bo_def CommandLineBuilder_new_def)
  define n where "n = Suc (length args)"
  have "process_args 0 (a # args) n CommandLineBuilder_new = process_args 1 args n b"
    by (simp add: process_args_cons ProcessArg_def CommandLineBuilder_new_def b_def)
  also have "\<dots> = process_args (1 + length os) ((if sep then [''--''] else []) @ ps) n bo"
    using process_args_options [OF p(1) b(1) b(2)] b(3) p(2) by (simp add: bo_def)
  also have "\<dots> = (if ps = [] then n else Suc (length os + (if sep then 1 else 0)),
      bo\<lparr>b_positional_args := ps, started_positional_args := sep \<or> ps \<noteq> []\<rparr>)"
  proof (cases sep)
    case True
    then show ?thesis using b
      by (simp add: process_args_cons ProcessArg_separator process_args_positional)
  next
    case False
    then show ?thesis using b p(3)
      by (cases ps) (simp_all add: process_args_cons ProcessArg_first_positional
          process_args_positional)
  qed
  finally show ?thesis
    by (simp add: CommandLineFromIteratorsFindFirstPositionalArg_def n_def Build_def bo_def b_def
        CommandLineBuilder_new_def)
qed

section \<open>Parsing and printing\<close>

lemma split_args_options:
  "list_all (\<lambda>arg. starts_dash_dash arg \<and> length arg \<noteq> 2) os \<Longrightarrow>
     split_args (os @ rest) = (let (os', sep, ps) = split_args rest in (os @ os', sep, ps))"
  by (induction os) (simp_all add: case_prod_beta)

lemma printed_options_ok:
  "list_all (\<lambda>opt. name_ok (option_name opt)) os \<Longrightarrow>
     list_all (\<lambda>arg. starts_dash_dash arg \<and> length arg \<noteq> 2) (map option_to_arg os)"
  "list_all (\<lambda>opt. name_ok (option_name opt)) os \<Longrightarrow> map (parse_option \<circ> option_to_arg) os = os"
  by (induction os) (simp_all add: parse_option_to_arg)

lemma parse_print:
  assumes "list_all (\<lambda>opt. name_ok (option_name opt)) os"
  shows "CommandLineFromIterators (CommandLineToArgv (CommandLine_new a os ps)) = CommandLine_new a os ps"
proof -
  have "split_args (tl (CommandLineToArgv (CommandLine_new a os ps))) =
      (map option_to_arg os, ps \<noteq> [] \<and> starts_dash_dash (hd ps), ps)"
    using split_args_options [OF printed_options_ok(1) [OF assms]]
      split_args_options [OF printed_options_ok(1) [OF assms], of "[]"]
    by (cases ps) (simp_all add: CommandLineToArgv_def CommandLine_new_def)
  from parse_split [OF this, of a] show ?thesis
    using printed_options_ok(2) [OF assms]
    by (simp add: CommandLineFromIterators_def CommandLineToArgv_def CommandLine_new_def)
qed

lemma parse_nil:
  "CommandLineFromIteratorsFindFirstPositionalArg [] = (CommandLine_empty, 0)"
  by (simp add: CommandLineFromIteratorsFindFirstPositionalArg_def Build_def
      CommandLineBuilder_new_def)

lemma cl_ok_iff:
  "cl_ok cl \<longleftrightarrow> cl = CommandLine_empty \<or>
     (\<exists>a os ps. list_all (\<lambda>opt. name_ok (option_name opt)) os \<and> cl = CommandLine_new a os ps)"
  by (cases cl) (auto simp: cl_ok_def CommandLine_new_def CommandLine_empty_def)

lemma parse_cl_ok: "cl_ok (CommandLineFromIterators args)"
proof (cases args)
  case Nil
  then show ?thesis by (simp add: CommandLineFromIterators_def parse_nil cl_ok_iff)
next
  case (Cons a as)
  obtain os sep ps where sp: "split_args as = (os, sep, ps)" by (cases "split_args as")
  have "list_all (\<lambda>opt. name_ok (option_name opt)) (map parse_option os)"
    using split_args_props(1) [OF sp] by (auto simp: list_all_iff parse_option_name_ok)
  then show ?thesis
    using parse_split [OF sp, of a] unfolding CommandLineFromIterators_def Cons cl_ok_iff by auto
qed

lemma parse_print_empty: "CommandLineFromIterators (CommandLineToArgv CommandLine_empty) = CommandLine_empty"
proof -
  have "CommandLineToArgv CommandLine_empty = []"
    by (simp add: CommandLineToArgv_def CommandLine_empty_def)
  then show ?thesis by (simp add: CommandLineFromIterators_def parse_nil)
qed

lemma parse_print_ok: "cl_ok cl \<Longrightarrow> CommandLineFromIterators (CommandLineToArgv cl) = cl"
  unfolding cl_ok_iff using parse_print parse_print_empty by auto

text \<open>C34: \<open>CommandLineToArgv\<close> prints every well-formed command line to arguments that parse back to it,
  the index of the options included; and every argument vector parses to a well-formed command line,
  so printing normalises it.\<close>

theorem command_line_round_trip:
  "cl_ok (CommandLineFromIterators args) \<and>
     (cl_ok cl \<longrightarrow> CommandLineFromIterators (CommandLineToArgv cl) = cl)"
  using parse_cl_ok parse_print_ok by blast

theorem command_line_round_trip_witness:
  "let cl = CommandLine_new ''app'' [mk_option ''a'' ''1'', mk_option ''=b'' []] [''--x'', ''y''] in
     cl_ok cl \<and> CommandLineToArgv cl = [''app'', ''--a=1'', ''--=b'', ''--'', ''--x'', ''y''] \<and>
     CommandLineFromIterators [''app'', ''--a=1'', ''--=b'', ''--'', ''--x'', ''y''] = cl"
proof -
  define cl where
    "cl = CommandLine_new ''app'' [mk_option ''a'' ''1'', mk_option ''=b'' []] [''--x'', ''y'']"
  have ok: "cl_ok cl" by (simp add: cl_def cl_ok_def CommandLine_new_def mk_option_def name_ok_def)
  have "CommandLineToArgv cl = [''app'', ''--a=1'', ''--=b'', ''--'', ''--x'', ''y'']"
    by (simp add: cl_def CommandLineToArgv_def CommandLine_new_def mk_option_def option_to_arg_def)
  with ok command_line_round_trip [of "[]" cl] show ?thesis by (simp add: cl_def [symmetric])
qed

text \<open>The index reported for the first positional argument is where the positional arguments
  start in the vector, and the number of arguments when there are none.\<close>

theorem first_positional_index:
  assumes "CommandLineFromIteratorsFindFirstPositionalArg args = (cl, first)"
  shows "positional_args cl = drop first args \<and> (positional_args cl = [] \<longleftrightarrow> first = length args)"
proof (cases args)
  case Nil
  with assms have "cl = CommandLine_empty" "first = 0" by (simp_all add: parse_nil)
  with Nil show ?thesis by (simp add: CommandLine_empty_def)
next
  case (Cons a as)
  obtain os sep ps where sp: "split_args as = (os, sep, ps)" by (cases "split_args as")
  with assms Cons have "positional_args cl = ps"
    "first = (if ps = [] then Suc (length as) else Suc (length os + (if sep then 1 else 0)))"
    by (auto simp: parse_split CommandLine_new_def)
  with Cons split_args_props(2) [OF sp] show ?thesis by auto
qed

theorem first_positional_index_witness:
  "positional_args (fst (CommandLineFromIteratorsFindFirstPositionalArg [''app'', ''--v'', ''--'', ''--x'', ''y''])) =
     [''--x'', ''y'']"
proof -
  let ?args = "[''app'', ''--v'', ''--'', ''--x'', ''y'']"
  have "CommandLineFromIteratorsFindFirstPositionalArg ?args =
      (CommandLine_new ''app'' [parse_option ''--v''] [''--x'', ''y''], 3)"
    by (subst parse_split [of _ "[''--v'']" True "[''--x'', ''y'']"]) auto
  from first_positional_index [OF this] show ?thesis
    by (simp add: \<open>CommandLineFromIteratorsFindFirstPositionalArg ?args = _\<close> eval_nat_numeral)
qed

section \<open>Looking options up\<close>

lemma index_options_snoc:
  "index_options i (os @ [opt]) m = (index_options i os m)(option_name opt \<mapsto> i + length os)"
  by (induction os arbitrary: i m) auto

text \<open>The index finds the last option of the name.\<close>

lemma index_options_last:
  "(case index_options 0 os Map.empty n of None \<Rightarrow> None | Some i \<Rightarrow> Some (option_value ((os @ r) ! i))) =
     (let vs = map option_value (filter (\<lambda>opt. option_name opt = n) os)
      in if vs = [] then None else Some (last vs))"
proof (induction os arbitrary: r rule: rev_induct)
  case Nil
  then show ?case by simp
next
  case (snoc opt os)
  show ?case
    using snoc.IH [of "opt # r"] unfolding append.assoc append_Cons append_Nil
    by (cases "option_name opt = n") (simp_all add: index_options_snoc nth_append [of os])
qed

lemma sv_of_string: "CHR 0x00 \<notin> set s \<Longrightarrow> sv_data (sv_of_string s) = s \<and> sv_view (sv_of_string s) = s"
  by (auto simp: sv_data_def sv_view_def sv_of_string_def takeWhile_append)

lemma cl_ok_index: "cl_ok cl \<Longrightarrow> option_index cl = index_options 0 (options cl) Map.empty"
  by (auto simp: cl_ok_iff CommandLine_empty_def CommandLine_new_def)

lemma get_value_data:
  "cl_ok cl \<Longrightarrow> GetOptionValue cl v =
     (let vs = map option_value (filter (\<lambda>opt. option_name opt = sv_data v) (options cl))
      in if vs = [] then None else Some (last vs))"
  using index_options_last [of "options cl" "[]" "sv_data v", unfolded append_Nil2]
  by (simp add: GetOptionValue_def HasOption_def cl_ok_index)

text \<open>On every parsed command line and for a name passed as a terminated string, the single-value
  lookups return the last of the values that \<open>GetOptionValues\<close> lists in order, and nothing or the
  default exactly when that list is empty.\<close>

theorem option_lookup_is_last:
  assumes "CHR 0x00 \<notin> set n"
  shows "let cl = CommandLineFromIterators args; v = sv_of_string n; vs = GetOptionValues cl v in
     GetOptionValue cl v = (if vs = [] then None else Some (last vs)) \<and>
     GetOptionValueWithDefault cl v d = (if vs = [] then d else last vs) \<and>
     (HasOption cl v = None \<longleftrightarrow> vs = [])"
proof -
  define cl where "cl = CommandLineFromIterators args"
  define v where "v = sv_of_string n"
  have sv: "sv_view v = n" "sv_data v = n" using sv_of_string [OF assms] by (simp_all add: v_def)
  have g: "GetOptionValue cl v =
      (if GetOptionValues cl v = [] then None else Some (last (GetOptionValues cl v)))"
    using get_value_data [of cl v] parse_cl_ok by (simp add: cl_def GetOptionValues_def sv)
  have "GetOptionValueWithDefault cl v d = (case GetOptionValue cl v of None \<Rightarrow> d | Some x \<Rightarrow> x)"
    "HasOption cl v = None \<longleftrightarrow> GetOptionValue cl v = None"
    by (simp_all add: GetOptionValueWithDefault_def GetOptionValue_def split: option.split)
  with g show ?thesis unfolding cl_def [symmetric] v_def [symmetric] by (simp add: Let_def)
qed

theorem option_lookup_is_last_witness:
  "GetOptionValue (CommandLineFromIterators [''app'', ''--a=1'', ''--b'', ''--a=2'']) (sv_of_string ''a'') =
     Some ''2''"
proof -
  have cl: "CommandLineFromIterators [''app'', ''--a=1'', ''--b'', ''--a=2''] =
      CommandLine_new ''app'' [mk_option ''a'' ''1'', mk_option ''b'' [], mk_option ''a'' ''2''] []"
    using parse_print [of "[mk_option ''a'' ''1'', mk_option ''b'' [], mk_option ''a'' ''2'']" "''app''" "[]"]
    by (simp add: CommandLineToArgv_def CommandLine_new_def mk_option_def option_to_arg_def name_ok_def)
  show ?thesis
    using option_lookup_is_last [of "''a''" "[''app'', ''--a=1'', ''--b'', ''--a=2'']"]
    by (simp add: cl Let_def GetOptionValues_def CommandLine_new_def mk_option_def sv_view_def
        sv_of_string_def)
qed

text \<open>For a view that is a proper prefix of its buffer the two lookups use different names:
  \<open>HasOption\<close> and the single-value lookups read the buffer up to its NUL, \<open>GetOptionValues\<close> the view.\<close>

theorem option_lookup_ignores_view_length:
  assumes "CHR 0x00 \<notin> set n" and "CHR 0x00 \<notin> set m" and "m \<noteq> []" and "n \<noteq> []"
    and "CHR ''='' \<notin> set n" and "val \<noteq> []"
  shows "let cl = CommandLineFromIterators [a, ''--'' @ n @ ''='' @ val];
       v = \<lparr>sv_buffer = n @ m @ [CHR 0x00], sv_size = length n\<rparr> in
     sv_view v = n \<and> GetOptionValues cl v = [val] \<and> GetOptionValue cl v = None"
proof -
  define v where "v = \<lparr>sv_buffer = n @ m @ [CHR 0x00], sv_size = length n\<rparr>"
  define cl where "cl = CommandLine_new a [mk_option n val] []"
  obtain x xs where n: "n = x # xs" using assms(4) by (cases n) auto
  have ok: "list_all (\<lambda>opt. name_ok (option_name opt)) [mk_option n val]"
    using assms(5) by (simp add: name_ok_def mk_option_def n)
  have "CommandLineToArgv cl = [a, ''--'' @ n @ ''='' @ val]"
    using assms(6) by (simp add: cl_def CommandLineToArgv_def CommandLine_new_def option_to_arg_def
        mk_option_def)
  with parse_print [OF ok, of a "[]"] have cl: "CommandLineFromIterators [a, ''--'' @ n @ ''='' @ val] = cl"
    by (simp add: cl_def)
  have v: "sv_view v = n" "sv_data v = n @ m"
    using assms(1,2) by (auto simp: sv_view_def sv_data_def v_def takeWhile_append)
  have "GetOptionValues cl v = [val]"
    by (simp add: GetOptionValues_def v cl_def CommandLine_new_def mk_option_def)
  moreover have "GetOptionValue cl v = None"
    using assms(3) by (simp add: GetOptionValue_def HasOption_def v cl_def CommandLine_new_def
        mk_option_def)
  ultimately show ?thesis using v(1) unfolding cl v_def [symmetric] by (simp add: Let_def)
qed

theorem option_lookup_ignores_view_length_witness:
  "let cl = CommandLineFromIterators [''app'', ''--trace=on''];
       v = \<lparr>sv_buffer = ''trace-skia'' @ [CHR 0x00], sv_size = 5\<rparr> in
     GetOptionValues cl v = [''on''] \<and> GetOptionValue cl v = None"
  using option_lookup_ignores_view_length [of "''trace''" "''-skia''" "''on''" "''app''"]
  by (simp add: Let_def eval_nat_numeral)

end
