(* ===== verification/Text_Numbers.thy ===== *)
theory Text_Numbers
  imports Prelude
begin

text \<open>
  Numbers as text, the way the components print and parse them: \<open>std::hex\<close>, \<open>std::to_string\<close>, the
  \<open>std::sto*\<close> family, the extraction of an unsigned number from a stream and \<open>isxdigit\<close>. The parsers are those
  of the C locale.
\<close>

section \<open>Printing and parsing\<close>

definition hex_digit :: "nat \<Rightarrow> char" where
  "hex_digit n = ''0123456789abcdef'' ! n"

text \<open>\<open>std::hex\<close>: lower case, no leading zeros.\<close>

fun hex_string :: "nat \<Rightarrow> string" where
  "hex_string n = (if n < 16 then [hex_digit n] else hex_string (n div 16) @ [hex_digit (n mod 16)])"

declare hex_string.simps [simp del]

fun dec_string :: "nat \<Rightarrow> string" where
  "dec_string n =
     (if n < 10 then [char_of (n + 48)] else dec_string (n div 10) @ [char_of (n mod 10 + 48)])"

declare dec_string.simps [simp del]

definition int_string :: "int \<Rightarrow> string" where
  "int_string i = (if i < 0 then CHR ''-'' # dec_string (nat (- i)) else dec_string (nat i))"

definition hex_value :: "char \<Rightarrow> nat option" where
  "hex_value c =
     (let n = of_char c :: nat in
      if 48 \<le> n \<and> n \<le> 57 then Some (n - 48)
      else if 97 \<le> n \<and> n \<le> 102 then Some (n - 87)
      else if 65 \<le> n \<and> n \<le> 70 then Some (n - 55)
      else None)"

text \<open>
  \<open>std::stoull(s, nullptr, 16)\<close>: white space, a sign, an optional \<open>0x\<close> that digits follow, digits.
  What comes behind the digits is ignored.
\<close>

definition is_space :: "char \<Rightarrow> bool" where
  "is_space c = (of_char c = (32::nat) \<or> (9 \<le> (of_char c :: nat) \<and> of_char c \<le> (13::nat)))"

definition stoull_16 :: "string \<Rightarrow> 64 word res" where
  "stoull_16 s =
     (let s = dropWhile is_space s;
          negative = (take 1 s = ''-'');
          s = (if take 1 s \<in> {''-'', ''+''} then drop 1 s else s);
          s = (if take 2 s \<in> {''0x'', ''0X''} \<and> takeWhile (\<lambda>c. hex_value c \<noteq> None) (drop 2 s) \<noteq> []
               then drop 2 s else s);
          digits = takeWhile (\<lambda>c. hex_value c \<noteq> None) s;
          n = foldl (\<lambda>n c. 16 * n + the (hex_value c)) 0 digits in
      if digits = [] then Inl Invalid_argument
      else if 2 ^ 64 \<le> n then Inl Out_of_range
      else Inr (if negative then - word_of_nat n else word_of_nat n))"

definition digit_value :: "char \<Rightarrow> nat option" where
  "digit_value c = (let n = of_char c :: nat in if 48 \<le> n \<and> n \<le> 57 then Some (n - 48) else None)"

text \<open>The sign and the digits that a conversion to a decimal number reads behind white space.\<close>

definition decimal_prefix :: "string \<Rightarrow> bool \<times> string" where
  "decimal_prefix s =
     (let s = dropWhile is_space s;
          negative = (take 1 s = ''-'');
          s = (if take 1 s \<in> {''-'', ''+''} then drop 1 s else s)
      in (negative, takeWhile (\<lambda>c. digit_value c \<noteq> None) s))"

definition decimal_number :: "string \<Rightarrow> nat" where
  "decimal_number digits = foldl (\<lambda>n c. 10 * n + the (digit_value c)) 0 digits"

text \<open>\<open>std::stoi(s)\<close>: an \<open>int\<close>, or an exception.\<close>

definition stoi :: "string \<Rightarrow> 32 word res" where
  "stoi s =
     (let (negative, digits) = decimal_prefix s;
          n = (if negative then - int (decimal_number digits) else int (decimal_number digits))
      in if digits = [] then Inl Invalid_argument
         else if n < - (2 ^ 31) \<or> 2 ^ 31 \<le> n then Inl Out_of_range
         else Inr (word_of_int n))"

text \<open>
  \<open>stream >> value\<close> for a \<open>uint32_t\<close>: a magnitude that does not fit fails the stream; the value of a
  number with a minus sign wraps around.
\<close>

definition extract_uint32 :: "string \<Rightarrow> 32 word option" where
  "extract_uint32 s =
     (let (negative, digits) = decimal_prefix s;
          n = decimal_number digits
      in if digits = [] \<or> 2 ^ 32 \<le> n then None
         else Some (if negative then - word_of_nat n else word_of_nat n))"

section \<open>Printed numbers are read back\<close>

lemma hex_digit_value: "n < 16 \<Longrightarrow> hex_value (hex_digit n) = Some n"
proof -
  have "\<forall>n \<in> {..<16}. hex_value (hex_digit n) = Some n" by code_simp
  then show "n < 16 \<Longrightarrow> ?thesis" by simp
qed

lemma hex_string_digits: "c \<in> set (hex_string n) \<Longrightarrow> hex_value c \<noteq> None"
  by (induction n rule: hex_string.induct)
    (subst (asm) hex_string.simps, auto simp: hex_digit_value split: if_splits)

lemma hex_string_nonempty: "hex_string n \<noteq> []"
  by (subst hex_string.simps) simp

lemma hex_string_value:
  "foldl (\<lambda>n c. 16 * n + the (hex_value c)) 0 (hex_string n) = n"
  by (induction n rule: hex_string.induct) (subst hex_string.simps, simp add: hex_digit_value)

lemma stoull_hex_string:
  assumes "n < 2 ^ 64"
  shows "stoull_16 (''0x'' @ hex_string n) = Inr (word_of_nat n)"
proof -
  have all: "takeWhile (\<lambda>c. hex_value c \<noteq> None) (hex_string n) = hex_string n"
    using hex_string_digits by (simp add: takeWhile_eq_all_conv)
  have all': "takeWhile (\<lambda>c. \<exists>y. hex_value c = Some y) (hex_string n) = hex_string n"
    using all by (simp del: takeWhile_eq_all_conv)
  show ?thesis
    using assms hex_string_nonempty [of n]
    by (simp add: stoull_16_def is_space_def all' hex_string_value Let_def del: takeWhile_eq_all_conv)
qed

end
