(* ===== verification/Paths.thy ===== *)
theory Paths
  imports Command_Line Text_Numbers
begin

text \<open>
  \<open>fml/paths.cc\<close> and its POSIX and Windows parts: joining components, the directory of a path, absolute
  paths and paths from \<open>file:\<close> URIs. Positions are \<open>size_t\<close> where the code computes with them, and \<open>npos\<close> is
  the greatest one. The current directory and the path of the executable are parameters.
\<close>

unbundle bit_operations_syntax

section \<open>Strings with \<open>size_t\<close> positions\<close>

definition npos :: "64 word" where
  "npos = - 1"

definition find_from :: "char \<Rightarrow> 64 word \<Rightarrow> string \<Rightarrow> 64 word" where
  "find_from c pos s = (case string_find c (unat pos) s of None \<Rightarrow> npos | Some i \<Rightarrow> word_of_nat i)"

text \<open>\<open>s.find_last_of(cs)\<close>, and \<open>s.rfind(c)\<close> for one character.\<close>

fun find_last :: "(char \<Rightarrow> bool) \<Rightarrow> nat \<Rightarrow> string \<Rightarrow> nat option \<Rightarrow> nat option" where
  "find_last P i [] found = found"
| "find_last P i (x # xs) found = find_last P (Suc i) xs (if P x then Some i else found)"

definition find_last_of :: "char set \<Rightarrow> string \<Rightarrow> 64 word" where
  "find_last_of cs s = (case find_last (\<lambda>c. c \<in> cs) 0 s None of None \<Rightarrow> npos | Some i \<Rightarrow> word_of_nat i)"

text \<open>\<open>s[i]\<close> of a \<open>std::string\<close>: the terminator is readable, what is behind it is not.\<close>

definition char_at :: "string \<Rightarrow> nat \<Rightarrow> char res" where
  "char_at s i = (if i < length s then Inr (s ! i) else if i = length s then Inr (CHR 0x00) else Inl Undefined)"

section \<open>Paths\<close>

text \<open>The loop of \<open>JoinPaths\<close>, with the separator of the platform.\<close>

fun JoinPaths_from :: "char \<Rightarrow> nat \<Rightarrow> nat \<Rightarrow> string list \<Rightarrow> string" where
  "JoinPaths_from sep n i [] = []"
| "JoinPaths_from sep n i (c # cs) = c @ (if Suc i \<noteq> n then [sep] else []) @ JoinPaths_from sep n (Suc i) cs"

definition JoinPaths :: "char \<Rightarrow> string list \<Rightarrow> string" where
  "JoinPaths sep components = JoinPaths_from sep (length components) 0 components"

text \<open>
  The loop of \<open>SanitizeURIEscapedCharacters\<close>. The bound \<open>str.size() - 3\<close> is computed in \<open>size_t\<close> and wraps around
  for short strings. \<open>isxdigit\<close> is false for the bytes from 128 on, as in the C library.
\<close>

function sanitize_from :: "string \<Rightarrow> nat \<Rightarrow> string \<Rightarrow> string res" where
  "sanitize_from str i result =
     (if length str \<le> i then Inr result
      else if str ! i = CHR 0x25 then
        (if (word_of_nat i :: 64 word) > word_of_nat (length str) - 3 then Inr []
         else bindR (char_at str (i + 1)) (\<lambda>a.
           if hex_value a = None then Inr []
           else bindR (char_at str (i + 2)) (\<lambda>b.
             if hex_value b = None then Inr []
             else
               let c = 16 * the (hex_value a) + the (hex_value b)
               in if c = 0 then Inr [] else sanitize_from str (i + 3) (result @ [char_of c]))))
      else sanitize_from str (i + 1) (result @ [str ! i]))"
  by pat_completeness auto
termination
  by (relation "measure (\<lambda>(str, i, result). length str - i)") auto

declare sanitize_from.simps [simp del]

definition SanitizeURIEscapedCharacters :: "string \<Rightarrow> string res" where
  "SanitizeURIEscapedCharacters str = sanitize_from str 0 []"

subsection \<open>POSIX\<close>

definition posix_AbsolutePath :: "string \<Rightarrow> string \<Rightarrow> string" where
  "posix_AbsolutePath current path =
     (if path \<noteq> [] then if path ! 0 = CHR ''/'' then path else current @ ''/'' @ path else current)"

definition posix_GetDirectoryName :: "string \<Rightarrow> string" where
  "posix_GetDirectoryName path =
     (let separator = find_last_of {CHR ''/''} path
      in if separator = 0 then ''/'' else if separator = npos then [] else take (unat separator) path)"

definition posix_FromURI :: "string \<Rightarrow> string res" where
  "posix_FromURI uri =
     (if take 7 uri \<noteq> ''file://'' then Inr uri else SanitizeURIEscapedCharacters (drop 7 uri))"

definition GetExecutableDirectoryPath :: "(string \<Rightarrow> string) \<Rightarrow> bool \<times> string \<Rightarrow> bool \<times> string" where
  "GetExecutableDirectoryPath directory_name path =
     (if \<not> fst path then (False, []) else (True, directory_name (snd path)))"

subsection \<open>Windows\<close>

definition is_letter :: "char \<Rightarrow> bool" where
  "is_letter c \<longleftrightarrow> (let n = of_char c :: nat in 65 \<le> n \<and> n \<le> 90 \<or> 97 \<le> n \<and> n \<le> 122)"

definition RootLength :: "string \<Rightarrow> 64 word res" where
  "RootLength path =
     (if path = [] then Inr 0
      else if path ! 0 = CHR ''/'' then Inr 1
      else if path ! 0 = CHR 0x5C then
        (if length path < 2 \<or> path ! 1 \<noteq> CHR 0x5C then Inr 1
         else
           let index = find_from (CHR 0x5C) 2 path
           in if index > 0
              then let index = find_from (CHR 0x5C) (index + 1) path
                   in if index > 0 then Inr index else Inr (word_of_nat (length path))
              else Inr (word_of_nat (length path)))
      else if length path \<ge> 2 \<and> path ! 1 = CHR '':''
        then bindR (char_at path 2) (\<lambda>c.
          if c \<in> {CHR ''/'', CHR 0x5C} \<and> is_letter (path ! 0) then Inr 3 else Inr 0)
      else Inr 0)"

definition LastSeparator :: "string \<Rightarrow> 64 word" where
  "LastSeparator path = find_last_of {CHR ''/'', CHR 0x5C} path"

definition win_GetDirectoryName :: "string \<Rightarrow> string res" where
  "win_GetDirectoryName path =
     bindR (RootLength path) (\<lambda>rootLength.
       let separator = LastSeparator path;
           separator = (if separator < rootLength then rootLength else separator)
       in if separator = npos then Inr [] else Inr (take (unat separator) path))"

definition turn_separator :: "char \<Rightarrow> char" where
  "turn_separator c = (if c = CHR ''/'' then CHR 0x5C else c)"

definition win_FromURI :: "string \<Rightarrow> string res" where
  "win_FromURI uri =
     (if take 8 uri \<noteq> ''file:///'' then Inr uri
      else SanitizeURIEscapedCharacters (map turn_separator (drop 8 uri)))"

section \<open>Paths from URIs\<close>

text \<open>What the unescaping is to compute: \<open>None\<close> for a malformed escape and for an escaped NUL.\<close>

fun percent_decode :: "string \<Rightarrow> string option" where
  "percent_decode [] = Some []"
| "percent_decode (x # xs) =
     (if x \<noteq> CHR 0x25 then map_option ((#) x) (percent_decode xs)
      else case xs of
        a # b # rest \<Rightarrow>
          (case (hex_value a, hex_value b) of
             (Some h, Some l) \<Rightarrow>
               if 16 * h + l = 0 then None else map_option ((#) (char_of (16 * h + l))) (percent_decode rest)
           | _ \<Rightarrow> None)
      | _ \<Rightarrow> None)"

text \<open>The wrapped bound lets the loop look at short strings, and there the terminator is no digit.\<close>

lemma escape_guard:
  assumes "i < length str" "3 \<le> length str" "length str < 2 ^ 63"
  shows "(word_of_nat i :: 64 word) > word_of_nat (length str) - 3 \<longleftrightarrow> length str < i + 3"
proof -
  have u: "unat (word_of_nat n :: 64 word) = n" if "n < 2 ^ 63" for n
    using that by (simp add: unat_of_nat take_bit_nat_eq_self)
  have "(word_of_nat (length str) - 3 :: 64 word) = word_of_nat (length str - 3)"
    using assms(2) by (simp add: of_nat_diff)
  moreover have "length str - 3 < 2 ^ 63" "i < 2 ^ 63" using assms(1,3) by linarith+
  ultimately have "unat (word_of_nat (length str) - 3 :: 64 word) = length str - 3" "unat (word_of_nat i :: 64 word) = i"
    using u by metis+
  then show ?thesis using assms(2) by (auto simp: word_less_nat_alt)
qed

lemma hex_value_NUL [simp]: "hex_value (CHR 0x00) = None"
  by (simp add: hex_value_def)

lemma sanitize_short:
  assumes "i < length str" "str ! i = CHR 0x25" "length str < i + 3" "length str < 2 ^ 63"
  shows "sanitize_from str i result = Inr []"
proof (cases "3 \<le> length str")
  case True
  then show ?thesis using assms escape_guard [of i str] by (subst sanitize_from.simps) simp
next
  case False
  then consider "length str = i + 1" | "length str = i + 2" using assms by linarith
  then show ?thesis
    using assms(1,2) by cases (subst sanitize_from.simps; simp add: char_at_def)+
qed

lemma sanitize_escape:
  assumes "i + 3 \<le> length str" "str ! i = CHR 0x25" "length str < 2 ^ 63"
  shows "sanitize_from str i result =
    (case (hex_value (str ! (i + 1)), hex_value (str ! (i + 2))) of
       (Some h, Some l) \<Rightarrow> if 16 * h + l = 0 then Inr [] else sanitize_from str (i + 3) (result @ [char_of (16 * h + l)])
     | _ \<Rightarrow> Inr [])"
  using assms escape_guard [of i str]
  by (subst sanitize_from.simps) (simp add: char_at_def split: option.split)

lemma sanitize_from_decodes:
  assumes "length str < 2 ^ 63"
  shows "sanitize_from str i result = Inr (case percent_decode (drop i str) of None \<Rightarrow> [] | Some t \<Rightarrow> result @ t)"
  using assms
proof (induction "length str - i" arbitrary: i result rule: less_induct)
  case less
  consider "length str \<le> i" | "i < length str" "str ! i \<noteq> CHR 0x25"
    | "i < length str" "str ! i = CHR 0x25" "length str < i + 3" | "i + 3 \<le> length str" "str ! i = CHR 0x25" by linarith
  then show ?case
  proof cases
    case 1
    then show ?thesis by (subst sanitize_from.simps) simp
  next
    case 2
    have "sanitize_from str i result = sanitize_from str (i + 1) (result @ [str ! i])"
      using 2 by (subst sanitize_from.simps) simp
    also have "\<dots> = Inr (case percent_decode (drop (i + 1) str) of None \<Rightarrow> [] | Some t \<Rightarrow> (result @ [str ! i]) @ t)"
      using 2(1) less.prems by (intro less.hyps) auto
    finally show ?thesis
      using 2 by (simp add: Cons_nth_drop_Suc [symmetric] split: option.split)
  next
    case 3
    then have "length (drop i str) = 1 \<or> length (drop i str) = 2" by auto
    then have "percent_decode (drop i str) = None"
      using 3(1,2) by (auto simp: Cons_nth_drop_Suc [symmetric] split: list.split)
    then show ?thesis using sanitize_short [OF 3 less.prems] by simp
  next
    case 4
    then have d: "drop i str = CHR 0x25 # str ! (i + 1) # str ! (i + 2) # drop (i + 3) str"
      using Cons_nth_drop_Suc [of i str] Cons_nth_drop_Suc [of "i + 1" str] Cons_nth_drop_Suc [of "i + 2" str]
      by (simp add: numeral_3_eq_3)
    have "sanitize_from str (i + 3) r = Inr (case percent_decode (drop (i + 3) str) of None \<Rightarrow> [] | Some t \<Rightarrow> r @ t)" for r
      using 4(1) less.prems by (intro less.hyps) auto
    then show ?thesis
      using sanitize_escape [OF 4 less.prems, of result] by (simp add: d split: option.split)
  qed
qed

text \<open>A percent encoder, as URIs are written: any set of bytes that has the percent sign may be escaped.\<close>

definition escape_of :: "char \<Rightarrow> string" where
  "escape_of c = [CHR 0x25, hex_digit (of_char c div 16), hex_digit (of_char c mod 16)]"

definition percent_encode :: "(char \<Rightarrow> bool) \<Rightarrow> string \<Rightarrow> string" where
  "percent_encode esc s = concat (map (\<lambda>c. if esc c \<or> c = CHR 0x25 then escape_of c else [c]) s)"

lemma turn_hex_digit: "n < 16 \<Longrightarrow> turn_separator (hex_digit n) = hex_digit n"
proof -
  have "\<forall>n \<in> {..<16}. turn_separator (hex_digit n) = hex_digit n" by code_simp
  then show "n < 16 \<Longrightarrow> ?thesis" by simp
qed

lemma high_digit: "(of_char c :: nat) div 16 < 16"
  by (rule less_mult_imp_div_less) simp

lemma turn_escape: "map turn_separator (escape_of c) = escape_of c"
  using turn_hex_digit [OF high_digit] turn_hex_digit [of "of_char c mod 16"]
  by (simp add: escape_of_def) (simp add: turn_separator_def)

lemma decode_escape:
  assumes "CHR 0x00 \<noteq> c"
  shows "percent_decode (escape_of c @ s) = map_option ((#) c) (percent_decode s)"
proof -
  have "of_char c \<noteq> (of_char (CHR 0x00) :: nat)" using assms unfolding of_char_eq_iff by blast
  then have "(of_char c :: nat) \<noteq> 0" by simp
  moreover have "16 * ((of_char c :: nat) div 16) + of_char c mod 16 = of_char c" by (rule mult_div_mod_eq)
  moreover have "hex_value (hex_digit (of_char c div 16)) = Some (of_char c div 16)"
    "hex_value (hex_digit (of_char c mod 16)) = Some (of_char c mod 16)"
    by (simp_all add: hex_digit_value high_digit)
  ultimately show ?thesis by (simp add: escape_of_def)
qed

lemma percent_decode_turned:
  assumes "CHR 0x00 \<notin> set s" "\<not> esc (CHR ''/'')"
  shows "percent_decode (map turn_separator (percent_encode esc s)) = Some (map turn_separator s)"
  using assms
proof (induction s)
  case Nil
  then show ?case by (simp add: percent_encode_def)
next
  case (Cons c s)
  then have IH: "percent_decode (map turn_separator (percent_encode esc s)) = Some (map turn_separator s)" by simp
  show ?case
  proof (cases "esc c \<or> c = CHR 0x25")
    case True
    then have "turn_separator c = c" using Cons.prems(2) by (auto simp: turn_separator_def)
    with True show ?thesis
      using IH Cons.prems(1) by (simp add: percent_encode_def turn_escape decode_escape)
  next
    case False
    then have "turn_separator c \<noteq> CHR 0x25" by (simp add: turn_separator_def)
    with False show ?thesis using IH by (simp add: percent_encode_def)
  qed
qed

lemma percent_decode_encode:
  assumes "CHR 0x00 \<notin> set s"
  shows "percent_decode (percent_encode esc s) = Some s"
  using assms
proof (induction s)
  case Nil
  then show ?case by (simp add: percent_encode_def)
next
  case (Cons c s)
  then show ?case
    by (cases "esc c \<or> c = CHR 0x25") (simp_all add: percent_encode_def decode_escape)
qed

text \<open>
  C38: reading a URI as a path never reads outside the string, although its bound wraps around for short
  strings. A URI without the prefix \<open>file://\<close> is taken as a path; what is behind the prefix is unescaped,
  and a malformed escape or an escaped NUL gives the empty path. So the URI of a path, with any choice of
  characters escaped, is read as that path, on Windows with the separators turned.
\<close>

theorem from_uri_unescapes:
  assumes "length uri < 2 ^ 63"
  shows "posix_FromURI uri =
      Inr (if take 7 uri = ''file://'' then case percent_decode (drop 7 uri) of None \<Rightarrow> [] | Some path \<Rightarrow> path else uri) \<and>
    (\<forall>esc path. CHR 0x00 \<notin> set path \<and> uri = ''file://'' @ percent_encode esc path \<longrightarrow> posix_FromURI uri = Inr path) \<and>
    (\<forall>esc path. CHR 0x00 \<notin> set path \<and> \<not> esc (CHR ''/'') \<and> uri = ''file:///'' @ percent_encode esc path \<longrightarrow>
       win_FromURI uri = Inr (map turn_separator path))"
proof -
  have s: "SanitizeURIEscapedCharacters s = Inr (case percent_decode s of None \<Rightarrow> [] | Some t \<Rightarrow> t)"
    if "length s \<le> length uri" for s
    using that assms sanitize_from_decodes [of s 0 "[]"]
    by (simp add: SanitizeURIEscapedCharacters_def split: option.split)
  have "posix_FromURI uri =
      Inr (if take 7 uri = ''file://'' then case percent_decode (drop 7 uri) of None \<Rightarrow> [] | Some path \<Rightarrow> path else uri)"
    by (simp add: posix_FromURI_def s)
  moreover have "win_FromURI uri = Inr (map turn_separator path)"
    if "CHR 0x00 \<notin> set path" "\<not> esc (CHR ''/'')" "uri = ''file:///'' @ percent_encode esc path" for esc path
    using that percent_decode_turned [of path esc] by (simp add: win_FromURI_def s)
  ultimately show ?thesis by (auto simp: percent_decode_encode)
qed

theorem from_uri_unescapes_witness:
  "posix_FromURI ''file:///a%20b'' = Inr ''/a b'' \<and> posix_FromURI ''file://%2'' = Inr [] \<and>
   win_FromURI ''file:///c:/%25'' = Inr (map turn_separator ''c:/%'')"
proof -
  have example: "percent_decode ''/a%20b'' = Some ''/a b''" by code_simp
  have "posix_FromURI ''file:///a%20b'' = Inr ''/a b''"
    using from_uri_unescapes [of "''file:///a%20b''"] example by simp
  moreover have "posix_FromURI ''file://%2'' = Inr []"
    using from_uri_unescapes [of "''file://%2''"] by simp
  moreover have "win_FromURI ''file:///c:/%25'' = Inr (map turn_separator ''c:/%'')"
    using from_uri_unescapes [of "''file:///c:/%25''"]
    by (auto dest!: spec [of _ "\<lambda>_. False"] spec [of _ "''c:/%''"] simp: percent_encode_def escape_of_def hex_digit_def)
  ultimately show ?thesis by blast
qed

section \<open>Directories\<close>

lemma find_last_append:
  "find_last P i (xs @ ys) found = find_last P (i + length xs) ys (find_last P i xs found)"
  by (induction xs arbitrary: i found) auto

lemma find_last_none: "\<forall>x \<in> set xs. \<not> P x \<Longrightarrow> find_last P i xs found = found"
  by (induction xs arbitrary: i found) auto

text \<open>The directory of a file in a directory is the directory.\<close>

theorem directory_of_joined_path:
  assumes "CHR ''/'' \<notin> set file" "directory \<noteq> []" "length directory < 2 ^ 63"
  shows "posix_GetDirectoryName (JoinPaths (CHR ''/'') [directory, file]) = directory"
proof -
  have f: "find_last (\<lambda>c. c = CHR ''/'') 0 (directory @ CHR ''/'' # file) None = Some (length directory)"
    using assms(1) by (subst find_last_append) (auto intro!: find_last_none)
  have u: "unat (word_of_nat (length directory) :: 64 word) = length directory"
    using assms(3) by (simp add: unat_of_nat take_bit_nat_eq_self)
  have "(word_of_nat (length directory) :: 64 word) \<noteq> 0" "(word_of_nat (length directory) :: 64 word) \<noteq> npos"
    using u assms(2,3) by (auto simp: npos_def unsigned_minus_1_eq_mask mask_eq_exp_minus_1 dest!: arg_cong [where f = unat])
  then show ?thesis
    using u by (simp add: posix_GetDirectoryName_def JoinPaths_def find_last_of_def f)
qed

text \<open>
  The test for the second separator of a network share is \<open>index > 0\<close>, which \<open>npos\<close> passes: the length of the
  root of a share with nothing behind it is \<open>npos\<close>, and its directory is empty.
\<close>

theorem directory_of_share_is_lost:
  "RootLength [CHR 0x5C, CHR 0x5C, CHR ''s'', CHR 0x5C, CHR ''t''] = Inr npos \<and>
   win_GetDirectoryName [CHR 0x5C, CHR 0x5C, CHR ''s'', CHR 0x5C, CHR ''t''] = Inr [] \<and>
   win_GetDirectoryName [CHR 0x5C, CHR 0x5C, CHR ''s'', CHR 0x5C, CHR ''t'', CHR 0x5C] =
     Inr [CHR 0x5C, CHR 0x5C, CHR ''s'', CHR 0x5C, CHR ''t'']"
  by code_simp

end
