(* ===== verification/Switches.thy ===== *)
theory Switches
  imports Paths
begin

text \<open>
  \<open>shell/common/switches.cc\<close>: the settings of an engine from its command line. The switches and their flags are the
  table of \<open>switch_defs.h\<close>; \<open>SettingsFromCommandLine\<close> is the composition of its parts in the order of the code, each
  on the settings so far. The build configuration and the lookup of symbols in libraries are parameters. Of
  \<open>Settings\<close> (\<open>common/settings.h\<close>) the record has the fields that the command line sets; the others, callbacks of
  the embedder, keep their defaults. \<open>FML_LOG(FATAL)\<close> aborts as a failed check does.
\<close>

section \<open>Switches\<close>

datatype (plugins only: code) Switch =
    AotSharedLibraryName | AotVMServiceSharedLibraryName | SnapshotAssetPath | VmSnapshotData
  | VmSnapshotInstructions | IsolateSnapshotData | IsolateSnapshotInstructions | CacheDirPath
  | ICUDataFilePath | ICUSymbolPrefix | ICUNativeLibPath | DartFlags | DeviceVMServiceHost
  | DeviceVMServicePort | DisableVMService | DisableVMServicePublication | IPv6 | EnableDartProfiling
  | ProfileStartup | EndlessTraceBuffer | Route | FlutterAssetsDir | Help | LogTag | DisableServiceAuthCodes
  | EnableServicePortFallback | StartPaused | EnableCheckedMode | TraceStartup | TraceAllowlist
  | DumpSkpOnShaderCompilation | CacheSkSL | PurgePersistentCache | TraceSystrace | TraceToFile
  | ProfileMicrotasks | UseTestFonts | DisableAssetFonts | PrefetchedDefaultFontManager | VerboseLogging
  | RunForever | DisableDartAsserts | EnableSerialGC | DisallowInsecureConnections | DomainNetworkPolicy
  | ForceMultithreading | OldGenHeapSize | ResourceCacheMaxBytesThreshold | EnableImpeller | ImpellerBackend
  | EnableVulkanValidation | EnableOpenGLGPUTracing | EnableVulkanGPUTracing | LeakVM | EnableEmbedderAPI
  | EnablePlatformIsolates | MergedPlatformUIThread | DisableMergedPlatformUIThread
  | EnableAndroidSurfaceControl | EnableFlutterGPU | ImpellerLazyShaderMode | ImpellerAntialiasLines | Sentinel

text \<open>The table that the definitions expand to, less the help texts.\<close>

definition gSwitchDescs :: "(Switch \<times> string) list" where
  "gSwitchDescs =
     [(AotSharedLibraryName, ''aot-shared-library-name''),
      (AotVMServiceSharedLibraryName, ''aot-vmservice-shared-library-name''),
      (SnapshotAssetPath, ''snapshot-asset-path''),
      (VmSnapshotData, ''vm-snapshot-data''),
      (VmSnapshotInstructions, ''vm-snapshot-instr''),
      (IsolateSnapshotData, ''isolate-snapshot-data''),
      (IsolateSnapshotInstructions, ''isolate-snapshot-instr''),
      (CacheDirPath, ''cache-dir-path''),
      (ICUDataFilePath, ''icu-data-file-path''),
      (ICUSymbolPrefix, ''icu-symbol-prefix''),
      (ICUNativeLibPath, ''icu-native-lib-path''),
      (DartFlags, ''dart-flags''),
      (DeviceVMServiceHost, ''vm-service-host''),
      (DeviceVMServicePort, ''vm-service-port''),
      (DisableVMService, ''disable-vm-service''),
      (DisableVMServicePublication, ''disable-vm-service-publication''),
      (IPv6, ''ipv6''),
      (EnableDartProfiling, ''enable-dart-profiling''),
      (ProfileStartup, ''profile-startup''),
      (EndlessTraceBuffer, ''endless-trace-buffer''),
      (Route, ''route''),
      (FlutterAssetsDir, ''flutter-assets-dir''),
      (Help, ''help''),
      (LogTag, ''log-tag''),
      (DisableServiceAuthCodes, ''disable-service-auth-codes''),
      (EnableServicePortFallback, ''enable-service-port-fallback''),
      (StartPaused, ''start-paused''),
      (EnableCheckedMode, ''enable-checked-mode''),
      (TraceStartup, ''trace-startup''),
      (TraceAllowlist, ''trace-allowlist''),
      (DumpSkpOnShaderCompilation, ''dump-skp-on-shader-compilation''),
      (CacheSkSL, ''cache-sksl''),
      (PurgePersistentCache, ''purge-persistent-cache''),
      (TraceSystrace, ''trace-systrace''),
      (TraceToFile, ''trace-to-file''),
      (ProfileMicrotasks, ''profile-microtasks''),
      (UseTestFonts, ''use-test-fonts''),
      (DisableAssetFonts, ''disable-asset-fonts''),
      (PrefetchedDefaultFontManager, ''prefetched-default-font-manager''),
      (VerboseLogging, ''verbose-logging''),
      (RunForever, ''run-forever''),
      (DisableDartAsserts, ''disable-dart-asserts''),
      (EnableSerialGC, ''enable-serial-gc''),
      (DisallowInsecureConnections, ''disallow-insecure-connections''),
      (DomainNetworkPolicy, ''domain-network-policy''),
      (ForceMultithreading, ''force-multithreading''),
      (OldGenHeapSize, ''old-gen-heap-size''),
      (ResourceCacheMaxBytesThreshold, ''resource-cache-max-bytes-threshold''),
      (EnableImpeller, ''enable-impeller''),
      (ImpellerBackend, ''impeller-backend''),
      (EnableVulkanValidation, ''enable-vulkan-validation''),
      (EnableOpenGLGPUTracing, ''enable-opengl-gpu-tracing''),
      (EnableVulkanGPUTracing, ''enable-vulkan-gpu-tracing''),
      (LeakVM, ''leak-vm''),
      (EnableEmbedderAPI, ''enable-embedder-api''),
      (EnablePlatformIsolates, ''enable-platform-isolates''),
      (MergedPlatformUIThread, ''merged-platform-ui-thread''),
      (DisableMergedPlatformUIThread, ''no-enable-merged-platform-ui-thread''),
      (EnableAndroidSurfaceControl, ''enable-surface-control''),
      (EnableFlutterGPU, ''enable-flutter-gpu''),
      (ImpellerLazyShaderMode, ''impeller-lazy-shader-mode''),
      (ImpellerAntialiasLines, ''impeller-antialias-lines'')]"

definition FlagForSwitch :: "Switch \<Rightarrow> string_view" where
  "FlagForSwitch swtch =
     (case find (\<lambda>(sw, flag). sw = swtch) gSwitchDescs of
        None \<Rightarrow> \<lparr>sv_buffer = [], sv_size = 0\<rparr>
      | Some (sw, flag) \<Rightarrow> sv_of_string flag)"

text \<open>What a build is configured with.\<close>

record build =
  FLUTTER_RELEASE :: bool
  FML_OS_ANDROID :: bool
  path_separator :: char

definition kAllowedDartFlags :: "bool \<Rightarrow> string list" where
  "kAllowedDartFlags release =
     (if release then [''--enable-isolate-groups'', ''--no-enable-isolate-groups'']
      else [''--enable-isolate-groups'', ''--no-enable-isolate-groups'', ''--enable_mirrors'',
            ''--enable-service-port-fallback'', ''--max_profile_depth'', ''--profile_period'', ''--random_seed'',
            ''--sample-buffer-duration'', ''--trace-kernel'', ''--trace-reload'', ''--trace-reload-verbose'',
            ''--write-service-info'', ''--max_subtype_cache_entries'', ''--enable-asserts''])"

text \<open>\<open>std::getline\<close> with a delimiter fails only when nothing is left, so no token follows a trailing comma.\<close>

function ParseCommaDelimited :: "string \<Rightarrow> string list" where
  "ParseCommaDelimited input =
     (if input = [] then []
      else takeWhile (\<lambda>c. c \<noteq> CHR '','') input #
        ParseCommaDelimited (drop 1 (dropWhile (\<lambda>c. c \<noteq> CHR '','') input)))"
  by pat_completeness auto
termination
proof (relation "measure length")
  fix input :: string assume "input \<noteq> []"
  moreover have "length (dropWhile (\<lambda>c. c \<noteq> CHR '','') input) \<le> length input" by (rule length_dropWhile_le)
  ultimately show "(drop 1 (dropWhile (\<lambda>c. c \<noteq> CHR '','') input), input) \<in> measure length" by (cases input) auto
qed simp

declare ParseCommaDelimited.simps [simp del]

definition IsAllowedDartVMFlag :: "bool \<Rightarrow> string \<Rightarrow> bool" where
  "IsAllowedDartVMFlag release flag \<longleftrightarrow>
     (\<exists>allowed \<in> set (kAllowedDartFlags release). length allowed \<le> length flag \<and> take (length allowed) flag = allowed)"

definition GetSwitchValue :: "CommandLine \<Rightarrow> Switch \<Rightarrow> 32 word \<Rightarrow> bool \<times> 32 word" where
  "GetSwitchValue command_line sw result =
     (case GetOptionValue command_line (FlagForSwitch sw) of
        None \<Rightarrow> (False, result)
      | Some switch_string \<Rightarrow>
          (case extract_uint32 switch_string of None \<Rightarrow> (False, result) | Some v \<Rightarrow> (True, v)))"

text \<open>
  A native library is a function from symbols to addresses, with 0 for an unknown one; a library that cannot be
  opened is the null pointer.
\<close>

definition GetSymbolMapping ::
  "(string \<Rightarrow> 64 word) \<Rightarrow> (string \<Rightarrow> (string \<Rightarrow> 64 word) option) \<Rightarrow> string \<Rightarrow> string \<Rightarrow> (64 word \<times> 64 word) res" where
  "GetSymbolMapping process open_library symbol_prefix native_lib_path =
     (let lookup_symbol = (\<lambda>library. (library (symbol_prefix @ ''_start''), library (symbol_prefix @ ''_size'')));
          (mapping, size) = lookup_symbol process
      in bindR
           (if mapping \<noteq> 0 \<and> size \<noteq> 0 then Inr (mapping, size)
            else case open_library native_lib_path of None \<Rightarrow> Inl Undefined | Some library \<Rightarrow> Inr (lookup_symbol library))
           (\<lambda>(mapping, size). bindR (check (mapping \<noteq> 0 \<and> size \<noteq> 0)) (\<lambda>_. Inr (mapping, size))))"

section \<open>Settings\<close>

datatype MergedPlatformUIThread = kDisabled | kEnabled | kMergeAfterLaunch

text \<open>The callback that maps the ICU data: linked in, or found by its symbols in a library.\<close>

datatype IcuMapper = GetICUStaticMapping | SymbolMapping string string

record Settings =
  executable_name :: string
  enable_vm_service :: bool
  enable_vm_service_publication :: bool
  vm_service_host :: string
  vm_service_port :: "32 word"
  may_insecurely_connect_to_all_domains :: bool
  domain_network_policy :: string
  disable_service_auth_codes :: bool
  enable_service_port_fallback :: bool
  disable_dart_asserts :: bool
  start_paused :: bool
  enable_checked_mode :: bool
  enable_dart_profiling :: bool
  profile_startup :: bool
  endless_trace_buffer :: bool
  trace_startup :: bool
  enable_serial_gc :: bool
  trace_allowlist :: "string list"
  trace_systrace :: bool
  trace_to_file :: string
  profile_microtasks :: bool
  verbose_logging :: bool
  assets_path :: string
  vmservice_snapshot_library_path :: "string list"
  route :: string
  application_library_paths :: "string list"
  vm_snapshot_data_path :: string
  vm_snapshot_instr_path :: string
  isolate_snapshot_data_path :: string
  isolate_snapshot_instr_path :: string
  temp_directory_path :: string
  leak_vm :: bool
  icu_initialization_required :: bool
  icu_data_path :: string
  icu_mapper :: "IcuMapper option"
  dart_flags :: "string list"
  log_tag :: string
  dump_skp_on_shader_compilation :: bool
  cache_sksl :: bool
  purge_persistent_cache :: bool
  old_gen_heap_size :: "64 word"
  resource_cache_max_bytes_threshold :: "64 word"
  merged_platform_ui_thread :: MergedPlatformUIThread

definition Settings_new :: Settings where
  "Settings_new =
     \<lparr>executable_name = ''Flutter'', enable_vm_service = False, enable_vm_service_publication = True,
      vm_service_host = [], vm_service_port = 0, may_insecurely_connect_to_all_domains = True,
      domain_network_policy = [], disable_service_auth_codes = True, enable_service_port_fallback = False,
      disable_dart_asserts = False, start_paused = False, enable_checked_mode = False,
      enable_dart_profiling = False, profile_startup = False, endless_trace_buffer = False, trace_startup = False,
      enable_serial_gc = False, trace_allowlist = [], trace_systrace = False, trace_to_file = [],
      profile_microtasks = False, verbose_logging = False, assets_path = [], vmservice_snapshot_library_path = [],
      route = [], application_library_paths = [], vm_snapshot_data_path = [], vm_snapshot_instr_path = [],
      isolate_snapshot_data_path = [], isolate_snapshot_instr_path = [], temp_directory_path = [], leak_vm = True,
      icu_initialization_required = True, icu_data_path = [], icu_mapper = None, dart_flags = [],
      log_tag = ''flutter'', dump_skp_on_shader_compilation = False, cache_sksl = False,
      purge_persistent_cache = False, old_gen_heap_size = - 1, resource_cache_max_bytes_threshold = 0,
      merged_platform_ui_thread = kEnabled\<rparr>"

text \<open>\<open>HasOption\<close> of a switch, and \<open>GetOptionValue\<close> into a variable that keeps its value without the option.\<close>

definition has :: "CommandLine \<Rightarrow> Switch \<Rightarrow> bool" where
  "has command_line sw \<longleftrightarrow> HasOption command_line (FlagForSwitch sw) \<noteq> None"

definition value_into :: "CommandLine \<Rightarrow> Switch \<Rightarrow> string \<Rightarrow> string" where
  "value_into command_line sw variable =
     (case GetOptionValue command_line (FlagForSwitch sw) of None \<Rightarrow> variable | Some v \<Rightarrow> v)"

definition service_settings :: "CommandLine \<Rightarrow> Settings \<Rightarrow> Settings" where
  "service_settings cl s =
     (let s = (if has_argv0 cl then s\<lparr>executable_name := argv0 cl\<rparr> else s);
          s = s\<lparr>enable_vm_service := \<not> has cl DisableVMService,
                enable_vm_service_publication := \<not> has cl DisableVMServicePublication\<rparr>;
          s = (if has cl DeviceVMServiceHost
               then s\<lparr>vm_service_host := value_into cl DeviceVMServiceHost (vm_service_host s)\<rparr> else s);
          s = (if vm_service_host s = []
               then s\<lparr>vm_service_host := (if has cl IPv6 then ''::1'' else ''127.0.0.1'')\<rparr> else s);
          s = (if has cl DeviceVMServicePort
               then s\<lparr>vm_service_port := snd (GetSwitchValue cl DeviceVMServicePort (vm_service_port s))\<rparr> else s)
      in s\<lparr>may_insecurely_connect_to_all_domains := \<not> has cl DisallowInsecureConnections,
           domain_network_policy := value_into cl DomainNetworkPolicy (domain_network_policy s),
           disable_service_auth_codes := has cl DisableServiceAuthCodes,
           enable_service_port_fallback := has cl EnableServicePortFallback\<rparr>)"

definition vm_settings :: "CommandLine \<Rightarrow> Settings \<Rightarrow> Settings" where
  "vm_settings cl s =
     s\<lparr>disable_dart_asserts := has cl DisableDartAsserts,
       start_paused := has cl StartPaused,
       enable_checked_mode := has cl EnableCheckedMode,
       enable_dart_profiling := has cl EnableDartProfiling,
       profile_startup := has cl ProfileStartup,
       endless_trace_buffer := has cl EndlessTraceBuffer,
       trace_startup := has cl TraceStartup,
       enable_serial_gc := has cl EnableSerialGC,
       trace_allowlist := ParseCommaDelimited (value_into cl TraceAllowlist []),
       trace_systrace := has cl TraceSystrace,
       trace_to_file := value_into cl TraceToFile (trace_to_file s),
       profile_microtasks := has cl ProfileMicrotasks,
       verbose_logging := has cl VerboseLogging,
       assets_path := value_into cl FlutterAssetsDir (assets_path s)\<rparr>"

definition snapshot_settings :: "build \<Rightarrow> CommandLine \<Rightarrow> Settings \<Rightarrow> Settings" where
  "snapshot_settings b cl s =
     (let aot_shared_library_name = GetOptionValues cl (FlagForSwitch AotSharedLibraryName);
          s = s\<lparr>vmservice_snapshot_library_path := vmservice_snapshot_library_path s @
                 GetOptionValues cl (FlagForSwitch AotVMServiceSharedLibraryName)\<rparr>;
          snapshot_asset_path = value_into cl SnapshotAssetPath [];
          vm_snapshot_data_filename = value_into cl VmSnapshotData [];
          s = s\<lparr>route := value_into cl Route (route s)\<rparr>;
          vm_snapshot_instr_filename = value_into cl VmSnapshotInstructions [];
          isolate_snapshot_data_filename = value_into cl IsolateSnapshotData [];
          isolate_snapshot_instr_filename = value_into cl IsolateSnapshotInstructions [];
          join = (\<lambda>file. JoinPaths (path_separator b) [snapshot_asset_path, file]);
          s = (if aot_shared_library_name \<noteq> []
               then s\<lparr>application_library_paths := application_library_paths s @ aot_shared_library_name\<rparr>
               else if snapshot_asset_path \<noteq> []
               then s\<lparr>vm_snapshot_data_path := join vm_snapshot_data_filename,
                      vm_snapshot_instr_path := join vm_snapshot_instr_filename,
                      isolate_snapshot_data_path := join isolate_snapshot_data_filename,
                      isolate_snapshot_instr_path := join isolate_snapshot_instr_filename\<rparr>
               else s)
      in s\<lparr>temp_directory_path := value_into cl CacheDirPath (temp_directory_path s),
           leak_vm := (GetOptionValueWithDefault cl (FlagForSwitch LeakVM) ''true'' = ''true'')\<rparr>)"

definition icu_settings :: "build \<Rightarrow> CommandLine \<Rightarrow> Settings \<Rightarrow> Settings" where
  "icu_settings b cl s =
     (if icu_initialization_required s
      then
        let s = s\<lparr>icu_data_path := value_into cl ICUDataFilePath (icu_data_path s)\<rparr>
        in if has cl ICUSymbolPrefix
           then s\<lparr>icu_mapper := Some (if FML_OS_ANDROID b then GetICUStaticMapping
                    else SymbolMapping (value_into cl ICUSymbolPrefix []) (value_into cl ICUNativeLibPath []))\<rparr>
           else s
      else s)"

definition dart_flag_settings :: "build \<Rightarrow> CommandLine \<Rightarrow> Settings \<Rightarrow> Settings res" where
  "dart_flag_settings b cl s =
     (case GetOptionValue cl (FlagForSwitch DartFlags) of
        None \<Rightarrow> Inr s
      | Some all_dart_flags \<Rightarrow>
          foldR (\<lambda>flag s. bindR (check (IsAllowedDartVMFlag (FLUTTER_RELEASE b) flag)) (\<lambda>_.
                   Inr (s\<lparr>dart_flags := dart_flags s @ [flag]\<rparr>)))
                (ParseCommaDelimited all_dart_flags) s)"

definition cache_settings :: "build \<Rightarrow> CommandLine \<Rightarrow> Settings \<Rightarrow> Settings" where
  "cache_settings b cl s =
     (let s = (if \<not> FLUTTER_RELEASE b then s\<lparr>log_tag := value_into cl LogTag (log_tag s)\<rparr> else s)
      in s\<lparr>dump_skp_on_shader_compilation := has cl DumpSkpOnShaderCompilation,
           cache_sksl := has cl CacheSkSL,
           purge_persistent_cache := has cl PurgePersistentCache\<rparr>)"

text \<open>The results of \<open>std::stoi\<close> are widened to \<open>int64_t\<close> and to \<open>size_t\<close>.\<close>

definition limit_settings :: "CommandLine \<Rightarrow> Settings \<Rightarrow> Settings res" where
  "limit_settings cl s =
     bindR (if has cl OldGenHeapSize
            then bindR (stoi (value_into cl OldGenHeapSize [])) (\<lambda>n. Inr (s\<lparr>old_gen_heap_size := scast n\<rparr>))
            else Inr s) (\<lambda>s.
       if has cl ResourceCacheMaxBytesThreshold
       then bindR (stoi (value_into cl ResourceCacheMaxBytesThreshold [])) (\<lambda>n.
              Inr (s\<lparr>resource_cache_max_bytes_threshold := scast n\<rparr>))
       else Inr s)"

definition thread_settings :: "bool \<Rightarrow> CommandLine \<Rightarrow> Settings \<Rightarrow> Settings res" where
  "thread_settings require_merged_platform_ui_thread cl s =
     (if has cl DisableMergedPlatformUIThread
      then bindR (check (\<not> require_merged_platform_ui_thread)) (\<lambda>_. Inr (s\<lparr>merged_platform_ui_thread := kDisabled\<rparr>))
      else if has cl MergedPlatformUIThread
      then
        let merged_platform_ui = value_into cl MergedPlatformUIThread []
        in if merged_platform_ui = ''enabled'' then Inr (s\<lparr>merged_platform_ui_thread := kEnabled\<rparr>)
           else if merged_platform_ui = ''disabled''
           then bindR (check (\<not> require_merged_platform_ui_thread)) (\<lambda>_.
                  Inr (s\<lparr>merged_platform_ui_thread := kDisabled\<rparr>))
           else if merged_platform_ui = ''mergeAfterLaunch'' then Inr (s\<lparr>merged_platform_ui_thread := kMergeAfterLaunch\<rparr>)
           else Inr s
      else Inr s)"

definition SettingsFromCommandLine :: "build \<Rightarrow> CommandLine \<Rightarrow> bool \<Rightarrow> Settings res" where
  "SettingsFromCommandLine b cl require_merged_platform_ui_thread =
     (let s = icu_settings b cl (snapshot_settings b cl (vm_settings cl (service_settings cl Settings_new)))
      in bindR (dart_flag_settings b cl s) (\<lambda>s.
         bindR (limit_settings cl (cache_settings b cl s)) (thread_settings require_merged_platform_ui_thread cl)))"

section \<open>The table of switches\<close>

lemma switch_flags_distinct: "distinct (map snd gSwitchDescs)"
  by code_simp

lemma comma_delimited_Nil [simp]: "ParseCommaDelimited [] = []"
  by (simp add: ParseCommaDelimited.simps)

text \<open>Tokens without commas, each followed by a comma, are read back; the last comma may be missing.\<close>

lemma comma_delimited_tokens:
  assumes "\<forall>t \<in> set ts. CHR '','' \<notin> set t"
  shows "ParseCommaDelimited (concat (map (\<lambda>t. t @ '','') ts)) = ts"
  using assms
proof (induction ts)
  case (Cons t ts)
  then show ?case
    by (subst ParseCommaDelimited.simps) (simp add: takeWhile_append dropWhile_append)
qed simp

section \<open>Which command lines are accepted\<close>

lemma check_flags:
  "foldR (\<lambda>flag s. bindR (check (P flag)) (\<lambda>_. Inr (s\<lparr>dart_flags := dart_flags s @ [flag]\<rparr>))) flags s =
   (if list_all P flags then Inr (s\<lparr>dart_flags := dart_flags s @ flags\<rparr>) else Inl Check_failed)"
  by (induction flags arbitrary: s) (simp_all add: check_def)

text \<open>The parts before and between the fallible ones leave alone what the others set.\<close>

lemmas settings_defs = icu_settings_def snapshot_settings_def vm_settings_def service_settings_def cache_settings_def Let_def

lemma flags_so_far [simp]:
  "dart_flags (icu_settings b cl s) = dart_flags s" "dart_flags (snapshot_settings b cl s) = dart_flags s"
  "dart_flags (vm_settings cl s) = dart_flags s" "dart_flags (service_settings cl s) = dart_flags s"
  "dart_flags (cache_settings b cl s) = dart_flags s"
  by (simp_all add: settings_defs)

lemma threads_so_far [simp]:
  "merged_platform_ui_thread (icu_settings b cl s) = merged_platform_ui_thread s"
  "merged_platform_ui_thread (snapshot_settings b cl s) = merged_platform_ui_thread s"
  "merged_platform_ui_thread (vm_settings cl s) = merged_platform_ui_thread s"
  "merged_platform_ui_thread (service_settings cl s) = merged_platform_ui_thread s"
  "merged_platform_ui_thread (cache_settings b cl s) = merged_platform_ui_thread s"
  by (simp_all add: settings_defs)

lemma host_so_far [simp]:
  "vm_service_host (icu_settings b cl s) = vm_service_host s" "vm_service_host (snapshot_settings b cl s) = vm_service_host s"
  "vm_service_host (vm_settings cl s) = vm_service_host s" "vm_service_host (cache_settings b cl s) = vm_service_host s"
  by (simp_all add: settings_defs)

lemma service_host:
  "vm_service_host (service_settings cl Settings_new) =
     (if value_into cl DeviceVMServiceHost [] = [] then if has cl IPv6 then ''::1'' else ''127.0.0.1''
      else value_into cl DeviceVMServiceHost [])"
  by (simp add: service_settings_def Let_def Settings_new_def has_def value_into_def GetOptionValue_def split: option.split)

lemma dart_flag_settings_result:
  "dart_flag_settings b cl s =
   (let flags = ParseCommaDelimited (value_into cl DartFlags [])
    in if list_all (IsAllowedDartVMFlag (FLUTTER_RELEASE b)) flags
       then Inr (s\<lparr>dart_flags := dart_flags s @ flags\<rparr>) else Inl Check_failed)"
  by (simp add: dart_flag_settings_def value_into_def check_flags Let_def split: option.split)

definition numbers_readable :: "CommandLine \<Rightarrow> bool" where
  "numbers_readable cl \<longleftrightarrow>
     (has cl OldGenHeapSize \<longrightarrow> (\<exists>n. stoi (value_into cl OldGenHeapSize []) = Inr n)) \<and>
     (has cl ResourceCacheMaxBytesThreshold \<longrightarrow> (\<exists>n. stoi (value_into cl ResourceCacheMaxBytesThreshold []) = Inr n))"

definition asks_for_separate_threads :: "CommandLine \<Rightarrow> bool" where
  "asks_for_separate_threads cl \<longleftrightarrow> has cl DisableMergedPlatformUIThread \<or>
     has cl MergedPlatformUIThread \<and> value_into cl MergedPlatformUIThread [] = ''disabled''"

lemma limit_settings_result:
  "(\<exists>t. limit_settings cl s = Inr t) \<longleftrightarrow> numbers_readable cl"
  "limit_settings cl s = Inr t \<Longrightarrow> dart_flags t = dart_flags s \<and>
     vm_service_host t = vm_service_host s \<and> merged_platform_ui_thread t = merged_platform_ui_thread s"
  by (auto simp: limit_settings_def numbers_readable_def bindR_def split: sum.splits if_splits)

lemma thread_settings_result:
  "(\<exists>t. thread_settings require cl s = Inr t) \<longleftrightarrow> \<not> (require \<and> asks_for_separate_threads cl)"
  "thread_settings require cl s = Inr t \<Longrightarrow> dart_flags t = dart_flags s \<and> vm_service_host t = vm_service_host s \<and>
     (merged_platform_ui_thread s = kEnabled \<longrightarrow>
      (merged_platform_ui_thread t = kDisabled \<longleftrightarrow> asks_for_separate_threads cl))"
  by (auto simp: thread_settings_def asks_for_separate_threads_def Let_def check_def split: if_splits)

lemma bindR_total: "(\<exists>y. bindR m f = Inr y) \<longleftrightarrow> (\<exists>x. m = Inr x \<and> (\<exists>y. f x = Inr y))"
  by (cases m) auto

lemma settings_result:
  "(\<exists>s. SettingsFromCommandLine b cl require = Inr s) \<longleftrightarrow>
     list_all (IsAllowedDartVMFlag (FLUTTER_RELEASE b)) (ParseCommaDelimited (value_into cl DartFlags [])) \<and>
     numbers_readable cl \<and> \<not> (require \<and> asks_for_separate_threads cl)"
  by (simp add: SettingsFromCommandLine_def Let_def dart_flag_settings_result bindR_total
      limit_settings_result(1) thread_settings_result(1))

lemma settings_fields:
  assumes "SettingsFromCommandLine b cl require = Inr s"
  shows "dart_flags s = ParseCommaDelimited (value_into cl DartFlags [])"
    and "vm_service_host s = vm_service_host (service_settings cl Settings_new)"
    and "merged_platform_ui_thread s = kDisabled \<longleftrightarrow> asks_for_separate_threads cl"
proof -
  define s0 where "s0 = icu_settings b cl (snapshot_settings b cl (vm_settings cl (service_settings cl Settings_new)))"
  have s0: "dart_flags s0 = []" "merged_platform_ui_thread s0 = kEnabled"
    "vm_service_host s0 = vm_service_host (service_settings cl Settings_new)"
    by (simp_all add: s0_def Settings_new_def)
  define s1 where "s1 = s0\<lparr>dart_flags := ParseCommaDelimited (value_into cl DartFlags [])\<rparr>"
  have "dart_flag_settings b cl s0 = Inr s1 \<or> dart_flag_settings b cl s0 = Inl Check_failed"
    by (simp add: dart_flag_settings_result Let_def s0(1) s1_def)
  then obtain s2 where s2: "limit_settings cl (cache_settings b cl s1) = Inr s2" "thread_settings require cl s2 = Inr s"
    using assms by (auto simp: SettingsFromCommandLine_def Let_def bindR_eq_Inr_iff simp flip: s0_def)
  show "dart_flags s = ParseCommaDelimited (value_into cl DartFlags [])"
    "vm_service_host s = vm_service_host (service_settings cl Settings_new)"
    "merged_platform_ui_thread s = kDisabled \<longleftrightarrow> asks_for_separate_threads cl"
    using limit_settings_result(2) [OF s2(1)] thread_settings_result(2) [OF s2(2)] s0 by (simp_all add: s1_def)
qed

text \<open>
  C30: what a command line can do to the engine. It is accepted exactly if every flag for the Dart VM is
  allowed, the numbers can be read, and it does not ask for separate threads where the platform requires
  merged ones; else the process aborts. In accepted settings the VM gets the flags of the list, each of
  which begins with one of the allow list of the build; the threads are separate only if the command line asks
  for it; and the VM service is bound to the host of the command line, or to a loopback address.
\<close>

theorem settings_of_command_line:
  "((\<exists>s. SettingsFromCommandLine b cl require = Inr s) \<longleftrightarrow>
      (\<forall>flag \<in> set (ParseCommaDelimited (value_into cl DartFlags [])). IsAllowedDartVMFlag (FLUTTER_RELEASE b) flag) \<and>
      numbers_readable cl \<and> \<not> (require \<and> asks_for_separate_threads cl)) \<and>
   (\<forall>s. SettingsFromCommandLine b cl require = Inr s \<longrightarrow>
      dart_flags s = ParseCommaDelimited (value_into cl DartFlags []) \<and>
      (\<forall>flag \<in> set (dart_flags s). \<exists>allowed \<in> set (kAllowedDartFlags (FLUTTER_RELEASE b)). \<exists>rest. flag = allowed @ rest) \<and>
      (merged_platform_ui_thread s = kDisabled \<longleftrightarrow> asks_for_separate_threads cl) \<and>
      (require \<longrightarrow> merged_platform_ui_thread s \<noteq> kDisabled) \<and>
      (if value_into cl DeviceVMServiceHost [] = [] then vm_service_host s \<in> {''::1'', ''127.0.0.1''}
       else vm_service_host s = value_into cl DeviceVMServiceHost []))"
proof (intro conjI allI impI)
  show "(\<exists>s. SettingsFromCommandLine b cl require = Inr s) \<longleftrightarrow>
      (\<forall>flag \<in> set (ParseCommaDelimited (value_into cl DartFlags [])). IsAllowedDartVMFlag (FLUTTER_RELEASE b) flag) \<and>
      numbers_readable cl \<and> \<not> (require \<and> asks_for_separate_threads cl)"
    by (simp add: settings_result list_all_iff)
next
  fix s assume s: "SettingsFromCommandLine b cl require = Inr s"
  then have "list_all (IsAllowedDartVMFlag (FLUTTER_RELEASE b)) (ParseCommaDelimited (value_into cl DartFlags []))"
    and r: "\<not> (require \<and> asks_for_separate_threads cl)" using settings_result by blast+
  moreover have "\<exists>rest. flag = allowed @ rest" if "take (length allowed) flag = allowed" for flag allowed :: string
    using that by (metis append_take_drop_id)
  ultimately show "\<forall>flag \<in> set (dart_flags s). \<exists>allowed \<in> set (kAllowedDartFlags (FLUTTER_RELEASE b)). \<exists>rest. flag = allowed @ rest"
    unfolding settings_fields(1) [OF s] list_all_iff IsAllowedDartVMFlag_def by blast
  show "require \<Longrightarrow> merged_platform_ui_thread s \<noteq> kDisabled"
    using r settings_fields(3) [OF s] by blast
  show "if value_into cl DeviceVMServiceHost [] = [] then vm_service_host s \<in> {''::1'', ''127.0.0.1''}
       else vm_service_host s = value_into cl DeviceVMServiceHost []"
    by (simp add: settings_fields(2) [OF s] service_host)
qed (use settings_fields in blast)+

definition example_build :: build where
  "example_build = \<lparr>FLUTTER_RELEASE = True, FML_OS_ANDROID = False, path_separator = CHR ''/''\<rparr>"

theorem settings_of_command_line_witness:
  "\<not> (\<exists>s. SettingsFromCommandLine example_build (CommandLineFromIterators [''app'', ''--dart-flags=--enable-asserts'']) False = Inr s) \<and>
   (\<exists>s. SettingsFromCommandLine example_build
          (CommandLineFromIterators [''app'', ''--ipv6'', ''--dart-flags=--no-enable-isolate-groups'']) True = Inr s \<and>
      merged_platform_ui_thread s \<noteq> kDisabled)"
proof -
  let ?a = "CommandLineFromIterators [''app'', ''--dart-flags=--enable-asserts'']"
    and ?b = "CommandLineFromIterators [''app'', ''--ipv6'', ''--dart-flags=--no-enable-isolate-groups'']"
  have v: "value_into ?a DartFlags [] = ''--enable-asserts''" "value_into ?b DartFlags [] = ''--no-enable-isolate-groups''"
    "\<not> has ?b DisableMergedPlatformUIThread" "\<not> has ?b MergedPlatformUIThread"
    "\<not> has ?b OldGenHeapSize" "\<not> has ?b ResourceCacheMaxBytesThreshold" by code_simp+
  have p: "ParseCommaDelimited ''--enable-asserts'' = [''--enable-asserts'']" "\<not> IsAllowedDartVMFlag True ''--enable-asserts''"
    "ParseCommaDelimited ''--no-enable-isolate-groups'' = [''--no-enable-isolate-groups'']"
    "IsAllowedDartVMFlag True ''--no-enable-isolate-groups''" by code_simp+
  have r: "FLUTTER_RELEASE example_build" by (simp add: example_build_def)
  have "\<not> (\<exists>s. SettingsFromCommandLine example_build ?a False = Inr s)"
    using settings_of_command_line [THEN conjunct1, of example_build ?a False] v(1) p(1,2) r by simp
  moreover obtain s where "SettingsFromCommandLine example_build ?b True = Inr s"
    using settings_of_command_line [THEN conjunct1, of example_build ?b True] v p(3,4) r
    by (auto simp: numbers_readable_def asks_for_separate_threads_def)
  ultimately show ?thesis using settings_of_command_line [THEN conjunct2, of example_build ?b True] by blast
qed

section \<open>Malformed values\<close>

text \<open>
  The log says that a malformed port is replaced by the default, but the test is that of the stream, which reads
  a number at the beginning and lets a negative one wrap around.
\<close>

theorem malformed_port_is_accepted:
  "GetSwitchValue (CommandLineFromIterators [''app'', ''--vm-service-port=-1'']) DeviceVMServicePort 0 = (True, - 1) \<and>
   GetSwitchValue (CommandLineFromIterators [''app'', ''--vm-service-port=80ab'']) DeviceVMServicePort 0 = (True, 80)"
proof -
  have "decimal_prefix ''-1'' = (True, ''1'')" "decimal_prefix ''80ab'' = (False, ''80'')" by code_simp+
  then have "extract_uint32 ''-1'' = Some (- 1)" "extract_uint32 ''80ab'' = Some 80"
    by (simp_all add: extract_uint32_def decimal_number_def digit_value_def)
  moreover have
    "GetOptionValue (CommandLineFromIterators [''app'', ''--vm-service-port=-1'']) (FlagForSwitch DeviceVMServicePort) = Some ''-1''"
    "GetOptionValue (CommandLineFromIterators [''app'', ''--vm-service-port=80ab'']) (FlagForSwitch DeviceVMServicePort) = Some ''80ab''"
    by code_simp+
  ultimately show ?thesis by (simp add: GetSwitchValue_def)
qed

text \<open>The fallback for the symbols of the ICU data uses the library before it looks whether it could be opened.\<close>

theorem missing_icu_library_is_undefined:
  assumes "process (symbol_prefix @ ''_start'') = 0" "open_library native_lib_path = None"
  shows "GetSymbolMapping process open_library symbol_prefix native_lib_path = Inl Undefined"
  using assms by (simp add: GetSymbolMapping_def)

end
