(* ===== verification/Ascii_Trie.thy ===== *)
theory Ascii_Trie
  imports Prelude "HOL-Library.Sublist"
begin

text \<open>
  \<open>fml/ascii_trie\<close>: the allow list of trace events. A node has 128 children and the code indexes them with a
  \<open>char\<close>, so a character that is not ASCII is outside the array. The header promises a test for prefixes; what the
  code decides is characterized below, and is not that.
\<close>

section \<open>Tries\<close>

datatype TrieNode = TrieNode (children: "char \<Rightarrow> TrieNode option")

definition kMaxAsciiValue :: nat where
  "kMaxAsciiValue = 128"

definition new_node :: TrieNode where
  "new_node = TrieNode (\<lambda>_. None)"

text \<open>\<open>Add\<close> works on the pointer to a node; the entry is what is before the terminator.\<close>

fun Add :: "TrieNode option \<Rightarrow> string \<Rightarrow> TrieNode option res" where
  "Add trie [] = Inr trie"
| "Add trie (ch # entry) =
     (let node = (case trie of None \<Rightarrow> new_node | Some n \<Rightarrow> n)
      in if kMaxAsciiValue \<le> of_char ch then Inl Undefined
         else bindR (Add (children node ch) entry) (\<lambda>child.
                Inr (Some (TrieNode ((children node)(ch := child))))))"

definition c_str :: "string \<Rightarrow> string" where
  "c_str s = takeWhile (\<lambda>c. c \<noteq> CHR 0x00) s"

definition MakeTrie :: "string list \<Rightarrow> TrieNode option res" where
  "MakeTrie entries = foldR (\<lambda>entry trie. Add trie (c_str entry)) entries None"

text \<open>The loop of \<open>Query\<close>: the position, whether it has left the root, and whether \<open>child\<close> is not null.\<close>

fun query_loop :: "TrieNode \<Rightarrow> bool \<Rightarrow> bool \<Rightarrow> string \<Rightarrow> bool res" where
  "query_loop trie_position moved child [] = Inr (\<not> child \<and> moved)"
| "query_loop trie_position moved child (ch # char_position) =
     (if kMaxAsciiValue \<le> of_char ch then Inl Undefined
      else case children trie_position ch of
        None \<Rightarrow> Inr moved
      | Some n \<Rightarrow> query_loop n True True char_position)"

definition Query :: "TrieNode option \<Rightarrow> string \<Rightarrow> bool res" where
  "Query node argument =
     (case node of None \<Rightarrow> Inr True | Some trie \<Rightarrow> query_loop trie False False (c_str argument))"

section \<open>What the trie holds\<close>

text \<open>The nodes are the proper prefixes of the entries: the last character of an entry has no node.\<close>

fun has_node :: "TrieNode option \<Rightarrow> string \<Rightarrow> bool" where
  "has_node None p = False"
| "has_node (Some n) [] = True"
| "has_node (Some n) (c # p) = has_node (children n c) p"

definition ascii :: "string \<Rightarrow> bool" where
  "ascii s = list_all (\<lambda>c. of_char c < kMaxAsciiValue) s"

lemma ascii_simps [simp]: "ascii []" "ascii (c # s) \<longleftrightarrow> of_char c < kMaxAsciiValue \<and> ascii s"
  by (simp_all add: ascii_def)

lemma no_node_new: "\<not> has_node (children new_node c) p"
  by (simp add: new_node_def)

lemma Add_nodes:
  "ascii entry \<Longrightarrow> \<exists>t. Add trie entry = Inr t \<and> (\<forall>p. has_node t p \<longleftrightarrow> has_node trie p \<or> strict_prefix p entry)"
proof (induction entry arbitrary: trie)
  case (Cons ch entry)
  define node where "node = (case trie of None \<Rightarrow> new_node | Some n \<Rightarrow> n)"
  from Cons obtain child where child: "Add (children node ch) entry = Inr child"
    "\<And>p. has_node child p \<longleftrightarrow> has_node (children node ch) p \<or> strict_prefix p entry" by fastforce
  have node: "has_node (children node c) p \<longleftrightarrow> has_node trie (c # p)" for c p
    by (cases trie) (simp_all add: node_def no_node_new)
  have "has_node (Some (TrieNode ((children node)(ch := child)))) p \<longleftrightarrow> has_node trie p \<or> strict_prefix p (ch # entry)" for p
    by (cases p) (auto simp: child(2) node)
  with child(1) Cons.prems show ?case by (auto simp: Let_def simp flip: node_def)
qed simp

lemma MakeTrie_nodes:
  "list_all (\<lambda>e. ascii (c_str e)) entries \<Longrightarrow>
   \<exists>t. MakeTrie entries = Inr t \<and> (\<forall>p. has_node t p \<longleftrightarrow> (\<exists>e \<in> set entries. strict_prefix p (c_str e)))"
proof -
  have "list_all (\<lambda>e. ascii (c_str e)) entries \<Longrightarrow>
    \<exists>t. foldR (\<lambda>entry trie. Add trie (c_str entry)) entries trie = Inr t \<and>
      (\<forall>p. has_node t p \<longleftrightarrow> has_node trie p \<or> (\<exists>e \<in> set entries. strict_prefix p (c_str e)))" for trie
  proof (induction entries arbitrary: trie)
    case (Cons e entries)
    then obtain t where t: "Add trie (c_str e) = Inr t" "\<And>p. has_node t p \<longleftrightarrow> has_node trie p \<or> strict_prefix p (c_str e)"
      using Add_nodes [of "c_str e" trie] by auto
    obtain u where "foldR (\<lambda>entry trie. Add trie (c_str entry)) entries t = Inr u"
      "\<And>p. has_node u p \<longleftrightarrow> has_node t p \<or> (\<exists>e \<in> set entries. strict_prefix p (c_str e))"
      using Cons.IH [of t] Cons.prems by auto
    with t show ?case by auto
  qed simp
  from this [of None] show "list_all (\<lambda>e. ascii (c_str e)) entries \<Longrightarrow> ?thesis" by (simp add: MakeTrie_def)
qed

lemma query_from_child:
  "ascii q \<Longrightarrow> query_loop n True True q = Inr (\<not> has_node (Some n) q)"
proof (induction q arbitrary: n)
  case (Cons c q)
  then show ?case by (cases "children n c") auto
qed simp

lemma Query_nodes:
  assumes "ascii (c_str q)"
  shows "Query (Some n) q =
    Inr (c_str q \<noteq> [] \<and> has_node (Some n) [hd (c_str q)] \<and> \<not> has_node (Some n) (c_str q))"
proof (cases "c_str q")
  case (Cons c s)
  then show ?thesis
    using assms by (cases "children n c") (auto simp: Query_def query_from_child)
qed (simp add: Query_def)

lemma strict_prefix_one: "strict_prefix [c] e \<longleftrightarrow> (\<exists>rest. 2 \<le> length e \<and> e = c # rest)"
proof (cases e)
  case (Cons a rest)
  then show ?thesis by (cases rest) auto
qed simp

text \<open>
  What a query of the trie decides, for ASCII entries and arguments: building and querying stay inside
  the arrays of children, a trie without characters accepts everything, and any other accepts an argument
  exactly if some entry of two characters or more begins with its first character and no entry properly
  extends it. So a query is right about an entry of two characters or more that no other entry extends, and
  about an argument that begins no entry.
\<close>

theorem trie_query_decides:
  assumes "\<forall>e \<in> set entries. ascii (c_str e)" "ascii (c_str q)"
  shows "\<exists>t. MakeTrie entries = Inr t \<and>
    Query t q = Inr ((\<forall>e \<in> set entries. c_str e = []) \<or>
      (\<exists>e \<in> set entries. \<exists>rest. 2 \<le> length (c_str e) \<and> c_str e = c_str q ! 0 # rest \<and> c_str q \<noteq> []) \<and>
      \<not> (\<exists>e \<in> set entries. strict_prefix (c_str q) (c_str e)))"
proof -
  obtain t where t: "MakeTrie entries = Inr t" "\<And>p. has_node t p \<longleftrightarrow> (\<exists>e \<in> set entries. strict_prefix p (c_str e))"
    using MakeTrie_nodes [of entries] assms(1) by (auto simp: list_all_iff)
  show ?thesis
  proof (cases t)
    case None
    then have "\<forall>e \<in> set entries. c_str e = []" using t(2) [of "[]"] by (auto simp: strict_prefix_def)
    with None t(1) show ?thesis by (simp add: Query_def)
  next
    case (Some n)
    then obtain e where "e \<in> set entries" "strict_prefix [] (c_str e)" using t(2) [of "[]"] by auto
    then have "\<exists>e \<in> set entries. c_str e \<noteq> []" by (metis prefix_order.less_irrefl)
    moreover have "has_node t [c] \<longleftrightarrow> (\<exists>e \<in> set entries. \<exists>rest. 2 \<le> length (c_str e) \<and> c_str e = c # rest)" for c
      unfolding t(2) strict_prefix_one by blast
    ultimately show ?thesis
      using Some t Query_nodes [OF assms(2), of n] by (auto simp: hd_conv_nth)
  qed
qed

theorem trie_query_decides_witness:
  "\<exists>t. MakeTrie [''foo'', ''bar''] = Inr t \<and> Query t ''foobar'' = Inr True \<and> Query t ''google'' = Inr False"
proof -
  have c: "c_str ''foo'' = ''foo''" "c_str ''bar'' = ''bar''" "c_str ''foobar'' = ''foobar''" "c_str ''google'' = ''google''"
    "ascii ''foo''" "ascii ''bar''" "ascii ''foobar''" "ascii ''google''" by code_simp+
  show ?thesis
    using trie_query_decides [of "[''foo'', ''bar'']" "''foobar''"] trie_query_decides [of "[''foo'', ''bar'']" "''google''"]
    by (auto simp: c kMaxAsciiValue_def)
qed

text \<open>
  An argument that only shares its first character with an entry is accepted; an entry of one character is
  never found; and an entry is not found when another one extends it.
\<close>

theorem trie_is_not_a_prefix_test:
  "bindR (MakeTrie [''foo'']) (\<lambda>t. Query t ''fa'') = Inr True \<and>
   bindR (MakeTrie [''f'']) (\<lambda>t. Query t ''f'') = Inr False \<and>
   bindR (MakeTrie [''foo'', ''foobar'']) (\<lambda>t. Query t ''foo'') = Inr False"
proof -
  have c: "c_str ''foo'' = ''foo''" "c_str ''fa'' = ''fa''" "c_str ''f'' = ''f''" "c_str ''foobar'' = ''foobar''"
    by code_simp+
  show ?thesis
    by (simp add: MakeTrie_def Query_def c kMaxAsciiValue_def new_node_def)
qed

end
