(* ===== verification/Concurrent_Loop.thy ===== *)
theory Concurrent_Loop
  imports Prelude "HOL-Library.Sublist"
begin

text \<open>
  \<open>fml/concurrent_message_loop\<close>: a pool of worker threads over one queue of tasks and a list of tasks per worker.
  Under the mutex each operation is one step; a worker that finds nothing to do blocks in the wait set of the
  condition variable until it is notified or wakes spuriously, and then tests again. It takes what it is to run and
  runs it with the mutex released, so posts, a termination and the steps of other workers come between any two of its
  closures. \<open>PostTask\<close> notifies after it has unlocked the mutex, in a step of its own. Closures are numbers; what a
  closure posts is a post like any other. The fields \<open>enqueued\<close>, \<open>taken\<close>, \<open>accepted\<close>, \<open>broadcast\<close>, \<open>got\<close> and \<open>ran\<close> record the history
  and do not influence the steps.
\<close>

section \<open>The loop\<close>

type_synonym task = nat

datatype thread = Worker nat | Caller

text \<open>Where \<open>WorkerMain\<close> is: about to test the predicate with the mutex, blocked in the wait set of the condition
  variable, behind the unlock with closures left to run and the value read of \<open>shutdown_\<close>, or returned.\<close>

datatype worker = Testing | Blocked | Executing "task list" bool | Exited

record ConcurrentMessageLoop =
  worker_count :: nat
  tasks :: "task list"
  thread_tasks :: "nat \<rightharpoonup> task list"
  shutdown :: bool
  alive :: bool
  workers :: "nat \<Rightarrow> worker"
  notifications :: nat
  enqueued :: "task list"
  taken :: "task list"
  accepted :: "task multiset"
  broadcast :: "task list"
  got :: "nat \<Rightarrow> task list"
  ran :: "(thread \<times> task) list"

definition ConcurrentMessageLoop_new :: "nat \<Rightarrow> ConcurrentMessageLoop" where
  "ConcurrentMessageLoop_new n =
     \<lparr>worker_count = max n 1, tasks = [], thread_tasks = Map.empty, shutdown = False, alive = True,
      workers = (\<lambda>_. Testing), notifications = 0, enqueued = [], taken = [], accepted = {#}, broadcast = [], got = (\<lambda>_. []), ran = []\<rparr>"

definition ExecuteTask :: "thread \<Rightarrow> task \<Rightarrow> ConcurrentMessageLoop \<Rightarrow> ConcurrentMessageLoop" where
  "ExecuteTask th task l = l\<lparr>ran := ran l @ [(th, task)]\<rparr>"

text \<open>
  \<open>notify_all\<close> wakes every blocked worker. \<open>notify_one\<close> wakes a blocked worker of its choice, or nobody if there is none;
  \<open>notifications\<close> counts the threads that have posted a task and are about to call it.
\<close>

definition notify_all :: "ConcurrentMessageLoop \<Rightarrow> ConcurrentMessageLoop" where
  "notify_all l = l\<lparr>workers := (\<lambda>w. if workers l w = Blocked then Testing else workers l w)\<rparr>"

definition notify_worker :: "nat \<Rightarrow> ConcurrentMessageLoop \<Rightarrow> ConcurrentMessageLoop" where
  "notify_worker w l =
     l\<lparr>workers := (if workers l w = Blocked then (workers l)(w := Testing) else workers l), notifications := notifications l - 1\<rparr>"

definition pool_PostTask :: "thread \<Rightarrow> task option \<Rightarrow> ConcurrentMessageLoop \<Rightarrow> ConcurrentMessageLoop" where
  "pool_PostTask th closure l =
     (case closure of
        None \<Rightarrow> l
      | Some task \<Rightarrow>
          let l = l\<lparr>accepted := add_mset task (accepted l)\<rparr>
          in if shutdown l then ExecuteTask th task l
             else l\<lparr>tasks := tasks l @ [task], enqueued := enqueued l @ [task], notifications := notifications l + 1\<rparr>)"

definition Terminate :: "ConcurrentMessageLoop \<Rightarrow> ConcurrentMessageLoop" where
  "Terminate l = notify_all (l\<lparr>shutdown := True\<rparr>)"

text \<open>\<open>thread_tasks_[id].emplace_back(task)\<close> for the ids of all workers.\<close>

definition push_all :: "task \<Rightarrow> ConcurrentMessageLoop \<Rightarrow> ConcurrentMessageLoop" where
  "push_all task l =
     l\<lparr>thread_tasks := fold (\<lambda>w m. m(w \<mapsto> (case m w of None \<Rightarrow> [] | Some ts \<Rightarrow> ts) @ [task]))
         [0..<worker_count l] (thread_tasks l),
       accepted := accepted l + replicate_mset (worker_count l) task,
       broadcast := broadcast l @ [task]\<rparr>"

definition PostTaskToAllWorkers :: "task option \<Rightarrow> ConcurrentMessageLoop \<Rightarrow> ConcurrentMessageLoop" where
  "PostTaskToAllWorkers closure l = (case closure of None \<Rightarrow> l | Some task \<Rightarrow> notify_all (push_all task l))"

definition HasThreadTasksLocked :: "nat \<Rightarrow> ConcurrentMessageLoop \<Rightarrow> bool" where
  "HasThreadTasksLocked w l \<longleftrightarrow> thread_tasks l w \<noteq> None"

definition GetThreadTasksLocked :: "nat \<Rightarrow> ConcurrentMessageLoop \<Rightarrow> task list \<times> ConcurrentMessageLoop" where
  "GetThreadTasksLocked w l =
     (case thread_tasks l w of
        None \<Rightarrow> ([], l)
      | Some pending \<Rightarrow> (pending, l\<lparr>thread_tasks := (thread_tasks l)(w := None), got := (got l)(w := got l w @ pending)\<rparr>))"

text \<open>The predicate of the condition variable, and the round of \<open>WorkerMain\<close> up to the unlock.\<close>

definition can_wake :: "nat \<Rightarrow> ConcurrentMessageLoop \<Rightarrow> bool" where
  "can_wake w l \<longleftrightarrow> tasks l \<noteq> [] \<or> shutdown l \<or> HasThreadTasksLocked w l"

definition worker_wake :: "nat \<Rightarrow> ConcurrentMessageLoop \<Rightarrow> ConcurrentMessageLoop" where
  "worker_wake w l =
     (let shutdown_now = shutdown l;
          (task, l) = (case tasks l of
             [] \<Rightarrow> ([], l)
           | t # ts \<Rightarrow> ([t], l\<lparr>tasks := ts, taken := taken l @ [t]\<rparr>));
          (pending, l) = (if HasThreadTasksLocked w l then GetThreadTasksLocked w l else ([], l))
      in l\<lparr>workers := (workers l)(w := Executing (task @ pending) shutdown_now)\<rparr>)"

text \<open>The test at the condition variable: the worker goes on, or blocks.\<close>

definition worker_test :: "nat \<Rightarrow> ConcurrentMessageLoop \<Rightarrow> ConcurrentMessageLoop" where
  "worker_test w l = (if can_wake w l then worker_wake w l else l\<lparr>workers := (workers l)(w := Blocked)\<rparr>)"

text \<open>What a worker does without the mutex: the next closure, and behind the last one the next round or the end.\<close>

definition worker_run :: "nat \<Rightarrow> ConcurrentMessageLoop \<Rightarrow> ConcurrentMessageLoop" where
  "worker_run w l =
     (case workers l w of
        Executing (t # ts) shutdown_now \<Rightarrow>
          ExecuteTask (Worker w) t (l\<lparr>workers := (workers l)(w := Executing ts shutdown_now)\<rparr>)
      | Executing [] shutdown_now \<Rightarrow> l\<lparr>workers := (workers l)(w := if shutdown_now then Exited else Testing)\<rparr>
      | _ \<Rightarrow> l)"

text \<open>
  The destructor terminates the loop and joins the workers; no runner can lock the loop any more when it begins. A
  runner without a loop runs the task itself.
\<close>

definition ConcurrentMessageLoop_delete :: "ConcurrentMessageLoop \<Rightarrow> ConcurrentMessageLoop" where
  "ConcurrentMessageLoop_delete l = Terminate (l\<lparr>alive := False\<rparr>)"

definition runner_PostTask :: "thread \<Rightarrow> task option \<Rightarrow> ConcurrentMessageLoop \<Rightarrow> ConcurrentMessageLoop" where
  "runner_PostTask th closure l =
     (case closure of
        None \<Rightarrow> l
      | Some task \<Rightarrow>
          if alive l then pool_PostTask th closure l
          else ExecuteTask th task (l\<lparr>accepted := add_mset task (accepted l)\<rparr>))"

definition RunsTasksOnCurrentThread :: "thread \<Rightarrow> ConcurrentMessageLoop \<Rightarrow> bool" where
  "RunsTasksOnCurrentThread th l \<longleftrightarrow> list_ex (\<lambda>w. th = Worker w) [0..<worker_count l]"

text \<open>
  What the pool does by itself: the steps of the workers, and the notifications of tasks that were posted. A spurious
  wake-up can happen at any time, but nothing relies on it.
\<close>

inductive worker_step :: "ConcurrentMessageLoop \<Rightarrow> ConcurrentMessageLoop \<Rightarrow> bool" where
  Test: "w < worker_count l \<Longrightarrow> workers l w = Testing \<Longrightarrow> worker_step l (worker_test w l)"
| Notify: "w < worker_count l \<Longrightarrow> 0 < notifications l \<Longrightarrow> workers l w = Blocked \<or> (\<forall>v<worker_count l. workers l v \<noteq> Blocked) \<Longrightarrow>
    worker_step l (notify_worker w l)"
| Run: "w < worker_count l \<Longrightarrow> workers l w = Executing ts b \<Longrightarrow> worker_step l (worker_run w l)"

inductive pool_reach :: "nat \<Rightarrow> ConcurrentMessageLoop \<Rightarrow> bool" for n where
  Start: "pool_reach n (ConcurrentMessageLoop_new n)"
| Worker_step: "pool_reach n l \<Longrightarrow> worker_step l l' \<Longrightarrow> pool_reach n l'"
| Spurious: "pool_reach n l \<Longrightarrow> workers l w = Blocked \<Longrightarrow> pool_reach n (l\<lparr>workers := (workers l)(w := Testing)\<rparr>)"
| Post: "pool_reach n l \<Longrightarrow> pool_reach n (runner_PostTask th closure l)"
| Post_all: "pool_reach n l \<Longrightarrow> alive l \<Longrightarrow> pool_reach n (PostTaskToAllWorkers closure l)"
| Terminated: "pool_reach n l \<Longrightarrow> alive l \<Longrightarrow> pool_reach n (Terminate l)"
| Deleted: "pool_reach n l \<Longrightarrow> alive l \<Longrightarrow> pool_reach n (ConcurrentMessageLoop_delete l)"

section \<open>Accounting\<close>

fun rest :: "worker \<Rightarrow> task list" where
  "rest (Executing ts b) = ts"
| "rest _ = []"

definition pending :: "ConcurrentMessageLoop \<Rightarrow> nat \<Rightarrow> task list" where
  "pending l w = (case thread_tasks l w of None \<Rightarrow> [] | Some ts \<Rightarrow> ts)"

definition ran_by :: "nat \<Rightarrow> ConcurrentMessageLoop \<Rightarrow> task list" where
  "ran_by w l = map snd (filter (\<lambda>e. fst e = Worker w) (ran l))"

definition in_flight :: "ConcurrentMessageLoop \<Rightarrow> task multiset" where
  "in_flight l = mset (tasks l) + (\<Sum>w<worker_count l. mset (rest (workers l w))) + (\<Sum>w<worker_count l. mset (pending l w))"

definition pool_inv :: "nat \<Rightarrow> ConcurrentMessageLoop \<Rightarrow> bool" where
  "pool_inv n l \<longleftrightarrow>
     worker_count l = max n 1 \<and>
     enqueued l = taken l @ tasks l \<and>
     (\<forall>w. thread_tasks l w \<noteq> Some []) \<and>
     (\<forall>w<worker_count l. broadcast l = got l w @ pending l w) \<and>
     (\<forall>w<worker_count l. subseq (got l w) (ran_by w l @ rest (workers l w))) \<and>
     accepted l = mset (map snd (ran l)) + in_flight l \<and>
     (\<not> shutdown l \<longrightarrow> (\<forall>w<worker_count l. workers l w \<in> {Testing, Blocked} \<or> (\<exists>ts. workers l w = Executing ts False)))"

text \<open>
  No wake-up is lost: a blocked worker has no tasks of its own and there is no shutdown, and when all workers are blocked
  in front of a task a notification is on its way.
\<close>

definition wake_ups_inv :: "ConcurrentMessageLoop \<Rightarrow> bool" where
  "wake_ups_inv l \<longleftrightarrow>
     (\<forall>w<worker_count l. workers l w = Blocked \<longrightarrow> \<not> shutdown l \<and> thread_tasks l w = None) \<and>
     (tasks l \<noteq> [] \<and> (\<forall>w<worker_count l. workers l w = Blocked) \<longrightarrow> 0 < notifications l)"

lemma sum_fun_upd:
  fixes f :: "'b \<Rightarrow> 'c :: comm_monoid_add" and n :: nat
  assumes "w < n"
  shows "(\<Sum>v<n. f ((g(w := x)) v)) + f (g w) = (\<Sum>v<n. f (g v)) + f x"
proof -
  have "(\<Sum>v<n. f (h v)) = f (h w) + (\<Sum>v \<in> {..<n} - {w}. f (h v))" for h :: "nat \<Rightarrow> 'b"
    using assms by (intro sum.remove) auto
  note this [of "g(w := x)"] this [of g]
  moreover have "(\<Sum>v \<in> {..<n} - {w}. f ((g(w := x)) v)) = (\<Sum>v \<in> {..<n} - {w}. f (g v))" by (intro sum.cong) auto
  ultimately show ?thesis by (simp add: ac_simps)
qed

lemma subseq_insert: "subseq xs (ys @ zs) \<Longrightarrow> subseq xs (ys @ y # zs)"
  by (erule subseq_order.order_trans) (intro list_emb_append_mono subseq_order.order_refl list_emb_Cons)

text \<open>Blocking and waking a worker is no loss.\<close>

lemma inv_moved:
  assumes "pool_inv n l" "\<forall>w. W w = workers l w \<or> W w \<in> {Testing, Blocked} \<and> workers l w \<in> {Testing, Blocked}"
  shows "pool_inv n (l\<lparr>workers := W, notifications := k\<rparr>)"
proof -
  have "rest (W w) = rest (workers l w)" for w
    using assms(2) by (metis insertE rest.simps(2,3) singletonD)
  moreover have "W w \<in> {Testing, Blocked} \<or> (\<exists>ts. W w = Executing ts False)"
    if "workers l w \<in> {Testing, Blocked} \<or> (\<exists>ts. workers l w = Executing ts False)" for w
    using assms(2) that by metis
  ultimately show ?thesis
    using assms(1) unfolding pool_inv_def in_flight_def ran_by_def pending_def by simp
qed

lemma inv_notify_all: "pool_inv n l \<Longrightarrow> pool_inv n (notify_all l)"
  using inv_moved [of n l "\<lambda>w. if workers l w = Blocked then Testing else workers l w" "notifications l"]
  by (simp add: notify_all_def)

lemma inv_notify_one: "pool_inv n l \<Longrightarrow> pool_inv n (notify_worker w l)"
  unfolding notify_worker_def by (rule inv_moved) auto

lemma inv_stirred:
  "pool_inv n l \<Longrightarrow> workers l w \<in> {Testing, Blocked} \<Longrightarrow> k \<in> {Testing, Blocked} \<Longrightarrow> pool_inv n (l\<lparr>workers := (workers l)(w := k)\<rparr>)"
  using inv_moved [of n l "(workers l)(w := k)" "notifications l"] by simp

lemma inv_execute:
  assumes "pool_inv n l" shows "pool_inv n (ExecuteTask th task (l\<lparr>accepted := add_mset task (accepted l)\<rparr>))"
  using assms
  by (auto simp: pool_inv_def ExecuteTask_def in_flight_def ran_by_def pending_def intro: subseq_insert)

lemma inv_post:
  assumes "pool_inv n l" shows "pool_inv n (runner_PostTask th closure l)"
proof (cases closure)
  case (Some task)
  show ?thesis
  proof (cases "alive l \<and> \<not> shutdown l")
    case True
    with assms Some show ?thesis
      by (simp add: runner_PostTask_def pool_PostTask_def pool_inv_def in_flight_def ran_by_def pending_def)
  next
    case False
    with inv_execute [OF assms] Some show ?thesis by (auto simp: runner_PostTask_def pool_PostTask_def)
  qed
qed (simp add: runner_PostTask_def assms)

lemma fold_broadcast:
  "fold (\<lambda>w m. m(w \<mapsto> (case m w of None \<Rightarrow> [] | Some ts \<Rightarrow> ts) @ [task])) [0..<n] m =
   (\<lambda>w. if w < n then Some ((case m w of None \<Rightarrow> [] | Some ts \<Rightarrow> ts) @ [task]) else m w)"
  by (induction n) (auto simp: fun_eq_iff less_Suc_eq split: option.split)

lemma pending_broadcast:
  "w < worker_count l \<Longrightarrow> pending (push_all task l) w = pending l w @ [task]"
  by (simp add: push_all_def pending_def fold_broadcast split: option.split)

lemma sum_singles: "(\<Sum>w<n. f w + {#x#}) = (\<Sum>w<n. f w) + replicate_mset n x" for n :: nat
  by (induction n) simp_all

lemma inv_broadcast:
  assumes "pool_inv n l" shows "pool_inv n (PostTaskToAllWorkers closure l)"
proof (cases closure)
  case (Some task)
  let ?l = "push_all task l"
  have eq: "worker_count ?l = worker_count l" "workers ?l = workers l" "tasks ?l = tasks l" "ran ?l = ran l" "got ?l = got l"
    "enqueued ?l = enqueued l" "taken ?l = taken l" "shutdown ?l = shutdown l" "broadcast ?l = broadcast l @ [task]"
    "accepted ?l = accepted l + replicate_mset (worker_count l) task"
    by (simp_all add: push_all_def)
  have "(\<Sum>w<worker_count l. mset (pending ?l w)) = (\<Sum>w<worker_count l. mset (pending l w) + {#task#})"
    by (intro sum.cong) (simp_all add: pending_broadcast)
  also have "\<dots> = (\<Sum>w<worker_count l. mset (pending l w)) + replicate_mset (worker_count l) task"
    by (rule sum_singles)
  finally have sum: "(\<Sum>w<worker_count l. mset (pending ?l w)) = (\<Sum>w<worker_count l. mset (pending l w)) + replicate_mset (worker_count l) task" .
  have "thread_tasks ?l w \<noteq> Some []" for w
    using assms by (simp add: push_all_def fold_broadcast pool_inv_def)
  with sum have "pool_inv n ?l"
    using assms by (simp add: pool_inv_def in_flight_def eq ran_by_def pending_broadcast)
  then show ?thesis
    using Some by (simp add: PostTaskToAllWorkers_def inv_notify_all)
qed (simp add: PostTaskToAllWorkers_def assms)

lemma inv_terminate:
  assumes "pool_inv n l" shows "pool_inv n (Terminate l)" "pool_inv n (ConcurrentMessageLoop_delete l)"
  unfolding Terminate_def ConcurrentMessageLoop_delete_def
  using assms by (intro inv_notify_all; simp add: pool_inv_def in_flight_def ran_by_def pending_def)+

text \<open>What a wake takes: at most one task of the queue, and all tasks of the worker.\<close>

definition wake_items :: "nat \<Rightarrow> ConcurrentMessageLoop \<Rightarrow> task list" where
  "wake_items w l = take 1 (tasks l) @ pending l w"

lemma worker_wake_eq:
  "worker_wake w l = l\<lparr>tasks := drop 1 (tasks l), taken := taken l @ take 1 (tasks l),
     thread_tasks := (thread_tasks l)(w := None), got := (got l)(w := got l w @ pending l w),
     workers := (workers l)(w := Executing (wake_items w l) (shutdown l))\<rparr>"
proof -
  have "(thread_tasks l)(w := None) = thread_tasks l" if "thread_tasks l w = None"
    using that by (auto simp: fun_eq_iff)
  then show ?thesis
    by (simp add: worker_wake_def wake_items_def pending_def HasThreadTasksLocked_def GetThreadTasksLocked_def
        split: list.split option.split)
qed

lemma pending_wake: "pending (worker_wake w l) = (pending l)(w := [])"
  by (auto simp: worker_wake_eq pending_def fun_eq_iff)

lemma balance: "r' = r + (a + b) \<Longrightarrow> p' + b = p \<Longrightarrow> d + a = t \<Longrightarrow> d + r' + p' = t + r + p"
  for a b d p p' r r' t :: "'a multiset"
  by (auto simp: ac_simps)

lemma inv_wake:
  assumes "pool_inv n l" "w < worker_count l" "workers l w = Testing"
  shows "pool_inv n (worker_wake w l)"
proof -
  let ?l = "worker_wake w l"
  have eq: "worker_count ?l = worker_count l" "tasks ?l = drop 1 (tasks l)" "ran ?l = ran l" "accepted ?l = accepted l"
    "enqueued ?l = enqueued l" "taken ?l = taken l @ take 1 (tasks l)" "shutdown ?l = shutdown l" "broadcast ?l = broadcast l"
    "got ?l = (got l)(w := got l w @ pending l w)" "workers ?l = (workers l)(w := Executing (wake_items w l) (shutdown l))"
    "thread_tasks ?l = (thread_tasks l)(w := None)"
    by (simp_all add: worker_wake_eq)
  have "in_flight ?l = in_flight l"
  proof -
    have "(\<Sum>v<worker_count l. mset (rest (workers ?l v))) = (\<Sum>v<worker_count l. mset (rest (workers l v))) + mset (wake_items w l)"
      using sum_fun_upd [OF assms(2), of "\<lambda>x. mset (rest x)" "workers l" "Executing (wake_items w l) (shutdown l)"] assms(3)
      by (simp add: eq)
    moreover have "(\<Sum>v<worker_count l. mset (pending ?l v)) + mset (pending l w) = (\<Sum>v<worker_count l. mset (pending l v))"
      using sum_fun_upd [OF assms(2), of mset "pending l" "[]"] by (simp add: pending_wake)
    moreover have "mset (drop 1 (tasks l)) + mset (take 1 (tasks l)) = mset (tasks l)"
      by (metis append_take_drop_id mset_append union_commute)
    ultimately show ?thesis
      unfolding in_flight_def eq(1,2) wake_items_def mset_append by (rule balance)
  qed
  moreover have "subseq (got l w @ pending l w) (ran_by w l @ wake_items w l)"
  proof -
    have "subseq (got l w) (ran_by w l @ rest (workers l w))" using assms(1,2) by (simp add: pool_inv_def)
    then have "subseq (got l w) (ran_by w l)" by (simp add: assms(3))
    then show ?thesis unfolding wake_items_def by (intro list_emb_append_mono subseq_drop_many subseq_order.order_refl)
  qed
  moreover have "enqueued l = (taken l @ take 1 (tasks l)) @ drop 1 (tasks l)" using assms(1) by (simp add: pool_inv_def)
  ultimately show ?thesis
    using assms unfolding pool_inv_def eq pending_wake by (auto simp: ran_by_def eq)
qed

lemma inv_run:
  assumes "pool_inv n l" "w < worker_count l" "workers l w = Executing ts b"
  shows "pool_inv n (worker_run w l)"
proof (cases ts)
  case Nil
  then have "rest (((workers l)(w := if b then Exited else Testing)) v) = rest (workers l v)" for v
    using assms(3) by simp
  with Nil assms show ?thesis
    by (auto simp: worker_run_def pool_inv_def in_flight_def ran_by_def pending_def)
next
  case (Cons t ts')
  let ?l = "worker_run w l"
  have eq: "?l = l\<lparr>workers := (workers l)(w := Executing ts' b), ran := ran l @ [(Worker w, t)]\<rparr>"
    using Cons assms(3) by (simp add: worker_run_def ExecuteTask_def)
  have "(\<Sum>v<worker_count l. mset (rest (((workers l)(w := Executing ts' b)) v))) + {#t#} = (\<Sum>v<worker_count l. mset (rest (workers l v)))"
    using sum_fun_upd [OF assms(2), of "\<lambda>x. mset (rest x)" "workers l" "Executing ts' b"] assms(3) Cons by simp
  with Cons assms show ?thesis
    unfolding eq by (auto simp: pool_inv_def in_flight_def ran_by_def pending_def)
qed

lemma inv_test:
  assumes "pool_inv n l" "w < worker_count l" "workers l w = Testing" shows "pool_inv n (worker_test w l)"
  using inv_wake [OF assms] inv_stirred [OF assms(1), of w Blocked] assms(3) by (simp add: worker_test_def)

lemmas inv_steps = inv_test inv_run inv_notify_one inv_post inv_broadcast inv_terminate

lemma worker_step_inv: "worker_step l l' \<Longrightarrow> pool_inv n l \<Longrightarrow> pool_inv n l'"
  by (induction rule: worker_step.induct) (simp_all add: inv_steps)

lemma pool_reach_inv: "pool_reach n l \<Longrightarrow> pool_inv n l"
proof (induction rule: pool_reach.induct)
  case Start
  then show ?case by (simp add: pool_inv_def ConcurrentMessageLoop_new_def in_flight_def ran_by_def pending_def)
next
  case (Spurious l w)
  then show ?case by (intro inv_stirred) auto
qed (simp_all add: inv_steps worker_step_inv)

section \<open>Wake-ups\<close>

lemma wake_ups_test:
  assumes "wake_ups_inv l" "w < worker_count l" "workers l w = Testing"
  shows "wake_ups_inv (worker_test w l)"
proof (cases "can_wake w l")
  case True
  then show ?thesis
    using assms by (auto simp: worker_test_def wake_ups_inv_def worker_wake_eq)
next
  case False
  then show ?thesis
    using assms by (auto simp: worker_test_def wake_ups_inv_def can_wake_def HasThreadTasksLocked_def)
qed

lemma wake_ups_notify_one:
  assumes "wake_ups_inv l" "w < worker_count l" "workers l w = Blocked \<or> (\<forall>v<worker_count l. workers l v \<noteq> Blocked)"
  shows "wake_ups_inv (notify_worker w l)"
  using assms by (auto simp: wake_ups_inv_def notify_worker_def)

lemma wake_ups_run:
  assumes "wake_ups_inv l" "w < worker_count l" "workers l w = Executing ts b"
  shows "wake_ups_inv (worker_run w l)"
  using assms by (cases ts) (auto simp: wake_ups_inv_def worker_run_def ExecuteTask_def)

lemma worker_step_wake_ups: "worker_step l l' \<Longrightarrow> wake_ups_inv l \<Longrightarrow> wake_ups_inv l'"
  by (induction rule: worker_step.induct) (simp_all add: wake_ups_test wake_ups_notify_one wake_ups_run)

text \<open>A notification of all workers leaves none blocked, so it is due whenever a condition of a single worker changes.\<close>

lemma wake_ups_notify_all: "0 < worker_count l \<Longrightarrow> wake_ups_inv (notify_all l)"
  by (auto simp: wake_ups_inv_def notify_all_def)

lemma pool_reach_wake_ups: "pool_reach n l \<Longrightarrow> wake_ups_inv l"
proof (induction rule: pool_reach.induct)
  case Start
  then show ?case by (simp add: wake_ups_inv_def ConcurrentMessageLoop_new_def)
next
  case (Worker_step l l')
  then show ?case by (simp add: worker_step_wake_ups)
next
  case (Spurious l w)
  then show ?case by (auto simp: wake_ups_inv_def)
next
  case (Post l th closure)
  then show ?case
    by (auto simp: wake_ups_inv_def runner_PostTask_def pool_PostTask_def ExecuteTask_def Let_def split: option.split)
next
  case (Post_all l closure)
  then show ?case
    using pool_reach_inv [of n l]
    by (cases closure) (auto simp: PostTaskToAllWorkers_def pool_inv_def push_all_def intro!: wake_ups_notify_all)
next
  case (Terminated l)
  then show ?case
    using pool_reach_inv [of n l] unfolding Terminate_def by (intro wake_ups_notify_all) (simp add: pool_inv_def)
next
  case (Deleted l)
  then show ?case
    using pool_reach_inv [of n l] unfolding ConcurrentMessageLoop_delete_def Terminate_def
    by (intro wake_ups_notify_all) (simp add: pool_inv_def)
qed

text \<open>
  C12: in every execution of the pool, whatever threads post, terminate and run in between, a posted task is
  run at most once and is not lost while the pool has work to do: the tasks accepted are those that ran and
  those in flight (in the queue, in the hands of a worker, or pending for one), counted with repetitions.
  Workers take the tasks of the queue in the order in which they were posted. A task for all workers is got by
  each worker in the order of posting, and run by that worker in this order.
\<close>

theorem pool_accounts_for_tasks:
  assumes "pool_reach n l"
  shows "accepted l = mset (map snd (ran l)) + in_flight l \<and> enqueued l = taken l @ tasks l \<and>
    (\<forall>w<worker_count l. broadcast l = got l w @ pending l w \<and>
       subseq (got l w) (ran_by w l @ rest (workers l w)))"
  using pool_reach_inv [OF assms] by (simp add: pool_inv_def)

section \<open>Progress\<close>

text \<open>Without new posts the workers come to rest.\<close>

fun work_left :: "worker \<Rightarrow> nat" where
  "work_left Testing = 2"
| "work_left Blocked = 0"
| "work_left (Executing ts shutdown_now) = length ts + (if shutdown_now then 1 else 3)"
| "work_left Exited = 0"

definition pool_measure :: "ConcurrentMessageLoop \<Rightarrow> nat" where
  "pool_measure l = 3 * length (tasks l) + (\<Sum>w<worker_count l. 3 * length (pending l w)) +
     (\<Sum>w<worker_count l. work_left (workers l w)) + 3 * notifications l"

lemma wake_takes:
  assumes "pool_inv n l" "can_wake w l" shows "shutdown l \<or> 1 \<le> length (take 1 (tasks l)) + length (pending l w)"
proof (cases "tasks l")
  case Nil
  then have "shutdown l \<or> thread_tasks l w \<noteq> None" using assms(2) by (simp add: can_wake_def HasThreadTasksLocked_def)
  moreover have "thread_tasks l w \<noteq> Some []" using assms(1) unfolding pool_inv_def by blast
  ultimately show ?thesis by (auto simp: pending_def Suc_le_eq)
qed simp

lemma wake_decreases:
  assumes "pool_inv n l" "w < worker_count l" "workers l w = Testing" "can_wake w l"
  shows "pool_measure (worker_wake w l) < pool_measure l"
proof -
  let ?l = "worker_wake w l"
  have "(\<Sum>v<worker_count l. work_left (workers ?l v)) + 2 =
      (\<Sum>v<worker_count l. work_left (workers l v)) + work_left (Executing (wake_items w l) (shutdown l))"
    using sum_fun_upd [OF assms(2), of work_left "workers l" "Executing (wake_items w l) (shutdown l)"] assms(3)
    by (simp add: worker_wake_eq)
  moreover have "(\<Sum>v<worker_count l. 3 * length (pending ?l v)) + 3 * length (pending l w) = (\<Sum>v<worker_count l. 3 * length (pending l v))"
    using sum_fun_upd [OF assms(2), of "\<lambda>ts. 3 * length ts" "pending l" "[]"] by (simp add: pending_wake)
  moreover have "length (tasks ?l) + length (take 1 (tasks l)) = length (tasks l)" "worker_count ?l = worker_count l"
    "notifications ?l = notifications l"
    by (auto simp: worker_wake_eq)
  moreover have "length (wake_items w l) = length (take 1 (tasks l)) + length (pending l w)" by (simp add: wake_items_def)
  ultimately show ?thesis
    using wake_takes [OF assms(1,4)] unfolding pool_measure_def work_left.simps by (auto split: if_splits)
qed

text \<open>A step that only changes one worker, to what has less left, and uses notifications up.\<close>

lemma worker_decreases:
  assumes "w < worker_count l" "workers l' = (workers l)(w := k)" "work_left k + 3 * notifications l' < work_left (workers l w) + 3 * notifications l"
    and "tasks l' = tasks l" "thread_tasks l' = thread_tasks l" "worker_count l' = worker_count l"
  shows "pool_measure l' < pool_measure l"
proof -
  have "(\<Sum>v<worker_count l. work_left (workers l' v)) + work_left (workers l w) = (\<Sum>v<worker_count l. work_left (workers l v)) + work_left k"
    using sum_fun_upd [OF assms(1), of work_left "workers l" k] by (simp add: assms(2))
  moreover have "pending l' = pending l" by (simp add: pending_def fun_eq_iff assms(5))
  ultimately show ?thesis using assms(3,4,6) by (simp add: pool_measure_def)
qed

lemma worker_step_decreases:
  assumes "pool_inv n l" "worker_step l l'" shows "pool_measure l' < pool_measure l"
  using assms(2)
proof cases
  case (Test w)
  show ?thesis
  proof (cases "can_wake w l")
    case True
    then show ?thesis using wake_decreases [OF assms(1) Test(2,3)] Test(1) by (simp add: worker_test_def)
  next
    case False
    then show ?thesis using Test by (intro worker_decreases [OF Test(2), of _ Blocked]) (simp_all add: worker_test_def)
  qed
next
  case (Notify w)
  then show ?thesis
    by (intro worker_decreases [OF Notify(2), of _ "if workers l w = Blocked then Testing else workers l w"])
      (auto simp: notify_worker_def)
next
  case (Run w ts b)
  then show ?thesis
    by (cases ts; intro worker_decreases [OF Run(2), of _ "workers l' w"]) (auto simp: worker_run_def ExecuteTask_def)
qed

lemma worker_step_frame:
  "worker_step l l' \<Longrightarrow> accepted l' = accepted l \<and> broadcast l' = broadcast l \<and> shutdown l' = shutdown l \<and> worker_count l' = worker_count l"
  by (induction rule: worker_step.induct)
    (auto simp: worker_test_def worker_wake_eq worker_run_def notify_worker_def ExecuteTask_def split: worker.split list.split)

lemma worker_steps_frame:
  "worker_step\<^sup>*\<^sup>* l l' \<Longrightarrow> pool_inv n l \<Longrightarrow> wake_ups_inv l \<Longrightarrow> pool_inv n l' \<and> wake_ups_inv l' \<and> accepted l' = accepted l \<and>
     broadcast l' = broadcast l \<and> shutdown l' = shutdown l \<and> worker_count l' = worker_count l"
  by (induction rule: rtranclp_induct) (auto simp: worker_step_frame dest: worker_step_inv worker_step_wake_ups)

text \<open>A pool at rest: every worker is blocked or has returned, and no notification is on its way to a blocked one.\<close>

lemma at_rest:
  assumes "pool_inv n l" "wake_ups_inv l" "\<nexists>l'. worker_step l l'" "w < worker_count l"
  shows "if shutdown l then workers l w = Exited else workers l w = Blocked \<and> tasks l = [] \<and> pending l w = []"
proof -
  have still: "workers l v = Blocked \<or> workers l v = Exited" if "v < worker_count l" for v
  proof (cases "workers l v")
    case Testing
    then show ?thesis using assms(3) that worker_step.Test by blast
  next
    case (Executing ts b)
    then show ?thesis using assms(3) that worker_step.Run by blast
  qed simp_all
  show ?thesis
  proof (cases "shutdown l")
    case True
    then show ?thesis using still [OF assms(4)] assms(2,4) by (auto simp: wake_ups_inv_def)
  next
    case False
    then have b: "\<forall>v<worker_count l. workers l v = Blocked"
      using still assms(1) unfolding pool_inv_def by fastforce
    then have "notifications l = 0" using assms(3,4) worker_step.Notify by (metis gr0I)
    with b assms(2,4) False show ?thesis by (auto simp: wake_ups_inv_def pending_def)
  qed
qed

lemma comes_to_rest: "pool_inv n l \<Longrightarrow> \<exists>l'. worker_step\<^sup>*\<^sup>* l l' \<and> (\<nexists>l''. worker_step l' l'')"
proof (induction l rule: measure_induct_rule [of pool_measure])
  case (less l)
  show ?case
  proof (cases "\<exists>l1. worker_step l l1")
    case True
    then obtain l1 where "worker_step l l1" ..
    with less worker_step_decreases [of n l l1] worker_step_inv [of l l1 n] show ?thesis
      by (meson converse_rtranclp_into_rtranclp)
  qed blast
qed

text \<open>
  C13: the pool runs everything and stops when it is told to. Left to themselves, with the notifications of what was
  posted as the only wake-ups, the workers come to rest after finitely many steps, on every schedule. At rest in a pool
  that was not told to terminate all tasks accepted have run, each as often as it was posted, and each worker has run
  the tasks for all workers in the order of posting; in one that was, every worker has returned and can be joined.
\<close>

theorem pool_runs_everything:
  assumes "pool_reach n l"
  shows "(\<nexists>f. f 0 = l \<and> (\<forall>i. worker_step (f i) (f (Suc i)))) \<and>
    (\<forall>l'. worker_step\<^sup>*\<^sup>* l l' \<and> (\<nexists>l''. worker_step l' l'') \<longrightarrow>
       (if shutdown l then \<forall>w<worker_count l. workers l' w = Exited
        else mset (map snd (ran l')) = accepted l \<and> (\<forall>w<worker_count l. subseq (broadcast l) (ran_by w l'))))"
proof (intro conjI allI impI notI)
  assume "\<exists>f. f 0 = l \<and> (\<forall>i. worker_step (f i) (f (Suc i)))"
  then obtain f where f: "f 0 = l" "\<And>i. worker_step (f i) (f (Suc i))" by blast
  have "pool_inv n (f i)" for i
    by (induction i) (use f pool_reach_inv [OF assms(1)] worker_step_inv in auto)
  then have "pool_measure (f (Suc i)) < pool_measure (f i)" for i using f(2) worker_step_decreases by blast
  then have "\<exists>i. \<not> pool_measure (f (Suc i)) < pool_measure (f i)"
    using wf_no_infinite_down_chainE [OF wf_measure, of "\<lambda>i. f i" pool_measure] by (metis in_measure)
  with \<open>\<And>i. pool_measure (f (Suc i)) < pool_measure (f i)\<close> show False by blast
next
  fix l' assume l': "worker_step\<^sup>*\<^sup>* l l' \<and> (\<nexists>l''. worker_step l' l'')"
  note frame = worker_steps_frame [OF conjunct1 [OF l'] pool_reach_inv [OF assms(1)] pool_reach_wake_ups [OF assms(1)]]
  have r: "if shutdown l' then workers l' w = Exited else workers l' w = Blocked \<and> tasks l' = [] \<and> pending l' w = []"
    if "w < worker_count l'" for w
    using at_rest [of n l' w] frame l' that by blast
  show "if shutdown l then \<forall>w<worker_count l. workers l' w = Exited
    else mset (map snd (ran l')) = accepted l \<and> (\<forall>w<worker_count l. subseq (broadcast l) (ran_by w l'))"
  proof (cases "shutdown l")
    case True
    then show ?thesis using r frame by auto
  next
    case False
    have "0 < worker_count l'" using frame by (simp add: pool_inv_def)
    then have t: "tasks l' = []" "\<And>w. w < worker_count l' \<Longrightarrow> workers l' w = Blocked \<and> pending l' w = []"
      using r False frame by auto
    then have "in_flight l' = {#}" by (simp add: in_flight_def)
    moreover have "accepted l' = mset (map snd (ran l')) + in_flight l'" using frame unfolding pool_inv_def by blast
    moreover have "\<And>w. w < worker_count l \<Longrightarrow> subseq (broadcast l) (ran_by w l')"
      using frame t unfolding pool_inv_def by fastforce
    ultimately show ?thesis using frame False by simp
  qed
qed

text \<open>A pool of two workers with a task and a task for all, for the witnesses.\<close>

definition example_pool :: ConcurrentMessageLoop where
  "example_pool = PostTaskToAllWorkers (Some 2) (runner_PostTask Caller (Some 1) (ConcurrentMessageLoop_new 2))"

lemma example_pool_reach: "pool_reach 2 example_pool"
  unfolding example_pool_def
  by (rule Post_all [OF Post [OF Start]]) (simp add: runner_PostTask_def pool_PostTask_def ConcurrentMessageLoop_new_def)

theorem pool_accounts_for_tasks_witness: "accepted example_pool = mset (map snd (ran example_pool)) + in_flight example_pool"
  using pool_accounts_for_tasks [OF example_pool_reach] by blast

theorem pool_runs_everything_witness:
  "(\<nexists>f. f 0 = example_pool \<and> (\<forall>i. worker_step (f i) (f (Suc i)))) \<and>
   (\<exists>l'. worker_step\<^sup>*\<^sup>* example_pool l' \<and> (\<nexists>l''. worker_step l' l'') \<and> mset (map snd (ran l')) = {#1, 2, 2#} \<and>
      subseq [2] (ran_by 0 l') \<and> subseq [2] (ran_by 1 l'))"
proof -
  have e: "\<not> shutdown example_pool" "accepted example_pool = {#1, 2, 2#}" "broadcast example_pool = [2]" "worker_count example_pool = 2"
    by (simp_all add: example_pool_def PostTaskToAllWorkers_def push_all_def notify_all_def runner_PostTask_def pool_PostTask_def
        ConcurrentMessageLoop_new_def numeral_2_eq_2)
  obtain l' where l': "worker_step\<^sup>*\<^sup>* example_pool l'" "\<nexists>l''. worker_step l' l''"
    using comes_to_rest [OF pool_reach_inv [OF example_pool_reach]] by blast
  note p = pool_runs_everything [OF example_pool_reach]
  have "mset (map snd (ran l')) = {#1, 2, 2#} \<and> (\<forall>w<2. subseq [2] (ran_by w l'))"
    using spec [OF conjunct2 [OF p], of l', THEN mp, OF conjI [OF l']] e by simp
  then show ?thesis
    using l' by (intro conjI [OF conjunct1 [OF p]] exI [of _ l']) simp_all
qed

section \<open>Shutdown\<close>

text \<open>
  The comment on \<open>PostTask\<close> says that tasks are not dropped at shutdown, and one posted then is run by its caller. But
  a worker that wakes after \<open>Terminate\<close> takes at most one more task, so what was posted before is dropped when the
  queue is longer than the number of workers.
\<close>

definition shut_down_pool :: ConcurrentMessageLoop where
  "shut_down_pool = worker_run 0 (worker_run 0 (worker_test 0 (Terminate
     (notify_worker 0 (notify_worker 0 (runner_PostTask Caller (Some 2) (runner_PostTask Caller (Some 1) (ConcurrentMessageLoop_new 1))))))))"

theorem shutdown_drops_tasks:
  "pool_reach 1 shut_down_pool \<and> (\<nexists>l. worker_step shut_down_pool l) \<and>
   tasks shut_down_pool = [2] \<and> map snd (ran shut_down_pool) = [1]"
proof -
  define l where "l = runner_PostTask Caller (Some 2) (runner_PostTask Caller (Some 1) (ConcurrentMessageLoop_new 1))"
  have l: "l = (ConcurrentMessageLoop_new 1)\<lparr>tasks := [1, 2], enqueued := [1, 2], accepted := {#2, 1#}, notifications := 2\<rparr>"
    by (simp add: l_def runner_PostTask_def pool_PostTask_def ConcurrentMessageLoop_new_def)
  have "pool_reach 1 l" unfolding l_def by (intro pool_reach.Post pool_reach.Start)
  moreover have n: "notify_worker 0 l = l\<lparr>notifications := 1\<rparr>" "notify_worker 0 (notify_worker 0 l) = l\<lparr>notifications := 0\<rparr>"
    by (simp_all add: l notify_worker_def ConcurrentMessageLoop_new_def)
  have "worker_step l (notify_worker 0 l)" "worker_step (notify_worker 0 l) (notify_worker 0 (notify_worker 0 l))"
    by (intro worker_step.Notify; simp add: l notify_worker_def ConcurrentMessageLoop_new_def)+
  ultimately have "pool_reach 1 (notify_worker 0 (notify_worker 0 l))"
    using pool_reach.Worker_step by blast
  moreover have "alive (notify_worker 0 (notify_worker 0 l))" unfolding n(2) by (simp add: l ConcurrentMessageLoop_new_def)
  moreover define l0 where "l0 = Terminate (notify_worker 0 (notify_worker 0 l))"
  ultimately have r0: "pool_reach 1 l0" by (simp add: pool_reach.Terminated)
  have l0: "l0 = (ConcurrentMessageLoop_new 1)\<lparr>tasks := [1, 2], enqueued := [1, 2], accepted := {#2, 1#}, shutdown := True\<rparr>"
    unfolding l0_def n(2) by (simp add: l Terminate_def notify_all_def ConcurrentMessageLoop_new_def)
  define l1 where "l1 = worker_test 0 l0"
  have l1: "workers l1 = (\<lambda>_. Testing)(0 := Executing [1] True)" "worker_count l1 = 1" "tasks l1 = [2]" "ran l1 = []" "notifications l1 = 0"
    by (simp_all add: l1_def worker_test_def can_wake_def worker_wake_eq l0 wake_items_def pending_def ConcurrentMessageLoop_new_def)
  have r1: "pool_reach 1 l1" unfolding l1_def
    by (intro pool_reach.Worker_step [OF r0] worker_step.Test) (simp_all add: l0 ConcurrentMessageLoop_new_def)
  define l2 where "l2 = worker_run 0 l1"
  have l2: "workers l2 = (\<lambda>_. Testing)(0 := Executing [] True)" "worker_count l2 = 1" "tasks l2 = [2]" "ran l2 = [(Worker 0, 1)]"
    "notifications l2 = 0"
    using l1 by (simp_all add: l2_def worker_run_def ExecuteTask_def)
  have r2: "pool_reach 1 l2" unfolding l2_def
    by (intro pool_reach.Worker_step [OF r1] worker_step.Run) (simp_all add: l1)
  have s: "shut_down_pool = worker_run 0 l2" by (simp add: shut_down_pool_def l2_def l1_def l0_def l_def)
  have "pool_reach 1 shut_down_pool" unfolding s
    by (intro pool_reach.Worker_step [OF r2] worker_step.Run) (simp_all add: l2)
  moreover have "workers shut_down_pool 0 = Exited" "worker_count shut_down_pool = 1" "tasks shut_down_pool = [2]"
    "ran shut_down_pool = [(Worker 0, 1)]" "notifications shut_down_pool = 0"
    using l2 by (simp_all add: s worker_run_def)
  ultimately show ?thesis by (auto elim: worker_step.cases)
qed

end
