(* ===== verification/Embedder_Tasks.thy ===== *)
theory Embedder_Tasks
  imports Prelude
begin

text \<open>
  The task runners that an embedder provides (\<open>shell/platform/embedder/embedder_task_runner\<close>,
  \<open>embedder_thread_host\<close>, the task functions of \<open>embedder_engine\<close> and \<open>embedder.cc\<close>). The engine hands a task to the
  embedder as a baton; the embedder gives it back at its time, and the engine looks up the closure and runs it.
  Task runners are objects with a unique id; calls of the embedder's callbacks are recorded in order. What the
  embedder does with its batons is arbitrary: it may lose, repeat and invent them.
\<close>

section \<open>State\<close>

text \<open>A description as \<open>SAFE_ACCESS\<close> reads it: a member behind \<open>struct_size\<close> or a null pointer is \<open>None\<close>.\<close>

record FlutterTaskRunnerDescription =
  runs_task_on_current_thread_callback :: "nat option"
  post_task_callback :: "nat option"
  runner_identifier :: "64 word"
  destruction_callback :: "nat option"
  user_data :: nat

record FlutterCustomTaskRunners =
  custom_platform :: "FlutterTaskRunnerDescription option"
  custom_render :: "FlutterTaskRunnerDescription option"
  custom_ui :: "FlutterTaskRunnerDescription option"

record FlutterTask =
  task_runner :: nat
  task_baton :: "64 word"

type_synonym engine_task = nat

record EmbedderTaskRunner =
  description :: FlutterTaskRunnerDescription
  last_baton :: "64 word"
  pending_tasks :: "64 word \<rightharpoonup> engine_task"

text \<open>
  \<open>post_calls\<close> has the calls of \<open>post_task_callback\<close> with the target time in nanoseconds, \<open>destructions\<close> those of
  \<open>destruction_callback\<close>, \<open>handed\<close> the closures behind the batons and \<open>executed\<close> those that ran.
\<close>

record embedder =
  next_unique_id :: nat
  runners :: "nat \<rightharpoonup> EmbedderTaskRunner"
  active_runners :: "nat set"
  post_calls :: "(FlutterTask \<times> 64 word) list"
  handed :: "(FlutterTask \<times> engine_task) list"
  destructions :: "(nat \<times> nat) list"
  executed :: "(FlutterTask \<times> engine_task) list"

definition embedder_new :: embedder where
  "embedder_new =
     \<lparr>next_unique_id = 0, runners = Map.empty, active_runners = {}, post_calls = [], handed = [], destructions = [], executed = []\<rparr>"

section \<open>Task runners\<close>

definition EmbedderTaskRunner_new :: "FlutterTaskRunnerDescription \<Rightarrow> embedder \<Rightarrow> nat \<times> embedder" where
  "EmbedderTaskRunner_new d e =
     (next_unique_id e,
      e\<lparr>next_unique_id := next_unique_id e + 1,
        runners := (runners e)(next_unique_id e \<mapsto> \<lparr>description = d, last_baton = 0, pending_tasks = Map.empty\<rparr>)\<rparr>)"

definition EmbedderTaskRunner_delete :: "nat \<Rightarrow> embedder \<Rightarrow> embedder" where
  "EmbedderTaskRunner_delete r e =
     (case runners e r of
        None \<Rightarrow> e
      | Some t \<Rightarrow>
          e\<lparr>runners := (runners e)(r := None),
            destructions := destructions e @
              (case destruction_callback (description t) of None \<Rightarrow> [] | Some c \<Rightarrow> [(c, user_data (description t))])\<rparr>)"

text \<open>A null closure is not posted.\<close>

definition PostTaskForTime :: "nat \<Rightarrow> engine_task option \<Rightarrow> 64 word \<Rightarrow> embedder \<Rightarrow> embedder" where
  "PostTaskForTime r closure target_time e =
     (case closure of
        None \<Rightarrow> e
      | Some t \<Rightarrow>
          (case runners e r of
             None \<Rightarrow> e
           | Some runner \<Rightarrow>
               let baton = last_baton runner + 1;
                   runner = runner\<lparr>last_baton := baton, pending_tasks := (pending_tasks runner)(baton \<mapsto> t)\<rparr>
               in e\<lparr>runners := (runners e)(r \<mapsto> runner),
                    post_calls := post_calls e @ [(\<lparr>task_runner = r, task_baton = baton\<rparr>, target_time)],
                    handed := handed e @ [(\<lparr>task_runner = r, task_baton = baton\<rparr>, t)]\<rparr>))"

definition embedder_PostTask :: "64 word \<Rightarrow> nat \<Rightarrow> engine_task option \<Rightarrow> embedder \<Rightarrow> embedder" where
  "embedder_PostTask now r closure = PostTaskForTime r closure now"

definition embedder_PostDelayedTask :: "64 word \<Rightarrow> nat \<Rightarrow> engine_task option \<Rightarrow> 64 word \<Rightarrow> embedder \<Rightarrow> embedder" where
  "embedder_PostDelayedTask now r closure delay = PostTaskForTime r closure (now + delay)"

text \<open>\<open>EmbedderTaskRunner::PostTask(baton)\<close>: the closure is taken out before it runs.\<close>

definition run_baton :: "nat \<Rightarrow> 64 word \<Rightarrow> embedder \<Rightarrow> bool \<times> embedder" where
  "run_baton r baton e =
     (case runners e r of
        None \<Rightarrow> (False, e)
      | Some runner \<Rightarrow>
          (case pending_tasks runner baton of
             None \<Rightarrow> (False, e)
           | Some t \<Rightarrow>
               (True, e\<lparr>runners := (runners e)(r \<mapsto> runner\<lparr>pending_tasks := (pending_tasks runner)(baton := None)\<rparr>),
                        executed := executed e @ [(\<lparr>task_runner = r, task_baton = baton\<rparr>, t)]\<rparr>)))"

section \<open>Thread hosts\<close>

text \<open>A runner of a host: one of the embedder, the loop of the calling thread, or a thread of the engine.\<close>

datatype host_runner = Embedder_runner nat | Current_thread | Engine_thread

record EmbedderThreadHost =
  runners_map :: "nat set"
  platform_runner :: host_runner
  ui_runner :: host_runner
  has_ui_thread :: bool

definition CreateEmbedderTaskRunner ::
  "FlutterTaskRunnerDescription option \<Rightarrow> embedder \<Rightarrow> (bool \<times> nat option) \<times> embedder" where
  "CreateEmbedderTaskRunner d e =
     (case d of
        None \<Rightarrow> ((True, None), e)
      | Some d \<Rightarrow>
          if runs_task_on_current_thread_callback d = None then ((False, None), e)
          else if post_task_callback d = None then ((False, None), e)
          else let (r, e) = EmbedderTaskRunner_new d e in ((True, Some r), e))"

text \<open>A reference that goes away with its last holder.\<close>

definition release :: "nat option \<Rightarrow> embedder \<Rightarrow> embedder" where
  "release r e = (case r of None \<Rightarrow> e | Some r \<Rightarrow> EmbedderTaskRunner_delete r e)"

definition identifier_of :: "nat \<Rightarrow> embedder \<Rightarrow> 64 word" where
  "identifier_of r e = (case runners e r of None \<Rightarrow> 0 | Some t \<Rightarrow> runner_identifier (description t))"

text \<open>A runner with the runner_identifier of the platform runner is replaced by it.\<close>

definition share_runner :: "nat option \<Rightarrow> nat option \<Rightarrow> embedder \<Rightarrow> nat option \<times> embedder" where
  "share_runner platform other e =
     (case (platform, other) of
        (Some p, Some r) \<Rightarrow>
          if identifier_of p e = identifier_of r e then (Some p, EmbedderTaskRunner_delete r e) else (Some r, e)
      | _ \<Rightarrow> (other, e))"

definition EmbedderThreadHost_new ::
  "nat set \<Rightarrow> host_runner \<Rightarrow> host_runner \<Rightarrow> bool \<Rightarrow> embedder \<Rightarrow> EmbedderThreadHost \<times> embedder" where
  "EmbedderThreadHost_new rs platform ui ui_thread e =
     (\<lparr>runners_map = rs, platform_runner = platform, ui_runner = ui, has_ui_thread = ui_thread\<rparr>,
      e\<lparr>active_runners := active_runners e \<union> rs\<rparr>)"

definition CreateEmbedderManagedThreadHost ::
  "FlutterCustomTaskRunners option \<Rightarrow> embedder \<Rightarrow> EmbedderThreadHost option \<times> embedder" where
  "CreateEmbedderManagedThreadHost custom e =
     (case custom of
        None \<Rightarrow> (None, e)
      | Some c \<Rightarrow>
          let ((ui_ok, ui), e) = CreateEmbedderTaskRunner (custom_ui c) e;
              ((platform_ok, platform), e) = CreateEmbedderTaskRunner (custom_platform c) e;
              ((render_ok, render), e) = CreateEmbedderTaskRunner (custom_render c) e
          in if \<not> platform_ok \<or> \<not> render_ok then (None, release ui (release platform (release render e)))
             else
               let needs_ui_thread = (ui = None);
                   (render, e) = share_runner platform render e;
                   (ui, e) = share_runner platform ui e;
                   platform_task_runner = (case platform of Some p \<Rightarrow> Embedder_runner p | None \<Rightarrow> Current_thread);
                   ui_task_runner = (case ui of Some u \<Rightarrow> Embedder_runner u | None \<Rightarrow> Engine_thread);
                   (host, e) = EmbedderThreadHost_new (set_option platform \<union> set_option render \<union> set_option ui)
                     platform_task_runner ui_task_runner needs_ui_thread e
               in (Some host, e))"

definition CreateEngineManagedThreadHost :: "embedder \<Rightarrow> EmbedderThreadHost option \<times> embedder" where
  "CreateEngineManagedThreadHost e =
     (let (host, e) = EmbedderThreadHost_new {} Current_thread Engine_thread True e in (Some host, e))"

definition CreateEmbedderOrEngineManagedThreadHost ::
  "FlutterCustomTaskRunners option \<Rightarrow> embedder \<Rightarrow> EmbedderThreadHost option \<times> embedder" where
  "CreateEmbedderOrEngineManagedThreadHost custom e =
     (let (host, e) = CreateEmbedderManagedThreadHost custom e
      in if host \<noteq> None then (host, e)
         else if custom = None then CreateEngineManagedThreadHost e
         else (None, e))"

definition InvalidateActiveRunners :: "EmbedderThreadHost \<Rightarrow> embedder \<Rightarrow> embedder" where
  "InvalidateActiveRunners h e = e\<lparr>active_runners := active_runners e - runners_map h\<rparr>"

definition RunnerIsValid :: "nat \<Rightarrow> embedder \<Rightarrow> bool" where
  "RunnerIsValid r e \<longleftrightarrow> r \<in> active_runners e"

definition host_PostTask :: "EmbedderThreadHost \<Rightarrow> nat \<Rightarrow> 64 word \<Rightarrow> embedder \<Rightarrow> bool \<times> embedder" where
  "host_PostTask h r baton e = (if r \<notin> runners_map h then (False, e) else run_baton r baton e)"

section \<open>The engine\<close>

record EmbedderEngine =
  thread_host :: "EmbedderThreadHost option"
  shell :: bool
  microtask_flushes :: nat

text \<open>
  \<open>RunTask\<close> uses the thread host without a test. Whether the calling thread runs UI tasks is an answer of the
  embedder; the queue id of an embedder's runner is the invalid placeholder.
\<close>

definition RunTask ::
  "bool \<Rightarrow> FlutterTask option \<Rightarrow> EmbedderEngine \<times> embedder \<Rightarrow> (bool \<times> EmbedderEngine \<times> embedder) res" where
  "RunTask on_ui_thread t s =
     (case t of
        None \<Rightarrow> Inr (False, s)
      | Some t \<Rightarrow>
          (case thread_host (fst s) of
             None \<Rightarrow> Inl Undefined
           | Some h \<Rightarrow>
               let (result, e) = host_PostTask h (task_runner t) (task_baton t) (snd s);
                   flush = (result \<and> shell (fst s) \<and> on_ui_thread \<and> (\<exists>u. ui_runner h = Embedder_runner u))
               in Inr (result, (if flush then (fst s)\<lparr>microtask_flushes := microtask_flushes (fst s) + 1\<rparr> else fst s), e)))"

datatype FlutterEngineResult = kSuccess | kInvalidLibraryVersion | kInvalidArguments | kInternalInconsistency

definition FlutterEngineRunTask ::
  "bool \<Rightarrow> FlutterTask \<Rightarrow> EmbedderEngine \<times> embedder \<Rightarrow> (FlutterEngineResult \<times> EmbedderEngine \<times> embedder) res" where
  "FlutterEngineRunTask on_ui_thread t s =
     (if \<not> RunnerIsValid (task_runner t) (snd s) then Inr (kSuccess, s)
      else bindR (RunTask on_ui_thread (Some t) s) (\<lambda>(ok, s). Inr (if ok then kSuccess else kInvalidArguments, s)))"

text \<open>
  The UI thread is stopped while the runners are invalidated, so that this is one step. With the host go the references
  to its runners; the engine still holds those of its platform and UI tasks.
\<close>

definition held_by_engine :: "EmbedderThreadHost \<Rightarrow> nat \<Rightarrow> bool" where
  "held_by_engine h r \<longleftrightarrow> platform_runner h = Embedder_runner r \<or> ui_runner h = Embedder_runner r"

definition CollectThreadHost :: "EmbedderEngine \<times> embedder \<Rightarrow> EmbedderEngine \<times> embedder" where
  "CollectThreadHost s =
     (case thread_host (fst s) of
        None \<Rightarrow> s
      | Some h \<Rightarrow>
          ((fst s)\<lparr>thread_host := None\<rparr>,
           fold EmbedderTaskRunner_delete (filter (\<lambda>r. \<not> held_by_engine h r) (sorted_list_of_set (runners_map h)))
             (InvalidateActiveRunners h (snd s))))"

section \<open>Tasks run once\<close>

text \<open>What engine and embedder do: posts to any runner, batons given back, and the end of the thread host.\<close>

datatype embedder_op = Post nat "engine_task option" "64 word" | Give_back bool FlutterTask | Collect

fun exec_op :: "embedder_op \<Rightarrow> EmbedderEngine \<times> embedder \<Rightarrow> (EmbedderEngine \<times> embedder) res" where
  "exec_op (Post r closure target) s = Inr (fst s, PostTaskForTime r closure target (snd s))"
| "exec_op (Give_back on_ui t) s = bindR (FlutterEngineRunTask on_ui t s) (\<lambda>(_, s). Inr s)"
| "exec_op Collect s = Inr (CollectThreadHost s)"

definition batons_inv :: "embedder \<Rightarrow> bool" where
  "batons_inv e \<longleftrightarrow>
     distinct (map fst (handed e)) \<and> map fst (post_calls e) = map fst (handed e) \<and>
     (\<forall>(t, c) \<in> set (handed e). (task_runner t \<in> active_runners e \<longrightarrow> runners e (task_runner t) \<noteq> None) \<and>
        (\<forall>R. runners e (task_runner t) = Some R \<longrightarrow> unat (task_baton t) \<le> unat (last_baton R))) \<and>
     (\<forall>r R. runners e r = Some R \<longrightarrow> unat (last_baton R) \<le> length (handed e)) \<and>
     (\<forall>t R c. runners e (task_runner t) = Some R \<longrightarrow>
        (pending_tasks R (task_baton t) = Some c \<longleftrightarrow> (t, c) \<in> set (handed e) \<and> t \<notin> fst ` set (executed e))) \<and>
     distinct (map fst (executed e)) \<and> set (executed e) \<subseteq> set (handed e)"

definition host_inv :: "EmbedderEngine \<times> embedder \<Rightarrow> bool" where
  "host_inv s \<longleftrightarrow>
     (case thread_host (fst s) of None \<Rightarrow> active_runners (snd s) = {} | Some h \<Rightarrow> active_runners (snd s) = runners_map h)"

lemma FlutterTask_eq: "\<lparr>task_runner = task_runner t, task_baton = task_baton t\<rparr> = t"
  by simp

lemma batons_pending:
  assumes "batons_inv e" "runners e (task_runner t) = Some R"
  shows "pending_tasks R (task_baton t) = Some c \<longleftrightarrow> (t, c) \<in> set (handed e) \<and> t \<notin> fst ` set (executed e)"
  using assms unfolding batons_inv_def by blast

lemma batons_bound:
  assumes "batons_inv e" "(t, c) \<in> set (handed e)"
  shows "task_runner t \<in> active_runners e \<Longrightarrow> \<exists>R. runners e (task_runner t) = Some R"
    and "runners e (task_runner t) = Some R \<Longrightarrow> unat (task_baton t) \<le> unat (last_baton R)"
  using assms unfolding batons_inv_def by blast+

lemma batons_fresh:
  assumes "batons_inv e" "runners e r = Some R" "length (handed e) < 2 ^ 64 - 1"
  shows "unat (last_baton R + 1) = unat (last_baton R) + 1" "\<lparr>task_runner = r, task_baton = last_baton R + 1\<rparr> \<notin> fst ` set (handed e)"
proof -
  have "unat (last_baton R) \<le> length (handed e)" using assms(1,2) by (simp add: batons_inv_def)
  then have "unat (last_baton R) + 1 < 2 ^ 64" using assms(3) by linarith
  then show u: "unat (last_baton R + 1) = unat (last_baton R) + 1"
    by (simp add: unat_word_ariths(1))
  show "\<lparr>task_runner = r, task_baton = last_baton R + 1\<rparr> \<notin> fst ` set (handed e)"
  proof
    assume "\<lparr>task_runner = r, task_baton = last_baton R + 1\<rparr> \<in> fst ` set (handed e)"
    then obtain c where "(\<lparr>task_runner = r, task_baton = last_baton R + 1\<rparr>, c) \<in> set (handed e)" by auto
    with assms(1,2) have "unat (last_baton R + 1) \<le> unat (last_baton R)" unfolding batons_inv_def by fastforce
    with u show False by simp
  qed
qed

lemma inv_PostTaskForTime:
  assumes "batons_inv e" "length (handed e) < 2 ^ 64 - 1"
  shows "batons_inv (PostTaskForTime r closure target e)"
proof (cases "closure = None \<or> runners e r = None")
  case True
  then show ?thesis using assms(1) by (auto simp: PostTaskForTime_def split: option.split)
next
  case False
  then obtain t R where t: "closure = Some t" "runners e r = Some R" by auto
  let ?b = "last_baton R + 1" and ?e = "PostTaskForTime r closure target e"
  let ?f = "\<lparr>task_runner = r, task_baton = last_baton R + 1\<rparr>"
  let ?R = "R\<lparr>last_baton := ?b, pending_tasks := (pending_tasks R)(?b \<mapsto> t)\<rparr>"
  have eq: "runners ?e = (runners e)(r \<mapsto> ?R)" "handed ?e = handed e @ [(?f, t)]" "executed ?e = executed e" "active_runners ?e = active_runners e"
    "map fst (post_calls ?e) = map fst (post_calls e) @ [?f]"
    using t by (simp_all add: PostTaskForTime_def Let_def)
  note fresh = batons_fresh [OF assms(1) t(2) assms(2)]
  have new: "?f \<notin> fst ` set (executed e)" using fresh(2) assms(1) unfolding batons_inv_def by blast
  have "(pending_tasks R' (task_baton f) = Some c) = ((f, c) \<in> set (handed ?e) \<and> f \<notin> fst ` set (executed ?e))"
    if R': "runners ?e (task_runner f) = Some R'" for f R' c
  proof (cases "f = ?f")
    case True
    moreover have "(?f, c) \<notin> set (handed e)" for c using fresh(2) by force
    ultimately show ?thesis using that new by (auto simp: eq)
  next
    case False
    have "pending_tasks R' (task_baton f) = pending_tasks R'' (task_baton f)"
      if "runners e (task_runner f) = Some R''" for R''
      using that \<open>runners ?e (task_runner f) = Some R'\<close> t(2) False
      by (cases f) (auto simp: eq split: if_splits)
    moreover obtain R'' where "runners e (task_runner f) = Some R''" using R' t(2) by (auto simp: eq split: if_splits)
    ultimately show ?thesis using batons_pending [OF assms(1), of f R'' c] False by (simp add: eq)
  qed
  moreover have "(task_runner f \<in> active_runners ?e \<longrightarrow> runners ?e (task_runner f) \<noteq> None) \<and>
      (\<forall>R'. runners ?e (task_runner f) = Some R' \<longrightarrow> unat (task_baton f) \<le> unat (last_baton R'))"
    if "(f, c) \<in> set (handed ?e)" for f c
  proof (cases "(f, c) \<in> set (handed e)")
    case True
    then show ?thesis
      using batons_bound [OF assms(1) True] t(2) fresh(1) by (cases "task_runner f = r") (auto simp: eq)
  next
    case False
    then show ?thesis using that by (auto simp: eq)
  qed
  moreover have "unat (last_baton R') \<le> length (handed ?e)" if "runners ?e r' = Some R'" for r' R'
  proof (cases "r' = r")
    case True
    moreover have "unat (last_baton R) \<le> length (handed e)" using assms(1) t(2) by (simp add: batons_inv_def)
    ultimately show ?thesis using that fresh(1) by (auto simp: eq)
  next
    case False
    then have "unat (last_baton R') \<le> length (handed e)" using that assms(1) by (simp add: batons_inv_def eq)
    then show ?thesis by (simp add: eq)
  qed
  moreover have "distinct (map fst (handed ?e))" using assms(1) fresh(2) by (simp add: batons_inv_def eq)
  moreover have "map fst (post_calls ?e) = map fst (handed ?e)" using assms(1) by (simp add: batons_inv_def eq)
  moreover have "distinct (map fst (executed ?e))" "set (executed ?e) \<subseteq> set (handed ?e)"
    using assms(1) by (auto simp: batons_inv_def eq)
  ultimately show ?thesis unfolding batons_inv_def by fast
qed

lemma run_baton_refused:
  assumes "batons_inv e" "task_runner f \<in> active_runners e" "runners e (task_runner f) = None \<or> (\<exists>R. runners e (task_runner f) = Some R \<and> pending_tasks R (task_baton f) = None)"
  shows "run_baton (task_runner f) (task_baton f) e = (False, e)" "f \<notin> fst ` set (handed e) - fst ` set (executed e)"
proof -
  show "run_baton (task_runner f) (task_baton f) e = (False, e)" using assms(3) by (auto simp: run_baton_def)
  show "f \<notin> fst ` set (handed e) - fst ` set (executed e)"
  proof
    assume "f \<in> fst ` set (handed e) - fst ` set (executed e)"
    then obtain c where c: "(f, c) \<in> set (handed e)" "f \<notin> fst ` set (executed e)" by auto
    then obtain R where "runners e (task_runner f) = Some R" using batons_bound(1) [OF assms(1)] assms(2) by blast
    with c batons_pending [OF assms(1) this, of c] assms(3) show False by simp
  qed
qed

lemma run_baton_runs:
  assumes "batons_inv e" "runners e (task_runner f) = Some R" "pending_tasks R (task_baton f) = Some c"
  defines "e' \<equiv> e\<lparr>runners := (runners e)(task_runner f \<mapsto> R\<lparr>pending_tasks := (pending_tasks R)(task_baton f := None)\<rparr>),
    executed := executed e @ [(f, c)]\<rparr>"
  shows "run_baton (task_runner f) (task_baton f) e = (True, e')" "(f, c) \<in> set (handed e)" "f \<notin> fst ` set (executed e)" "batons_inv e'"
proof -
  show "run_baton (task_runner f) (task_baton f) e = (True, e')" using assms(2,3) by (simp add: run_baton_def e'_def)
  show c: "(f, c) \<in> set (handed e)" "f \<notin> fst ` set (executed e)"
    using batons_pending [OF assms(1,2)] assms(3) by blast+
  have "(pending_tasks R' (task_baton g) = Some d) = ((g, d) \<in> set (handed e') \<and> g \<notin> fst ` set (executed e'))"
    if R': "runners e' (task_runner g) = Some R'" for g R' d
  proof (cases "g = f")
    case True
    then show ?thesis using R' by (auto simp: e'_def)
  next
    case False
    obtain R'' where R'': "runners e (task_runner g) = Some R''" using R' assms(2) by (auto simp: e'_def split: if_splits)
    have "pending_tasks R' (task_baton g) = pending_tasks R'' (task_baton g)"
      using R' R'' assms(2) False by (cases f; cases g) (auto simp: e'_def split: if_splits)
    then show ?thesis using batons_pending [OF assms(1) R'', of d] False by (simp add: e'_def)
  qed
  moreover have "(task_runner g \<in> active_runners e' \<longrightarrow> runners e' (task_runner g) \<noteq> None) \<and>
      (\<forall>R'. runners e' (task_runner g) = Some R' \<longrightarrow> unat (task_baton g) \<le> unat (last_baton R'))"
    if "(g, d) \<in> set (handed e')" for g d
    using that batons_bound [OF assms(1), of g d] assms(2) by (cases "task_runner g = task_runner f") (auto simp: e'_def)
  moreover have "unat (last_baton R') \<le> length (handed e')" if "runners e' r = Some R'" for r R'
    using that assms(1,2) unfolding batons_inv_def e'_def by (auto split: if_splits)
  moreover have "distinct (map fst (handed e'))" "map fst (post_calls e') = map fst (handed e')"
    "distinct (map fst (executed e'))" "set (executed e') \<subseteq> set (handed e')"
    using assms(1) c unfolding batons_inv_def e'_def by auto
  ultimately show "batons_inv e'" unfolding batons_inv_def by fast
qed

lemma deletes_keep:
  assumes "batons_inv e" "active_runners e = {}"
  shows "batons_inv (fold EmbedderTaskRunner_delete rs e)" "active_runners (fold EmbedderTaskRunner_delete rs e) = {}"
    "handed (fold EmbedderTaskRunner_delete rs e) = handed e"
proof -
  have "batons_inv (fold EmbedderTaskRunner_delete rs e) \<and> active_runners (fold EmbedderTaskRunner_delete rs e) = {} \<and>
    handed (fold EmbedderTaskRunner_delete rs e) = handed e"
    using assms
  proof (induction rs arbitrary: e)
    case (Cons r rs)
    have "batons_inv (EmbedderTaskRunner_delete r e)" "active_runners (EmbedderTaskRunner_delete r e) = {}"
      "handed (EmbedderTaskRunner_delete r e) = handed e"
      using Cons.prems by (auto simp: EmbedderTaskRunner_delete_def batons_inv_def split: option.splits if_splits)
    with Cons.IH show ?case by simp
  qed simp
  then show "batons_inv (fold EmbedderTaskRunner_delete rs e)" "active_runners (fold EmbedderTaskRunner_delete rs e) = {}"
    "handed (fold EmbedderTaskRunner_delete rs e) = handed e" by blast+
qed

lemma exec_op_inv:
  assumes "batons_inv (snd s)" "host_inv s" "length (handed (snd s)) < 2 ^ 64 - 1"
  shows "\<exists>s'. exec_op op s = Inr s' \<and> batons_inv (snd s') \<and> host_inv s' \<and> length (handed (snd s')) \<le> length (handed (snd s)) + 1"
proof (cases op)
  case (Post r closure target)
  have "active_runners (PostTaskForTime r closure target (snd s)) = active_runners (snd s)"
    "length (handed (PostTaskForTime r closure target (snd s))) \<le> length (handed (snd s)) + 1"
    by (simp_all add: PostTaskForTime_def Let_def split: option.split)
  with Post inv_PostTaskForTime [OF assms(1,3)] assms(2) show ?thesis
    by (simp add: host_inv_def split: option.splits)
next
  case (Give_back on_ui f)
  show ?thesis
  proof (cases "RunnerIsValid (task_runner f) (snd s)")
    case False
    with Give_back assms show ?thesis by (simp add: FlutterEngineRunTask_def)
  next
    case True
    then obtain h where h: "thread_host (fst s) = Some h" "task_runner f \<in> runners_map h" "active_runners (snd s) = runners_map h"
      using assms(2) by (auto simp: host_inv_def RunnerIsValid_def split: option.splits)
    obtain ok e where r: "run_baton (task_runner f) (task_baton f) (snd s) = (ok, e)" by fastforce
    have "batons_inv e \<and> active_runners e = active_runners (snd s) \<and> handed e = handed (snd s)"
    proof (cases "\<exists>R c. runners (snd s) (task_runner f) = Some R \<and> pending_tasks R (task_baton f) = Some c")
      case True
      then show ?thesis using run_baton_runs [OF assms(1)] r by fastforce
    next
      case False
      then show ?thesis using run_baton_refused(1) [OF assms(1), of f] h r assms(1) by fastforce
    qed
    with Give_back True h r assms(2) show ?thesis
      by (auto simp: FlutterEngineRunTask_def RunTask_def host_PostTask_def host_inv_def Let_def)
  qed
next
  case Collect
  show ?thesis
  proof (cases "thread_host (fst s)")
    case (Some h)
    let ?e = "snd (CollectThreadHost s)"
    have "batons_inv (InvalidateActiveRunners h (snd s))" "active_runners (InvalidateActiveRunners h (snd s)) = {}"
      using assms(1,2) Some by (auto simp: InvalidateActiveRunners_def batons_inv_def host_inv_def)
    then have "batons_inv ?e" "active_runners ?e = {}" "handed ?e = handed (snd s)"
      using Some deletes_keep by (simp_all add: CollectThreadHost_def InvalidateActiveRunners_def)
    with Collect Some show ?thesis
      by (simp add: CollectThreadHost_def host_inv_def)
  qed (use Collect assms in \<open>simp add: CollectThreadHost_def\<close>)
qed

lemma exec_ops_inv:
  assumes "batons_inv (snd s)" "host_inv s" "length (handed (snd s)) + length ops < 2 ^ 64 - 1"
  shows "\<exists>s'. foldR exec_op ops s = Inr s' \<and> batons_inv (snd s') \<and> host_inv s' \<and>
    length (handed (snd s')) \<le> length (handed (snd s)) + length ops"
  using assms
proof (induction ops arbitrary: s)
  case (Cons op ops)
  then have "length (handed (snd s)) < 2 ^ 64 - 1" by simp
  from exec_op_inv [OF Cons.prems(1,2) this] obtain s' where s': "exec_op op s = Inr s'" "batons_inv (snd s')" "host_inv s'"
    "length (handed (snd s')) \<le> length (handed (snd s)) + 1" by blast
  from Cons.IH [OF s'(2,3)] s'(1,4) Cons.prems(3) show ?case by fastforce
qed simp

text \<open>Hosts begin with runners that have handed out nothing.\<close>

definition no_batons :: "embedder \<Rightarrow> bool" where
  "no_batons e \<longleftrightarrow> handed e = [] \<and> post_calls e = [] \<and> executed e = [] \<and>
     (\<forall>r R. runners e r = Some R \<longrightarrow> last_baton R = 0 \<and> pending_tasks R = Map.empty)"

lemma no_batons_ops:
  assumes "no_batons e"
  shows "no_batons (snd (EmbedderTaskRunner_new d e))" "no_batons (EmbedderTaskRunner_delete r e)"
    "no_batons (snd (CreateEmbedderTaskRunner d' e))" "no_batons (release p e)" "no_batons (snd (share_runner p q e))"
    "no_batons (e\<lparr>active_runners := A\<rparr>)"
proof -
  show new: "no_batons (snd (EmbedderTaskRunner_new d e))" for d
    using assms by (auto simp: no_batons_def EmbedderTaskRunner_new_def)
  show del: "no_batons (EmbedderTaskRunner_delete r e)" for r
    using assms by (auto simp: no_batons_def EmbedderTaskRunner_delete_def split: option.split if_splits)
  show "no_batons (snd (CreateEmbedderTaskRunner d' e))"
    using assms new by (auto simp: CreateEmbedderTaskRunner_def EmbedderTaskRunner_new_def Let_def split: option.split)
  show "no_batons (release p e)" using assms del by (auto simp: release_def split: option.split)
  show "no_batons (snd (share_runner p q e))" using assms del by (auto simp: share_runner_def split: option.split)
  show "no_batons (e\<lparr>active_runners := A\<rparr>)" using assms by (simp add: no_batons_def)
qed

lemma no_batons_inv: "no_batons e \<Longrightarrow> batons_inv e"
  by (auto simp: no_batons_def batons_inv_def)

lemma active_runners_created [simp]:
  "active_runners (snd (CreateEmbedderTaskRunner d e)) = active_runners e"
  "active_runners (EmbedderTaskRunner_delete r e) = active_runners e"
  "active_runners (snd (share_runner p q e)) = active_runners e"
  by (auto simp: CreateEmbedderTaskRunner_def EmbedderTaskRunner_new_def EmbedderTaskRunner_delete_def share_runner_def split: option.split)

lemma created_host:
  assumes "CreateEmbedderOrEngineManagedThreadHost custom e = (Some h, e')" "no_batons e" "active_runners e = {}"
  shows "no_batons e'" "active_runners e' = runners_map h"
proof -
  have "no_batons e' \<and> active_runners e' = runners_map h"
  proof (cases custom)
    case None
    with assms show ?thesis
      by (auto simp: CreateEmbedderOrEngineManagedThreadHost_def CreateEmbedderManagedThreadHost_def
          CreateEngineManagedThreadHost_def EmbedderThreadHost_new_def no_batons_ops(6))
  next
    case (Some c)
    define e1 where "e1 = snd (CreateEmbedderTaskRunner (custom_ui c) e)"
    define e2 where "e2 = snd (CreateEmbedderTaskRunner (custom_platform c) e1)"
    define e3 where "e3 = snd (CreateEmbedderTaskRunner (custom_render c) e2)"
    let ?u = "snd (fst (CreateEmbedderTaskRunner (custom_ui c) e))"
    let ?p = "snd (fst (CreateEmbedderTaskRunner (custom_platform c) e1))"
    let ?r = "snd (fst (CreateEmbedderTaskRunner (custom_render c) e2))"
    define e4 where "e4 = snd (share_runner ?p ?r e3)"
    define e5 where "e5 = snd (share_runner ?p ?u e4)"
    have "no_batons e5" "active_runners e5 = {}"
      using assms(2,3) unfolding e5_def e4_def e3_def e2_def e1_def by (simp_all add: no_batons_ops)
    moreover have "e' = e5\<lparr>active_runners := active_runners e5 \<union> runners_map h\<rparr>"
      using assms(1) Some unfolding e5_def e4_def e3_def e2_def e1_def
      by (auto simp: CreateEmbedderOrEngineManagedThreadHost_def CreateEmbedderManagedThreadHost_def Let_def
          EmbedderThreadHost_new_def case_prod_beta split: if_splits)
    ultimately show ?thesis by (simp add: no_batons_ops(6))
  qed
  then show "no_batons e'" "active_runners e' = runners_map h" by blast+
qed

lemma give_back_result:
  assumes "batons_inv e" "host_inv (engine, e)"
  shows "\<exists>result engine' e'. FlutterEngineRunTask on_ui f (engine, e) = Inr (result, engine', e') \<and>
    (if task_runner f \<notin> active_runners e then result = kSuccess \<and> e' = e
     else if f \<in> fst ` set (handed e) - fst ` set (executed e)
     then result = kSuccess \<and> (\<exists>c. (f, c) \<in> set (handed e) \<and> executed e' = executed e @ [(f, c)])
     else result = kInvalidArguments \<and> e' = e)"
proof (cases "task_runner f \<in> active_runners e")
  case False
  then show ?thesis by (simp add: FlutterEngineRunTask_def RunnerIsValid_def)
next
  case True
  then obtain h where h: "thread_host engine = Some h" "task_runner f \<in> runners_map h"
    using assms(2) by (auto simp: host_inv_def split: option.splits)
  have r: "FlutterEngineRunTask on_ui f (engine, e) = Inr (if ok then kSuccess else kInvalidArguments, engine', e')"
    if "run_baton (task_runner f) (task_baton f) e = (ok, e')"
      "engine' = (if ok \<and> shell engine \<and> on_ui \<and> (\<exists>u. ui_runner h = Embedder_runner u)
         then engine\<lparr>microtask_flushes := microtask_flushes engine + 1\<rparr> else engine)" for ok e' engine'
    using that True h by (simp add: FlutterEngineRunTask_def RunnerIsValid_def RunTask_def host_PostTask_def Let_def)
  show ?thesis
  proof (cases "\<exists>R c. runners e (task_runner f) = Some R \<and> pending_tasks R (task_baton f) = Some c")
    case pending: True
    then obtain R c where "runners e (task_runner f) = Some R" "pending_tasks R (task_baton f) = Some c" by blast
    note b = run_baton_runs [OF assms(1) this]
    then have "f \<in> fst ` set (handed e) - fst ` set (executed e)" by force
    with b(1,2) r [OF b(1) refl] True show ?thesis by auto
  next
    case False
    then have none: "runners e (task_runner f) = None \<or> (\<exists>R. runners e (task_runner f) = Some R \<and> pending_tasks R (task_baton f) = None)"
      by fastforce
    note b = run_baton_refused [OF assms(1) True none]
    show ?thesis using b(2) r [OF b(1) refl] True by auto
  qed
qed

text \<open>
  C15: a task that the engine posts to a runner of the embedder runs at most once, whatever the embedder does
  with the batons, as long as fewer than \<open>2 ^ 64 - 1\<close> operations are done. The embedder gets each task once, under a
  baton of its own; only tasks that were handed out run; and no operation uses the thread host after it is gone. A
  baton given back runs its task, if it was handed out and did not run yet; one that is unknown or used is an
  error; and one that comes after the thread host was collected is ignored.
\<close>

theorem embedder_tasks_run_once:
  assumes "CreateEmbedderOrEngineManagedThreadHost custom embedder_new = (Some h, e)" "length ops < 2 ^ 64 - 1"
  shows "\<exists>engine e'. foldR exec_op ops (\<lparr>thread_host = Some h, shell = sh, microtask_flushes = 0\<rparr>, e) = Inr (engine, e') \<and>
    distinct (map fst (post_calls e')) \<and> map fst (post_calls e') = map fst (handed e') \<and>
    distinct (map fst (executed e')) \<and> set (executed e') \<subseteq> set (handed e') \<and>
    (case thread_host engine of None \<Rightarrow> active_runners e' = {} | Some h \<Rightarrow> active_runners e' = runners_map h) \<and>
    (\<forall>f on_ui. \<exists>result engine'' e''. FlutterEngineRunTask on_ui f (engine, e') = Inr (result, engine'', e'') \<and>
      (if task_runner f \<notin> active_runners e' then result = kSuccess \<and> e'' = e'
       else if f \<in> fst ` set (handed e') - fst ` set (executed e')
       then result = kSuccess \<and> (\<exists>c. (f, c) \<in> set (handed e') \<and> executed e'' = executed e' @ [(f, c)])
       else result = kInvalidArguments \<and> e'' = e'))"
proof -
  have "no_batons embedder_new" "active_runners embedder_new = {}" by (simp_all add: no_batons_def embedder_new_def)
  note c = created_host [OF assms(1) this]
  let ?s = "(\<lparr>thread_host = Some h, shell = sh, microtask_flushes = 0\<rparr>, e)"
  have "batons_inv (snd ?s)" "host_inv ?s" "length (handed (snd ?s)) + length ops < 2 ^ 64 - 1"
    using c assms(2) no_batons_inv by (simp_all add: host_inv_def no_batons_def)
  from exec_ops_inv [OF this] obtain engine e' where s': "foldR exec_op ops ?s = Inr (engine, e')"
    "batons_inv e'" "host_inv (engine, e')" by auto
  moreover have "case thread_host engine of None \<Rightarrow> active_runners e' = {} | Some h \<Rightarrow> active_runners e' = runners_map h"
    using s'(3) by (simp add: host_inv_def split: option.splits)
  ultimately show ?thesis
    using give_back_result [OF s'(2,3)] by (intro exI [of _ engine] exI [of _ e']) (simp add: batons_inv_def)
qed

definition example_description :: FlutterTaskRunnerDescription where
  "example_description =
     \<lparr>runs_task_on_current_thread_callback = Some 1, post_task_callback = Some 2, runner_identifier = 7,
      destruction_callback = Some 3, user_data = 4\<rparr>"

definition example_runners :: FlutterCustomTaskRunners where
  "example_runners = \<lparr>custom_platform = Some example_description, custom_render = None, custom_ui = None\<rparr>"

theorem embedder_tasks_run_once_witness:
  "\<exists>h e engine e'. CreateEmbedderOrEngineManagedThreadHost (Some example_runners) embedder_new = (Some h, e) \<and>
     foldR exec_op [Post 0 (Some 5) 100, Give_back False \<lparr>task_runner = 0, task_baton = 1\<rparr>]
       (\<lparr>thread_host = Some h, shell = True, microtask_flushes = 0\<rparr>, e) = Inr (engine, e') \<and>
     distinct (map fst (executed e'))"
proof -
  obtain h e where "CreateEmbedderOrEngineManagedThreadHost (Some example_runners) embedder_new = (Some h, e)"
    by (simp add: CreateEmbedderOrEngineManagedThreadHost_def CreateEmbedderManagedThreadHost_def
        CreateEmbedderTaskRunner_def example_runners_def example_description_def EmbedderTaskRunner_new_def
        share_runner_def EmbedderThreadHost_new_def)
  with embedder_tasks_run_once [OF this, of "[Post 0 (Some 5) 100, Give_back False \<lparr>task_runner = 0, task_baton = 1\<rparr>]" True]
  show ?thesis by auto
qed

section \<open>Descriptions of the embedder\<close>

text \<open>
  A description of the UI runner without its callbacks is not an error, although the comment on the other two
  descriptions forbids to fall back to defaults for one: the engine runs the UI on a thread of its own.
\<close>

theorem invalid_ui_runner_is_ignored:
  assumes "post_task_callback d = None"
  shows "\<exists>h e. CreateEmbedderOrEngineManagedThreadHost
      (Some \<lparr>custom_platform = Some example_description, custom_render = None, custom_ui = Some d\<rparr>) embedder_new = (Some h, e) \<and>
    ui_runner h = Engine_thread \<and> has_ui_thread h"
  using assms
  by (auto simp: CreateEmbedderOrEngineManagedThreadHost_def CreateEmbedderManagedThreadHost_def Let_def
      CreateEmbedderTaskRunner_def example_description_def EmbedderTaskRunner_new_def
      share_runner_def EmbedderThreadHost_new_def)

text \<open>
  The API allows one description for the platform and the render runner. A runner is made for each and the second
  is dropped at once, which calls the destruction callback on the user data that the first still uses.
\<close>

theorem shared_description_is_destroyed_early:
  "\<exists>h e. CreateEmbedderOrEngineManagedThreadHost
      (Some \<lparr>custom_platform = Some example_description, custom_render = Some example_description, custom_ui = None\<rparr>) embedder_new =
        (Some h, e) \<and>
    destructions e = [(3, 4)] \<and> runners_map h = {0} \<and>
    (\<exists>R. runners e 0 = Some R \<and> user_data (description R) = 4)"
  by (simp add: CreateEmbedderOrEngineManagedThreadHost_def CreateEmbedderManagedThreadHost_def Let_def embedder_new_def
      CreateEmbedderTaskRunner_def example_description_def EmbedderTaskRunner_new_def identifier_of_def
      EmbedderTaskRunner_delete_def share_runner_def EmbedderThreadHost_new_def)

end
