(* ===== verification/Windows_Runner.thy ===== *)
theory Windows_Runner
  imports Embedder_Tasks
begin

text \<open>
  The task runner of the Windows shell (\<open>shell/platform/windows/task_runner\<close>, \<open>task_runner_window\<close>): runners queue
  tasks by their fire time; a hidden window processes the tasks of all runners when it gets a message, and a timer
  thread posts that message when the next task is due. Three kinds of threads are involved: those that post tasks,
  the main thread and the timer thread. Each section under a mutex, each task and each use of an atomic variable is a
  step; a message is posted together with the flag, which only the message clears. Posting a message can fail. The timer
  thread sleeps in the wait set of its condition variable until its deadline, a notification, or spuriously. Counters are
  \<open>uint64_t\<close> and wrap around. Times are nanoseconds of the steady clock as integers (the code adds them as signed numbers, of
  which an overflow would be undefined); \<open>None\<close> is the greatest time point. Closures of the application are numbers.
  Messages of the window are handled one at a time: a task that runs a message loop of its own is not modelled, and
  neither is the end of the window, which stops the timer thread.
\<close>

section \<open>Task runners\<close>

datatype TaskVariant = Flutter_task FlutterTask | Task_closure nat

record Task =
  task_order :: "64 word"
  fire_time :: int
  variant :: TaskVariant

text \<open>The order of the priority queue, which is a list with its top first.\<close>

definition Comparer :: "Task \<Rightarrow> Task \<Rightarrow> bool" where
  "Comparer a b \<longleftrightarrow> (if fire_time a = fire_time b then task_order a > task_order b else fire_time a > fire_time b)"

fun queue_push :: "Task \<Rightarrow> Task list \<Rightarrow> Task list" where
  "queue_push t [] = [t]"
| "queue_push t (u # us) = (if Comparer u t then t # u # us else u # queue_push t us)"

text \<open>The loop that takes the expired tasks.\<close>

fun take_expired_tasks :: "int \<Rightarrow> Task list \<Rightarrow> Task list \<times> Task list" where
  "take_expired_tasks now [] = ([], [])"
| "take_expired_tasks now (t # ts) =
     (if fire_time t > now then ([], t # ts)
      else let (expired, rest) = take_expired_tasks now ts in (t # expired, rest))"

text \<open>The difference of the engine times is computed in \<open>uint64_t\<close> and read as a signed duration.\<close>

definition TimePointFromFlutterTime :: "int \<Rightarrow> 64 word \<Rightarrow> 64 word \<Rightarrow> int" where
  "TimePointFromFlutterTime now current_time flutter_target_time_nanos = now + sint (flutter_target_time_nanos - current_time)"

section \<open>The window and its timer thread\<close>

text \<open>
  The timer thread is about to test its predicate with the mutex, sleeps with a deadline, is about to make its callback,
  or about to park, with the counter it read.
\<close>

datatype timer_pc = T_test | T_sleep "int option" | T_call "64 word" | T_park "64 word"

text \<open>
  The main thread is outside \<open>ProcessTasks\<close>, between two delegates with those to come and the duration so far, or
  firing the expired tasks of one that were due at a time.
\<close>

datatype main_pc =
    Idle
  | Visiting "nat list" "int option"
  | Firing nat "Task list" "nat list" "int option" int

text \<open>
  \<open>drawn\<close> has the numbers drawn for tasks that are not in a queue yet, \<open>waking\<close> counts the threads that have queued a
  task and are about to call \<open>WakeUp\<close>. \<open>posted\<close> (in the order of the queueing), \<open>fired\<close> and \<open>dropped\<close> record the
  history of tasks; \<open>draws\<close> and \<open>schedules\<close> count what the counters of the code count, without wrapping around, and
  \<open>post_failed\<close> tells whether a message could not be posted.
\<close>

record window =
  delegates :: "nat list"
  task_queue :: "nat \<Rightarrow> Task list"
  global_order :: "64 word"
  draws :: nat
  drawn :: "64 word set"
  waking :: nat
  wake_up_posted :: bool
  messages :: nat
  post_failed :: bool
  next_fire_time :: "int option"
  schedule_counter :: "64 word"
  schedules :: nat
  timer :: timer_pc
  main :: main_pc
  posted :: "(nat \<times> Task) list"
  fired :: "((nat \<times> Task) \<times> int) list"
  dropped :: "(nat \<times> Task) list"

definition window_new :: window where
  "window_new =
     \<lparr>delegates = [], task_queue = (\<lambda>_. []), global_order = 0, draws = 0, drawn = {}, waking = 0, wake_up_posted = False,
      messages = 0, post_failed = False, next_fire_time = None, schedule_counter = 0, schedules = 0, timer = T_test, main = Idle, posted = [], fired = [], dropped = []\<rparr>"

text \<open>\<open>ok\<close> is what \<open>PostMessage\<close> returns.\<close>

definition WakeUp :: "bool \<Rightarrow> window \<Rightarrow> window" where
  "WakeUp ok w =
     (if wake_up_posted w then w
      else w\<lparr>wake_up_posted := True, messages := messages w + (if ok then 1 else 0), post_failed := post_failed w \<or> \<not> ok\<rparr>)"

text \<open>\<open>EnqueueTask\<close> draws the number of the task, puts it into the queue, and wakes the window.\<close>

definition draw_order :: "window \<Rightarrow> window" where
  "draw_order w = w\<lparr>global_order := global_order w + 1, draws := draws w + 1, drawn := insert (global_order w + 1) (drawn w)\<rparr>"

definition EnqueueTask :: "nat \<Rightarrow> 64 word \<Rightarrow> int \<Rightarrow> TaskVariant \<Rightarrow> window \<Rightarrow> window" where
  "EnqueueTask d order fire v w =
     (let task = \<lparr>task_order = order, fire_time = fire, variant = v\<rparr>
      in w\<lparr>drawn := drawn w - {order}, posted := posted w @ [(d, task)],
           task_queue := (task_queue w)(d := queue_push task (task_queue w d)), waking := waking w + 1\<rparr>)"

definition runner_WakeUp :: "bool \<Rightarrow> window \<Rightarrow> window" where
  "runner_WakeUp ok w = (WakeUp ok w)\<lparr>waking := waking w - 1\<rparr>"

definition PostFlutterTask :: "nat \<Rightarrow> 64 word \<Rightarrow> int \<Rightarrow> 64 word \<Rightarrow> FlutterTask \<Rightarrow> 64 word \<Rightarrow> window \<Rightarrow> window" where
  "PostFlutterTask d order now current_time flutter_task flutter_target_time_nanos =
     EnqueueTask d order (TimePointFromFlutterTime now current_time flutter_target_time_nanos) (Flutter_task flutter_task)"

definition win_PostTask :: "nat \<Rightarrow> 64 word \<Rightarrow> int \<Rightarrow> nat \<Rightarrow> window \<Rightarrow> window" where
  "win_PostTask d order now closure = EnqueueTask d order now (Task_closure closure)"

definition before :: "int option \<Rightarrow> int option \<Rightarrow> bool" where
  "before a b \<longleftrightarrow> (case a of None \<Rightarrow> False | Some x \<Rightarrow> (case b of None \<Rightarrow> True | Some y \<Rightarrow> x < y))"

text \<open>A notification wakes the timer thread, which tests its predicate again.\<close>

definition notify_timer :: "window \<Rightarrow> window" where
  "notify_timer w = w\<lparr>timer := (case timer w of T_sleep deadline \<Rightarrow> T_test | t \<Rightarrow> t)\<rparr>"

definition ScheduleAt :: "int option \<Rightarrow> window \<Rightarrow> window" where
  "ScheduleAt time_point w =
     (let w = (if before time_point (next_fire_time w) then w\<lparr>next_fire_time := time_point\<rparr> else w)
      in notify_timer (w\<lparr>schedule_counter := schedule_counter w + 1, schedules := schedules w + 1\<rparr>))"

text \<open>The greatest duration leads to the greatest time point.\<close>

definition SetTimer :: "int \<Rightarrow> int option \<Rightarrow> window \<Rightarrow> window" where
  "SetTimer now when = ScheduleAt (map_option (\<lambda>d. now + d) when)"

definition AddDelegate :: "int \<Rightarrow> nat \<Rightarrow> window \<Rightarrow> window" where
  "AddDelegate now d w = SetTimer now (Some 0) (w\<lparr>delegates := delegates w @ [d]\<rparr>)"

text \<open>A runner that is destroyed takes its queue with it.\<close>

definition RemoveDelegate :: "nat \<Rightarrow> window \<Rightarrow> window" where
  "RemoveDelegate d w =
     w\<lparr>delegates := remove1 d (delegates w), task_queue := (task_queue w)(d := []),
       dropped := dropped w @ map (Pair d) (task_queue w d)\<rparr>"

text \<open>The parts of \<open>HandleMessage\<close> and of both \<open>ProcessTasks\<close> on the main thread.\<close>

definition HandleMessage_WM_NULL :: "window \<Rightarrow> window" where
  "HandleMessage_WM_NULL w =
     w\<lparr>messages := messages w - 1, wake_up_posted := False, main := Visiting (delegates w) None\<rparr>"

definition shorter :: "int option \<Rightarrow> int option \<Rightarrow> int option" where
  "shorter a b = (if before b a then b else a)"

definition main_step :: "int \<Rightarrow> window \<Rightarrow> window" where
  "main_step now w =
     (case main w of
        Idle \<Rightarrow> HandleMessage_WM_NULL w
      | Visiting [] next \<Rightarrow> (SetTimer now next w)\<lparr>main := Idle\<rparr>
      | Visiting (d # ds) next \<Rightarrow>
          if d \<notin> set (delegates w) then w\<lparr>main := Visiting ds next\<rparr>
          else let (expired, rest) = take_expired_tasks now (task_queue w d)
               in w\<lparr>task_queue := (task_queue w)(d := rest), main := Firing d expired ds next now\<rparr>
      | Firing d (t # ts) ds next time \<Rightarrow>
          w\<lparr>fired := fired w @ [((d, t), time)], main := Firing d ts ds next time\<rparr>
      | Firing d [] ds next time \<Rightarrow>
          let sleep = (case task_queue w d of [] \<Rightarrow> None | t # _ \<Rightarrow> Some (fire_time t - time))
          in w\<lparr>main := Visiting ds (shorter next sleep)\<rparr>)"

text \<open>
  The round of \<open>TimerThreadMain\<close>: \<open>wait_until\<close> tests the predicate and sleeps until the deadline if it does not hold, and
  returns when the deadline has passed; then come the callback and the parking.
\<close>

definition timer_step :: "bool \<Rightarrow> int \<Rightarrow> window \<Rightarrow> window" where
  "timer_step ok now w =
     (case timer w of
        T_test \<Rightarrow>
          (if before (Some now) (next_fire_time w) then w\<lparr>timer := T_sleep (next_fire_time w)\<rparr>
           else w\<lparr>timer := T_call (schedule_counter w)\<rparr>)
      | T_sleep deadline \<Rightarrow> w\<lparr>timer := T_call (schedule_counter w)\<rparr>
      | T_call c \<Rightarrow> (WakeUp ok w)\<lparr>timer := T_park c\<rparr>
      | T_park c \<Rightarrow>
          (if c = schedule_counter w \<and> \<not> before (Some now) (next_fire_time w)
           then w\<lparr>next_fire_time := None, timer := T_test\<rparr> else w\<lparr>timer := T_test\<rparr>))"

text \<open>The timer thread can take a step unless it sleeps before its deadline.\<close>

definition timer_ready :: "int \<Rightarrow> window \<Rightarrow> bool" where
  "timer_ready now w \<longleftrightarrow> (case timer w of T_sleep deadline \<Rightarrow> \<not> before (Some now) deadline | _ \<Rightarrow> True)"

text \<open>
  What can happen at a time without new posts, and what else can happen. A spurious wake-up of the timer thread is
  among the latter, so that nothing relies on it.
\<close>

inductive internal_step :: "int \<Rightarrow> window \<Rightarrow> window \<Rightarrow> bool" for now where
  Main: "main w \<noteq> Idle \<or> 0 < messages w \<Longrightarrow> internal_step now w (main_step now w)"
| Timer: "timer_ready now w \<Longrightarrow> internal_step now w (timer_step ok now w)"
| Wake: "0 < waking w \<Longrightarrow> internal_step now w (runner_WakeUp ok w)"

inductive window_reach :: "window \<Rightarrow> bool" where
  Start: "window_reach window_new"
| Internal: "window_reach w \<Longrightarrow> internal_step now w w' \<Longrightarrow> window_reach w'"
| Spurious: "window_reach w \<Longrightarrow> timer w = T_sleep deadline \<Longrightarrow> window_reach (w\<lparr>timer := T_test\<rparr>)"
| Draw: "window_reach w \<Longrightarrow> window_reach (draw_order w)"
| Enqueue: "window_reach w \<Longrightarrow> d \<in> set (delegates w) \<Longrightarrow> n \<in> drawn w \<Longrightarrow> window_reach (EnqueueTask d n fire v w)"
| Add: "window_reach w \<Longrightarrow> d \<notin> set (delegates w) \<Longrightarrow> window_reach (AddDelegate now d w)"
| Remove: "window_reach w \<Longrightarrow> \<forall>ts ds next time. main w \<noteq> Firing d ts ds next time \<Longrightarrow> window_reach (RemoveDelegate d w)"

section \<open>Queues\<close>

text \<open>The order in which a queue hands out tasks, and what \<open>queue_push\<close> and the loop do to a queue in it.\<close>

definition sooner :: "Task \<Rightarrow> Task \<Rightarrow> bool" where
  "sooner a b \<longleftrightarrow> Comparer b a"

lemma sooner_simps: "sooner a b \<longleftrightarrow> fire_time a < fire_time b \<or> (fire_time a = fire_time b \<and> task_order a < task_order b)"
  by (auto simp: sooner_def Comparer_def)

lemma set_queue_push [simp]: "set (queue_push t ts) = insert t (set ts)"
  by (induction ts) auto

lemma mset_queue_push [simp]: "mset (queue_push t ts) = add_mset t (mset ts)"
  by (induction ts) auto

lemma queue_push_not_Nil [simp]: "queue_push t ts \<noteq> []"
  by (cases ts) auto

lemma sorted_queue_push:
  assumes "sorted_wrt sooner ts" and "\<forall>u\<in>set ts. task_order u \<noteq> task_order t"
  shows "sorted_wrt sooner (queue_push t ts)"
  using assms by (induction ts) (fastforce simp: sooner_simps Comparer_def)+

lemma take_expired_tasks_append: "take_expired_tasks now ts = (expired, rest) \<Longrightarrow> expired @ rest = ts"
  by (induction ts arbitrary: expired) (auto split: if_splits prod.splits)

lemma take_expired_tasks_due:
  "take_expired_tasks now ts = (expired, rest) \<Longrightarrow> t \<in> set expired \<Longrightarrow> fire_time t \<le> now"
  by (induction ts arbitrary: expired) (auto split: if_splits prod.splits)

lemma take_expired_tasks_exact:
  assumes "sorted_wrt sooner ts"
  shows "take_expired_tasks now ts = (filter (\<lambda>t. fire_time t \<le> now) ts, filter (\<lambda>t. fire_time t > now) ts)"
  using assms
proof (induction ts)
  case (Cons t ts)
  then have "\<forall>u\<in>set ts. fire_time t \<le> fire_time u"
    by (auto simp: sooner_simps)
  then have "fire_time t > now \<Longrightarrow> filter (\<lambda>t. fire_time t \<le> now) ts = [] \<and> filter (\<lambda>t. fire_time t > now) ts = ts"
    by (auto simp: filter_empty_conv intro!: filter_True)
  with Cons show ?case
    by (cases "fire_time t > now") auto
qed simp

text \<open>
  A task may run before another of its runner if it was queued first or is in front of it by the order of the queue.
  Unlike the order of the queue this holds of all the tasks a runner ever ran.
\<close>

definition queued_before :: "'a list \<Rightarrow> 'a \<Rightarrow> 'a \<Rightarrow> bool" where
  "queued_before ps a b \<longleftrightarrow> (\<exists>us vs. ps = us @ vs \<and> a \<in> set us \<and> b \<in> set vs)"

definition may_precede :: "Task list \<Rightarrow> Task \<Rightarrow> Task \<Rightarrow> bool" where
  "may_precede ps a b \<longleftrightarrow> queued_before ps a b \<or> sooner a b"

lemma queued_before_append: "queued_before ps a b \<Longrightarrow> queued_before (ps @ qs) a b"
  unfolding queued_before_def by (metis append.assoc set_append UnI1)

lemma queued_before_last: "a \<in> set ps \<Longrightarrow> queued_before (ps @ [b]) a b"
  unfolding queued_before_def by (intro exI [of _ ps] exI [of _ "[b]"]) simp

lemma may_precede_append: "may_precede ps a b \<Longrightarrow> may_precede (ps @ qs) a b"
  by (auto simp: may_precede_def queued_before_append)

lemma may_precede_last: "a \<in> set ps \<Longrightarrow> may_precede (ps @ [b]) a b"
  by (simp add: may_precede_def queued_before_last)

lemma sorted_queue_push_may_precede:
  assumes "sorted_wrt (may_precede ps) (past @ ts)" and "sorted_wrt sooner ts"
    and "\<forall>u\<in>set ts. task_order u \<noteq> task_order t" and "set (past @ ts) \<subseteq> set ps"
  shows "sorted_wrt (may_precede (ps @ [t])) (past @ queue_push t ts)"
proof -
  have "sorted_wrt (may_precede (ps @ [t])) (queue_push t ts)"
    using assms(2,3) by (intro sorted_wrt_mono_rel [OF _ sorted_queue_push]) (auto simp: may_precede_def)
  moreover have "sorted_wrt (may_precede (ps @ [t])) past"
  proof (rule sorted_wrt_mono_rel)
    show "sorted_wrt (may_precede ps) past"
      using assms(1) by (simp add: sorted_wrt_append)
  qed (rule may_precede_append)
  ultimately show ?thesis
    using assms(1,4) by (auto simp: sorted_wrt_append intro: may_precede_append may_precede_last)
qed

text \<open>The times of the engine are translated exactly when they are less than \<open>2\<^sup>6\<^sup>3\<close> nanoseconds apart, also for targets in the past.\<close>

lemma sint_word_of_int_64: "- (2 ^ 63) \<le> k \<Longrightarrow> k < 2 ^ 63 \<Longrightarrow> sint (word_of_int k :: 64 word) = k"
  by transfer (simp add: signed_take_bit_int_eq_self)

lemma TimePointFromFlutterTime_exact:
  assumes "- (2 ^ 63) \<le> uint target - uint current" and "uint target - uint current < 2 ^ 63"
  shows "TimePointFromFlutterTime now current target - now = uint target - uint current"
  using sint_word_of_int_64 [OF assms] by (simp add: TimePointFromFlutterTime_def)

section \<open>The invariant of every execution\<close>

definition of_runner :: "nat \<Rightarrow> (nat \<times> Task) list \<Rightarrow> Task list" where
  "of_runner d xs = map snd (filter (\<lambda>p. fst p = d) xs)"

fun in_hand :: "nat \<Rightarrow> main_pc \<Rightarrow> Task list" where
  "in_hand d (Firing e ts ds next time) = (if e = d then ts else [])"
| "in_hand d m = []"

text \<open>The tasks of a runner in the order they ran or will run.\<close>

definition agenda :: "nat \<Rightarrow> window \<Rightarrow> Task list" where
  "agenda d w = of_runner d (map fst (fired w)) @ in_hand d (main w) @ task_queue w d"

text \<open>Runners whose queue will be looked at again without a message or the timer.\<close>

definition pending_visit :: "nat \<Rightarrow> main_pc \<Rightarrow> bool" where
  "pending_visit d m =
     (case m of Idle \<Rightarrow> False
      | Visiting ds next \<Rightarrow> d \<in> set ds \<or> next \<noteq> None
      | Firing e ts ds next time \<Rightarrow> d = e \<or> d \<in> set ds \<or> next \<noteq> None)"

text \<open>
  What the timer thread relies on: a sleeper knows the current deadline, and one that is about to park although nothing
  was scheduled since it called back has left a message, unless the main thread still is in a round.
\<close>

definition timer_inv :: "window \<Rightarrow> bool" where
  "timer_inv w \<longleftrightarrow> schedule_counter w = word_of_nat (schedules w) \<and>
     (case timer w of
        T_test \<Rightarrow> True
      | T_sleep deadline \<Rightarrow> deadline = next_fire_time w
      | T_call c \<Rightarrow> \<exists>k \<le> schedules w. c = word_of_nat k
      | T_park c \<Rightarrow> \<exists>k \<le> schedules w. c = word_of_nat k \<and> (k = schedules w \<and> main w = Idle \<longrightarrow> wake_up_posted w))"

definition wake_inv :: "window \<Rightarrow> bool" where
  "wake_inv w \<longleftrightarrow>
     messages w = (if wake_up_posted w then 1 else 0) \<and>
     (\<forall>d\<in>set (delegates w). task_queue w d \<noteq> [] \<longrightarrow>
        wake_up_posted w \<or> 0 < waking w \<or> pending_visit d (main w) \<or> main w = Idle \<and> next_fire_time w \<noteq> None) \<and>
     timer_inv w"

definition task_inv :: "window \<Rightarrow> bool" where
  "task_inv w \<longleftrightarrow>
     (\<forall>d. d \<notin> set (delegates w) \<longrightarrow> task_queue w d = []) \<and> distinct (delegates w) \<and>
     (\<forall>d. sorted_wrt sooner (task_queue w d) \<and> sorted_wrt (may_precede (of_runner d (posted w))) (agenda d w) \<and>
        (\<forall>t\<in>set (agenda d w). task_order t \<le> global_order w \<and> task_order t \<notin> drawn w) \<and>
        mset (of_runner d (posted w)) = mset (agenda d w) + mset (of_runner d (dropped w))) \<and>
     (\<forall>n\<in>drawn w. n \<le> global_order w) \<and> unat (global_order w) = draws w \<and>
     (\<forall>(p, time)\<in>set (fired w). fire_time (snd p) \<le> time) \<and>
     (\<forall>d ts ds next time. main w = Firing d ts ds next time \<longrightarrow> (\<forall>t\<in>set ts. fire_time t \<le> time))"

lemma of_runner_simps [simp]:
  "of_runner d [] = []"
  "of_runner d (p # ps) = (if fst p = d then snd p # of_runner d ps else of_runner d ps)"
  "of_runner d (ps @ qs) = of_runner d ps @ of_runner d qs"
  "of_runner d (map (Pair e) ts) = (if e = d then ts else [])"
  by (auto simp: of_runner_def filter_map o_def)

lemmas window_step_defs =
  draw_order_def EnqueueTask_def runner_WakeUp_def WakeUp_def AddDelegate_def RemoveDelegate_def SetTimer_def Let_def
  HandleMessage_WM_NULL_def main_step_def timer_step_def

lemma ScheduleAt_fields [simp]:
  "delegates (ScheduleAt t w) = delegates w" "task_queue (ScheduleAt t w) = task_queue w" "waking (ScheduleAt t w) = waking w"
  "wake_up_posted (ScheduleAt t w) = wake_up_posted w" "messages (ScheduleAt t w) = messages w"
  "post_failed (ScheduleAt t w) = post_failed w" "main (ScheduleAt t w) = main w" "posted (ScheduleAt t w) = posted w"
  "fired (ScheduleAt t w) = fired w" "dropped (ScheduleAt t w) = dropped w" "global_order (ScheduleAt t w) = global_order w"
  "draws (ScheduleAt t w) = draws w" "drawn (ScheduleAt t w) = drawn w" "schedules (ScheduleAt t w) = schedules w + 1"
  "next_fire_time (ScheduleAt t w) = (if before t (next_fire_time w) then t else next_fire_time w)"
  by (simp_all add: ScheduleAt_def notify_timer_def Let_def)

lemma timer_inv_ScheduleAt: "timer_inv w \<Longrightarrow> timer_inv ((ScheduleAt t w)\<lparr>main := m\<rparr>)"
  by (auto simp: timer_inv_def ScheduleAt_def notify_timer_def Let_def intro: le_SucI split: timer_pc.splits)

lemma timer_inv_frame:
  assumes "timer_inv w" "timer w' = timer w" "schedule_counter w' = schedule_counter w" "schedules w' = schedules w"
    and "next_fire_time w' = next_fire_time w" "main w' = Idle \<and> \<not> wake_up_posted w' \<Longrightarrow> main w = Idle \<and> \<not> wake_up_posted w"
  shows "timer_inv w'"
  using assms unfolding timer_inv_def by (auto split: timer_pc.splits)

lemma shorter_None [simp]: "shorter a b = None \<longleftrightarrow> a = None \<and> b = None"
  by (auto simp: shorter_def before_def split: option.splits)

lemma not_before_None [simp]: "\<not> before None a" "before (Some x) None"
  by (auto simp: before_def)

lemma not_before_Some: "\<not> before (Some x) a \<Longrightarrow> \<exists>y. a = Some y"
  by (auto simp: before_def split: option.splits)

lemma wake_inv_new: "wake_inv window_new"
  by (simp add: wake_inv_def timer_inv_def window_new_def)

lemma wake_inv_EnqueueTask: "wake_inv w \<Longrightarrow> wake_inv (EnqueueTask d n fire v w)"
  by (auto simp: wake_inv_def window_step_defs elim: timer_inv_frame)

lemma wake_inv_draw_order: "wake_inv w \<Longrightarrow> wake_inv (draw_order w)"
  by (auto simp: wake_inv_def window_step_defs elim: timer_inv_frame)

lemma wake_inv_runner_WakeUp: "wake_inv w \<Longrightarrow> wake_inv (runner_WakeUp True w)"
  by (auto simp: wake_inv_def window_step_defs elim: timer_inv_frame split: if_splits)

lemma wake_inv_main_step:
  assumes "wake_inv w" and "main w \<noteq> Idle \<or> 0 < messages w"
  shows "wake_inv (main_step now w)"
proof -
  have timer: "timer_inv w" using assms(1) by (simp add: wake_inv_def)
  show ?thesis
  proof (cases "main w")
    case Idle
    moreover have "timer_inv (main_step now w)"
      by (rule timer_inv_frame [OF timer]) (simp_all add: window_step_defs Idle)
    ultimately show ?thesis
      using assms by (auto simp: wake_inv_def window_step_defs pending_visit_def split: if_splits)
  next
    case (Visiting ds next')
    show ?thesis
    proof (cases ds)
      case Nil
      then show ?thesis
        using assms Visiting timer_inv_ScheduleAt [OF timer]
        by (cases next') (auto simp: wake_inv_def window_step_defs pending_visit_def dest: not_before_Some)
    next
      case (Cons d ds')
      then have "timer_inv (main_step now w)"
        by (intro timer_inv_frame [OF timer]) (auto simp: window_step_defs Visiting split: prod.splits if_splits)
      then show ?thesis
        using assms Visiting Cons by (auto simp: wake_inv_def window_step_defs pending_visit_def split: if_splits prod.splits)
    qed
  next
    case (Firing d ts ds next' time)
    then have "timer_inv (main_step now w)"
      by (intro timer_inv_frame [OF timer]) (auto simp: window_step_defs Firing split: list.splits)
    then show ?thesis
      using assms Firing by (cases ts) (auto simp: wake_inv_def window_step_defs pending_visit_def split: if_splits list.splits)
  qed
qed

lemma schedules_distinct: "k \<le> n \<Longrightarrow> n < 2 ^ 64 \<Longrightarrow> (word_of_nat k :: 64 word) = word_of_nat n \<longleftrightarrow> k = n"
  by (auto simp: word_of_nat_eq_iff take_bit_nat_eq_self)

lemma wake_inv_timer_step:
  assumes "wake_inv w" "schedules w < 2 ^ 64"
  shows "wake_inv (timer_step True now w)"
proof (cases "timer w")
  case (T_park c)
  then obtain k where "k \<le> schedules w" "c = word_of_nat k" "k = schedules w \<and> main w = Idle \<longrightarrow> wake_up_posted w"
    using assms(1) by (auto simp: wake_inv_def timer_inv_def)
  moreover from this have "c = schedule_counter w \<longleftrightarrow> k = schedules w"
    using assms schedules_distinct by (simp add: wake_inv_def timer_inv_def)
  ultimately show ?thesis
    using assms(1) T_park by (auto simp: wake_inv_def timer_inv_def window_step_defs)
qed (use assms(1) in \<open>auto simp: wake_inv_def timer_inv_def window_step_defs\<close>)

lemma wake_inv_AddDelegate:
  assumes "wake_inv w" "task_queue w d = []"
  shows "wake_inv (AddDelegate now d w)"
proof -
  have "timer_inv (w\<lparr>delegates := delegates w @ [d]\<rparr>)"
    using assms(1) by (auto simp: wake_inv_def elim: timer_inv_frame)
  from timer_inv_ScheduleAt [OF this, where m = "main w"] have "timer_inv (AddDelegate now d w)"
    by (rule timer_inv_frame) (simp_all add: window_step_defs)
  with assms show ?thesis
    by (auto simp: wake_inv_def window_step_defs split: if_splits)
qed

lemma wake_inv_RemoveDelegate: "wake_inv w \<Longrightarrow> wake_inv (RemoveDelegate d w)"
  by (auto simp: wake_inv_def window_step_defs dest: notin_set_remove1 elim: timer_inv_frame split: if_splits)

lemma wake_inv_spurious: "wake_inv w \<Longrightarrow> wake_inv (w\<lparr>timer := T_test\<rparr>)"
  by (simp add: wake_inv_def timer_inv_def)

lemma task_inv_new: "task_inv window_new"
  by (simp add: task_inv_def window_new_def agenda_def)

lemma agenda_posted: "task_inv w \<Longrightarrow> set (agenda d w) \<subseteq> set (of_runner d (posted w))"
  unfolding task_inv_def by (metis mset_subset_eq_add_left set_mset_mono set_mset_mset)

lemma task_inv_EnqueueTask:
  assumes "task_inv w" and "d \<in> set (delegates w)" and "n \<in> drawn w"
  shows "task_inv (EnqueueTask d n fire v w)"
proof -
  let ?t = "\<lparr>task_order = n, fire_time = fire, variant = v\<rparr>"
  have new: "\<forall>u\<in>set (task_queue w d). task_order u \<noteq> task_order ?t"
    using assms by (auto simp: task_inv_def agenda_def)
  moreover have "sorted_wrt sooner (queue_push ?t (task_queue w d))"
    using assms new by (intro sorted_queue_push) (auto simp: task_inv_def)
  moreover have "sorted_wrt (may_precede (of_runner d (posted w) @ [?t]))
      ((of_runner d (map fst (fired w)) @ in_hand d (main w)) @ queue_push ?t (task_queue w d))"
    using assms new agenda_posted [OF assms(1), of d]
    by (intro sorted_queue_push_may_precede) (auto simp: task_inv_def agenda_def)
  ultimately show ?thesis
    using assms by (auto simp: task_inv_def agenda_def window_step_defs)
qed

lemma task_inv_draw_order:
  assumes "task_inv w" "draws w + 1 < 2 ^ 64"
  shows "task_inv (draw_order w)"
proof -
  have g: "unat (global_order w) = draws w"
    using assms(1) by (simp add: task_inv_def)
  then have g1: "unat (global_order w + 1) = draws w + 1"
    using assms(2) by (simp add: unat_word_ariths)
  have fresh: "n \<le> global_order w + 1 \<and> n \<noteq> global_order w + 1" if "n \<le> global_order w" for n
    using that g g1 unfolding word_le_nat_alt by auto
  have "\<forall>t\<in>set (agenda d w). task_order t \<le> global_order w + 1 \<and> task_order t \<notin> insert (global_order w + 1) (drawn w)" for d
    using assms(1) fresh unfolding task_inv_def by fastforce
  moreover have "\<forall>n\<in>insert (global_order w + 1) (drawn w). n \<le> global_order w + 1"
    using assms(1) fresh unfolding task_inv_def by fastforce
  moreover have "agenda d (draw_order w) = agenda d w" for d
    by (simp add: agenda_def draw_order_def)
  ultimately show ?thesis
    using assms(1) g1 by (simp add: task_inv_def draw_order_def)
qed

lemma task_inv_runner_WakeUp: "task_inv w \<Longrightarrow> task_inv (runner_WakeUp ok w)"
  by (simp add: task_inv_def agenda_def window_step_defs)

text \<open>The main thread moves the tasks of an agenda and keeps their order.\<close>

lemma agenda_main_step: "agenda d (main_step now w) = agenda d w"
  using take_expired_tasks_append [of now "task_queue w d"]
  by (auto simp: agenda_def window_step_defs split: main_pc.splits list.splits prod.splits)

lemma sorted_main_step:
  assumes "sorted_wrt sooner (task_queue w d)"
  shows "sorted_wrt sooner (task_queue (main_step now w) d)"
proof -
  have "sorted_wrt sooner rest" if "take_expired_tasks now (task_queue w d) = (expired, rest)" for expired rest
    using assms take_expired_tasks_append [OF that] by (metis sorted_wrt_append)
  with assms show ?thesis
    by (auto simp: window_step_defs split: main_pc.splits list.splits prod.splits)
qed

lemma task_inv_main_step:
  assumes "task_inv w"
  shows "task_inv (main_step now w)"
proof -
  have same: "delegates (main_step now w) = delegates w" "global_order (main_step now w) = global_order w"
    "drawn (main_step now w) = drawn w" "draws (main_step now w) = draws w"
    "posted (main_step now w) = posted w" "dropped (main_step now w) = dropped w"
    by (simp_all add: window_step_defs split: main_pc.splits list.splits prod.splits)
  have due: "t \<in> set ts \<Longrightarrow> fire_time t \<le> time" if "main (main_step now w) = Firing d ts ds nxt time"
    for d ts ds nxt time t
    using assms that take_expired_tasks_due [of now "task_queue w d"]
    by (fastforce simp: task_inv_def window_step_defs split: main_pc.splits list.splits prod.splits if_splits)
  have ran: "\<forall>(p, time)\<in>set (fired (main_step now w)). fire_time (snd p) \<le> time"
    using assms by (auto simp: task_inv_def window_step_defs split: main_pc.splits list.splits prod.splits)
  have none: "d \<notin> set (delegates w) \<Longrightarrow> task_queue (main_step now w) d = []" for d
    using assms by (auto simp: task_inv_def window_step_defs split: main_pc.splits list.splits prod.splits)
  show ?thesis
    unfolding task_inv_def agenda_main_step same using assms sorted_main_step [of w _ now] none ran due
    by (simp add: task_inv_def)
qed

lemma task_inv_timer_step: "task_inv w \<Longrightarrow> task_inv (timer_step ok now w)"
  by (cases "timer w") (auto simp: task_inv_def agenda_def window_step_defs)

lemma task_inv_AddDelegate: "task_inv w \<Longrightarrow> d \<notin> set (delegates w) \<Longrightarrow> task_inv (AddDelegate now d w)"
  by (auto simp: task_inv_def agenda_def window_step_defs)

lemma task_inv_RemoveDelegate: "task_inv w \<Longrightarrow> task_inv (RemoveDelegate d w)"
  by (auto simp: task_inv_def agenda_def window_step_defs sorted_wrt_append)

lemma task_inv_spurious: "task_inv w \<Longrightarrow> task_inv (w\<lparr>timer := T_test\<rparr>)"
  by (simp add: task_inv_def agenda_def)

text \<open>What a step does to the history; a message that is not posted is noticed.\<close>

lemma internal_step_history:
  assumes "internal_step now w w'"
  shows "draws w' = draws w \<and> schedules w \<le> schedules w' \<and> (post_failed w \<longrightarrow> post_failed w')"
  using assms
  by cases (simp_all add: window_step_defs split: main_pc.split timer_pc.split list.split prod.split)

lemma posted_or_failed:
  "\<not> post_failed (timer_step ok now w) \<Longrightarrow> timer_step ok now w = timer_step True now w"
  "\<not> post_failed (runner_WakeUp ok w) \<Longrightarrow> runner_WakeUp ok w = runner_WakeUp True w"
  by (auto simp: window_step_defs split: timer_pc.splits if_splits)

lemma window_task_inv:
  assumes "window_reach w" "draws w < 2 ^ 64"
  shows "task_inv w"
  using assms
proof induction
  case (Internal w now w')
  then have "task_inv w" using internal_step_history by simp
  with Internal.hyps(2) show ?case
    by cases (auto intro: task_inv_main_step task_inv_timer_step task_inv_runner_WakeUp)
next
  case (Draw w)
  then show ?case by (intro task_inv_draw_order) (auto simp: draw_order_def)
next
  case (Enqueue w d n fire v)
  then show ?case by (intro task_inv_EnqueueTask) (auto simp: EnqueueTask_def Let_def)
next
  case (Add w d now)
  then show ?case by (intro task_inv_AddDelegate) (auto simp: AddDelegate_def SetTimer_def)
next
  case (Remove w d)
  then show ?case by (intro task_inv_RemoveDelegate) (auto simp: RemoveDelegate_def)
qed (simp_all add: task_inv_new task_inv_spurious)

lemma window_wake_inv:
  assumes "window_reach w" "draws w < 2 ^ 64" "schedules w < 2 ^ 64" "\<not> post_failed w"
  shows "wake_inv w"
  using assms
proof induction
  case (Internal w now w')
  then have "wake_inv w" "schedules w < 2 ^ 64" using internal_step_history [OF Internal.hyps(2)] by auto
  with Internal.hyps(2) Internal.prems(3) show ?case
  proof cases
    case (Timer ok)
    then show ?thesis
      using posted_or_failed(1) [of ok now w] Internal.prems(3) wake_inv_timer_step [OF \<open>wake_inv w\<close> \<open>schedules w < 2 ^ 64\<close>]
      by simp
  next
    case (Wake ok)
    then show ?thesis
      using posted_or_failed(2) [of ok w] Internal.prems(3) wake_inv_runner_WakeUp [OF \<open>wake_inv w\<close>] by simp
  qed (simp add: wake_inv_main_step)
next
  case (Add w d now)
  then have "wake_inv w" "task_queue w d = []"
    using window_task_inv [OF Add.hyps(1)] by (auto simp: task_inv_def AddDelegate_def SetTimer_def)
  then show ?case by (rule wake_inv_AddDelegate)
next
  case Start
  show ?case by (rule wake_inv_new)
next
  case (Spurious w deadline)
  then show ?case by (simp add: wake_inv_spurious)
next
  case (Draw w)
  then show ?case by (intro wake_inv_draw_order) (auto simp: draw_order_def)
next
  case (Enqueue w d n fire v)
  then show ?case by (intro wake_inv_EnqueueTask) (auto simp: EnqueueTask_def Let_def)
next
  case (Remove w d)
  then show ?case by (intro wake_inv_RemoveDelegate) (auto simp: RemoveDelegate_def)
qed

section \<open>The runs of the main thread and the timer thread\<close>

text \<open>Steps of the two threads at a time that keep the runners and their agendas and take tasks out of the queues.\<close>

definition ahead :: "int \<Rightarrow> window \<Rightarrow> window \<Rightarrow> bool" where
  "ahead now w w' \<longleftrightarrow> (internal_step now)\<^sup>*\<^sup>* w w' \<and> delegates w' = delegates w \<and> draws w' = draws w \<and>
     post_failed w' = post_failed w \<and>
     (\<forall>d. agenda d w' = agenda d w \<and> set (task_queue w' d) \<subseteq> set (task_queue w d))"

lemma ahead_trans: "ahead now u v \<Longrightarrow> ahead now v w \<Longrightarrow> ahead now u w"
  by (fastforce simp: ahead_def)

lemma ahead_refl [simp]: "ahead now w w"
  by (simp add: ahead_def)

lemma queue_main_step: "set (task_queue (main_step now w) d) \<subseteq> set (task_queue w d)"
proof -
  have "set rest \<subseteq> set (task_queue w d)" if "take_expired_tasks now (task_queue w d) = (expired, rest)" for expired rest
    using take_expired_tasks_append [OF that] by (metis Un_upper2 set_append)
  then show ?thesis
    by (auto simp: window_step_defs split: main_pc.splits list.splits prod.splits)
qed

lemma ahead_main_step: "main w \<noteq> Idle \<or> 0 < messages w \<Longrightarrow> ahead now w (main_step now w)"
  by (simp add: ahead_def agenda_main_step queue_main_step r_into_rtranclp internal_step.Main)
    (simp add: window_step_defs split: main_pc.splits list.splits prod.splits)

lemma ahead_timer_step: "timer_ready now w \<Longrightarrow> ahead now w (timer_step True now w)"
  unfolding ahead_def
  by (intro conjI r_into_rtranclp internal_step.Timer)
    (auto simp: agenda_def window_step_defs split: timer_pc.splits)

lemma steps_reach: "(internal_step now)\<^sup>*\<^sup>* w w' \<Longrightarrow> window_reach w \<Longrightarrow> window_reach w'"
  by (induction rule: rtranclp_induct) (auto intro: window_reach.Internal)

lemma ahead_WakeUp: "0 < waking w \<Longrightarrow> ahead now w (runner_WakeUp True w)"
  unfolding ahead_def
  by (intro conjI r_into_rtranclp internal_step.Wake) (simp_all add: agenda_def window_step_defs)

lemma ahead_reach: "ahead now w w' \<Longrightarrow> window_reach w \<Longrightarrow> window_reach w'"
  using steps_reach by (auto simp: ahead_def)

lemma finish_firing:
  "main w = Firing d ts ds nxt time \<Longrightarrow>
    \<exists>w' nxt'. ahead now w w' \<and> main w' = Visiting ds nxt' \<and> task_queue w' = task_queue w \<and> schedules w' = schedules w"
proof (induction ts arbitrary: w)
  case Nil
  then show ?case
    using ahead_main_step [of w now] by (auto simp: main_step_def Let_def)
next
  case (Cons t ts)
  then have "main (main_step now w) = Firing d ts ds nxt time" "task_queue (main_step now w) = task_queue w"
    "schedules (main_step now w) = schedules w"
    by (simp_all add: main_step_def)
  with Cons.IH [of "main_step now w"] Cons.prems show ?case
    using ahead_main_step [of w now] ahead_trans by fastforce
qed

lemma visit_runner:
  assumes "main w = Visiting (d # ds) nxt" and "task_inv w"
  shows "\<exists>w' nxt'. ahead now w w' \<and> main w' = Visiting ds nxt' \<and> schedules w' = schedules w \<and>
    (d \<in> set (delegates w) \<longrightarrow> (\<forall>t\<in>set (task_queue w' d). now < fire_time t))"
proof (cases "d \<in> set (delegates w)")
  case True
  let ?w = "main_step now w"
  have "sorted_wrt sooner (task_queue w d)"
    using assms(2) by (simp add: task_inv_def)
  then have "task_queue ?w d = filter (\<lambda>t. now < fire_time t) (task_queue w d)"
    and "\<exists>ts. main ?w = Firing d ts ds nxt now" and "schedules ?w = schedules w"
    using assms(1) True by (simp_all add: main_step_def take_expired_tasks_exact)
  moreover from this obtain w' nxt' where "ahead now ?w w'" "main w' = Visiting ds nxt'" "task_queue w' = task_queue ?w"
    "schedules w' = schedules ?w"
    using finish_firing by blast
  moreover have "ahead now w ?w"
    using assms(1) by (simp add: ahead_main_step)
  ultimately show ?thesis
    using ahead_trans by fastforce
next
  case False
  then show ?thesis
    using assms(1) ahead_main_step [of w now] by (auto simp: main_step_def)
qed

lemma finish_round:
  assumes "main w = Visiting ds nxt" and "window_reach w" "draws w < 2 ^ 64"
  shows "\<exists>w'. ahead now w w' \<and> main w' = Idle \<and> schedules w' = schedules w + 1 \<and>
    (\<forall>d\<in>set ds \<inter> set (delegates w). \<forall>t\<in>set (task_queue w' d). now < fire_time t)"
  using assms
proof (induction ds arbitrary: w nxt)
  case Nil
  then show ?case
    using ahead_main_step [of w now] by (auto simp: main_step_def SetTimer_def)
next
  case (Cons d ds)
  then obtain w1 nxt1 where w1: "ahead now w w1" "main w1 = Visiting ds nxt1" "schedules w1 = schedules w"
    and d: "d \<in> set (delegates w) \<longrightarrow> (\<forall>t\<in>set (task_queue w1 d). now < fire_time t)"
    using visit_runner window_task_inv by meson
  moreover have "window_reach w1" "draws w1 < 2 ^ 64"
    using ahead_reach [OF w1(1)] w1(1) Cons.prems by (auto simp: ahead_def)
  with w1(2) Cons.IH obtain w2 where w2: "ahead now w1 w2" "main w2 = Idle" "schedules w2 = schedules w1 + 1"
    and ds: "\<forall>d\<in>set ds \<inter> set (delegates w1). \<forall>t\<in>set (task_queue w2 d). now < fire_time t"
    by blast
  moreover have "delegates w1 = delegates w" "set (task_queue w2 d) \<subseteq> set (task_queue w1 d)"
    using w1(1) w2(1) by (simp_all add: ahead_def)
  ultimately show ?case
    using ahead_trans [OF w1(1) w2(1)] by (intro exI [of _ w2]) auto
qed

lemma reach_idle:
  assumes "window_reach w" "draws w < 2 ^ 64"
  shows "\<exists>w'. ahead now w w' \<and> main w' = Idle \<and> schedules w' \<le> schedules w + 1"
proof (cases "main w")
  case Idle
  then show ?thesis
    by (intro exI [of _ w]) simp
next
  case (Visiting ds nxt)
  then show ?thesis
    using assms finish_round by (metis order_refl)
next
  case (Firing d ts ds nxt time)
  then obtain w1 nxt1 where w1: "ahead now w w1" "main w1 = Visiting ds nxt1" "schedules w1 = schedules w"
    using finish_firing by blast
  then have "window_reach w1" "draws w1 < 2 ^ 64"
    using assms ahead_reach [OF w1(1)] by (auto simp: ahead_def)
  from finish_round [OF w1(2) this, of now] w1(1,3) show ?thesis
    using ahead_trans by fastforce
qed

text \<open>With a queue that is not empty the window has a message, or the timer thread posts one once it is due.\<close>

lemma timer_call_posts:
  assumes "timer w = T_call c" and "main w = Idle" and "messages w = (if wake_up_posted w then 1 else 0)"
  shows "\<exists>w'. ahead now w w' \<and> main w' = Idle \<and> 0 < messages w'"
  using assms ahead_timer_step [of now w]
  by (intro exI [of _ "timer_step True now w"]) (auto simp: timer_step_def timer_ready_def WakeUp_def)

text \<open>A thread that sleeps until the next fire time, or is about to test it, makes its callback when that has come.\<close>

lemma timer_wait_posts:
  assumes "timer w = T_test \<or> timer w = T_sleep (next_fire_time w)" and "\<not> before (Some now) (next_fire_time w)"
    and "main w = Idle" and "messages w = (if wake_up_posted w then 1 else 0)"
  shows "\<exists>w'. ahead now w w' \<and> main w' = Idle \<and> 0 < messages w'"
proof -
  have "ahead now w (timer_step True now w)"
    using assms(1,2) by (auto simp: timer_ready_def intro!: ahead_timer_step)
  moreover have "\<exists>w'. ahead now (timer_step True now w) w' \<and> main w' = Idle \<and> 0 < messages w'"
    using assms by (intro timer_call_posts [of _ "schedule_counter w"]) (auto simp: timer_step_def)
  ultimately show ?thesis
    using ahead_trans by blast
qed

lemma timer_posts:
  assumes inv: "wake_inv w" "schedules w < 2 ^ 64" and idle: "main w = Idle" and "\<not> wake_up_posted w"
    and x: "next_fire_time w = Some x"
  shows "\<exists>w'. ahead (max b x) w w' \<and> main w' = Idle \<and> 0 < messages w'"
proof -
  let ?now = "max b x"
  have due: "\<not> before (Some ?now) (next_fire_time w)"
    by (simp add: x before_def)
  have m: "messages w = (if wake_up_posted w then 1 else 0)"
    using inv by (simp add: wake_inv_def)
  show ?thesis
  proof (cases "timer w")
    case T_test
    with idle due m show ?thesis
      by (intro timer_wait_posts) simp_all
  next
    case (T_sleep deadline)
    then have "deadline = next_fire_time w"
      using inv by (simp add: wake_inv_def timer_inv_def)
    with idle due m T_sleep show ?thesis
      by (intro timer_wait_posts) simp_all
  next
    case (T_call c)
    with idle m show ?thesis
      by (intro timer_call_posts) simp_all
  next
    case (T_park c)
    let ?w = "timer_step True ?now w"
    have "c \<noteq> schedule_counter w"
      using T_park inv idle assms(4) schedules_distinct by (auto simp: wake_inv_def timer_inv_def)
    then have "?w = w\<lparr>timer := T_test\<rparr>"
      using T_park by (simp add: timer_step_def)
    then have "\<exists>w'. ahead ?now ?w w' \<and> main w' = Idle \<and> 0 < messages w'"
      using idle m due by (intro timer_wait_posts) simp_all
    moreover have "ahead ?now w ?w"
      using T_park by (simp add: ahead_timer_step timer_ready_def)
    ultimately show ?thesis
      using ahead_trans by blast
  qed
qed

lemma reach_message:
  assumes inv: "wake_inv w" "schedules w < 2 ^ 64" and "main w = Idle" and "d \<in> set (delegates w)" and "task_queue w d \<noteq> []"
  shows "\<exists>now \<ge> b. \<exists>w'. ahead now w w' \<and> main w' = Idle \<and> 0 < messages w'"
proof -
  consider "wake_up_posted w" | "\<not> wake_up_posted w" "0 < waking w" | "\<not> wake_up_posted w" "waking w = 0"
    by blast
  then show ?thesis
  proof cases
    case 1
    then show ?thesis
      using assms by (intro exI [of _ b] conjI exI [of _ w]) (auto simp: wake_inv_def)
  next
    case 2
    then show ?thesis
      using assms ahead_WakeUp [of w b]
      by (intro exI [of _ b] conjI exI [of _ "runner_WakeUp True w"]) (auto simp: runner_WakeUp_def WakeUp_def)
  next
    case 3
    with assms obtain x where "next_fire_time w = Some x"
      by (auto simp: wake_inv_def pending_visit_def)
    with 3 show ?thesis
      using timer_posts [OF inv assms(3)] by (meson max.cobounded1)
  qed
qed

lemma ahead_later: "ahead now w w' \<Longrightarrow> b \<le> now \<Longrightarrow> (\<lambda>u v. \<exists>now \<ge> b. internal_step now u v)\<^sup>*\<^sup>* w w'"
  unfolding ahead_def by (elim conjE, erule mono_rtranclp [rule_format, rotated]) blast

lemma agenda_done: "main w = Idle \<Longrightarrow> t \<in> set (agenda d w) \<Longrightarrow> t \<notin> set (task_queue w d) \<Longrightarrow> (d, t) \<in> fst ` set (fired w)"
  by (force simp: agenda_def of_runner_def)

lemma message_runs_task:
  assumes "window_reach w" "draws w < 2 ^ 64" "main w = Idle" "0 < messages w"
    and "d \<in> set (delegates w)" "t \<in> set (agenda d w)" "fire_time t \<le> now"
  shows "\<exists>w'. ahead now w w' \<and> (d, t) \<in> fst ` set (fired w')"
proof -
  let ?w = "main_step now w"
  have "ahead now w ?w" "main ?w = Visiting (delegates w) None" "delegates ?w = delegates w"
    using assms(3,4) ahead_main_step [of w now] by (simp_all add: main_step_def HandleMessage_WM_NULL_def)
  moreover from this have "window_reach ?w" "draws ?w < 2 ^ 64"
    using assms(1,2) ahead_reach by (auto simp: ahead_def)
  with calculation assms(5) obtain w' where "ahead now ?w w'" "main w' = Idle"
    and "\<forall>t\<in>set (task_queue w' d). now < fire_time t"
    using finish_round by (metis IntI)
  moreover from calculation have "t \<in> set (agenda d w')"
    using assms(6) by (simp add: ahead_def)
  ultimately show ?thesis
    using assms(7) agenda_done ahead_trans by (metis linorder_not_less)
qed

section \<open>Every task gets its turn, in its turn\<close>

text \<open>
  C14: Whatever has happened, in whatever interleaving of the threads that post, the main thread and the timer thread, a
  task in the queue of a runner that is not destroyed is not forgotten, if no message failed to be posted so far and the
  64-bit counters have not wrapped around: the main thread and the timer thread, with the threads that are about to
  wake the window, taking steps at times from the task's due time on, without any further post or spurious wake-up, can
  reach a state in which it has run.
\<close>

theorem windows_tasks_get_run:
  assumes "window_reach w" and "d \<in> set (delegates w)" and "t \<in> set (task_queue w d)"
    and "\<not> post_failed w" and "draws w < 2 ^ 64" "schedules w + 1 < 2 ^ 64"
  shows "\<exists>w'. (\<lambda>u v. \<exists>now \<ge> fire_time t. internal_step now u v)\<^sup>*\<^sup>* w w' \<and> (d, t) \<in> fst ` set (fired w') \<and> \<not> post_failed w'"
proof -
  let ?steps = "(\<lambda>u v. \<exists>now \<ge> fire_time t. internal_step now u v)\<^sup>*\<^sup>*"
  obtain w1 where w1: "ahead (fire_time t) w w1" "main w1 = Idle" "schedules w1 < 2 ^ 64"
    using assms(1,5,6) reach_idle [of w "fire_time t"] by (meson le_less_trans)
  then have 1: "window_reach w1" "d \<in> set (delegates w1)" "t \<in> set (agenda d w1)" "?steps w w1" "draws w1 < 2 ^ 64" "\<not> post_failed w1"
    using assms ahead_reach [OF w1(1)] ahead_later [OF w1(1)] by (simp_all add: ahead_def agenda_def)
  show ?thesis
  proof (cases "task_queue w1 d = []")
    case True
    then have "(d, t) \<in> fst ` set (fired w1)"
      using agenda_done [OF w1(2) 1(3)] by simp
    with 1(4,6) show ?thesis
      by blast
  next
    case False
    have "wake_inv w1" using window_wake_inv [OF 1(1,5) w1(3) 1(6)] .
    from reach_message [OF this w1(3,2) 1(2) False] obtain now w2 where
      w2: "fire_time t \<le> now" "ahead now w1 w2" "main w2 = Idle" "0 < messages w2" by blast
    with 1 have "window_reach w2" "d \<in> set (delegates w2)" "t \<in> set (agenda d w2)" "draws w2 < 2 ^ 64" "\<not> post_failed w2"
      using ahead_reach [OF w2(2)] by (simp_all add: ahead_def)
    with w2 obtain w3 where w3: "ahead now w2 w3" "(d, t) \<in> fst ` set (fired w3)"
      using message_runs_task by blast
    moreover have "?steps w1 w2" "?steps w2 w3" "\<not> post_failed w3"
      using ahead_later [OF _ w2(1)] w2(2) w3(1) \<open>\<not> post_failed w2\<close> by (auto simp: ahead_def)
    ultimately show ?thesis
      using 1(4) by (meson rtranclp_trans)
  qed
qed

lemma example_window_reach: "window_reach (EnqueueTask 1 1 5 (Task_closure 7) (draw_order (AddDelegate 0 1 window_new)))"
  by (rule window_reach.Enqueue, rule window_reach.Draw, rule window_reach.Add, rule window_reach.Start)
    (simp_all add: window_step_defs window_new_def)

theorem windows_tasks_get_run_witness:
  "\<exists>w'. (\<lambda>u v. \<exists>now \<ge> 5. internal_step now u v)\<^sup>*\<^sup>* (EnqueueTask 1 1 5 (Task_closure 7) (draw_order (AddDelegate 0 1 window_new))) w' \<and>
    (1, \<lparr>task_order = 1, fire_time = 5, variant = Task_closure 7\<rparr>) \<in> fst ` set (fired w')"
proof -
  let ?w = "EnqueueTask 1 1 5 (Task_closure 7) (draw_order (AddDelegate 0 1 window_new))"
  have "window_reach ?w"
    by (rule example_window_reach)
  moreover have "1 \<in> set (delegates ?w)" "\<not> post_failed ?w" "draws ?w < 2 ^ 64" "schedules ?w + 1 < 2 ^ 64"
    and "\<lparr>task_order = 1, fire_time = 5, variant = Task_closure 7\<rparr> \<in> set (task_queue ?w 1)"
    by (simp_all add: window_step_defs window_new_def)
  ultimately show ?thesis
    using windows_tasks_get_run [of ?w 1 "\<lparr>task_order = 1, fire_time = 5, variant = Task_closure 7\<rparr>"] by auto
qed

text \<open>
  C24: In every execution, also with messages that fail to be posted, the tasks posted to a runner are, each once, those
  that have run, are about to run, are queued or were dropped with the runner; none runs before it is due; and of two
  that ran, the first was queued first or is due sooner, or is due at the same time and has the smaller number, as long as
  the 64-bit numbers of the tasks have not wrapped around.
\<close>

theorem windows_tasks_in_order:
  assumes "window_reach w" "draws w < 2 ^ 64"
  shows "mset (of_runner d (posted w)) =
      mset (of_runner d (map fst (fired w))) + mset (in_hand d (main w)) + mset (task_queue w d) + mset (of_runner d (dropped w)) \<and>
    (\<forall>((e, t), time)\<in>set (fired w). fire_time t \<le> time) \<and>
    sorted_wrt (\<lambda>a b. queued_before (of_runner d (posted w)) a b \<or> fire_time a < fire_time b \<or>
        fire_time a = fire_time b \<and> task_order a < task_order b) (of_runner d (map fst (fired w)))"
proof -
  have inv: "task_inv w"
    using assms by (rule window_task_inv)
  moreover have "sorted_wrt (may_precede (of_runner d (posted w))) (of_runner d (map fst (fired w)))"
    using inv by (simp add: task_inv_def agenda_def sorted_wrt_append)
  then have "sorted_wrt (\<lambda>a b. queued_before (of_runner d (posted w)) a b \<or> fire_time a < fire_time b \<or>
        fire_time a = fire_time b \<and> task_order a < task_order b) (of_runner d (map fst (fired w)))"
    by (simp add: may_precede_def [abs_def] sooner_simps)
  ultimately show ?thesis
    by (auto simp: task_inv_def agenda_def)
qed

theorem windows_tasks_in_order_witness:
  "mset (of_runner 1 (posted (EnqueueTask 1 1 5 (Task_closure 7) (draw_order (AddDelegate 0 1 window_new))))) =
    {#\<lparr>task_order = 1, fire_time = 5, variant = Task_closure 7\<rparr>#}"
proof -
  let ?w = "EnqueueTask 1 1 5 (Task_closure 7) (draw_order (AddDelegate 0 1 window_new))"
  have "window_reach ?w"
    by (rule example_window_reach)
  moreover have "draws ?w < 2 ^ 64"
    by (simp add: window_step_defs window_new_def)
  ultimately show ?thesis
    using windows_tasks_in_order [of ?w 1]
    by (simp add: window_step_defs window_new_def)
qed

section \<open>Where the wake-up goes wrong\<close>

text \<open>The window believes that a message is on its way when there is none.\<close>

definition deaf :: "window \<Rightarrow> bool" where
  "deaf w \<longleftrightarrow> wake_up_posted w \<and> messages w = 0 \<and> main w = Idle"

text \<open>
  The flag is not cleared when \<open>PostMessage\<close> fails, as it does when the queue of messages is full. From then on no
  post, no timer and no new runner makes the window get a message: no task ever runs again.
\<close>

theorem failed_post_stops_the_runners:
  "(\<not> wake_up_posted w \<and> messages w = 0 \<and> main w = Idle \<longrightarrow> deaf (runner_WakeUp False w)) \<and>
   (deaf w \<longrightarrow> deaf (EnqueueTask d n fire v w) \<and> deaf (runner_WakeUp ok w) \<and> deaf (timer_step ok now w) \<and>
     deaf (AddDelegate now d w) \<and> deaf (RemoveDelegate d w)) \<and>
   (deaf w \<longrightarrow> (\<forall>w'. internal_step now w w' \<longrightarrow> deaf w' \<and> fired w' = fired w))"
proof -
  have timer: "deaf w \<Longrightarrow> deaf (timer_step ok now w) \<and> fired (timer_step ok now w) = fired w" for ok
    by (cases "timer w") (auto simp: deaf_def window_step_defs)
  have post: "deaf w \<Longrightarrow> deaf (runner_WakeUp ok w) \<and> fired (runner_WakeUp ok w) = fired w" for ok
    by (simp add: deaf_def window_step_defs)
  have "\<not> wake_up_posted w \<and> messages w = 0 \<and> main w = Idle \<longrightarrow> deaf (runner_WakeUp False w)"
    by (simp add: deaf_def window_step_defs)
  moreover have "deaf w \<Longrightarrow> deaf (EnqueueTask d n fire v w) \<and> deaf (AddDelegate now d w) \<and> deaf (RemoveDelegate d w)"
    by (simp add: deaf_def window_step_defs)
  moreover have "deaf w \<Longrightarrow> internal_step now w w' \<Longrightarrow> deaf w' \<and> fired w' = fired w" for w'
    using timer post by (auto simp: deaf_def elim!: internal_step.cases)
  ultimately show ?thesis
    using timer post by blast
qed

text \<open>
  \<open>ProcessTasks\<close> returns the time from its start to the next task, and the timer adds it to the time at its end. Here
  a task due at 1 runs from 1 to 50; the next one, due at 10 and so overdue, waits for a timer set to 59.
\<close>

theorem timer_is_set_late:
  fixes w
  defines "w \<equiv> runner_WakeUp True (runner_WakeUp True
    (EnqueueTask 1 2 10 (Task_closure 8) (draw_order (EnqueueTask 1 1 1 (Task_closure 7) (draw_order
      (timer_step True 0 (timer_step True 0 (timer_step True 0 (AddDelegate 0 1 window_new)))))))))"
  shows "let w' = main_step 50 (main_step 50 (main_step 1 (main_step 1 (main_step 1 w))))
    in main w' = Idle \<and> messages w' = 0 \<and> map fire_time (task_queue w' 1) = [10] \<and> next_fire_time w' = Some 59"
  by (simp add: w_def window_step_defs ScheduleAt_def notify_timer_def window_new_def before_def shorter_def Comparer_def
      del: ScheduleAt_fields)

end
