(* ===== verification/Simplify_Path.thy ===== *)
theory Simplify_Path
  imports Paths
begin

text \<open>
  \<open>third_party/tonic/filesystem\<close>: \<open>SimplifyPath\<close> for POSIX (\<open>path_posix.cc\<close>) and Windows (\<open>path_win.cc\<close>). The path is
  rewritten in place: what is kept is copied from \<open>component_start\<close> down to \<open>put\<close>. The code of the two platforms is the
  same up to the separators, the root and the function that finds the parent directory, which are arguments here. It is
  shown equal to a fold over the list of components, except for the paths on which it overwrites the terminator of
  the string. A position is at most the size of the string, other than on Windows, where the root of a network share can
  have the length \<open>npos\<close>: sums and differences that can wrap are taken modulo \<open>2^64\<close>.
\<close>

section \<open>The code\<close>

text \<open>\<open>path.rfind\<close> and \<open>find_last_of\<close> with a position, \<open>find\<close> and \<open>find_first_of\<close> with a position.\<close>

definition last_from :: "(char \<Rightarrow> bool) \<Rightarrow> string \<Rightarrow> nat \<Rightarrow> nat option" where
  "last_from P s pos = find_last P 0 (take (Suc pos) s) None"

definition first_from :: "(char \<Rightarrow> bool) \<Rightarrow> string \<Rightarrow> nat \<Rightarrow> nat option" where
  "first_from P s pos =
     (let n = pos + length (takeWhile (\<lambda>c. \<not> P c) (drop pos s)) in if n < length s then Some n else None)"

definition size_minus :: "nat \<Rightarrow> nat \<Rightarrow> nat" where
  "size_minus a b = unat (word_of_nat a - word_of_nat b :: 64 word)"

definition size_plus :: "nat \<Rightarrow> nat \<Rightarrow> nat" where
  "size_plus a b = unat (word_of_nat a + word_of_nat b :: 64 word)"

text \<open>\<open>path.replace(put, n, path.substr(start, n))\<close>.\<close>

definition move_down :: "nat \<Rightarrow> nat \<Rightarrow> nat \<Rightarrow> string \<Rightarrow> string res" where
  "move_down put start n path =
     (if length path < start \<or> length path < put then Inl Out_of_range
      else Inr (take put path @ take n (drop start path) @ drop (put + n) path))"

text \<open>The writes \<open>path[put++] = ...\<close>: only what is before the terminator may be overwritten.\<close>

definition remove_previous ::
  "char \<Rightarrow> (string \<Rightarrow> nat \<Rightarrow> nat) \<Rightarrow> string \<Rightarrow> nat \<Rightarrow> nat \<Rightarrow> (string \<times> nat \<times> nat) res" where
  "remove_previous sep resolve path put traversal_root =
     (if put = traversal_root
      then if put + 2 < length path
           then Inr (path[put := CHR ''.'', put + 1 := CHR ''.'', put + 2 := sep], put + 3, put + 3)
           else Inl Undefined
      else Inr (path, resolve path put, traversal_root))"

partial_function (option) simplify_loop ::
  "(char \<Rightarrow> bool) \<Rightarrow> char \<Rightarrow> (string \<Rightarrow> nat \<Rightarrow> nat) \<Rightarrow> string \<Rightarrow> nat \<Rightarrow> nat \<Rightarrow> nat \<Rightarrow> nat \<Rightarrow>
    (string \<times> nat \<times> nat \<times> nat) res option" where
  "simplify_loop is_sep sep resolve path put get traversal_root component_start =
     (if length path \<le> get then Some (Inr (path, put, traversal_root, component_start))
      else if path ! get = CHR ''.'' \<and> (get = component_start \<or> get = component_start + 1)
        then simplify_loop is_sep sep resolve path put (get + 1) traversal_root component_start
      else if is_sep (path ! get) \<and> (get = component_start \<or> get = component_start + 1)
        then simplify_loop is_sep sep resolve path put (get + 1) traversal_root (get + 1)
      else if is_sep (path ! get) \<and> get = component_start + 2
        then (case remove_previous sep resolve path put traversal_root of
            Inl e \<Rightarrow> Some (Inl e)
          | Inr r \<Rightarrow> simplify_loop is_sep sep resolve (fst r) (fst (snd r)) (get + 1) (snd (snd r)) (get + 1))
      else (case first_from is_sep path get of
          None \<Rightarrow> Some (Inr (path, put, traversal_root, component_start))
        | Some next_separator \<Rightarrow>
            (case (if put \<noteq> component_start then move_down put component_start (next_separator + 1 - component_start) path
                   else Inr path) of
               Inl e \<Rightarrow> Some (Inl e)
             | Inr path \<Rightarrow>
                 simplify_loop is_sep sep resolve path (put + (next_separator + 1 - component_start))
                   (next_separator + 1) traversal_root (next_separator + 1))))"

declare simplify_loop.simps [code]

text \<open>The end of the function. The differences of the positions wrap on Windows for some network shares.\<close>

definition last_component ::
  "char \<Rightarrow> (string \<Rightarrow> nat \<Rightarrow> nat) \<Rightarrow> string \<Rightarrow> nat \<Rightarrow> nat \<Rightarrow> nat \<Rightarrow> (string \<times> nat) res" where
  "last_component sep resolve path put traversal_root component_start =
     (let last_component_size = size_minus (length path) component_start;
          last = take last_component_size (drop component_start path)
      in if last_component_size = 1 \<and> last = ''.'' then Inr (path, put)
         else if last_component_size = 2 \<and> last = ''..''
           then bindR (remove_previous sep resolve path put traversal_root) (\<lambda>(path, put, _). Inr (path, put))
         else bindR (if put \<noteq> component_start \<and> last_component_size > 0
                then move_down put component_start last_component_size path else Inr path) (\<lambda>path.
           Inr (path, size_plus put last_component_size)))"

definition trim_path :: "(char \<Rightarrow> bool) \<Rightarrow> string \<Rightarrow> nat \<Rightarrow> string res" where
  "trim_path is_sep path put =
     (if put \<ge> 2
      then bindR (char_at path (put - 1)) (\<lambda>c. Inr (take (if is_sep c then put - 1 else put) path))
      else if put = 0 then Inr ''.'' else Inr (take put path))"

definition simplify_with ::
  "(char \<Rightarrow> bool) \<Rightarrow> char \<Rightarrow> (string \<Rightarrow> nat \<Rightarrow> nat) \<Rightarrow> nat \<Rightarrow> string \<Rightarrow> string res option" where
  "simplify_with is_sep sep resolve root_length path =
     map_option (\<lambda>r. bindR r (\<lambda>(path, put, traversal_root, component_start).
         bindR (last_component sep resolve path put traversal_root component_start) (\<lambda>(path, put).
           trim_path is_sep path put)))
       (simplify_loop is_sep sep resolve path root_length root_length 0 root_length)"

definition posix_ResolveParentDirectoryTraversal :: "string \<Rightarrow> nat \<Rightarrow> nat" where
  "posix_ResolveParentDirectoryTraversal path put =
     (case (if put \<ge> 2 then last_from (\<lambda>c. c = CHR ''/'') path (put - 2) else None) of
        Some previous_separator \<Rightarrow> previous_separator + 1
      | None \<Rightarrow> if put = 1 \<and> path ! 0 = CHR ''/'' then put else 0)"

definition posix_SimplifyPath :: "string \<Rightarrow> string res option" where
  "posix_SimplifyPath path =
     (if path = [] then Some (Inr ''.'')
      else simplify_with (\<lambda>c. c = CHR ''/'') (CHR ''/'') posix_ResolveParentDirectoryTraversal
        (if path ! 0 = CHR ''/'' then 1 else 0) path)"

definition IsSeparator :: "char \<Rightarrow> bool" where
  "IsSeparator c \<longleftrightarrow> c = CHR ''/'' \<or> c = CHR 0x5C"

definition win_ResolveParentDirectoryTraversal :: "nat \<Rightarrow> string \<Rightarrow> nat \<Rightarrow> nat" where
  "win_ResolveParentDirectoryTraversal root_length path put =
     (if put \<le> root_length then root_length
      else case last_from IsSeparator path (size_minus put 2) of
          Some previous_separator \<Rightarrow> previous_separator + 1
        | None \<Rightarrow> 0)"

definition win_SimplifyPath :: "string \<Rightarrow> string res option" where
  "win_SimplifyPath path =
     (if path = [] then Some (Inr ''.'')
      else case RootLength path of
          Inl e \<Rightarrow> Some (Inl e)
        | Inr root_length \<Rightarrow>
            map_option (map_sum id (map turn_separator))
              (simplify_with IsSeparator (CHR 0x5C) (win_ResolveParentDirectoryTraversal (unat root_length))
                (unat root_length) path))"

definition posix_GetBaseName :: "string \<Rightarrow> string" where
  "posix_GetBaseName path =
     (case find_last (\<lambda>c. c = CHR ''/'') 0 path None of None \<Rightarrow> path | Some separator \<Rightarrow> drop (separator + 1) path)"

section \<open>What it computes\<close>

fun components :: "(char \<Rightarrow> bool) \<Rightarrow> string \<Rightarrow> string list" where
  "components P [] = [[]]"
| "components P (c # s) =
     (if P c then [] # components P s else (c # hd (components P s)) # tl (components P s))"

definition simplify_component :: "bool \<Rightarrow> string \<Rightarrow> string list \<Rightarrow> string list" where
  "simplify_component rooted c st =
     (if c = [] \<or> c = ''.'' then st
      else if c \<noteq> ''..'' then st @ [c]
      else if st = [] then (if rooted then [] else [''..''])
      else if last st = ''..'' then st @ [''..''] else butlast st)"

definition segments :: "char \<Rightarrow> string list \<Rightarrow> string" where
  "segments sep st = concat (map (\<lambda>c. c @ [sep]) st)"

text \<open>Every component and the root end in a separator, of which the last one goes unless it is all there is.\<close>

definition printed :: "char \<Rightarrow> string \<Rightarrow> string list \<Rightarrow> string" where
  "printed sep root st =
     (let p = root @ segments sep st in if p = [] then ''.'' else if length p = 1 then p else butlast p)"

lemma components_cases:
  obtains (last) "components P s = [s]" "\<forall>c \<in> set s. \<not> P c"
  | (more) nm x rest where "s = nm @ x # rest" "\<forall>c \<in> set nm. \<not> P c" "P x"
      "components P s = nm # components P rest"
proof (induction s arbitrary: thesis)
  case Nil
  then show ?case by simp
next
  case (Cons c s)
  show ?case
  proof (cases "P c")
    case True
    then show ?thesis using Cons.prems(2) [of "[]" c s] by simp
  next
    case False
    show ?thesis
    proof (rule Cons.IH)
      assume "components P s = [s]" "\<forall>c \<in> set s. \<not> P c"
      then show thesis using False Cons.prems(1) by simp
    next
      fix nm x rest
      assume "s = nm @ x # rest" "\<forall>c \<in> set nm. \<not> P c" "P x" "components P s = nm # components P rest"
      then show thesis using False Cons.prems(2) [of "c # nm" x rest] by simp
    qed
  qed
qed

lemma segments_simps [simp]:
  "segments sep [] = []" "segments sep (c # st) = c @ sep # segments sep st"
  "segments sep (st @ st') = segments sep st @ segments sep st'"
  by (simp_all add: segments_def)

lemma segments_ups: "length (segments sep (replicate k ''..'')) = 3 * k"
  by (induction k) simp_all

lemma segments_length: "length (segments sep st) = sum_list (map (\<lambda>c. length c + 1) st)"
  by (induction st) simp_all

lemma first_from_found:
  assumes "drop pos s = d @ x # rest" "\<forall>c \<in> set d. \<not> P c" "P x" "pos \<le> length s"
  shows "first_from P s pos = Some (pos + length d)"
proof -
  have "length s = pos + length d + length rest + 1"
    using arg_cong [OF assms(1), of length] assms(4) by simp
  then show ?thesis using assms(1-3) by (simp add: first_from_def Let_def takeWhile_tail)
qed

lemma first_from_none:
  assumes "\<forall>c \<in> set (drop pos s). \<not> P c" "pos \<le> length s"
  shows "first_from P s pos = None"
  using assms by (simp add: first_from_def takeWhile_eq_all_conv [THEN iffD2])

lemma drop_more: "drop pos s = d @ r \<Longrightarrow> drop (pos + length d) s = r"
  by (metis add.commute append_eq_conv_conj drop_drop)

lemma nth_behind:
  assumes "drop pos s = d @ x # rest" "pos \<le> length s"
  shows "pos + length d < length s" "s ! (pos + length d) = x"
proof -
  show "pos + length d < length s"
    using arg_cong [OF assms(1), of length] assms(2) by simp
  show "s ! (pos + length d) = x"
    using nth_drop [OF assms(2), of "length d"] by (simp add: assms(1))
qed

lemma last_of_take: "0 < n \<Longrightarrow> n \<le> length xs \<Longrightarrow> last (take n xs) = xs ! (n - 1)"
  by (subst last_conv_nth) (auto simp: min_absorb2)

lemma size_within:
  "b \<le> a \<Longrightarrow> a < 2 ^ 64 \<Longrightarrow> size_minus a b = a - b" "a + b < 2 ^ 64 \<Longrightarrow> size_plus a b = a + b"
proof -
  have u: "unat (word_of_nat n :: 64 word) = n" if "n < 2 ^ 64" for n
    using that by (simp add: unat_of_nat take_bit_nat_eq_self)
  show "size_minus a b = a - b" if "b \<le> a" "a < 2 ^ 64"
    using that u [of "a - b"] by (simp add: size_minus_def of_nat_diff)
  show "size_plus a b = a + b" if "a + b < 2 ^ 64"
    using u [OF that] by (simp add: size_plus_def)
qed

section \<open>One component of the loop\<close>

lemma loop_dots:
  assumes "drop cs path = replicate n (CHR ''.'') @ rest" "cs \<le> length path" "n \<le> 2"
  shows "simplify_loop is_sep sep resolve path put cs tr cs = simplify_loop is_sep sep resolve path put (cs + n) tr cs"
proof -
  have step: "simplify_loop is_sep sep resolve path put (cs + i) tr cs = simplify_loop is_sep sep resolve path put (cs + Suc i) tr cs"
    if "i < n" for i
  proof -
    have "cs + n \<le> length path"
      using arg_cong [OF assms(1), of length] assms(2) by simp
    moreover have "path ! (cs + i) = CHR ''.''"
      using that nth_drop [OF assms(2), of i] by (simp add: assms(1) nth_append)
    moreover have "i = 0 \<or> i = 1" using that assms(3) by linarith
    ultimately show ?thesis
      using that by (subst simplify_loop.simps) auto
  qed
  have "i \<le> n \<Longrightarrow> simplify_loop is_sep sep resolve path put cs tr cs = simplify_loop is_sep sep resolve path put (cs + i) tr cs" for i
    by (induction i) (simp_all add: step)
  then show ?thesis by blast
qed

lemma leading_dots:
  obtains n rest where "nm = replicate n (CHR ''.'') @ rest" "n \<le> 2" "n < 2 \<longrightarrow> rest = [] \<or> hd rest \<noteq> CHR ''.''"
proof -
  consider "nm = []" | c where "nm = [c]" | c d r where "nm = c # d # r"
    by (metis neq_Nil_conv)
  then show thesis
  proof cases
    case 1
    then show ?thesis using that [of 0 "[]"] by simp
  next
    case 2
    then show ?thesis using that [of 0 nm] that [of 1 "[]"] by (cases "c = CHR ''.''") auto
  next
    case 3
    then show ?thesis
      using that [of 0 nm] that [of 1 "d # r"] that [of 2 r]
      by (cases "c = CHR ''.''"; cases "d = CHR ''.''") (auto simp: numeral_2_eq_2)
  qed
qed

lemma loop_skip:
  assumes "drop cs path = nm @ x # rest" "cs \<le> length path" "is_sep x" "\<not> is_sep (CHR ''.'')" "nm = [] \<or> nm = ''.''"
  shows "simplify_loop is_sep sep resolve path put cs tr cs =
    simplify_loop is_sep sep resolve path put (cs + length nm + 1) tr (cs + length nm + 1)"
proof -
  have "nm = replicate (length nm) (CHR ''.'')" "length nm \<le> 2" "length nm = 0 \<or> length nm = 1"
    using assms(5) by auto
  then have "simplify_loop is_sep sep resolve path put cs tr cs = simplify_loop is_sep sep resolve path put (cs + length nm) tr cs"
    using assms(1,2) by (intro loop_dots [where rest = "x # rest"]) auto
  also have "\<dots> = simplify_loop is_sep sep resolve path put (cs + length nm + 1) tr (cs + length nm + 1)"
    using nth_behind [OF assms(1,2)] assms(3,4) \<open>length nm = 0 \<or> length nm = 1\<close>
    by (subst simplify_loop.simps) auto
  finally show ?thesis .
qed

lemma loop_up:
  assumes "drop cs path = ''..'' @ x # rest" "cs \<le> length path" "is_sep x" "\<not> is_sep (CHR ''.'')"
  shows "simplify_loop is_sep sep resolve path put cs tr cs =
    (case remove_previous sep resolve path put tr of
       Inl e \<Rightarrow> Some (Inl e)
     | Inr r \<Rightarrow> simplify_loop is_sep sep resolve (fst r) (fst (snd r)) (cs + 3) (snd (snd r)) (cs + 3))"
proof -
  have "simplify_loop is_sep sep resolve path put cs tr cs = simplify_loop is_sep sep resolve path put (cs + 2) tr cs"
    using assms(1,2) by (intro loop_dots [where rest = "x # rest"]) (simp_all add: numeral_2_eq_2)
  moreover have "cs + 2 < length path" "path ! (cs + 2) = x"
    using nth_behind [OF assms(1,2)] by (simp_all add: numeral_2_eq_2)
  ultimately show ?thesis
    using assms(3,4) by (subst (asm) (2) simplify_loop.simps) (auto simp: numeral_3_eq_3 split: sum.split)
qed

lemma loop_name:
  assumes "drop cs path = nm @ x # rest" "cs \<le> length path" "is_sep x" "\<forall>c \<in> set nm. \<not> is_sep c"
    and "nm \<noteq> []" "nm \<noteq> ''.''" "nm \<noteq> ''..''"
  shows "simplify_loop is_sep sep resolve path put cs tr cs =
    (case (if put \<noteq> cs then move_down put cs (length nm + 1) path else Inr path) of
       Inl e \<Rightarrow> Some (Inl e)
     | Inr path' \<Rightarrow> simplify_loop is_sep sep resolve path' (put + (length nm + 1)) (cs + length nm + 1) tr (cs + length nm + 1))"
proof -
  obtain n r where c: "nm = replicate n (CHR ''.'') @ r" "n \<le> 2" "n < 2 \<longrightarrow> r = [] \<or> hd r \<noteq> CHR ''.''"
    by (rule leading_dots)
  have "n = 0 \<or> n = 1 \<or> n = 2" using c(2) by linarith
  then have "r \<noteq> []" using assms(5-7) c(1) by (auto simp: numeral_2_eq_2)
  then obtain y r' where r: "r = y # r'" by (cases r) auto
  have d: "drop cs path = replicate n (CHR ''.'') @ r @ x # rest" using assms(1) c(1) by simp
  have y: "cs + n < length path" "path ! (cs + n) = y" "\<not> is_sep y" "n < 2 \<longrightarrow> y \<noteq> CHR ''.''"
    using nth_behind [of cs path "replicate n (CHR ''.'')" y "r' @ x # rest"] d r assms(2,4) c by auto
  have f: "first_from is_sep path (cs + n) = Some (cs + length nm)"
    using first_from_found [of "cs + n" path r x rest is_sep] drop_more [OF d] assms(3,4) c(1) y(1) by auto
  have "simplify_loop is_sep sep resolve path put cs tr cs = simplify_loop is_sep sep resolve path put (cs + n) tr cs"
    by (rule loop_dots [OF d assms(2) c(2)])
  then show ?thesis
    using y f by (subst (asm) (2) simplify_loop.simps) (auto split: sum.split)
qed

lemma loop_last:
  assumes "\<forall>c \<in> set (drop cs path). \<not> is_sep c" "cs \<le> length path"
  shows "simplify_loop is_sep sep resolve path put cs tr cs = Some (Inr (path, put, tr, cs))"
proof -
  obtain n r where c: "drop cs path = replicate n (CHR ''.'') @ r" "n \<le> 2" "n < 2 \<longrightarrow> r = [] \<or> hd r \<noteq> CHR ''.''"
    by (rule leading_dots)
  have l: "simplify_loop is_sep sep resolve path put cs tr cs = simplify_loop is_sep sep resolve path put (cs + n) tr cs"
    by (rule loop_dots [OF c(1) assms(2) c(2)])
  show ?thesis
  proof (cases r)
    case Nil
    then have "length path \<le> cs + n" using arg_cong [OF c(1), of length] by simp
    then show ?thesis using l by (subst (asm) (2) simplify_loop.simps) simp
  next
    case (Cons y r')
    have y: "cs + n < length path" "path ! (cs + n) = y" "\<not> is_sep y" "n < 2 \<longrightarrow> y \<noteq> CHR ''.''"
      using nth_behind [of cs path "replicate n (CHR ''.'')" y r'] assms c Cons by auto
    have "first_from is_sep path (cs + n) = None"
      using assms(1) y(1) drop_more [OF c(1)] c(1) by (intro first_from_none) auto
    then show ?thesis using y l by (subst (asm) (2) simplify_loop.simps) auto
  qed
qed

section \<open>The loop over the components\<close>

text \<open>
  What both platforms promise: how separators look, and that the parent of a kept name is found behind the separator
  before it. \<open>norm\<close> is what the separators of the result are turned into, \<open>root\<close> the root of the result.
\<close>

locale path_syntax =
  fixes norm :: "char \<Rightarrow> char" and is_sep :: "char \<Rightarrow> bool" and sep :: char
    and resolve :: "string \<Rightarrow> nat \<Rightarrow> nat" and root :: string
  assumes is_sep_norm: "is_sep c \<longleftrightarrow> norm c = sep"
    and norm_other: "\<not> is_sep c \<Longrightarrow> norm c = c"
    and norm_sep: "norm sep = sep"
    and dot_is_no_sep: "\<not> is_sep (CHR ''.'')"
    and root_ends: "root \<noteq> [] \<Longrightarrow> last root = sep"
    and resolve_name: "length path < 2 ^ 64 \<Longrightarrow> put \<le> length path \<Longrightarrow> map norm (take put path) = root @ segments sep (st @ [nm]) \<Longrightarrow> nm \<noteq> [] \<Longrightarrow>
      sep \<notin> set nm \<Longrightarrow> resolve path put = length root + length (segments sep st)"
    and resolve_root: "root \<noteq> [] \<Longrightarrow> put \<le> length path \<Longrightarrow> map norm (take put path) = root \<Longrightarrow> resolve path put = put"

text \<open>The part of the buffer before \<open>put\<close>, after the components \<open>past\<close>: \<open>k\<close> times the parent, then names.\<close>

definition kept ::
  "(char \<Rightarrow> char) \<Rightarrow> char \<Rightarrow> string \<Rightarrow> string list \<Rightarrow> string \<Rightarrow> nat \<Rightarrow> nat \<Rightarrow> nat \<Rightarrow> string list \<Rightarrow> bool" where
  "kept norm sep root past path put tr k names \<longleftrightarrow>
     put \<le> length path \<and> map norm (take put path) = root @ segments sep (replicate k ''..'' @ names) \<and>
     fold (simplify_component (root \<noteq> [])) past [] = replicate k ''..'' @ names \<and>
     ''..'' \<notin> set names \<and> (\<forall>c \<in> set names. c \<noteq> [] \<and> sep \<notin> set c) \<and> (root \<noteq> [] \<longrightarrow> k = 0) \<and> tr = 3 * k"

lemma kept_position:
  assumes "kept norm sep root past path put tr k names"
  shows "put = length root + 3 * k + length (segments sep names)"
    and "put = tr \<longleftrightarrow> root = [] \<and> names = []"
proof -
  have "put = length (root @ segments sep (replicate k ''..'' @ names))"
    using assms unfolding kept_def by (metis length_map length_take min.absorb2)
  then show "put = length root + 3 * k + length (segments sep names)" by (simp add: segments_ups)
  then show "put = tr \<longleftrightarrow> root = [] \<and> names = []"
    using assms by (cases names) (auto simp: kept_def)
qed

lemma kept_skip:
  "kept norm sep root past path put tr k names \<Longrightarrow> nm = [] \<or> nm = ''.'' \<Longrightarrow> kept norm sep root (past @ [nm]) path put tr k names"
  by (auto simp: kept_def simplify_component_def)

lemma kept_name:
  assumes "kept norm sep root past path put tr k names" "nm \<noteq> []" "nm \<noteq> ''.''" "nm \<noteq> ''..''" "sep \<notin> set nm"
    and "length path' \<ge> put + length nm + 1" "map norm (take (put + length nm + 1) path') = map norm (take put path) @ nm @ [sep]"
  shows "kept norm sep root (past @ [nm]) path' (put + length nm + 1) tr k (names @ [nm])"
  using assms by (auto simp: kept_def simplify_component_def)

lemma moved:
  assumes "put \<le> cs" "cs + n \<le> length path"
  defines "path' \<equiv> take put path @ take n (drop cs path) @ drop (put + n) path"
  shows "(if put \<noteq> cs then move_down put cs n path else Inr path) = Inr path'"
    and "length path' = length path" "take (put + n) path' = take put path @ take n (drop cs path)"
    and "drop (cs + n) path' = drop (cs + n) path"
proof -
  have "take cs path @ take n (drop cs path) @ drop (cs + n) path = path"
    by (metis add.commute append_take_drop_id drop_drop)
  then show "(if put \<noteq> cs then move_down put cs n path else Inr path) = Inr path'"
    using assms(1,2) by (simp add: path'_def move_down_def)
  have l: "length (take put path) = put" "length (take n (drop cs path)) = n"
    using assms(1,2) by simp_all
  have g: "length (A @ B @ drop (put + n) path) = length path" "take (put + n) (A @ B @ drop (put + n) path) = A @ B"
    "drop (cs + n) (A @ B @ drop (put + n) path) = drop (cs + n) path" if "length A = put" "length B = n" for A B
    using that assms(1,2) by simp_all
  show "length path' = length path" "take (put + n) path' = take put path @ take n (drop cs path)"
    "drop (cs + n) path' = drop (cs + n) path"
    unfolding path'_def by (rule g [OF l])+
qed

text \<open>At the start of a component: the rest of the buffer is as it was.\<close>

definition at_component ::
  "(char \<Rightarrow> char) \<Rightarrow> char \<Rightarrow> string \<Rightarrow> string \<Rightarrow> string list \<Rightarrow> string \<Rightarrow> nat \<Rightarrow> nat \<Rightarrow> nat \<Rightarrow> nat \<Rightarrow> string list \<Rightarrow> bool" where
  "at_component norm sep root orig past path put tr cs k names \<longleftrightarrow>
     kept norm sep root past path put tr k names \<and> length path = length orig \<and> cs \<le> length orig \<and> put \<le> cs \<and>
     drop cs path = drop cs orig \<and> cs = length root + length (segments sep past)"

lemma at_component_rest:
  assumes "at_component norm sep root orig past path put tr cs k names"
  shows "kept norm sep root past path put tr k names" "drop cs path = drop cs orig" "cs \<le> length path" "tr = 3 * k"
  using assms by (auto simp: at_component_def kept_def)

text \<open>Nothing was dropped from a path of which only parents are left: it had nothing else.\<close>

lemma ups_counted:
  "count_list (fold (simplify_component False) past st) ''..'' \<le> count_list st ''..'' + count_list past ''..''"
proof (induction past arbitrary: st)
  case (Cons c past)
  have "count_list (butlast st) ''..'' \<le> count_list st ''..''"
    by (cases st rule: rev_cases) simp_all
  then have "count_list (simplify_component False c st) ''..'' \<le> count_list st ''..'' + (if c = ''..'' then 1 else 0)"
    by (auto simp: simplify_component_def)
  then show ?case using Cons.IH [of "simplify_component False c st"] by auto
qed simp

lemma count_ups: "count_list (replicate k x) x = k"
  by (induction k) simp_all

lemma segments_count: "3 * count_list past ''..'' \<le> length (segments sep past)"
  by (induction past) auto

lemma only_ups: "length (segments sep past) \<le> 3 * count_list past ''..'' \<Longrightarrow> set past \<subseteq> {''..''}"
proof (induction past)
  case (Cons c past)
  then show ?case using segments_count [of past sep] by (cases "c = ''..''") auto
qed simp

lemma fold_ups: "set past \<subseteq> {''..''} \<Longrightarrow> fold (simplify_component False) past (replicate n ''..'') = replicate (n + length past) ''..''"
proof (induction past arbitrary: n)
  case (Cons c past)
  have "simplify_component False ''..'' (replicate n ''..'') = replicate (Suc n) ''..''"
    by (cases n) (simp_all add: simplify_component_def replicate_append_same)
  then show ?case using Cons.IH [of "Suc n"] Cons.prems by simp
qed simp

lemma dropped_unless_ups:
  assumes "at_component norm sep [] orig past path put tr cs k names"
  shows "names = [] \<and> put = cs \<longleftrightarrow> set past \<subseteq> {''..''}"
proof
  have f: "fold (simplify_component False) past [] = replicate k ''..'' @ names" "''..'' \<notin> set names"
    and p: "put = 3 * k + length (segments sep names)" "cs = length (segments sep past)"
    using assms kept_position(1) [of norm sep "[]" past path put tr k names] by (auto simp: at_component_def kept_def)
  show "set past \<subseteq> {''..''}" if "names = [] \<and> put = cs"
    using that f p ups_counted [of past "[]"] by (intro only_ups [of sep]) (auto simp: count_ups)
  assume "set past \<subseteq> {''..''}"
  then have "past = replicate (length past) ''..''"
    by (intro replicate_length_same [symmetric]) blast
  moreover have "replicate k ''..'' @ names = replicate (length past) ''..''"
    using f(1) fold_ups [of past 0] \<open>set past \<subseteq> {''..''}\<close> by simp
  moreover from this have "names = []"
    using f(2) by (metis append_is_Nil_conv in_set_replicate last_in_set last_appendR last_replicate replicate_empty)
  ultimately show "names = [] \<and> put = cs"
    using p by (metis append_Nil2 add.right_neutral length_replicate list.size(3) segments_simps(1) segments_ups)
qed

context path_syntax
begin

lemma kept_up:
  assumes "kept norm sep root past path put tr k names" "put + 2 < length path \<or> put \<noteq> tr"
    and size: "length path < 2 ^ 64"
  shows "\<exists>path' put' k' names'. remove_previous sep resolve path put tr = Inr (path', put', 3 * k') \<and>
    kept norm sep root (past @ [''..'']) path' put' (3 * k') k' names' \<and> length path' = length path \<and>
    put' \<le> put + 3 \<and> drop (put + 3) path' = drop (put + 3) path"
proof (cases "put = tr")
  case True
  with assms(2) have l: "put + 2 < length path" by blast
  let ?p = "path[put := CHR ''.'', put + 1 := CHR ''.'', put + 2 := sep]"
  have "root = []" "names = []" using True kept_position(2) [OF assms(1)] by auto
  have t: "take (put + 3) ?p = take put path @ [CHR ''.'', CHR ''.'', sep]"
    using l by (intro nth_equalityI) (auto simp: nth_list_update nth_append less_Suc_eq numeral_3_eq_3 numeral_2_eq_2)
  have u: "replicate (Suc k) ''..'' = replicate k ''..'' @ [''..'']" by (simp add: replicate_append_same)
  have "kept norm sep root (past @ [''..'']) ?p (put + 3) (3 * Suc k) (Suc k) []"
    using assms(1) l \<open>root = []\<close> \<open>names = []\<close> norm_sep norm_other [OF dot_is_no_sep] unfolding kept_def t u
    by (cases k) (auto simp: simplify_component_def)
  moreover have "put + 3 = 3 * Suc k"
    using kept_position(1) [OF assms(1)] \<open>root = []\<close> \<open>names = []\<close> by simp
  ultimately show ?thesis
    using True l by (intro exI [of _ ?p] exI [of _ "put + 3"] exI [of _ "Suc k"] exI [of _ "[]"])
      (simp add: remove_previous_def)
next
  case False
  then have r: "remove_previous sep resolve path put tr = Inr (path, resolve path put, 3 * k)"
    using assms(1) by (simp add: remove_previous_def kept_def)
  show ?thesis
  proof (cases names rule: rev_cases)
    case Nil
    then have "root \<noteq> []" using False kept_position(2) [OF assms(1)] by blast
    then have "resolve path put = put" using assms(1) Nil by (intro resolve_root) (auto simp: kept_def)
    then show ?thesis
      using r assms(1) Nil \<open>root \<noteq> []\<close>
      by (intro exI [of _ path] exI [of _ put] exI [of _ k] exI [of _ "[]"]) (auto simp: kept_def simplify_component_def)
  next
    case (snoc ns c)
    let ?put = "length root + length (segments sep (replicate k ''..'' @ ns))"
    have m: "map norm (take put path) = root @ segments sep ((replicate k ''..'' @ ns) @ [c])"
      and c: "c \<noteq> []" "sep \<notin> set c" "put \<le> length path" "c \<noteq> ''..''"
      using assms(1) snoc by (auto simp: kept_def)
    from resolve_name [OF size c(3) m c(1,2)] have p: "resolve path put = ?put" by simp
    have "?put \<le> put" using kept_position(1) [OF assms(1)] snoc by (simp add: segments_ups)
    then have "map norm (take ?put path) = take ?put (map norm (take put path))"
      by (simp add: take_map min_absorb1)
    then have t: "map norm (take ?put path) = root @ segments sep (replicate k ''..'' @ ns)"
      unfolding m by simp
    have "kept norm sep root (past @ [''..'']) path ?put (3 * k) k ns"
      using assms(1) snoc c t \<open>?put \<le> put\<close> unfolding kept_def by (auto simp: simplify_component_def butlast_append)
    then show ?thesis
      using r p \<open>?put \<le> put\<close> by (intro exI [of _ path] exI [of _ ?put] exI [of _ k] exI [of _ ns]) auto
  qed
qed

lemma name_without_sep: "\<forall>c \<in> set nm. \<not> is_sep c \<Longrightarrow> sep \<notin> set nm \<and> map norm nm = nm"
  using norm_sep norm_other by (auto simp: is_sep_norm intro: map_idI)

lemma component_step:
  assumes inv: "at_component norm sep root orig past path put tr cs k names"
    and d: "drop cs orig = nm @ x # rest" and nm: "\<forall>c \<in> set nm. \<not> is_sep c" and x: "is_sep x"
    and size: "length orig < 2 ^ 64"
  shows "\<exists>path' put' tr' k' names'.
    simplify_loop is_sep sep resolve path put cs tr cs =
      simplify_loop is_sep sep resolve path' put' (cs + length nm + 1) tr' (cs + length nm + 1) \<and>
    at_component norm sep root orig (past @ [nm]) path' put' tr' (cs + length nm + 1) k' names'"
proof -
  have kept: "kept norm sep root past path put tr k names" and cs: "cs \<le> length path" "put \<le> cs" "length path = length orig"
    and dp: "drop cs path = nm @ x # rest"
    using inv d by (auto simp: at_component_def)
  have len: "cs + length nm + 1 \<le> length orig"
    using nth_behind(1) [OF dp cs(1)] cs(3) by simp
  have at: "at_component norm sep root orig (past @ [nm]) path' put' tr' (cs + length nm + 1) k' names'"
    if "kept norm sep root (past @ [nm]) path' put' tr' k' names'" "length path' = length path" "put' \<le> cs + length nm + 1"
      "drop (cs + length nm + 1) path' = drop (cs + length nm + 1) path" for path' put' tr' k' names'
  proof -
    have "drop (cs + length nm + 1) path = drop (cs + length nm + 1) orig"
      using inv by (metis at_component_def add.commute drop_drop)
    then show ?thesis using that inv len cs by (auto simp: at_component_def)
  qed
  consider "nm = [] \<or> nm = ''.''" | "nm = ''..''" | "nm \<noteq> []" "nm \<noteq> ''.''" "nm \<noteq> ''..''" by blast
  then show ?thesis
  proof cases
    case 1
    then show ?thesis
      using loop_skip [where sep = sep and resolve = resolve and put = put and tr = tr, OF dp cs(1) x dot_is_no_sep]
        at [OF kept_skip [OF kept]] cs(2) by fastforce
  next
    case 2
    then have l: "cs + 2 < length path" using len cs(3) by simp
    with cs(2) have "put + 2 < length path" by linarith
    from kept_up [OF kept disjI1 [OF this]] size cs(3) obtain path' put' k' names' where up:
      "remove_previous sep resolve path put tr = Inr (path', put', 3 * k')"
      "kept norm sep root (past @ [''..'']) path' put' (3 * k') k' names'" "length path' = length path"
      "put' \<le> put + 3" "drop (put + 3) path' = drop (put + 3) path" by auto
    have "drop (cs + 3) path' = drop (cs + 3) path"
      using up(5) cs(2) by (metis add_le_mono1 drop_drop le_add_diff_inverse2)
    then show ?thesis
      using 2 up cs(2) at [of path' put' "3 * k'" k' names']
        loop_up [where sep = sep and resolve = resolve and put = put and tr = tr, OF dp [unfolded 2] cs(1) x dot_is_no_sep]
      by (intro exI [of _ path'] exI [of _ put'] exI [of _ "3 * k'"] exI [of _ k'] exI [of _ names']) (simp add: numeral_3_eq_3)
  next
    case 3
    let ?n = "length nm + 1"
    let ?p = "take put path @ take ?n (drop cs path) @ drop (put + ?n) path"
    have "cs + ?n \<le> length path" using len cs(3) by simp
    note m = moved [OF cs(2) this]
    have "take ?n (drop cs path) = nm @ [x]" by (simp add: dp)
    moreover have "norm x = sep" using x by (simp add: is_sep_norm)
    ultimately have "map norm (take (put + ?n) ?p) = map norm (take put path) @ nm @ [sep]"
      using m(3) name_without_sep [OF nm] by simp
    moreover have "put + length nm + 1 \<le> length ?p" using m(2) len cs by simp
    ultimately have "kept norm sep root (past @ [nm]) ?p (put + length nm + 1) tr k (names @ [nm])"
      using 3 name_without_sep [OF nm] by (intro kept_name [OF kept]) (auto simp only: add.assoc)
    then show ?thesis
      using m cs(2) at [of ?p "put + length nm + 1" tr k "names @ [nm]"]
        loop_name [where sep = sep and resolve = resolve and put = put and tr = tr, OF dp cs(1) x nm 3]
      by (intro exI [of _ ?p] exI [of _ "put + length nm + 1"] exI [of _ tr] exI [of _ k] exI [of _ "names @ [nm]"])
        (simp add: add.assoc)
  qed
qed

lemma loop_result:
  assumes size: "length orig < 2 ^ 64" and "at_component norm sep root orig past path put tr cs k names"
  shows "\<exists>path' put' cs' k' names'.
    simplify_loop is_sep sep resolve path put cs tr cs = Some (Inr (path', put', 3 * k', cs')) \<and>
    at_component norm sep root orig (past @ butlast (components is_sep (drop cs orig))) path' put' (3 * k') cs' k' names' \<and>
    drop cs' orig = last (components is_sep (drop cs orig)) \<and> (\<forall>c \<in> set (drop cs' orig). \<not> is_sep c)"
  using assms(2)
proof (induction "length orig - cs" arbitrary: past path put tr cs k names rule: less_induct)
  case less
  note inv = less.prems
  show ?case
  proof (cases "drop cs orig" rule: components_cases [of is_sep])
    case last
    note at_component_rest [OF inv]
    moreover from this last(2) have "simplify_loop is_sep sep resolve path put cs tr cs = Some (Inr (path, put, tr, cs))"
      by (intro loop_last) simp_all
    ultimately show ?thesis
      using inv last by (intro exI [of _ path] exI [of _ put] exI [of _ cs] exI [of _ k] exI [of _ names]) simp
  next
    case (more nm x rest)
    from component_step [OF inv more(1-3) size] obtain path' put' tr' k' names' where step:
      "simplify_loop is_sep sep resolve path put cs tr cs =
        simplify_loop is_sep sep resolve path' put' (cs + length nm + 1) tr' (cs + length nm + 1)"
      "at_component norm sep root orig (past @ [nm]) path' put' tr' (cs + length nm + 1) k' names'" by blast
    have r: "drop (cs + length nm + 1) orig = rest"
      using drop_more [of cs orig "nm @ [x]" rest] more(1) by simp
    have "components is_sep rest \<noteq> []" by (cases rest) simp_all
    moreover have "cs < length orig" using more(1) by (cases "cs < length orig") simp_all
    ultimately show ?thesis
      using less.hyps [OF _ step(2), unfolded r] more(4) by (simp add: step(1))
  qed
qed

lemma trim_kept:
  assumes "kept norm sep root past path put tr k names"
  shows "\<exists>r. trim_path is_sep path put = Inr r \<and> map norm r = printed sep root (replicate k ''..'' @ names)"
proof -
  let ?p = "root @ segments sep (replicate k ''..'' @ names)"
  have p: "map norm (take put path) = ?p" "put \<le> length path" using assms by (auto simp: kept_def)
  then have l: "length ?p = put" by (metis length_map length_take min.absorb2)
  consider "put = 0" | "put = 1" | "2 \<le> put" by linarith
  then show ?thesis
  proof cases
    case 1
    then show ?thesis
      using l norm_other [OF dot_is_no_sep] by (simp add: trim_path_def printed_def)
  next
    case 2
    then show ?thesis using l p by (auto simp: trim_path_def printed_def Let_def)
  next
    case 3
    have "last ?p = sep"
    proof (cases "replicate k ''..'' @ names" rule: rev_cases)
      case Nil
      then show ?thesis using 3 l root_ends by (cases "root = []") auto
    next
      case (snoc st c)
      then show ?thesis by simp
    qed
    moreover have "take put path \<noteq> []" using 3 p(2) by auto
    then have "last (map norm (take put path)) = norm (path ! (put - 1))"
      using 3 p(2) by (simp add: last_map last_of_take)
    ultimately have "is_sep (path ! (put - 1))" unfolding p(1) by (simp only: is_sep_norm)
    moreover have "put - 1 < length path" using 3 p(2) by linarith
    ultimately have "trim_path is_sep path put = Inr (take (put - 1) path)"
      using 3 by (simp add: trim_path_def char_at_def)
    moreover have "map norm (take (put - 1) path) = butlast ?p"
      using p by (metis butlast_take map_butlast)
    ultimately show ?thesis using 3 l by (auto simp: printed_def Let_def)
  qed
qed

lemma named_end:
  assumes inv: "at_component norm sep root orig past path put tr cs k names" and "length orig < 2 ^ 64"
    and l: "drop cs orig = nm" "\<forall>c \<in> set nm. \<not> is_sep c" "nm \<noteq> []" "nm \<noteq> ''.''" "nm \<noteq> ''..''"
  shows "\<exists>path' put' r. last_component sep resolve path put tr cs = Inr (path', put') \<and> trim_path is_sep path' put' = Inr r \<and>
    map norm r = printed sep root (replicate k ''..'' @ names @ [nm])"
proof -
  let ?p = "take put path @ take (length nm) (drop cs path) @ drop (put + length nm) path"
  have cs: "put \<le> cs" "length path = length orig" "cs + length nm = length path" "drop cs path = nm"
    using inv arg_cong [OF l(1), of length] l(1) by (auto simp: at_component_def)
  note m = moved [OF cs(1) eq_refl [OF cs(3)]]
  have "size_minus (length path) cs = length nm" "size_plus put (length nm) = put + length nm"
    using cs assms(2) by (simp_all add: size_within)
  then have last: "last_component sep resolve path put tr cs = Inr (?p, put + length nm)"
    using l(3-5) m(1) by (simp add: last_component_def Let_def cs(4))
  have t: "take (put + length nm) ?p = take put path @ nm" using m(3) cs(4) by simp
  have "map norm (take put path @ nm) = butlast (root @ segments sep (replicate k ''..'' @ names @ [nm]))"
    using inv name_without_sep [OF l(2)] by (simp add: at_component_def kept_def butlast_append)
  moreover have "trim_path is_sep ?p (put + length nm) = Inr (take put path @ nm)"
  proof -
    have e: "put + length nm - 1 < length ?p" "put + length nm \<noteq> 0" using m(2) cs l(3) by auto
    have "?p ! (put + length nm - 1) = last (take (put + length nm) ?p)"
      using e by (intro last_of_take [symmetric]) linarith+
    also have "\<dots> = last nm" unfolding t using l(3) by simp
    finally have "\<not> is_sep (?p ! (put + length nm - 1))" using l(2,3) by simp
    then show ?thesis using e t by (simp only: trim_path_def char_at_def if_True if_False bindR_Inr) simp
  qed
  ultimately show ?thesis
    using last l(3) by (intro exI [of _ ?p] exI [of _ "put + length nm"] exI [of _ "take put path @ nm"])
      (simp add: printed_def Let_def)
qed

lemma elided_end:
  assumes inv: "at_component norm sep root orig past path put tr cs k names" and "length orig < 2 ^ 64"
    and l: "drop cs orig = nm" "nm = [] \<or> nm = ''.''"
  shows "\<exists>r. last_component sep resolve path put tr cs = Inr (path, put) \<and> trim_path is_sep path put = Inr r \<and>
    map norm r = printed sep root (replicate k ''..'' @ names)"
proof -
  have cs: "put \<le> length orig" "cs + length nm = length path" "drop cs path = nm" "length path = length orig"
    using inv arg_cong [OF l(1), of length] l(1) by (auto simp: at_component_def)
  then have "size_minus (length path) cs = length nm" "size_plus put 0 = put"
    using assms(2) by (simp_all add: size_within)
  then have "last_component sep resolve path put tr cs = Inr (path, put)"
    using l(2) by (auto simp: last_component_def Let_def cs(3))
  then show ?thesis using trim_kept [OF at_component_rest(1) [OF inv]] by simp
qed

lemma parent_end:
  assumes inv: "at_component norm sep root orig past path put tr cs k names" and "length orig < 2 ^ 64"
    and l: "drop cs orig = ''..''"
  shows "if root = [] \<and> set past \<subseteq> {''..''} then last_component sep resolve path put tr cs = Inl Undefined
    else \<exists>path' put' r. last_component sep resolve path put tr cs = Inr (path', put') \<and> trim_path is_sep path' put' = Inr r \<and>
      map norm r = printed sep root (fold (simplify_component (root \<noteq> [])) (past @ [''..'']) [])"
proof -
  have cs: "put \<le> cs" "cs + 2 = length path" "drop cs path = ''..''" "length path = length orig"
    using inv arg_cong [OF l, of length] l by (auto simp: at_component_def)
  have kept: "kept norm sep root past path put tr k names" by (rule at_component_rest(1) [OF inv])
  have "size_minus (length path) cs = 2" using cs assms(2) by (simp add: size_within)
  then have last: "last_component sep resolve path put tr cs =
      bindR (remove_previous sep resolve path put tr) (\<lambda>(path, put, _). Inr (path, put))"
    by (simp add: last_component_def Let_def cs(3))
  have u: "root = [] \<and> set past \<subseteq> {''..''} \<longleftrightarrow> put = tr \<and> \<not> put + 2 < length path"
    using dropped_unless_ups inv kept_position(2) [OF kept] cs(1,2) by (cases "root = []") fastforce+
  show ?thesis
  proof (cases "root = [] \<and> set past \<subseteq> {''..''}")
    case True
    then show ?thesis using u last by (auto simp: remove_previous_def)
  next
    case False
    with u have "put + 2 < length path \<or> put \<noteq> tr" by blast
    from kept_up [OF kept this] assms(2) cs(4) obtain path' put' k' names' where up:
      "remove_previous sep resolve path put tr = Inr (path', put', 3 * k')"
      "kept norm sep root (past @ [''..'']) path' put' (3 * k') k' names'" by auto
    then have "fold (simplify_component (root \<noteq> [])) (past @ [''..'']) [] = replicate k' ''..'' @ names'"
      unfolding kept_def by blast
    then show ?thesis using False last up(1) trim_kept [OF up(2)] by auto
  qed
qed

lemma simplify_result:
  assumes "length orig < 2 ^ 64" "map norm (take (length root) orig) = root"
  defines "parts \<equiv> components is_sep (drop (length root) orig)"
  shows "\<exists>R. simplify_with is_sep sep resolve (length root) orig = Some R \<and>
    map_sum id (map norm) R = (if root = [] \<and> set parts = {''..''} then Inl Undefined
      else Inr (printed sep root (fold (simplify_component (root \<noteq> [])) parts [])))"
proof -
  have "length root \<le> length orig" using arg_cong [OF assms(2), of length] by simp
  then have "at_component norm sep root orig [] orig (length root) 0 (length root) 0 []"
    using assms(2) by (simp add: at_component_def kept_def)
  from loop_result [OF assms(1) this] obtain path put cs k names where loop:
    "simplify_loop is_sep sep resolve orig (length root) (length root) 0 (length root) = Some (Inr (path, put, 3 * k, cs))"
    "at_component norm sep root orig (butlast parts) path put (3 * k) cs k names"
    "drop cs orig = last parts" "\<forall>c \<in> set (drop cs orig). \<not> is_sep c"
    unfolding parts_def by auto
  define nm where "nm = last parts"
  have "parts \<noteq> []" by (cases "drop (length root) orig") (simp_all add: parts_def)
  then have parts: "parts = butlast parts @ [nm]" unfolding nm_def by simp
  have st: "fold (simplify_component (root \<noteq> [])) (butlast parts) [] = replicate k ''..'' @ names"
    using loop(2) by (simp add: at_component_def kept_def)
  have f: "fold (simplify_component (root \<noteq> [])) parts [] = simplify_component (root \<noteq> []) nm (replicate k ''..'' @ names)"
    by (subst parts) (simp add: st)
  have with_end: "simplify_with is_sep sep resolve (length root) orig = Some
      (bindR (last_component sep resolve path put (3 * k) cs) (\<lambda>(path, put). trim_path is_sep path put))"
    by (simp add: simplify_with_def loop(1))
  have ups: "set parts = {''..''} \<longleftrightarrow> nm = ''..'' \<and> set (butlast parts) \<subseteq> {''..''}"
    by (subst parts) auto
  have l: "drop cs orig = nm" "\<forall>c \<in> set nm. \<not> is_sep c" using loop(3,4) by (simp_all add: nm_def)
  consider "nm = [] \<or> nm = ''.''" | "nm = ''..''" | "nm \<noteq> []" "nm \<noteq> ''.''" "nm \<noteq> ''..''" by blast
  then show ?thesis
  proof cases
    case 1
    from elided_end [OF loop(2) assms(1) l(1) 1] obtain r where
      "last_component sep resolve path put (3 * k) cs = Inr (path, put)" "trim_path is_sep path put = Inr r"
      "map norm r = printed sep root (replicate k ''..'' @ names)" by blast
    moreover have "simplify_component (root \<noteq> []) nm (replicate k ''..'' @ names) = replicate k ''..'' @ names"
      using 1 by (auto simp: simplify_component_def)
    moreover have "nm \<noteq> ''..''" using 1 by auto
    ultimately show ?thesis by (simp add: with_end ups f)
  next
    case 2
    note e = parent_end [OF loop(2) assms(1) l(1) [unfolded 2]]
    have f': "fold (simplify_component (root \<noteq> [])) (butlast parts @ [''..'']) [] = fold (simplify_component (root \<noteq> [])) parts []"
      using parts 2 by simp
    show ?thesis
    proof (cases "root = [] \<and> set (butlast parts) \<subseteq> {''..''}")
      case True
      with e have "last_component sep resolve path put (3 * k) cs = Inl Undefined" by simp
      then show ?thesis using True 2 unfolding with_end ups by simp
    next
      case False
      with e obtain path' put' r where "last_component sep resolve path put (3 * k) cs = Inr (path', put')"
        "trim_path is_sep path' put' = Inr r"
        "map norm r = printed sep root (fold (simplify_component (root \<noteq> [])) parts [])"
        unfolding if_not_P [OF False] f' by blast
      then show ?thesis using False 2 by (simp add: with_end ups)
    qed
  next
    case 3
    from named_end [OF loop(2) assms(1) l 3] obtain path' put' r where
      "last_component sep resolve path put (3 * k) cs = Inr (path', put')" "trim_path is_sep path' put' = Inr r"
      "map norm r = printed sep root (replicate k ''..'' @ names @ [nm])" by blast
    moreover have "simplify_component (root \<noteq> []) nm (replicate k ''..'' @ names) = replicate k ''..'' @ names @ [nm]"
      using 3 by (simp add: simplify_component_def)
    ultimately show ?thesis using 3 by (simp only: with_end ups f) simp
  qed
qed

end

section \<open>The two platforms\<close>

lemma map_norm_sep: "map norm s = A @ [sep] @ B \<Longrightarrow> is_sep = (\<lambda>c. norm c = sep) \<Longrightarrow> sep \<notin> set B \<Longrightarrow> find_last is_sep i s found = Some (i + length A)"
proof -
  assume s: "map norm s = A @ [sep] @ B" "is_sep = (\<lambda>c. norm c = sep)" "sep \<notin> set B"
  then obtain a x b where "s = a @ [x] @ b" "map norm a = A" "norm x = sep" "map norm b = B"
    by (auto simp: map_eq_append_conv map_eq_Cons_conv)
  moreover from this s(3) have "\<forall>c \<in> set b. norm c \<noteq> sep" by (metis image_eqI set_map)
  moreover have "length a = length A" using calculation(2) by auto
  ultimately show "find_last is_sep i s found = Some (i + length A)"
    by (simp add: s(2) find_last_append find_last_none)
qed

text \<open>The separator before the name that ends at \<open>put\<close>, if there is one.\<close>

lemma last_from_name:
  assumes "put \<le> length path" "map norm (take put path) = root @ segments sep (st @ [nm])" "nm \<noteq> []" "sep \<notin> set nm"
    and "root \<noteq> [] \<Longrightarrow> last root = sep"
  shows "last_from (\<lambda>c. norm c = sep) path (put - 2) =
      (if root = [] \<and> st = [] then None else Some (length root + length (segments sep st) - 1))"
    and "2 \<le> put"
proof -
  have l: "put = length root + length (segments sep st) + length nm + 1"
    using arg_cong [OF assms(2), of length] assms(1) by simp
  then show "2 \<le> put" using assms(3) by (cases nm) auto
  then have "Suc (put - 2) = put - 1" by linarith
  moreover have "map norm (take (put - 1) path) = butlast (map norm (take put path))"
    using assms(1) by (simp add: butlast_take map_butlast [symmetric])
  ultimately have t: "map norm (take (Suc (put - 2)) path) = root @ segments sep st @ nm"
    unfolding assms(2) by (simp add: butlast_append)
  show "last_from (\<lambda>c. norm c = sep) path (put - 2) =
      (if root = [] \<and> st = [] then None else Some (length root + length (segments sep st) - 1))"
  proof (cases "root = [] \<and> st = []")
    case True
    then have "sep \<notin> norm ` set (take (Suc (put - 2)) path)" using t assms(4) by (metis append_Nil segments_simps(1) set_map)
    then show ?thesis using True by (auto simp: last_from_def intro!: find_last_none)
  next
    case False
    let ?w = "root @ segments sep st"
    have "?w \<noteq> [] \<and> last ?w = sep"
      using False assms(5) by (cases st rule: rev_cases) auto
    then have "?w = butlast ?w @ [sep]" by (metis append_butlast_last_id)
    then have "map norm (take (Suc (put - 2)) path) = butlast ?w @ [sep] @ nm" using t by (metis append.assoc)
    from map_norm_sep [OF this refl assms(4)] show ?thesis
      using False by (simp add: last_from_def del: butlast_append)
  qed
qed

interpretation posix: path_syntax id "\<lambda>c. c = CHR ''/''" "CHR ''/''" posix_ResolveParentDirectoryTraversal
  "if rooted then ''/'' else []" for rooted
proof unfold_locales
  fix put :: nat and path st nm
  let ?root = "if rooted then ''/'' else []"
  assume "length path < 2 ^ 64"
    and a: "put \<le> length path" "map id (take put path) = ?root @ segments (CHR ''/'') (st @ [nm])" "nm \<noteq> []" "CHR ''/'' \<notin> set nm"
  have "?root \<noteq> [] \<Longrightarrow> last ?root = CHR ''/''" by (cases rooted) simp_all
  note l = last_from_name [OF a this]
  show "posix_ResolveParentDirectoryTraversal path put = length ?root + length (segments (CHR ''/'') st)"
    using l by (cases st rule: rev_cases) (auto simp: posix_ResolveParentDirectoryTraversal_def)
next
  fix put :: nat and path :: string
  assume "(if rooted then ''/'' else []) \<noteq> []" "put \<le> length path" "map id (take put path) = (if rooted then ''/'' else [])"
  then have "put = 1" "path ! 0 = CHR ''/''"
    by (cases path; cases put; auto split: if_splits)+
  then show "posix_ResolveParentDirectoryTraversal path put = put"
    by (simp add: posix_ResolveParentDirectoryTraversal_def)
qed auto

text \<open>Any root that ends in a separator is one of Windows.\<close>

definition win_root :: "string option \<Rightarrow> string" where
  "win_root r = (case r of None \<Rightarrow> [] | Some s \<Rightarrow> s @ [CHR 0x5C])"

lemma IsSeparator_turn: "IsSeparator = (\<lambda>c. turn_separator c = CHR 0x5C)"
  by (auto simp: IsSeparator_def turn_separator_def)

interpretation win: path_syntax turn_separator IsSeparator "CHR 0x5C" "win_ResolveParentDirectoryTraversal (length (win_root r))"
  "win_root r" for r
proof unfold_locales
  fix put :: nat and path st nm
  assume size: "length path < 2 ^ 64"
    and a: "put \<le> length path" "map turn_separator (take put path) = win_root r @ segments (CHR 0x5C) (st @ [nm])" "nm \<noteq> []"
    "CHR 0x5C \<notin> set nm"
  have "win_root r \<noteq> [] \<Longrightarrow> last (win_root r) = CHR 0x5C" by (auto simp: win_root_def split: option.splits)
  note l = last_from_name [OF a this]
  have "put > length (win_root r)" using arg_cong [OF a(2), of length] a(1) by simp
  moreover have "size_minus put 2 = put - 2" using l(2) a(1) size by (intro size_within) linarith+
  ultimately show "win_ResolveParentDirectoryTraversal (length (win_root r)) path put =
      length (win_root r) + length (segments (CHR 0x5C) st)"
    using l by (cases st rule: rev_cases) (auto simp: win_ResolveParentDirectoryTraversal_def IsSeparator_turn Suc_diff_1)
next
  fix put :: nat and path :: string
  assume "put \<le> length path" "map turn_separator (take put path) = win_root r"
  then have "put = length (win_root r)" by (metis length_map length_take min.absorb2)
  then show "win_ResolveParentDirectoryTraversal (length (win_root r)) path put = put"
    by (simp add: win_ResolveParentDirectoryTraversal_def)
qed (auto simp: IsSeparator_def turn_separator_def win_root_def split: option.splits)

text \<open>What the code is to compute on each platform; on Windows the first \<open>n\<close> characters are the root.\<close>

definition posix_simplified :: "string \<Rightarrow> string" where
  "posix_simplified path =
     (let rooted = path \<noteq> [] \<and> hd path = CHR ''/''
      in printed (CHR ''/'') (if rooted then ''/'' else [])
           (fold (simplify_component rooted) (components (\<lambda>c. c = CHR ''/'') path) []))"

definition win_simplified :: "nat \<Rightarrow> string \<Rightarrow> string" where
  "win_simplified n path =
     printed (CHR 0x5C) (map turn_separator (take n path))
       (fold (simplify_component (n \<noteq> 0)) (components IsSeparator (drop n path)) [])"

lemma posix_result:
  assumes "length path < 2 ^ 64"
  shows "posix_SimplifyPath path =
    Some (if set (components (\<lambda>c. c = CHR ''/'') path) = {''..''} then Inl Undefined else Inr (posix_simplified path))"
proof (cases "path = []")
  case True
  then show ?thesis
    by (simp add: posix_SimplifyPath_def posix_simplified_def printed_def simplify_component_def)
next
  case False
  let ?rooted = "hd path = CHR ''/''"
  let ?root = "if ?rooted then ''/'' else []"
  have r: "length ?root = (if path ! 0 = CHR ''/'' then 1 else 0)" "map id (take (length ?root) path) = ?root"
    using False by (auto simp: hd_conv_nth neq_Nil_conv)
  have c: "components (\<lambda>c. c = CHR ''/'') path =
      (if ?rooted then [[]] else []) @ components (\<lambda>c. c = CHR ''/'') (drop (length ?root) path)"
    using False by (cases path) auto
  let ?parts = "components (\<lambda>c. c = CHR ''/'') (drop (length ?root) path)"
  have ups: "set (components (\<lambda>c. c = CHR ''/'') path) = {''..''} \<longleftrightarrow> ?root = [] \<and> set ?parts = {''..''}"
    unfolding c by auto
  have f: "fold (simplify_component ?rooted) (components (\<lambda>c. c = CHR ''/'') path) [] = fold (simplify_component (?root \<noteq> [])) ?parts []"
    unfolding c by (simp add: simplify_component_def)
  from posix.simplify_result [OF assms r(2)] obtain R where R:
    "simplify_with (\<lambda>c. c = CHR ''/'') (CHR ''/'') posix_ResolveParentDirectoryTraversal (length ?root) path = Some R"
    "map_sum id (map id) R = (if ?root = [] \<and> set ?parts = {''..''} then Inl Undefined
      else Inr (printed (CHR ''/'') ?root (fold (simplify_component (?root \<noteq> [])) ?parts [])))" by blast
  have "map_sum id (map id) R = R" by (cases R) simp_all
  moreover have "posix_SimplifyPath path = Some R"
    using False R(1) unfolding r(1) by (simp add: posix_SimplifyPath_def)
  moreover have "posix_simplified path = printed (CHR ''/'') ?root (fold (simplify_component (?root \<noteq> [])) ?parts [])"
    unfolding posix_simplified_def Let_def f [symmetric] using False by simp
  ultimately show ?thesis unfolding ups using R(2) by simp
qed

lemma win_result:
  assumes "length path < 2 ^ 64" "path \<noteq> []" "RootLength path = Inr (word_of_nat n)" "n \<le> length path"
    and "n \<noteq> 0 \<Longrightarrow> IsSeparator (path ! (n - 1))"
  shows "win_SimplifyPath path =
    Some (if n = 0 \<and> set (components IsSeparator path) = {''..''} then Inl Undefined else Inr (win_simplified n path))"
proof -
  let ?r = "if n = 0 then None else Some (map turn_separator (take (n - 1) path))"
  have u: "unat (word_of_nat n :: 64 word) = n"
    using assms(1,4) by (simp add: unat_of_nat take_bit_nat_eq_self)
  have t: "map turn_separator (take n path) = win_root ?r"
  proof (cases n)
    case (Suc m)
    then show ?thesis
      using assms(4,5) by (simp add: win_root_def take_Suc_conv_app_nth IsSeparator_turn)
  qed (simp add: win_root_def)
  then have l: "length (win_root ?r) = n" using assms(4) by (metis length_map length_take min.absorb2)
  have "win_root ?r = [] \<longleftrightarrow> n = 0" using l by auto
  with win.simplify_result [of path ?r, unfolded l, OF assms(1) t] obtain R where R:
    "simplify_with IsSeparator (CHR 0x5C) (win_ResolveParentDirectoryTraversal n) n path = Some R"
    "map_sum id (map turn_separator) R = (if n = 0 \<and> set (components IsSeparator (drop n path)) = {''..''} then Inl Undefined
      else Inr (printed (CHR 0x5C) (win_root ?r) (fold (simplify_component (n \<noteq> 0)) (components IsSeparator (drop n path)) [])))"
    by (elim exE conjE) (rule that; simp only: simp_thms)
  have "win_SimplifyPath path = Some (map_sum id (map turn_separator) R)"
    using assms(2,3) R(1) by (simp add: win_SimplifyPath_def u)
  then show ?thesis unfolding R(2) win_simplified_def t by (cases "n = 0") simp_all
qed

lemma root_without_share:
  assumes "take 2 path \<noteq> [CHR 0x5C, CHR 0x5C]"
  obtains n where "RootLength path = Inr (word_of_nat n)" "n \<le> length path" "n \<noteq> 0 \<Longrightarrow> IsSeparator (path ! (n - 1))"
proof -
  consider "path = []" | c where "path = [c]" | c d r where "path = c # d # r" by (metis neq_Nil_conv)
  then show thesis
  proof cases
    case 1
    then show ?thesis using that [of 0] by (simp add: RootLength_def)
  next
    case 2
    then show ?thesis using that [of 0] that [of 1] by (cases "IsSeparator c") (auto simp: RootLength_def IsSeparator_def)
  next
    case 3
    show ?thesis
    proof (cases "IsSeparator c")
      case True
      then show ?thesis using 3 assms that [of 1] by (auto simp: RootLength_def IsSeparator_def numeral_2_eq_2)
    next
      case False
      show ?thesis
      proof (cases "d = CHR '':'' \<and> is_letter c \<and> r \<noteq> [] \<and> IsSeparator (hd r)")
        case True
        then show ?thesis
          using 3 False that [of 3] by (auto simp: RootLength_def IsSeparator_def char_at_def neq_Nil_conv numeral_2_eq_2 numeral_3_eq_3)
      next
        case no_drive: False
        then have "RootLength path = Inr 0"
          using 3 False by (cases r) (auto simp: RootLength_def IsSeparator_def char_at_def numeral_2_eq_2)
        then show ?thesis using that [of 0] by simp
      qed
    qed
  qed
qed

text \<open>
  C40: simplifying a path in place ends and computes the fold over its components: empty ones and dots are dropped, a
  parent takes the name before it away or, in a relative path, is kept in front, and nothing is above the root. On
  Windows this holds for every path that is no network share, with either separator. The exception are the paths
  that are nothing but parents, such as \<open>..\<close>: there the code writes over the terminator of the string.
\<close>

theorem simplify_path_normalises:
  assumes "length path < 2 ^ 64"
  shows "posix_SimplifyPath path =
      Some (if set (components (\<lambda>c. c = CHR ''/'') path) = {''..''} then Inl Undefined else Inr (posix_simplified path)) \<and>
    (take 2 path \<noteq> [CHR 0x5C, CHR 0x5C] \<longrightarrow>
      (\<exists>n. RootLength path = Inr (word_of_nat n) \<and> n \<le> length path \<and> win_SimplifyPath path =
        Some (if n = 0 \<and> set (components IsSeparator path) = {''..''} then Inl Undefined else Inr (win_simplified n path))))"
proof -
  have "\<exists>n. RootLength path = Inr (word_of_nat n) \<and> n \<le> length path \<and> win_SimplifyPath path =
      Some (if n = 0 \<and> set (components IsSeparator path) = {''..''} then Inl Undefined else Inr (win_simplified n path))"
    if "take 2 path \<noteq> [CHR 0x5C, CHR 0x5C]"
  proof (cases "path = []")
    case True
    then show ?thesis
      by (intro exI [of _ 0])
        (simp add: RootLength_def win_SimplifyPath_def win_simplified_def printed_def simplify_component_def)
  next
    case False
    from root_without_share [OF that] obtain n where "RootLength path = Inr (word_of_nat n)" "n \<le> length path"
      "n \<noteq> 0 \<Longrightarrow> IsSeparator (path ! (n - 1))" by metis
    with win_result [OF assms False] show ?thesis by blast
  qed
  then show ?thesis using posix_result [OF assms] by blast
qed

theorem simplify_path_normalises_witness:
  "posix_SimplifyPath ''a/../.././b//c/'' = Some (Inr ''../b/c'') \<and> posix_SimplifyPath ''/a/../../b'' = Some (Inr ''/b'') \<and>
   (\<exists>n. RootLength ''C:/a/../../b'' = Inr (word_of_nat n) \<and> win_SimplifyPath ''C:/a/../../b'' = Some (Inr (win_simplified n ''C:/a/../../b'')))"
proof -
  have p: "posix_simplified ''a/../.././b//c/'' = ''../b/c''" "posix_simplified ''/a/../../b'' = ''/b''"
    by code_simp+
  have c: "''b'' \<in> set (components (\<lambda>c. c = CHR ''/'') ''a/../.././b//c/'')"
    "''b'' \<in> set (components (\<lambda>c. c = CHR ''/'') ''/a/../../b'')" "''b'' \<in> set (components IsSeparator ''C:/a/../../b'')"
    by code_simp+
  then have "set (components (\<lambda>c. c = CHR ''/'') ''a/../.././b//c/'') \<noteq> {''..''}"
    "set (components (\<lambda>c. c = CHR ''/'') ''/a/../../b'') \<noteq> {''..''}" "set (components IsSeparator ''C:/a/../../b'') \<noteq> {''..''}"
    by force+
  then show ?thesis
    using simplify_path_normalises [of "''a/../.././b//c/''"] simplify_path_normalises [of "''/a/../../b''"]
      simplify_path_normalises [of "''C:/a/../../b''"] by (auto simp: p)
qed

section \<open>Where it goes wrong\<close>

text \<open>The unit tests expect \<open>..\<close> here, which the overwritten terminator happens to give.\<close>

theorem parent_overwrites_terminator:
  "posix_SimplifyPath ''..'' = Some (Inl Undefined) \<and> posix_SimplifyPath ''../..'' = Some (Inl Undefined)"
proof -
  have "set (components (\<lambda>c. c = CHR ''/'') ''..'') = {''..''}" "set (components (\<lambda>c. c = CHR ''/'') ''../..'') = {''..''}"
    by code_simp+
  then show ?thesis by (simp add: posix_result)
qed

text \<open>The separator behind the root of a network share is taken for an empty component.\<close>

theorem share_separator_is_lost:
  "win_SimplifyPath [CHR 0x5C, CHR 0x5C, CHR ''s'', CHR 0x5C, CHR ''h'', CHR 0x5C, CHR ''a''] =
     Some (Inr [CHR 0x5C, CHR 0x5C, CHR ''s'', CHR 0x5C, CHR ''h'', CHR ''a''])"
  by code_simp

text \<open>The root of a drive loses its separator, and then is the current directory of the drive.\<close>

theorem drive_root_is_trimmed: "win_SimplifyPath ''C:/'' = Some (Inr ''C:'')"
  by code_simp

end
