(* ===== verification/Fl_Value.thy ===== *)
theory Fl_Value
  imports Byte_Streams "HOL-Library.FSet"
begin

text \<open>
  \<open>shell/platform/linux/fl_value.cc\<close>: the values of the Linux embedder. A value is a tree (the code's
  objects with their payload; reference counts and sharing of mutable containers are not part of it), a
  map is the list of its entries (the arrays \<open>keys\<close> and \<open>values\<close>, which grow together), doubles and
  floats are bit patterns, strings are the bytes in front of the terminating NUL. A pointer that may be
  null is an option.
\<close>

section \<open>Values\<close>

datatype FlValue =
    FL_NULL
  | FL_BOOL bool
  | FL_INT "64 word"
  | FL_FLOAT "64 word"
  | FL_STRING "byte list"
  | FL_UINT8_LIST "byte list"
  | FL_INT32_LIST "32 word list"
  | FL_INT64_LIST "64 word list"
  | FL_FLOAT_LIST "64 word list"
  | FL_LIST "FlValue list"
  | FL_MAP "(FlValue \<times> FlValue) list"
  | FL_CUSTOM "32 word" nat
  | FL_FLOAT32_LIST "32 word list"

datatype FlValueType =
    TYPE_NULL | TYPE_BOOL | TYPE_INT | TYPE_FLOAT | TYPE_STRING | TYPE_UINT8_LIST | TYPE_INT32_LIST
  | TYPE_INT64_LIST | TYPE_FLOAT_LIST | TYPE_LIST | TYPE_MAP | TYPE_FLOAT32_LIST | TYPE_CUSTOM

fun value_type :: "FlValue \<Rightarrow> FlValueType" where
  "value_type FL_NULL = TYPE_NULL"
| "value_type (FL_BOOL _) = TYPE_BOOL"
| "value_type (FL_INT _) = TYPE_INT"
| "value_type (FL_FLOAT _) = TYPE_FLOAT"
| "value_type (FL_STRING _) = TYPE_STRING"
| "value_type (FL_UINT8_LIST _) = TYPE_UINT8_LIST"
| "value_type (FL_INT32_LIST _) = TYPE_INT32_LIST"
| "value_type (FL_INT64_LIST _) = TYPE_INT64_LIST"
| "value_type (FL_FLOAT_LIST _) = TYPE_FLOAT_LIST"
| "value_type (FL_LIST _) = TYPE_LIST"
| "value_type (FL_MAP _) = TYPE_MAP"
| "value_type (FL_CUSTOM _ _) = TYPE_CUSTOM"
| "value_type (FL_FLOAT32_LIST _) = TYPE_FLOAT32_LIST"

definition fl_value_get_type :: "FlValue option \<Rightarrow> FlValueType" where
  "fl_value_get_type self = (case self of None \<Rightarrow> TYPE_NULL | Some v \<Rightarrow> value_type v)"

section \<open>Constructors\<close>

text \<open>The bytes of a C string in front of its NUL.\<close>

definition c_string :: "byte list \<Rightarrow> byte list" where
  "c_string s = takeWhile (\<lambda>b. b \<noteq> 0) s"

definition fl_value_new_null :: FlValue where
  "fl_value_new_null = FL_NULL"

definition fl_value_new_bool :: "bool \<Rightarrow> FlValue" where
  "fl_value_new_bool value = FL_BOOL (if value then True else False)"

definition fl_value_new_int :: "64 word \<Rightarrow> FlValue" where
  "fl_value_new_int value = FL_INT value"

definition fl_value_new_float :: "64 word \<Rightarrow> FlValue" where
  "fl_value_new_float value = FL_FLOAT value"

definition fl_value_new_string :: "byte list \<Rightarrow> FlValue" where
  "fl_value_new_string value = FL_STRING (c_string value)"

definition fl_value_new_string_sized :: "byte list \<Rightarrow> nat \<Rightarrow> FlValue" where
  "fl_value_new_string_sized value value_length =
     FL_STRING (if value_length = 0 then [] else c_string (take value_length value))"

definition fl_value_new_uint8_list :: "byte list \<Rightarrow> nat \<Rightarrow> FlValue" where
  "fl_value_new_uint8_list data data_length = FL_UINT8_LIST (take data_length data)"

definition fl_value_new_uint8_list_from_bytes :: "byte list \<Rightarrow> FlValue" where
  "fl_value_new_uint8_list_from_bytes data = fl_value_new_uint8_list data (length data)"

definition fl_value_new_int32_list :: "32 word list \<Rightarrow> nat \<Rightarrow> FlValue" where
  "fl_value_new_int32_list data data_length = FL_INT32_LIST (take data_length data)"

definition fl_value_new_int64_list :: "64 word list \<Rightarrow> nat \<Rightarrow> FlValue" where
  "fl_value_new_int64_list data data_length = FL_INT64_LIST (take data_length data)"

definition fl_value_new_float32_list :: "32 word list \<Rightarrow> nat \<Rightarrow> FlValue" where
  "fl_value_new_float32_list data data_length = FL_FLOAT32_LIST (take data_length data)"

definition fl_value_new_float_list :: "64 word list \<Rightarrow> nat \<Rightarrow> FlValue" where
  "fl_value_new_float_list data data_length = FL_FLOAT_LIST (take data_length data)"

definition fl_value_new_list :: FlValue where
  "fl_value_new_list = FL_LIST []"

definition fl_value_new_map :: FlValue where
  "fl_value_new_map = FL_MAP []"

definition fl_value_new_custom :: "32 word \<Rightarrow> nat \<Rightarrow> FlValue" where
  "fl_value_new_custom type value = FL_CUSTOM type value"

section \<open>Accessors\<close>

text \<open>A failed \<open>g_return_val_if_fail\<close> returns the default.\<close>

definition fl_value_get_bool :: "FlValue option \<Rightarrow> bool" where
  "fl_value_get_bool self = (case self of Some (FL_BOOL b) \<Rightarrow> b | _ \<Rightarrow> False)"

definition fl_value_get_int :: "FlValue option \<Rightarrow> 64 word" where
  "fl_value_get_int self = (case self of Some (FL_INT i) \<Rightarrow> i | _ \<Rightarrow> 0)"

definition fl_value_get_float :: "FlValue option \<Rightarrow> 64 word" where
  "fl_value_get_float self = (case self of Some (FL_FLOAT d) \<Rightarrow> d | _ \<Rightarrow> 0)"

definition fl_value_get_string :: "FlValue option \<Rightarrow> byte list option" where
  "fl_value_get_string self = (case self of Some (FL_STRING s) \<Rightarrow> Some s | _ \<Rightarrow> None)"

definition fl_value_get_uint8_list :: "FlValue option \<Rightarrow> byte list option" where
  "fl_value_get_uint8_list self = (case self of Some (FL_UINT8_LIST xs) \<Rightarrow> Some xs | _ \<Rightarrow> None)"

definition fl_value_get_int32_list :: "FlValue option \<Rightarrow> 32 word list option" where
  "fl_value_get_int32_list self = (case self of Some (FL_INT32_LIST xs) \<Rightarrow> Some xs | _ \<Rightarrow> None)"

definition fl_value_get_int64_list :: "FlValue option \<Rightarrow> 64 word list option" where
  "fl_value_get_int64_list self = (case self of Some (FL_INT64_LIST xs) \<Rightarrow> Some xs | _ \<Rightarrow> None)"

definition fl_value_get_float32_list :: "FlValue option \<Rightarrow> 32 word list option" where
  "fl_value_get_float32_list self = (case self of Some (FL_FLOAT32_LIST xs) \<Rightarrow> Some xs | _ \<Rightarrow> None)"

definition fl_value_get_float_list :: "FlValue option \<Rightarrow> 64 word list option" where
  "fl_value_get_float_list self = (case self of Some (FL_FLOAT_LIST xs) \<Rightarrow> Some xs | _ \<Rightarrow> None)"

definition fl_value_get_length :: "FlValue option \<Rightarrow> nat" where
  "fl_value_get_length self =
     (case self of
        Some (FL_UINT8_LIST xs) \<Rightarrow> length xs
      | Some (FL_INT32_LIST xs) \<Rightarrow> length xs
      | Some (FL_INT64_LIST xs) \<Rightarrow> length xs
      | Some (FL_FLOAT32_LIST xs) \<Rightarrow> length xs
      | Some (FL_FLOAT_LIST xs) \<Rightarrow> length xs
      | Some (FL_LIST vs) \<Rightarrow> length vs
      | Some (FL_MAP m) \<Rightarrow> length m
      | _ \<Rightarrow> 0)"

text \<open>\<open>g_ptr_array_index\<close> does not check its index.\<close>

definition ptr_array_index :: "'a list \<Rightarrow> nat \<Rightarrow> 'a option res" where
  "ptr_array_index xs i = (if i < length xs then Inr (Some (xs ! i)) else Inl Undefined)"

definition fl_value_get_list_value :: "FlValue option \<Rightarrow> nat \<Rightarrow> FlValue option res" where
  "fl_value_get_list_value self index =
     (case self of Some (FL_LIST vs) \<Rightarrow> ptr_array_index vs index | _ \<Rightarrow> Inr None)"

definition fl_value_get_map_key :: "FlValue option \<Rightarrow> nat \<Rightarrow> FlValue option res" where
  "fl_value_get_map_key self index =
     (case self of Some (FL_MAP m) \<Rightarrow> ptr_array_index (map fst m) index | _ \<Rightarrow> Inr None)"

definition fl_value_get_map_value :: "FlValue option \<Rightarrow> nat \<Rightarrow> FlValue option res" where
  "fl_value_get_map_value self index =
     (case self of Some (FL_MAP m) \<Rightarrow> ptr_array_index (map snd m) index | _ \<Rightarrow> Inr None)"

definition fl_value_get_custom_type :: "FlValue option \<Rightarrow> 32 word" where
  "fl_value_get_custom_type self = (case self of Some (FL_CUSTOM type _) \<Rightarrow> type | _ \<Rightarrow> -1)"

definition fl_value_get_custom_value :: "FlValue option \<Rightarrow> nat option" where
  "fl_value_get_custom_value self = (case self of Some (FL_CUSTOM _ p) \<Rightarrow> Some p | _ \<Rightarrow> None)"

section \<open>Equality\<close>

text \<open>
  \<open>fl_value_equal\<close> on two values that are not null. \<open>entry_equal k v m\<close> is the body of its loop over the
  entries of a map: the lookup of \<open>k\<close> in \<open>m\<close> and the comparison of what it finds with \<open>v\<close>.
\<close>

function value_equal :: "FlValue \<Rightarrow> FlValue \<Rightarrow> bool"
and values_equal :: "FlValue list \<Rightarrow> FlValue list \<Rightarrow> bool"
and entries_equal :: "(FlValue \<times> FlValue) list \<Rightarrow> (FlValue \<times> FlValue) list \<Rightarrow> bool"
and entry_equal :: "FlValue \<Rightarrow> FlValue \<Rightarrow> (FlValue \<times> FlValue) list \<Rightarrow> bool"
where
  "value_equal a b =
     (case (a, b) of
        (FL_NULL, FL_NULL) \<Rightarrow> True
      | (FL_BOOL x, FL_BOOL y) \<Rightarrow> x = y
      | (FL_INT x, FL_INT y) \<Rightarrow> x = y
      | (FL_FLOAT x, FL_FLOAT y) \<Rightarrow> key_eq (double_key x) (double_key y)
      | (FL_STRING x, FL_STRING y) \<Rightarrow> x = y
      | (FL_UINT8_LIST xs, FL_UINT8_LIST ys) \<Rightarrow> xs = ys
      | (FL_INT32_LIST xs, FL_INT32_LIST ys) \<Rightarrow> xs = ys
      | (FL_INT64_LIST xs, FL_INT64_LIST ys) \<Rightarrow> xs = ys
      | (FL_FLOAT32_LIST xs, FL_FLOAT32_LIST ys) \<Rightarrow> list_all2 (\<lambda>x y. key_eq (float_key x) (float_key y)) xs ys
      | (FL_FLOAT_LIST xs, FL_FLOAT_LIST ys) \<Rightarrow> list_all2 (\<lambda>x y. key_eq (double_key x) (double_key y)) xs ys
      | (FL_LIST xs, FL_LIST ys) \<Rightarrow> length xs = length ys \<and> values_equal xs ys
      | (FL_MAP m, FL_MAP m') \<Rightarrow> length m = length m' \<and> entries_equal m m'
      | _ \<Rightarrow> False)"
| "values_equal [] ys = True"
| "values_equal (x # xs) [] = True"
| "values_equal (x # xs) (y # ys) = (value_equal x y \<and> values_equal xs ys)"
| "entries_equal [] m' = True"
| "entries_equal ((k, v) # m) m' = (entry_equal k v m' \<and> entries_equal m m')"
| "entry_equal k v [] = False"
| "entry_equal k v ((k', v') # m') = (if value_equal k' k then value_equal v v' else entry_equal k v m')"
  by pat_completeness auto
termination
  by (relation "measure (\<lambda>x. case x of
      Inl (Inl (v, w)) \<Rightarrow> size v + size w
    | Inl (Inr (xs, ys)) \<Rightarrow> Suc (size_list size xs + size_list size ys)
    | Inr (Inl (xs, ys)) \<Rightarrow> Suc (size_list (size_prod size size) xs + size_list (size_prod size size) ys)
    | Inr (Inr (k, v, ys)) \<Rightarrow> Suc (size k + size v + size_list (size_prod size size) ys))")
    (auto split: FlValue.splits)

declare value_equal.simps [simp del]

definition fl_value_equal :: "FlValue option \<Rightarrow> FlValue option \<Rightarrow> bool" where
  "fl_value_equal a b = (case (a, b) of (Some a, Some b) \<Rightarrow> value_equal a b | _ \<Rightarrow> False)"

section \<open>Containers\<close>

fun lookup_index_from :: "int \<Rightarrow> (FlValue \<times> FlValue) list \<Rightarrow> FlValue option \<Rightarrow> int" where
  "lookup_index_from i [] key = -1"
| "lookup_index_from i ((k, v) # m) key = (if fl_value_equal (Some k) key then i else lookup_index_from (i + 1) m key)"

definition fl_value_lookup_index :: "FlValue option \<Rightarrow> FlValue option \<Rightarrow> int" where
  "fl_value_lookup_index self key =
     (case self of Some (FL_MAP m) \<Rightarrow> lookup_index_from 0 m key | _ \<Rightarrow> -1)"

definition fl_value_lookup :: "FlValue option \<Rightarrow> FlValue option \<Rightarrow> FlValue option res" where
  "fl_value_lookup self key =
     (case self of
        Some (FL_MAP m) \<Rightarrow>
          (let index = fl_value_lookup_index self key in
           if index < 0 then Inr None else fl_value_get_map_value self (nat index))
      | _ \<Rightarrow> Inr None)"

definition fl_value_lookup_string :: "FlValue option \<Rightarrow> byte list \<Rightarrow> FlValue option res" where
  "fl_value_lookup_string self key =
     (if self = None then Inr None else fl_value_lookup self (Some (fl_value_new_string key)))"

text \<open>The mutators return the object afterwards; a failed guard leaves it alone.\<close>

definition fl_value_append_take :: "FlValue option \<Rightarrow> FlValue option \<Rightarrow> FlValue option" where
  "fl_value_append_take self value =
     (case (self, value) of (Some (FL_LIST vs), Some v) \<Rightarrow> Some (FL_LIST (vs @ [v])) | _ \<Rightarrow> self)"

definition fl_value_append :: "FlValue option \<Rightarrow> FlValue option \<Rightarrow> FlValue option" where
  "fl_value_append self value =
     (case (self, value) of (Some (FL_LIST vs), Some v) \<Rightarrow> fl_value_append_take self value | _ \<Rightarrow> self)"

definition fl_value_new_list_from_strv :: "byte list list option \<Rightarrow> FlValue option" where
  "fl_value_new_list_from_strv str_array =
     (case str_array of
        None \<Rightarrow> None
      | Some strs \<Rightarrow>
          fold (\<lambda>str value. fl_value_append_take value (Some (fl_value_new_string str))) strs
            (Some fl_value_new_list))"

definition fl_value_set_take :: "FlValue option \<Rightarrow> FlValue option \<Rightarrow> FlValue option \<Rightarrow> FlValue option" where
  "fl_value_set_take self key value =
     (case (self, key, value) of
        (Some (FL_MAP m), Some k, Some v) \<Rightarrow>
          (let index = fl_value_lookup_index self key in
           if index < 0 then Some (FL_MAP (m @ [(k, v)]))
           else Some (FL_MAP (m[nat index := (k, v)])))
      | _ \<Rightarrow> self)"

definition fl_value_set :: "FlValue option \<Rightarrow> FlValue option \<Rightarrow> FlValue option \<Rightarrow> FlValue option" where
  "fl_value_set self key value =
     (case (self, key, value) of
        (Some (FL_MAP m), Some k, Some v) \<Rightarrow> fl_value_set_take self key value
      | _ \<Rightarrow> self)"

definition fl_value_set_string :: "FlValue option \<Rightarrow> byte list \<Rightarrow> FlValue option \<Rightarrow> FlValue option" where
  "fl_value_set_string self key value =
     (case (self, value) of
        (Some (FL_MAP m), Some v) \<Rightarrow> fl_value_set_take self (Some (fl_value_new_string key)) value
      | _ \<Rightarrow> self)"

section \<open>Equality is equality of meanings\<close>

text \<open>
  The meaning of a value: numbers for floating-point patterns, finite sets of entries for maps. Two
  values are equal for the code exactly when their meanings are, on values without a NaN and custom
  values and with distinct keys.
\<close>

datatype meaning =
    Scalar FlValue
  | Real "int option"
  | Reals32 "int option list"
  | Reals64 "int option list"
  | Items "meaning list"
  | Entries "(meaning \<times> meaning) fset"

fun meaning_of :: "FlValue \<Rightarrow> meaning" where
  "meaning_of (FL_FLOAT d) = Real (double_key d)"
| "meaning_of (FL_FLOAT32_LIST xs) = Reals32 (map float_key xs)"
| "meaning_of (FL_FLOAT_LIST xs) = Reals64 (map double_key xs)"
| "meaning_of (FL_LIST vs) = Items (map meaning_of vs)"
| "meaning_of (FL_MAP m) = Entries (fset_of_list (map (\<lambda>kv. (meaning_of (fst kv), meaning_of (snd kv))) m))"
| "meaning_of v = Scalar v"

fun comparable :: "FlValue \<Rightarrow> bool" where
  "comparable (FL_FLOAT d) = (double_key d \<noteq> None)"
| "comparable (FL_FLOAT32_LIST xs) = list_all (\<lambda>x. float_key x \<noteq> None) xs"
| "comparable (FL_FLOAT_LIST xs) = list_all (\<lambda>x. double_key x \<noteq> None) xs"
| "comparable (FL_LIST vs) = list_all comparable vs"
| "comparable (FL_MAP m) =
     (list_all (\<lambda>kv. comparable (fst kv) \<and> comparable (snd kv)) m \<and> distinct (map (\<lambda>kv. meaning_of (fst kv)) m))"
| "comparable (FL_CUSTOM _ _) = False"
| "comparable v = True"

lemma key_eq_some: "a \<noteq> None \<Longrightarrow> b \<noteq> None \<Longrightarrow> key_eq a b \<longleftrightarrow> a = b"
  by (auto simp: key_eq_def)

lemma key_eq_lists:
  "list_all (\<lambda>x. f x \<noteq> None) xs \<Longrightarrow> list_all (\<lambda>x. f x \<noteq> None) ys \<Longrightarrow>
     list_all2 (\<lambda>x y. key_eq (f x) (f y)) xs ys \<longleftrightarrow> map f xs = map f ys"
  by (induction xs arbitrary: ys) (auto simp: list_all2_Cons1 key_eq_some neq_Nil_conv Cons_eq_map_conv)

definition entry_meanings :: "(FlValue \<times> FlValue) list \<Rightarrow> (meaning \<times> meaning) list" where
  "entry_meanings m = map (\<lambda>kv. (meaning_of (fst kv), meaning_of (snd kv))) m"

lemma entry_meanings_simps [simp]:
  "entry_meanings [] = []"
  "entry_meanings ((k, v) # m) = (meaning_of k, meaning_of v) # entry_meanings m"
  "length (entry_meanings m) = length m"
  by (simp_all add: entry_meanings_def)

lemma distinct_entry_meanings:
  "distinct (map (\<lambda>kv. meaning_of (fst kv)) m) \<Longrightarrow> distinct (entry_meanings m)"
proof -
  assume "distinct (map (\<lambda>kv. meaning_of (fst kv)) m)"
  moreover have "map (\<lambda>kv. meaning_of (fst kv)) m = map fst (entry_meanings m)"
    by (simp add: entry_meanings_def)
  ultimately show ?thesis by (metis distinct_map)
qed

lemma fset_of_list_eq: "fset_of_list xs = fset_of_list ys \<longleftrightarrow> set xs = set ys"
  by (metis fset_inverse fset_of_list.rep_eq)

text \<open>Lists without repetitions and of one length are equal as sets when one includes the other.\<close>

lemma distinct_subset_eq:
  "distinct xs \<Longrightarrow> distinct ys \<Longrightarrow> length xs = length ys \<Longrightarrow> set xs \<subseteq> set ys \<longleftrightarrow> set xs = set ys"
  by (metis List.finite_set card_subset_eq distinct_card order_refl)

lemma map_meaning_eq:
  assumes "distinct (map (\<lambda>kv. meaning_of (fst kv)) m)" and "distinct (map (\<lambda>kv. meaning_of (fst kv)) m')"
  shows "length m = length m' \<and> set (entry_meanings m) \<subseteq> set (entry_meanings m') \<longleftrightarrow>
     meaning_of (FL_MAP m) = meaning_of (FL_MAP m')"
proof -
  note d = assms [THEN distinct_entry_meanings]
  have "length m = length m'" if "set (entry_meanings m) = set (entry_meanings m')"
    using d that by (metis distinct_card entry_meanings_simps(3))
  moreover have "meaning_of (FL_MAP m) = meaning_of (FL_MAP m') \<longleftrightarrow> set (entry_meanings m) = set (entry_meanings m')"
    unfolding meaning_of.simps entry_meanings_def [symmetric] by (simp add: fset_of_list_eq)
  ultimately show ?thesis using distinct_subset_eq [OF d] by auto
qed

lemma value_equal_meaning:
  "comparable a \<Longrightarrow> comparable b \<Longrightarrow> value_equal a b \<longleftrightarrow> meaning_of a = meaning_of b"
  "list_all comparable xs \<Longrightarrow> list_all comparable ys \<Longrightarrow> length xs = length ys \<Longrightarrow>
     values_equal xs ys \<longleftrightarrow> map meaning_of xs = map meaning_of ys"
  "list_all (\<lambda>kv. comparable (fst kv) \<and> comparable (snd kv)) m \<Longrightarrow>
     list_all (\<lambda>kv. comparable (fst kv) \<and> comparable (snd kv)) m' \<Longrightarrow>
     distinct (map (\<lambda>kv. meaning_of (fst kv)) m') \<Longrightarrow>
     entries_equal m m' \<longleftrightarrow> set (entry_meanings m) \<subseteq> set (entry_meanings m')"
  "comparable k \<Longrightarrow> comparable v \<Longrightarrow> list_all (\<lambda>kv. comparable (fst kv) \<and> comparable (snd kv)) n \<Longrightarrow>
     distinct (map (\<lambda>kv. meaning_of (fst kv)) n) \<Longrightarrow>
     entry_equal k v n \<longleftrightarrow> (meaning_of k, meaning_of v) \<in> set (entry_meanings n)"
proof (induction a b and xs ys and m m' and k v n
    rule: value_equal_values_equal_entries_equal_entry_equal.induct)
  case (1 a b)
  show ?case
  proof (cases a)
    case (FL_LIST xs)
    show ?thesis
    proof (cases b)
      case (FL_LIST ys)
      with \<open>a = FL_LIST xs\<close> 1 show ?thesis
        by (auto simp: value_equal.simps dest: map_eq_imp_length_eq)
    qed (use \<open>a = FL_LIST xs\<close> in \<open>simp_all add: value_equal.simps\<close>)
  next
    case (FL_MAP m)
    show ?thesis
    proof (cases b)
      case (FL_MAP m')
      with \<open>a = FL_MAP m\<close> 1 show ?thesis
        using map_meaning_eq [of m m'] by (simp add: value_equal.simps del: meaning_of.simps)
    qed (use \<open>a = FL_MAP m\<close> in \<open>simp_all add: value_equal.simps\<close>)
  qed (use 1 in \<open>cases b; simp add: value_equal.simps key_eq_some key_eq_lists\<close>)+
next
  case (2 ys)
  then show ?case by simp
next
  case (3 x xs)
  then show ?case by simp
next
  case (4 x xs y ys)
  then show ?case by simp
next
  case (5 m')
  then show ?case by simp
next
  case (6 k v m m')
  then show ?case by simp
next
  case (7 k v)
  then show ?case by simp
next
  case (8 k v k' v' m')
  have "meaning_of k' \<notin> fst ` set (entry_meanings m')"
    using "8.prems"(4) by (simp add: entry_meanings_def image_image)
  then have nk: "(meaning_of k', w) \<notin> set (entry_meanings m')" for w by force
  have k: "value_equal k' k \<longleftrightarrow> meaning_of k' = meaning_of k" using "8.IH"(1) "8.prems" by simp
  show ?case
  proof (cases "value_equal k' k")
    case True
    then have "value_equal v v' \<longleftrightarrow> meaning_of v = meaning_of v'" using "8.IH"(2) "8.prems" by simp
    with True k nk show ?thesis by auto
  next
    case False
    then have "entry_equal k v m' \<longleftrightarrow> (meaning_of k, meaning_of v) \<in> set (entry_meanings m')"
      using "8.IH"(3) "8.prems" by simp
    with False k show ?thesis by auto
  qed
qed

text \<open>On values without NaNs and custom values, and whose maps have distinct keys,
  \<open>fl_value_equal\<close> decides equality of meanings: equal numbers, equal lists, and maps with the same
  entries in any order. It is therefore an equivalence there.\<close>

theorem fl_value_equal_is_meaning:
  assumes "comparable a" and "comparable b"
  shows "fl_value_equal (Some a) (Some b) \<longleftrightarrow> meaning_of a = meaning_of b"
  using value_equal_meaning(1) [OF assms] by (simp add: fl_value_equal_def)

theorem fl_value_equal_is_meaning_witness:
  "fl_value_equal (Some (FL_MAP [(FL_INT 1, FL_FLOAT 0), (FL_INT 2, FL_NULL)]))
     (Some (FL_MAP [(FL_INT 2, FL_NULL), (FL_INT 1, FL_FLOAT 0x8000000000000000)]))"
proof -
  have "double_key 0 = Some 0" "double_key 0x8000000000000000 = Some 0"
    by (simp_all add: double_key_def ieee_key_def Let_def)
  then show ?thesis
    by (subst fl_value_equal_is_meaning) (auto simp: fset_of_list_eq [of "[_, _]" "[_, _]", simplified])
qed

section \<open>Map laws\<close>

text \<open>The map a value stands for, on the meanings of its keys.\<close>

definition key_meanings :: "(FlValue \<times> FlValue) list \<Rightarrow> meaning list" where
  "key_meanings m = map (\<lambda>kv. meaning_of (fst kv)) m"

definition map_meaning :: "(FlValue \<times> FlValue) list \<Rightarrow> meaning \<rightharpoonup> FlValue" where
  "map_meaning m = map_of (zip (key_meanings m) (map snd m))"

lemma key_meanings_nth [simp]: "j < length m \<Longrightarrow> key_meanings m ! j = meaning_of (fst (m ! j))"
  by (simp add: key_meanings_def)

lemma length_key_meanings [simp]: "length (key_meanings m) = length m"
  by (simp add: key_meanings_def)

lemma comparable_map_iff:
  "comparable (FL_MAP m) \<longleftrightarrow>
     list_all (\<lambda>kv. comparable (fst kv) \<and> comparable (snd kv)) m \<and> distinct (key_meanings m)"
  by (simp add: key_meanings_def)

lemma lookup_index_from_cases:
  assumes "comparable k" and "list_all (\<lambda>kv. comparable (fst kv) \<and> comparable (snd kv)) m"
  shows "(meaning_of k \<notin> set (key_meanings m) \<and> lookup_index_from i m (Some k) = -1) \<or>
    (\<exists>j < length m. meaning_of (fst (m ! j)) = meaning_of k \<and> lookup_index_from i m (Some k) = i + int j)"
  using assms
proof (induction m arbitrary: i)
  case Nil
  then show ?case by (simp add: key_meanings_def)
next
  case (Cons kv m)
  have eq: "value_equal (fst kv) k \<longleftrightarrow> meaning_of (fst kv) = meaning_of k"
    using Cons.prems by (simp add: value_equal_meaning)
  show ?case
  proof (cases "meaning_of (fst kv) = meaning_of k")
    case True
    with eq show ?thesis by (intro disjI2 exI [of _ 0]) (cases kv; simp add: fl_value_equal_def)
  next
    case False
    with eq have step: "lookup_index_from i (kv # m) (Some k) = lookup_index_from (i + 1) m (Some k)"
      by (cases kv) (simp add: fl_value_equal_def)
    have "list_all (\<lambda>kv. comparable (fst kv) \<and> comparable (snd kv)) m" using Cons.prems by simp
    from Cons.IH [OF Cons.prems(1) this, of "i + 1"] show ?thesis
    proof (elim disjE exE conjE)
      fix j assume "j < length m" "meaning_of (fst (m ! j)) = meaning_of k"
        "lookup_index_from (i + 1) m (Some k) = i + 1 + int j"
      then show ?thesis unfolding step by (intro disjI2 exI [of _ "Suc j"]) simp
    next
      assume "meaning_of k \<notin> set (key_meanings m)" "lookup_index_from (i + 1) m (Some k) = -1"
      with False show ?thesis unfolding step by (simp add: key_meanings_def)
    qed
  qed
qed

lemma map_meaning_nth:
  "distinct (key_meanings m) \<Longrightarrow> j < length m \<Longrightarrow> map_meaning m (meaning_of (fst (m ! j))) = Some (snd (m ! j))"
  using map_of_zip_nth [of "key_meanings m" "map snd m" j] by (simp add: map_meaning_def)

lemma map_meaning_None: "map_meaning m k = None \<longleftrightarrow> k \<notin> set (key_meanings m)"
  by (simp add: map_meaning_def map_of_zip_is_None)

lemma map_meaning_append:
  assumes "meaning_of k \<notin> set (key_meanings m)"
  shows "map_meaning (m @ [(k, v)]) = (map_meaning m)(meaning_of k \<mapsto> v)"
proof -
  have "map_meaning (m @ [(k, v)]) = [meaning_of k \<mapsto> v] ++ map_meaning m"
    by (simp add: map_meaning_def key_meanings_def)
  moreover have "meaning_of k \<notin> dom (map_meaning m)" using assms by (simp add: map_meaning_None domIff)
  ultimately show ?thesis by (auto simp: map_add_def split: option.split)
qed

lemma map_of_zip_list_update:
  "distinct ks \<Longrightarrow> j < length ks \<Longrightarrow> length vs = length ks \<Longrightarrow>
     map_of (zip ks (vs[j := v])) = (map_of (zip ks vs))(ks ! j \<mapsto> v)"
proof (induction ks arbitrary: j vs)
  case Nil
  then show ?case by simp
next
  case (Cons k ks)
  then have "j = Suc n \<Longrightarrow> ks ! n \<noteq> k" for n using nth_mem [of n ks] by auto
  with Cons show ?case by (cases vs; cases j) (auto simp: fun_upd_twist)
qed

lemma key_meanings_update:
  "j < length m \<Longrightarrow> meaning_of (fst (m ! j)) = meaning_of k \<Longrightarrow> key_meanings (m[j := (k, v)]) = key_meanings m"
  by (auto simp: key_meanings_def map_update intro!: nth_equalityI simp: nth_list_update)

lemma map_meaning_update:
  assumes "distinct (key_meanings m)" and "j < length m" and "meaning_of (fst (m ! j)) = meaning_of k"
  shows "map_meaning (m[j := (k, v)]) = (map_meaning m)(meaning_of k \<mapsto> v)"
proof -
  have k: "key_meanings m ! j = meaning_of k" using assms by simp
  have "map_of (zip (key_meanings m) ((map snd m)[j := v])) = (map_of (zip (key_meanings m) (map snd m)))(key_meanings m ! j \<mapsto> v)"
    using map_of_zip_list_update [of "key_meanings m" j "map snd m" v] assms(1,2) by simp
  then show ?thesis
    unfolding map_meaning_def key_meanings_update [OF assms(2,3)] k by (simp add: map_update)
qed

text \<open>The specification of \<open>fl_value_lookup\<close> and \<open>fl_value_set\<close> on the map a value stands for.\<close>

lemma lookup_map_meaning:
  assumes "comparable (FL_MAP m)" and "comparable k"
  shows "fl_value_lookup (Some (FL_MAP m)) (Some k) = Inr (map_meaning m (meaning_of k))"
proof -
  have m: "list_all (\<lambda>kv. comparable (fst kv) \<and> comparable (snd kv)) m" "distinct (key_meanings m)"
    using assms(1) unfolding comparable_map_iff by auto
  from lookup_index_from_cases [OF assms(2) m(1), of 0] show ?thesis
  proof (elim disjE exE conjE)
    fix j assume j: "j < length m" "meaning_of (fst (m ! j)) = meaning_of k"
      and l: "lookup_index_from 0 m (Some k) = 0 + int j"
    from map_meaning_nth [OF m(2) j(1)] j l show ?thesis
      by (simp add: fl_value_lookup_def fl_value_lookup_index_def fl_value_get_map_value_def
          ptr_array_index_def)
  qed (auto simp: fl_value_lookup_def fl_value_lookup_index_def map_meaning_None [THEN iffD2])
qed

lemma set_map_meaning:
  assumes "comparable (FL_MAP m)" and "comparable k" and "comparable v"
  shows "\<exists>m'. fl_value_set (Some (FL_MAP m)) (Some k) (Some v) = Some (FL_MAP m') \<and>
    comparable (FL_MAP m') \<and> map_meaning m' = (map_meaning m)(meaning_of k \<mapsto> v) \<and>
    length m' = (if map_meaning m (meaning_of k) = None then Suc (length m) else length m)"
proof -
  have m: "list_all (\<lambda>kv. comparable (fst kv) \<and> comparable (snd kv)) m" "distinct (key_meanings m)"
    using assms(1) unfolding comparable_map_iff by auto
  from lookup_index_from_cases [OF assms(2) m(1), of 0] show ?thesis
  proof (elim disjE exE conjE)
    fix j assume j: "j < length m" "meaning_of (fst (m ! j)) = meaning_of k"
      and l: "lookup_index_from 0 m (Some k) = 0 + int j"
    have "list_all (\<lambda>kv. comparable (fst kv) \<and> comparable (snd kv)) (m[j := (k, v)])"
      using m(1) assms(2,3) set_update_subset_insert [of m j "(k, v)"] by (auto simp: list_all_iff)
    moreover have "map_meaning m (meaning_of k) \<noteq> None" using map_meaning_nth [OF m(2) j(1)] j(2) by simp
    ultimately show ?thesis
      using key_meanings_update [OF j] map_meaning_update [OF m(2) j] m(2) l
      by (intro exI [of _ "m[j := (k, v)]"])
        (simp add: fl_value_set_def fl_value_set_take_def fl_value_lookup_index_def comparable_map_iff
          del: comparable.simps)
  next
    assume n: "meaning_of k \<notin> set (key_meanings m)" and l: "lookup_index_from 0 m (Some k) = -1"
    have "key_meanings (m @ [(k, v)]) = key_meanings m @ [meaning_of k]" by (simp add: key_meanings_def)
    then show ?thesis
      using n l m assms(2,3) map_meaning_append [OF n]
      by (intro exI [of _ "m @ [(k, v)]"])
        (simp add: fl_value_set_def fl_value_set_take_def fl_value_lookup_index_def comparable_map_iff
          map_meaning_None [THEN iffD2] del: comparable.simps)
  qed
qed

text \<open>C36: \<open>fl_value_set\<close> and \<open>fl_value_lookup\<close> implement update and lookup of finite maps: after a set,
  a lookup of an equal key returns the new value and every other lookup what it returned before; the
  keys stay distinct, and the length grows exactly when the key was absent.\<close>

theorem fl_map_refines_map:
  assumes "comparable (FL_MAP m)" and "comparable k" and "comparable v"
  shows "\<exists>m'. fl_value_set (Some (FL_MAP m)) (Some k) (Some v) = Some (FL_MAP m') \<and>
    comparable (FL_MAP m') \<and>
    (\<forall>k'. comparable k' \<longrightarrow> fl_value_lookup (Some (FL_MAP m')) (Some k') =
       (if fl_value_equal (Some k) (Some k') then Inr (Some v) else fl_value_lookup (Some (FL_MAP m)) (Some k'))) \<and>
    fl_value_get_length (Some (FL_MAP m')) =
      (if fl_value_lookup (Some (FL_MAP m)) (Some k) = Inr None then Suc (length m) else length m)"
proof -
  obtain m' where m': "fl_value_set (Some (FL_MAP m)) (Some k) (Some v) = Some (FL_MAP m')"
    "comparable (FL_MAP m')" "map_meaning m' = (map_meaning m)(meaning_of k \<mapsto> v)"
    "length m' = (if map_meaning m (meaning_of k) = None then Suc (length m) else length m)"
    using set_map_meaning [OF assms] by blast
  have "fl_value_lookup (Some (FL_MAP m')) (Some k') =
      (if fl_value_equal (Some k) (Some k') then Inr (Some v) else fl_value_lookup (Some (FL_MAP m)) (Some k'))"
    if "comparable k'" for k'
    using lookup_map_meaning [OF m'(2) that] lookup_map_meaning [OF assms(1) that]
      value_equal_meaning(1) [OF assms(2) that]
    by (auto simp: fl_value_equal_def m'(3))
  moreover have "fl_value_get_length (Some (FL_MAP m')) =
      (if fl_value_lookup (Some (FL_MAP m)) (Some k) = Inr None then Suc (length m) else length m)"
    using m'(4) lookup_map_meaning [OF assms(1,2)] by (simp add: fl_value_get_length_def)
  ultimately show ?thesis using m'(1,2) by blast
qed

theorem fl_map_refines_map_witness:
  "\<exists>m'. fl_value_set (Some (FL_MAP [(FL_INT 1, FL_NULL)])) (Some (FL_INT 1)) (Some (FL_BOOL True)) = Some (FL_MAP m') \<and>
    fl_value_lookup (Some (FL_MAP m')) (Some (FL_INT 1)) = Inr (Some (FL_BOOL True))"
proof -
  have "fl_value_equal (Some (FL_INT 1)) (Some (FL_INT 1))" by (simp add: fl_value_equal_def value_equal.simps)
  then show ?thesis
    using fl_map_refines_map [of "[(FL_INT 1, FL_NULL)]" "FL_INT 1" "FL_BOOL True"]
    by (force simp del: One_nat_def)
qed

end
