(* ===== verification/Fl_Codec.thy ===== *)
theory Fl_Codec
  imports Fl_Value
begin

text \<open>
  \<open>shell/platform/linux/fl_standard_message_codec.cc\<close> and \<open>fl_standard_method_codec.cc\<close>: the Linux
  implementation of the standard codec. A \<open>GByteArray\<close> that grows and a \<open>GBytes\<close> that is read are byte
  lists; a reader takes and returns an offset; a \<open>GError\<close> is the error code of a sum. The virtual
  \<open>write_value\<close> and \<open>read_value_of_type\<close> are those of the class itself.
\<close>

datatype FlMessageCodecError = FAILED | OUT_OF_DATA | ADDITIONAL_DATA | UNSUPPORTED_TYPE

type_synonym 'a fl_res = "FlMessageCodecError + 'a"

section \<open>Numbers\<close>

definition write_uint8 :: "byte list \<Rightarrow> byte \<Rightarrow> byte list" where
  "write_uint8 buffer v = buffer @ [v]"

definition write_uint16 :: "byte list \<Rightarrow> 16 word \<Rightarrow> byte list" where
  "write_uint16 buffer v = buffer @ le_bytes 2 (unat v)"

definition write_uint32 :: "byte list \<Rightarrow> 32 word \<Rightarrow> byte list" where
  "write_uint32 buffer v = buffer @ le_bytes 4 (unat v)"

definition write_int32 :: "byte list \<Rightarrow> 32 word \<Rightarrow> byte list" where
  "write_int32 buffer v = buffer @ le_bytes 4 (unat v)"

definition write_int64 :: "byte list \<Rightarrow> 64 word \<Rightarrow> byte list" where
  "write_int64 buffer v = buffer @ le_bytes 8 (unat v)"

definition write_float64 :: "byte list \<Rightarrow> 64 word \<Rightarrow> byte list" where
  "write_float64 buffer v = buffer @ le_bytes 8 (unat v)"

text \<open>The loop writes a zero until the length is a multiple; the alignment is positive in every call.\<close>

function write_align :: "byte list \<Rightarrow> nat \<Rightarrow> byte list" where
  "write_align buffer align =
     (if align = 0 \<or> length buffer mod align = 0 then buffer
      else write_align (write_uint8 buffer 0) align)"
  by pat_completeness auto
termination
proof (relation "measure (\<lambda>(buffer, align). pad_length align (length buffer))", goal_cases)
  case (2 buffer align)
  then have a: "0 < align" "length buffer mod align \<noteq> 0" by simp_all
  then have "length buffer mod align < align" by simp
  then have "Suc (length buffer) mod align = (if Suc (length buffer mod align) = align then 0 else Suc (length buffer mod align))"
    by (simp add: mod_Suc)
  with a \<open>length buffer mod align < align\<close> show ?case by (auto simp: pad_length_def write_uint8_def)
qed simp

declare write_align.simps [simp del]

definition check_size :: "byte list \<Rightarrow> nat \<Rightarrow> nat \<Rightarrow> unit fl_res" where
  "check_size buffer offset required =
     (if offset + required > length buffer then Inl OUT_OF_DATA else Inr ())"

definition read_align :: "byte list \<Rightarrow> nat \<Rightarrow> nat \<Rightarrow> nat fl_res" where
  "read_align buffer align offset =
     (if offset mod align = 0 then Inr offset
      else let required = align - offset mod align in
        bindR (check_size buffer offset required) (\<lambda>_. Inr (offset + required)))"

text \<open>The bytes behind \<open>get_data\<close>.\<close>

definition get_data :: "byte list \<Rightarrow> nat \<Rightarrow> byte list" where
  "get_data buffer offset = drop offset buffer"

definition read_uint8 :: "byte list \<Rightarrow> nat \<Rightarrow> (byte \<times> nat) fl_res" where
  "read_uint8 buffer offset =
     bindR (check_size buffer offset 1) (\<lambda>_. Inr (hd (get_data buffer offset), Suc offset))"

definition read_uint16 :: "byte list \<Rightarrow> nat \<Rightarrow> (16 word \<times> nat) fl_res" where
  "read_uint16 buffer offset =
     bindR (check_size buffer offset 2)
       (\<lambda>_. Inr (word_of_nat (le_nat (take 2 (get_data buffer offset))), offset + 2))"

definition read_uint32 :: "byte list \<Rightarrow> nat \<Rightarrow> (32 word \<times> nat) fl_res" where
  "read_uint32 buffer offset =
     bindR (check_size buffer offset 4)
       (\<lambda>_. Inr (word_of_nat (le_nat (take 4 (get_data buffer offset))), offset + 4))"

text \<open>The 32-bit integer is sign-extended to the 64 bits of the value.\<close>

definition read_int32_value :: "byte list \<Rightarrow> nat \<Rightarrow> (FlValue \<times> nat) fl_res" where
  "read_int32_value buffer offset =
     bindR (check_size buffer offset 4)
       (\<lambda>_. Inr (fl_value_new_int (scast (word_of_nat (le_nat (take 4 (get_data buffer offset))) :: 32 word)),
                 offset + 4))"

definition read_int64_value :: "byte list \<Rightarrow> nat \<Rightarrow> (FlValue \<times> nat) fl_res" where
  "read_int64_value buffer offset =
     bindR (check_size buffer offset 8)
       (\<lambda>_. Inr (fl_value_new_int (word_of_nat (le_nat (take 8 (get_data buffer offset)))), offset + 8))"

definition read_float64_value :: "byte list \<Rightarrow> nat \<Rightarrow> (FlValue \<times> nat) fl_res" where
  "read_float64_value buffer offset =
     bindR (read_align buffer 8 offset) (\<lambda>offset.
     bindR (check_size buffer offset 8)
       (\<lambda>_. Inr (fl_value_new_float (word_of_nat (le_nat (take 8 (get_data buffer offset)))), offset + 8)))"

section \<open>Sizes\<close>

definition fl_standard_message_codec_write_size :: "byte list \<Rightarrow> 32 word \<Rightarrow> byte list" where
  "fl_standard_message_codec_write_size buffer n =
     (if n < 254 then write_uint8 buffer (ucast n)
      else if n \<le> 0xffff then write_uint16 (write_uint8 buffer 254) (ucast n)
      else write_uint32 (write_uint8 buffer 255) n)"

definition fl_standard_message_codec_read_size :: "byte list \<Rightarrow> nat \<Rightarrow> (32 word \<times> nat) fl_res" where
  "fl_standard_message_codec_read_size buffer offset =
     bindR (read_uint8 buffer offset) (\<lambda>(value8, offset).
       if value8 = 255 then read_uint32 buffer offset
       else if value8 = 254 then
         bindR (read_uint16 buffer offset) (\<lambda>(value16, offset). Inr (ucast value16, offset))
       else Inr (ucast value8, offset))"

section \<open>Strings and typed lists\<close>

definition read_string_value :: "byte list \<Rightarrow> nat \<Rightarrow> (FlValue \<times> nat) fl_res" where
  "read_string_value buffer offset =
     bindR (fl_standard_message_codec_read_size buffer offset) (\<lambda>(n, offset).
     bindR (check_size buffer offset (unat n)) (\<lambda>_.
     Inr (fl_value_new_string_sized (get_data buffer offset) (unat n), offset + unat n)))"

definition read_uint8_list_value :: "byte list \<Rightarrow> nat \<Rightarrow> (FlValue \<times> nat) fl_res" where
  "read_uint8_list_value buffer offset =
     bindR (fl_standard_message_codec_read_size buffer offset) (\<lambda>(n, offset).
     bindR (check_size buffer offset (unat n)) (\<lambda>_.
     Inr (fl_value_new_uint8_list (get_data buffer offset) (unat n), offset + unat n)))"

definition read_int32_list_value :: "byte list \<Rightarrow> nat \<Rightarrow> (FlValue \<times> nat) fl_res" where
  "read_int32_list_value buffer offset =
     bindR (fl_standard_message_codec_read_size buffer offset) (\<lambda>(n, offset).
     bindR (read_align buffer 4 offset) (\<lambda>offset.
     bindR (check_size buffer offset (4 * unat n)) (\<lambda>_.
     Inr (fl_value_new_int32_list (map word_of_nat (array_nats 4 (unat n) (get_data buffer offset))) (unat n),
          offset + 4 * unat n))))"

definition read_int64_list_value :: "byte list \<Rightarrow> nat \<Rightarrow> (FlValue \<times> nat) fl_res" where
  "read_int64_list_value buffer offset =
     bindR (fl_standard_message_codec_read_size buffer offset) (\<lambda>(n, offset).
     bindR (read_align buffer 8 offset) (\<lambda>offset.
     bindR (check_size buffer offset (8 * unat n)) (\<lambda>_.
     Inr (fl_value_new_int64_list (map word_of_nat (array_nats 8 (unat n) (get_data buffer offset))) (unat n),
          offset + 8 * unat n))))"

definition read_float32_list_value :: "byte list \<Rightarrow> nat \<Rightarrow> (FlValue \<times> nat) fl_res" where
  "read_float32_list_value buffer offset =
     bindR (fl_standard_message_codec_read_size buffer offset) (\<lambda>(n, offset).
     bindR (read_align buffer 4 offset) (\<lambda>offset.
     bindR (check_size buffer offset (4 * unat n)) (\<lambda>_.
     Inr (fl_value_new_float32_list (map word_of_nat (array_nats 4 (unat n) (get_data buffer offset))) (unat n),
          offset + 4 * unat n))))"

definition read_float64_list_value :: "byte list \<Rightarrow> nat \<Rightarrow> (FlValue \<times> nat) fl_res" where
  "read_float64_list_value buffer offset =
     bindR (fl_standard_message_codec_read_size buffer offset) (\<lambda>(n, offset).
     bindR (read_align buffer 8 offset) (\<lambda>offset.
     bindR (check_size buffer offset (8 * unat n)) (\<lambda>_.
     Inr (fl_value_new_float_list (map word_of_nat (array_nats 8 (unat n) (get_data buffer offset))) (unat n),
          offset + 8 * unat n))))"

section \<open>Writing values\<close>

fun write_value :: "FlValue \<Rightarrow> byte list \<Rightarrow> byte list fl_res" where
  "write_value v buffer =
     (case v of
        FL_NULL \<Rightarrow> Inr (write_uint8 buffer 0)
      | FL_BOOL b \<Rightarrow> Inr (if b then write_uint8 buffer 1 else write_uint8 buffer 2)
      | FL_INT i \<Rightarrow>
          Inr (if - (2 ^ 31) \<le> sint i \<and> sint i \<le> 2 ^ 31 - 1
               then write_int32 (write_uint8 buffer 3) (ucast i)
               else write_int64 (write_uint8 buffer 4) i)
      | FL_FLOAT d \<Rightarrow> Inr (write_float64 (write_align (write_uint8 buffer 6) 8) d)
      | FL_STRING s \<Rightarrow>
          Inr (fl_standard_message_codec_write_size (write_uint8 buffer 7) (word_of_nat (length s)) @ s)
      | FL_UINT8_LIST xs \<Rightarrow>
          Inr (fl_standard_message_codec_write_size (write_uint8 buffer 8) (word_of_nat (length xs)) @ xs)
      | FL_INT32_LIST xs \<Rightarrow>
          Inr (write_align (fl_standard_message_codec_write_size (write_uint8 buffer 9) (word_of_nat (length xs))) 4 @
               array_bytes 4 (map unat xs))
      | FL_INT64_LIST xs \<Rightarrow>
          Inr (write_align (fl_standard_message_codec_write_size (write_uint8 buffer 10) (word_of_nat (length xs))) 8 @
               array_bytes 8 (map unat xs))
      | FL_FLOAT32_LIST xs \<Rightarrow>
          Inr (write_align (fl_standard_message_codec_write_size (write_uint8 buffer 14) (word_of_nat (length xs))) 4 @
               array_bytes 4 (map unat xs))
      | FL_FLOAT_LIST xs \<Rightarrow>
          Inr (write_align (fl_standard_message_codec_write_size (write_uint8 buffer 11) (word_of_nat (length xs))) 8 @
               array_bytes 8 (map unat xs))
      | FL_LIST vs \<Rightarrow>
          foldR write_value vs
            (fl_standard_message_codec_write_size (write_uint8 buffer 12) (word_of_nat (length vs)))
      | FL_MAP m \<Rightarrow>
          foldR (\<lambda>kv buffer. bindR (write_value (fst kv) buffer) (write_value (snd kv))) m
            (fl_standard_message_codec_write_size (write_uint8 buffer 13) (word_of_nat (length m)))
      | FL_CUSTOM _ _ \<Rightarrow> Inl UNSUPPORTED_TYPE)"

declare write_value.simps [simp del]

text \<open>\<open>fl_standard_message_codec_real_write_value\<close>; a null pointer is written as the null value.\<close>

definition fl_standard_message_codec_write_value :: "byte list \<Rightarrow> FlValue option \<Rightarrow> byte list fl_res" where
  "fl_standard_message_codec_write_value buffer v =
     (case v of None \<Rightarrow> Inr (write_uint8 buffer 0) | Some v \<Rightarrow> write_value v buffer)"

section \<open>Reading values\<close>

function read_value :: "byte list \<Rightarrow> nat \<Rightarrow> (FlValue \<times> nat) fl_res"
and read_value_of_type :: "byte list \<Rightarrow> byte \<Rightarrow> nat \<Rightarrow> (FlValue \<times> nat) fl_res"
and read_list_items :: "byte list \<Rightarrow> nat \<Rightarrow> FlValue \<Rightarrow> nat \<Rightarrow> (FlValue \<times> nat) fl_res"
and read_map_items :: "byte list \<Rightarrow> nat \<Rightarrow> FlValue \<Rightarrow> nat \<Rightarrow> (FlValue \<times> nat) fl_res"
where
  "read_value buffer offset =
     bindR (read_uint8 buffer offset) (\<lambda>(type, offset). read_value_of_type buffer type offset)"
| "read_value_of_type buffer type offset =
     (if type = 0 then Inr (fl_value_new_null, offset)
      else if type = 1 then Inr (fl_value_new_bool True, offset)
      else if type = 2 then Inr (fl_value_new_bool False, offset)
      else if type = 3 then read_int32_value buffer offset
      else if type = 4 then read_int64_value buffer offset
      else if type = 6 then read_float64_value buffer offset
      else if type = 7 then read_string_value buffer offset
      else if type = 8 then read_uint8_list_value buffer offset
      else if type = 9 then read_int32_list_value buffer offset
      else if type = 10 then read_int64_list_value buffer offset
      else if type = 14 then read_float32_list_value buffer offset
      else if type = 11 then read_float64_list_value buffer offset
      else if type = 12 then
        bindR (fl_standard_message_codec_read_size buffer offset) (\<lambda>(n, offset).
          read_list_items buffer (unat n) fl_value_new_list offset)
      else if type = 13 then
        bindR (fl_standard_message_codec_read_size buffer offset) (\<lambda>(n, offset).
          read_map_items buffer (unat n) fl_value_new_map offset)
      else Inl UNSUPPORTED_TYPE)"
| "read_list_items buffer 0 list offset = Inr (list, offset)"
| "read_list_items buffer (Suc n) list offset =
     bindR (read_value buffer offset) (\<lambda>(child, offset).
       read_list_items buffer n (the (fl_value_append (Some list) (Some child))) offset)"
| "read_map_items buffer 0 m offset = Inr (m, offset)"
| "read_map_items buffer (Suc n) m offset =
     bindR (read_value buffer offset) (\<lambda>(key, offset).
     bindR (read_value buffer offset) (\<lambda>(v, offset).
       read_map_items buffer n (the (fl_value_set (Some m) (Some key) (Some v))) offset))"
  by pat_completeness auto

text \<open>What was read lies between the offsets, inside the buffer.\<close>

definition in_buffer :: "byte list \<Rightarrow> nat \<Rightarrow> ('a \<times> nat) fl_res \<Rightarrow> bool" where
  "in_buffer buffer offset r = (\<forall>x offset'. r = Inr (x, offset') \<longrightarrow> offset \<le> offset' \<and> offset' \<le> length buffer)"

lemma in_bufferD: "in_buffer buffer offset r \<Longrightarrow> r = Inr (x, offset') \<Longrightarrow> offset \<le> offset' \<and> offset' \<le> length buffer"
  by (simp add: in_buffer_def)

lemma in_buffer_bind:
  assumes "\<And>x i. r = Inr (x, i) \<Longrightarrow> offset \<le> i"
    and "\<And>x i. r = Inr (x, i) \<Longrightarrow> in_buffer buffer i (f x i)"
  shows "in_buffer buffer offset (bindR r (\<lambda>(x, i). f x i))"
  unfolding in_buffer_def
proof (intro allI impI)
  fix y j assume "bindR r (\<lambda>(x, i). f x i) = Inr (y, j)"
  then obtain x i where "r = Inr (x, i)" "f x i = Inr (y, j)" by (auto simp: bindR_eq_Inr_iff)
  with assms [of x i] show "offset \<le> j \<and> j \<le> length buffer" using in_bufferD by fastforce
qed

lemma read_uint8_Inr: "read_uint8 buffer offset = Inr (b, offset') \<longleftrightarrow>
    offset < length buffer \<and> b = buffer ! offset \<and> offset' = Suc offset"
  by (auto simp: read_uint8_def check_size_def get_data_def hd_drop_conv_nth)

lemma read_size_bounds:
  "fl_standard_message_codec_read_size buffer offset = Inr (n, offset') \<Longrightarrow> offset < offset' \<and> offset' \<le> length buffer"
  by (auto simp: fl_standard_message_codec_read_size_def bindR_eq_Inr_iff read_uint8_Inr read_uint16_def
      read_uint32_def check_size_def split: if_splits)

lemma read_align_bounds: "read_align buffer align offset = Inr offset' \<Longrightarrow> offset \<le> offset'"
  by (auto simp: read_align_def check_size_def Let_def split: if_splits)

lemma read_leaf_bounds:
  "in_buffer buffer offset (read_int32_value buffer offset)"
  "in_buffer buffer offset (read_int64_value buffer offset)"
  "in_buffer buffer offset (read_float64_value buffer offset)"
  "in_buffer buffer offset (read_string_value buffer offset)"
  "in_buffer buffer offset (read_uint8_list_value buffer offset)"
  "in_buffer buffer offset (read_int32_list_value buffer offset)"
  "in_buffer buffer offset (read_int64_list_value buffer offset)"
  "in_buffer buffer offset (read_float32_list_value buffer offset)"
  "in_buffer buffer offset (read_float64_list_value buffer offset)"
  unfolding in_buffer_def read_int32_value_def read_int64_value_def read_float64_value_def
    read_string_value_def read_uint8_list_value_def read_int32_list_value_def read_int64_list_value_def
    read_float32_list_value_def read_float64_list_value_def
  by (auto simp: bindR_eq_Inr_iff check_size_def split: if_splits
      dest!: read_size_bounds read_align_bounds)

lemma read_value_bounds:
  "read_value_read_value_of_type_read_list_items_read_map_items_dom (Inl (Inl (buffer, offset))) \<Longrightarrow>
     read_value buffer offset = Inr (v, offset') \<Longrightarrow> offset < offset' \<and> offset' \<le> length buffer"
  "read_value_read_value_of_type_read_list_items_read_map_items_dom (Inl (Inr (buffer, type, offset))) \<Longrightarrow>
     offset \<le> length buffer \<Longrightarrow> in_buffer buffer offset (read_value_of_type buffer type offset)"
  "read_value_read_value_of_type_read_list_items_read_map_items_dom (Inr (Inl (buffer, n, list, offset))) \<Longrightarrow>
     offset \<le> length buffer \<Longrightarrow> in_buffer buffer offset (read_list_items buffer n list offset)"
  "read_value_read_value_of_type_read_list_items_read_map_items_dom (Inr (Inr (buffer, n, m, offset))) \<Longrightarrow>
     offset \<le> length buffer \<Longrightarrow> in_buffer buffer offset (read_map_items buffer n m offset)"
proof (induction buffer offset and buffer type offset and buffer n list offset and buffer n m offset
    arbitrary: v offset' and and and
    rule: read_value_read_value_of_type_read_list_items_read_map_items.pinduct)
  case (1 buffer offset)
  then obtain t where "offset < length buffer" "read_value_of_type buffer t (Suc offset) = Inr (v, offset')"
    "in_buffer buffer (Suc offset) (read_value_of_type buffer t (Suc offset))"
    by (auto simp: read_value.psimps bindR_eq_Inr_iff read_uint8_Inr)
  then show ?case using in_bufferD by fastforce
next
  case (2 buffer type offset)
  have "in_buffer buffer offset (bindR (fl_standard_message_codec_read_size buffer offset) (\<lambda>(n, offset).
      read_list_items buffer (unat n) fl_value_new_list offset))" if "type = 12"
  proof (rule in_buffer_bind)
    fix n i assume r: "fl_standard_message_codec_read_size buffer offset = Inr (n, i)"
    from read_size_bounds [OF r] show "offset \<le> i" by simp
    from 2(2) [OF _ _ _ _ _ _ _ _ _ _ _ _ that r refl] read_size_bounds [OF r] that
    show "in_buffer buffer i (read_list_items buffer (unat n) fl_value_new_list i)" by simp
  qed
  moreover have "in_buffer buffer offset (bindR (fl_standard_message_codec_read_size buffer offset) (\<lambda>(n, offset).
      read_map_items buffer (unat n) fl_value_new_map offset))" if "type = 13"
  proof (rule in_buffer_bind)
    fix n i assume r: "fl_standard_message_codec_read_size buffer offset = Inr (n, i)"
    from read_size_bounds [OF r] show "offset \<le> i" by simp
    from 2(3) [OF _ _ _ _ _ _ _ _ _ _ _ _ _ that r refl] read_size_bounds [OF r] that
    show "in_buffer buffer i (read_map_items buffer (unat n) fl_value_new_map i)" by simp
  qed
  ultimately show ?case
    using 2(4) by (simp add: read_value_of_type.psimps [OF 2(1)] read_leaf_bounds) (simp add: in_buffer_def)
next
  case (3 buffer list offset)
  then show ?case by (simp add: read_list_items.psimps in_buffer_def)
next
  case (4 buffer n list offset)
  then show ?case
    by (fastforce simp: read_list_items.psimps in_buffer_def bindR_eq_Inr_iff)
next
  case (5 buffer m offset)
  then show ?case by (simp add: read_map_items.psimps in_buffer_def)
next
  case (6 buffer n m offset)
  then show ?case
    by (fastforce simp: read_map_items.psimps in_buffer_def bindR_eq_Inr_iff)
qed

text \<open>Every nested call starts behind a byte that was there to be read.\<close>

lemma read_value_total: "All read_value_read_value_of_type_read_list_items_read_map_items_dom"
proof (rule "read_value_read_value_of_type_read_list_items_read_map_items.termination" [where R = "measures [\<lambda>x. case x of
      Inl (Inl (buffer, offset)) \<Rightarrow> length buffer - offset
    | Inl (Inr (buffer, type, offset)) \<Rightarrow> length buffer - offset
    | Inr (Inl (buffer, n, list, offset)) \<Rightarrow> length buffer - offset
    | Inr (Inr (buffer, n, m, offset)) \<Rightarrow> length buffer - offset,
    \<lambda>x. case x of
      Inl (Inl (buffer, offset)) \<Rightarrow> 0 | Inl (Inr (buffer, type, offset)) \<Rightarrow> 0
    | Inr (Inl (buffer, n, list, offset)) \<Rightarrow> n | Inr (Inr (buffer, n, m, offset)) \<Rightarrow> n]"], goal_cases)
  case 1
  then show ?case by simp
next
  case (2 buffer offset x t i)
  then show ?case by (auto simp: read_uint8_Inr)
next
  case (3 buffer type offset x n i)
  then show ?case using read_size_bounds [of buffer offset n i] by auto
next
  case (4 buffer type offset x n i)
  then show ?case using read_size_bounds [of buffer offset n i] by auto
next
  case (5 buffer n list offset)
  then show ?case by simp
next
  case (6 buffer n list offset x child i)
  then show ?case using read_value_bounds(1) [of buffer offset child i] by auto
next
  case (7 buffer n m offset)
  then show ?case by simp
next
  case (8 buffer n m offset x key i)
  then show ?case using read_value_bounds(1) [of buffer offset key i] by auto
next
  case (9 buffer n m offset x key i y v j)
  then show ?case
    using read_value_bounds(1) [of buffer offset key i] read_value_bounds(1) [of buffer i v j] by auto
qed

termination read_value
  by (rule read_value_total)

lemma read_value_inside:
  "read_value buffer offset = Inr (v, offset') \<Longrightarrow> offset < offset' \<and> offset' \<le> length buffer"
  using read_value_bounds(1) read_value_total by blast

declare read_value.simps [simp del] read_value_of_type.simps [simp del]

definition fl_standard_message_codec_read_value :: "byte list \<Rightarrow> nat \<Rightarrow> (FlValue \<times> nat) fl_res" where
  "fl_standard_message_codec_read_value buffer offset = read_value buffer offset"

section \<open>Messages\<close>

definition fl_standard_message_codec_encode_message :: "FlValue option \<Rightarrow> byte list fl_res" where
  "fl_standard_message_codec_encode_message message = fl_standard_message_codec_write_value [] message"

definition fl_standard_message_codec_decode_message :: "byte list \<Rightarrow> FlValue fl_res" where
  "fl_standard_message_codec_decode_message message =
     (if length message = 0 then Inr fl_value_new_null
      else bindR (fl_standard_message_codec_read_value message 0) (\<lambda>(v, offset).
        if offset \<noteq> length message then Inl ADDITIONAL_DATA else Inr v))"

section \<open>Method calls and responses\<close>

definition fl_standard_method_codec_encode_method_call :: "byte list \<Rightarrow> FlValue option \<Rightarrow> byte list fl_res" where
  "fl_standard_method_codec_encode_method_call name args =
     bindR (fl_standard_message_codec_write_value [] (Some (fl_value_new_string name))) (\<lambda>buffer.
     fl_standard_message_codec_write_value buffer args)"

definition fl_standard_method_codec_decode_method_call :: "byte list \<Rightarrow> (byte list \<times> FlValue) fl_res" where
  "fl_standard_method_codec_decode_method_call message =
     bindR (fl_standard_message_codec_read_value message 0) (\<lambda>(name_value, offset).
       case fl_value_get_string (Some name_value) of
         None \<Rightarrow> Inl FAILED
       | Some name \<Rightarrow>
           bindR (fl_standard_message_codec_read_value message offset) (\<lambda>(args_value, offset).
             if offset \<noteq> length message then Inl FAILED else Inr (name, args_value)))"

definition fl_standard_method_codec_encode_success_envelope :: "FlValue option \<Rightarrow> byte list fl_res" where
  "fl_standard_method_codec_encode_success_envelope result =
     fl_standard_message_codec_write_value [0] result"

definition fl_standard_method_codec_encode_error_envelope ::
  "byte list \<Rightarrow> byte list option \<Rightarrow> FlValue option \<Rightarrow> byte list fl_res" where
  "fl_standard_method_codec_encode_error_envelope code message details =
     bindR (fl_standard_message_codec_write_value [1] (Some (fl_value_new_string code))) (\<lambda>buffer.
     bindR (fl_standard_message_codec_write_value buffer (map_option fl_value_new_string message)) (\<lambda>buffer.
     fl_standard_message_codec_write_value buffer details))"

datatype FlMethodResponse =
    SuccessResponse "FlValue option"
  | ErrorResponse "byte list" "byte list option" "FlValue option"
  | NotImplementedResponse

definition read_error_response :: "byte list \<Rightarrow> nat \<Rightarrow> (FlMethodResponse \<times> nat) fl_res" where
  "read_error_response message offset =
     bindR (fl_standard_message_codec_read_value message offset) (\<lambda>(code, offset).
     case fl_value_get_string (Some code) of
       None \<Rightarrow> Inl FAILED
     | Some code_string \<Rightarrow>
         bindR (fl_standard_message_codec_read_value message offset) (\<lambda>(error_message, offset).
         if value_type error_message \<noteq> TYPE_STRING \<and> value_type error_message \<noteq> TYPE_NULL then Inl FAILED
         else
           bindR (fl_standard_message_codec_read_value message offset) (\<lambda>(details, offset).
           Inr (ErrorResponse code_string (fl_value_get_string (Some error_message))
                  (if value_type details \<noteq> TYPE_NULL then Some details else None), offset))))"

definition fl_standard_method_codec_decode_response :: "byte list \<Rightarrow> FlMethodResponse fl_res" where
  "fl_standard_method_codec_decode_response message =
     (if length message = 0 then Inl OUT_OF_DATA
      else
        bindR (if hd message = 1 then read_error_response message 1
               else if hd message = 0 then
                 bindR (fl_standard_message_codec_read_value message 1) (\<lambda>(result, offset).
                   Inr (SuccessResponse (Some result), offset))
               else Inl FAILED) (\<lambda>(response, offset).
        if offset \<noteq> length message then Inl FAILED else Inr response))"

end
