(* ===== verification/Fl_Codec_Correct.thy ===== *)
theory Fl_Codec_Correct
  imports Fl_Codec
begin

text \<open>
  The Linux standard codec reads back what it writes. Writers and readers compose: \<open>fl_reads_back w f x\<close>
  says that \<open>w\<close> appends an image that \<open>f\<close>, started in front of it, reads as \<open>x\<close>, leaving the offset
  behind it. The codec is then an instance of the \<open>value_codec\<close> contract.
\<close>

definition fl_reads_back ::
  "(byte list \<Rightarrow> byte list fl_res) \<Rightarrow> (byte list \<Rightarrow> nat \<Rightarrow> ('a \<times> nat) fl_res) \<Rightarrow> 'a \<Rightarrow> bool" where
  "fl_reads_back w f x \<longleftrightarrow>
     (\<forall>buf. \<exists>img. w buf = Inr (buf @ img) \<and>
        (\<forall>rest. f (buf @ img @ rest) (length buf) = Inr (x, length buf + length img)))"

lemma fl_reads_backI:
  "(\<And>buf. w buf = Inr (buf @ img buf)) \<Longrightarrow>
   (\<And>buf rest. f (buf @ img buf @ rest) (length buf) = Inr (x, length buf + length (img buf))) \<Longrightarrow>
   fl_reads_back w f x"
  unfolding fl_reads_back_def by blast

lemma fl_reads_back_pure: "fl_reads_back Inr (\<lambda>b i. Inr (x, i)) x"
  by (rule fl_reads_backI [where img = "\<lambda>_. []"]) simp_all

lemma fl_reads_back_bind:
  assumes "fl_reads_back w f x" and "fl_reads_back w' (g x) y"
  shows "fl_reads_back (\<lambda>buf. bindR (w buf) w') (\<lambda>b i. bindR (f b i) (\<lambda>(a, i). g a b i)) y"
  unfolding fl_reads_back_def
proof
  fix buf
  from assms(1) obtain i where i: "w buf = Inr (buf @ i)"
    "\<And>rest. f (buf @ i @ rest) (length buf) = Inr (x, length buf + length i)"
    unfolding fl_reads_back_def by blast
  from assms(2) obtain j where j: "w' (buf @ i) = Inr ((buf @ i) @ j)"
    "\<And>rest. g x ((buf @ i) @ j @ rest) (length (buf @ i)) = Inr (y, length (buf @ i) + length j)"
    unfolding fl_reads_back_def by blast
  show "\<exists>img. bindR (w buf) w' = Inr (buf @ img) \<and>
      (\<forall>rest. bindR (f (buf @ img @ rest) (length buf)) (\<lambda>(a, i). g a (buf @ img @ rest) i) =
        Inr (y, length buf + length img))"
    using i(2) [of "j @ _"] j(2) by (intro exI [of _ "i @ j"]) (simp add: i(1) j(1))
qed

lemma fl_reads_back_map:
  assumes "fl_reads_back w f x"
  shows "fl_reads_back w (\<lambda>b i. bindR (f b i) (\<lambda>(a, i). Inr (g a, i))) (g x)"
proof -
  have "(\<lambda>buf. bindR (w buf) Inr) = w" by (rule ext) (simp add: bindR_def split: sum.split)
  with fl_reads_back_bind [OF assms, of Inr "\<lambda>a b i. Inr (g a, i)" "g x"] fl_reads_back_pure [of "g x"]
  show ?thesis by simp
qed

lemma check_size_ok [simp]: "offset + n \<le> length buffer \<Longrightarrow> check_size buffer offset n = Inr ()"
  by (simp add: check_size_def)

lemma fl_reads_back_uint8: "fl_reads_back (\<lambda>buf. Inr (write_uint8 buf b)) read_uint8 b"
  by (rule fl_reads_backI [where img = "\<lambda>_. [b]"])
    (simp_all add: write_uint8_def read_uint8_def get_data_def)

text \<open>A block of known length behind the offset.\<close>

lemma fl_reads_back_block:
  "n = length bs \<Longrightarrow> g (take n bs) = x \<Longrightarrow> (\<And>cs. g (take n (bs @ cs)) = g (take n bs)) \<Longrightarrow>
   fl_reads_back (\<lambda>buf. Inr (buf @ bs))
     (\<lambda>b i. bindR (check_size b i n) (\<lambda>_. Inr (g (take n (get_data b i)), i + n))) x"
  by (rule fl_reads_backI [where img = "\<lambda>_. bs"]) (simp_all add: get_data_def)

lemma fl_reads_back_uint16: "fl_reads_back (\<lambda>buf. Inr (write_uint16 buf v)) read_uint16 v"
  using fl_reads_back_block [of 2 "le_bytes 2 (unat v)" "\<lambda>bs. word_of_nat (le_nat bs)" v]
    unsigned_less [of v, where 'a = nat]
  by (simp add: write_uint16_def read_uint16_def [abs_def] le_nat_le_bytes)

lemma fl_reads_back_uint32: "fl_reads_back (\<lambda>buf. Inr (write_uint32 buf v)) read_uint32 v"
  using fl_reads_back_block [of 4 "le_bytes 4 (unat v)" "\<lambda>bs. word_of_nat (le_nat bs)" v] unat_32_bound [of v]
  by (simp add: write_uint32_def read_uint32_def [abs_def] le_nat_le_bytes)

lemma fl_reads_back_int64: "fl_reads_back (\<lambda>buf. Inr (write_int64 buf v)) read_int64_value (FL_INT v)"
  using fl_reads_back_block [of 8 "le_bytes 8 (unat v)" "\<lambda>bs. fl_value_new_int (word_of_nat (le_nat bs))" "FL_INT v"]
    unat_64_bound [of v]
  by (simp add: write_int64_def read_int64_value_def [abs_def] le_nat_le_bytes fl_value_new_int_def)

text \<open>A 64-bit integer in the 32-bit range survives truncation and sign extension.\<close>

lemma sign_extend_truncate:
  fixes i :: "64 word"
  assumes "- (2 ^ 31) \<le> sint i" and "sint i \<le> 2 ^ 31 - 1"
  shows "scast (ucast i :: 32 word) = i"
proof -
  have "sint (ucast i :: 32 word) = signed_take_bit 31 (uint (ucast i :: 32 word))" by (simp add: sint_uint)
  also have "\<dots> = signed_take_bit 31 (uint i)"
    by (simp add: unsigned_ucast_eq signed_take_bit_take_bit)
  also have "\<dots> = signed_take_bit 31 (sint i)" by (simp add: sint_uint [of i] signed_take_bit_signed_take_bit)
  also have "\<dots> = sint i" using assms by (simp add: signed_take_bit_int_eq_self)
  finally show ?thesis by (simp add: scast_eq)
qed

lemma fl_reads_back_int32:
  assumes "- (2 ^ 31) \<le> sint i" and "sint i \<le> 2 ^ 31 - 1"
  shows "fl_reads_back (\<lambda>buf. Inr (write_int32 buf (ucast i))) read_int32_value (FL_INT i)"
  using fl_reads_back_block [of 4 "le_bytes 4 (unat (ucast i :: 32 word))"
      "\<lambda>bs. fl_value_new_int (scast (word_of_nat (le_nat bs) :: 32 word))" "FL_INT i"]
    unat_32_bound [of "ucast i"] sign_extend_truncate [OF assms]
  by (simp add: write_int32_def read_int32_value_def [abs_def] le_nat_le_bytes fl_value_new_int_def)

section \<open>Alignment and sizes\<close>

lemma write_align_pad: "0 < align \<Longrightarrow> write_align buffer align = buffer @ replicate (pad_length align (length buffer)) 0"
proof (induction "pad_length align (length buffer)" arbitrary: buffer)
  case 0
  then have "length buffer mod align = 0"
    by (metis mod_less_divisor not_less_zero pad_length_def zero_less_diff)
  then show ?case by (simp add: write_align.simps pad_length_def)
next
  case (Suc n)
  have a: "length buffer mod align \<noteq> 0" using Suc.hyps(2) by (auto simp: pad_length_def split: if_splits)
  have lt: "length buffer mod align < align" using Suc.prems by simp
  have m: "Suc (length buffer) mod align = (if Suc (length buffer mod align) = align then 0 else Suc (length buffer mod align))"
    using lt by (simp add: mod_Suc)
  have p: "pad_length align (Suc (length buffer)) = n"
    using Suc.hyps(2) a lt m by (auto simp: pad_length_def split: if_splits)
  have "write_align buffer align = write_align (buffer @ [0]) align"
    using a Suc.prems by (subst write_align.simps) (simp add: write_uint8_def)
  also have "\<dots> = (buffer @ [0]) @ replicate n 0" using Suc.hyps(1) [of "buffer @ [0]"] p Suc.prems by simp
  finally show ?case using Suc.hyps(2) [symmetric] by simp
qed

lemma fl_reads_back_align:
  "0 < align \<Longrightarrow> fl_reads_back (\<lambda>buf. Inr (write_align buf align)) (\<lambda>b i. bindR (read_align b align i) (\<lambda>i. Inr ((), i))) ()"
  by (rule fl_reads_backI [where img = "\<lambda>buf. replicate (pad_length align (length buf)) 0"])
    (auto simp: write_align_pad read_align_def pad_length_def Let_def)

lemma bindR_skip: "bindR (bindR r (\<lambda>i. Inr ((), i))) (\<lambda>(a, i). f i) = bindR r f" for r :: "nat fl_res"
  by (cases r) simp_all

lemma fl_reads_back_size:
  "fl_reads_back (\<lambda>buf. Inr (fl_standard_message_codec_write_size buf n)) fl_standard_message_codec_read_size n"
proof -
  let ?R = "\<lambda>(v :: byte) b i. if v = 255 then read_uint32 b i
      else if v = 254 then bindR (read_uint16 b i) (\<lambda>(v, i). Inr (ucast v :: 32 word, i)) else Inr (ucast v, i)"
  have R: "fl_standard_message_codec_read_size = (\<lambda>b i. bindR (read_uint8 b i) (\<lambda>(v, i). ?R v b i))"
    by (intro ext) (simp add: fl_standard_message_codec_read_size_def)
  consider "unat n < 254" | "254 \<le> unat n" "unat n \<le> 0xffff" | "0xffff < unat n" by linarith
  then show ?thesis
  proof cases
    case 1
    then have lt: "n < 254" by (simp add: word_less_nat_alt)
    have u: "unat (ucast n :: byte) = unat n" using 1 by (simp add: unsigned_ucast_eq take_bit_nat_eq_self)
    have c: "(ucast (ucast n :: byte) :: 32 word) = n"
      by (rule unsigned_word_eqI [where 'a = nat]) (use u in \<open>simp add: unsigned_ucast_eq unsigned_take_bit_eq\<close>)
    have ne: "(ucast n :: byte) \<noteq> 255" "(ucast n :: byte) \<noteq> 254" using u 1 by auto
    have "fl_reads_back Inr (?R (ucast n)) n" using fl_reads_back_pure [of n] ne c by simp
    from fl_reads_back_bind [where g = ?R, OF fl_reads_back_uint8 this] lt show ?thesis
      unfolding R by (simp add: fl_standard_message_codec_write_size_def)
  next
    case 2
    then have r: "\<not> n < 254" "n \<le> 0xffff" by (simp_all add: word_less_nat_alt word_le_nat_alt)
    have u: "unat (ucast n :: 16 word) = unat n" using 2 by (simp add: unsigned_ucast_eq take_bit_nat_eq_self)
    have c: "(ucast (ucast n :: 16 word) :: 32 word) = n"
      by (rule unsigned_word_eqI [where 'a = nat]) (use u in \<open>simp add: unsigned_ucast_eq unsigned_take_bit_eq\<close>)
    from fl_reads_back_map [OF fl_reads_back_uint16, of "ucast n" "\<lambda>v. ucast v :: 32 word"] c
    have "fl_reads_back (\<lambda>buf. Inr (write_uint16 buf (ucast n))) (?R 254) n" by simp
    from fl_reads_back_bind [where g = ?R, OF fl_reads_back_uint8 this] r show ?thesis
      unfolding R by (simp add: fl_standard_message_codec_write_size_def)
  next
    case 3
    then have r: "\<not> n < 254" "\<not> n \<le> 0xffff" by (simp_all add: word_less_nat_alt word_le_nat_alt)
    have "fl_reads_back (\<lambda>buf. Inr (write_uint32 buf n)) (?R 255) n" using fl_reads_back_uint32 by simp
    from fl_reads_back_bind [where g = ?R, OF fl_reads_back_uint8 this] r show ?thesis
      unfolding R by (simp add: fl_standard_message_codec_write_size_def)
  qed
qed

section \<open>Strings and typed lists\<close>

text \<open>A sized block: its length, padding when the elements are wider than a byte, and the elements.\<close>

lemma fl_reads_back_sized:
  assumes "length bs = w * unat n" and "\<And>cs. g (unat n) (bs @ cs) = x"
  shows "fl_reads_back (\<lambda>buf. Inr (fl_standard_message_codec_write_size buf n @ bs))
     (\<lambda>b i. bindR (fl_standard_message_codec_read_size b i) (\<lambda>(n, i).
        bindR (check_size b i (w * unat n)) (\<lambda>_. Inr (g (unat n) (get_data b i), i + w * unat n)))) x"
proof -
  have "fl_reads_back (\<lambda>buf. Inr (buf @ bs))
      (\<lambda>b i. bindR (check_size b i (w * unat n)) (\<lambda>_. Inr (g (unat n) (get_data b i), i + w * unat n))) x"
    using assms by (intro fl_reads_backI [where img = "\<lambda>_. bs"]) (simp_all add: get_data_def)
  from fl_reads_back_bind [OF fl_reads_back_size,
      where g = "\<lambda>n b i. bindR (check_size b i (w * unat n)) (\<lambda>_. Inr (g (unat n) (get_data b i), i + w * unat n))", OF this]
  show ?thesis by simp
qed

lemma fl_reads_back_aligned:
  assumes "length bs = w * unat n" and "\<And>cs. g (unat n) (bs @ cs) = x" and "0 < w"
  shows "fl_reads_back (\<lambda>buf. Inr (write_align (fl_standard_message_codec_write_size buf n) w @ bs))
     (\<lambda>b i. bindR (fl_standard_message_codec_read_size b i) (\<lambda>(n, i).
        bindR (read_align b w i) (\<lambda>i.
        bindR (check_size b i (w * unat n)) (\<lambda>_. Inr (g (unat n) (get_data b i), i + w * unat n))))) x"
proof -
  let ?B = "\<lambda>n b i. bindR (check_size b i (w * unat n)) (\<lambda>_. Inr (g (unat n) (get_data b i), i + w * unat n))"
  have B: "fl_reads_back (\<lambda>buf. Inr (buf @ bs)) (?B n) x"
    using assms by (intro fl_reads_backI [where img = "\<lambda>_. bs"]) (simp_all add: get_data_def)
  have "fl_reads_back (\<lambda>buf. Inr (write_align buf w @ bs)) (\<lambda>b i. bindR (read_align b w i) (?B n b)) x"
    using fl_reads_back_bind [OF fl_reads_back_align [OF assms(3)], where g = "\<lambda>_. ?B n", OF B] by (simp add: bindR_skip)
  from fl_reads_back_bind [OF fl_reads_back_size, where g = "\<lambda>n b i. bindR (read_align b w i) (?B n b)", OF this]
  show ?thesis by simp
qed

lemma unat_length: "n < 2 ^ 32 \<Longrightarrow> unat (word_of_nat n :: 32 word) = n"
  by (simp add: unat_of_nat)

lemma array_nats_append: "length bs = w * n \<Longrightarrow> array_nats w n (bs @ cs) = array_nats w n bs"
  by (induction n arbitrary: bs) simp_all

lemma c_string_id: "0 \<notin> set s \<Longrightarrow> c_string s = s"
  by (auto simp: c_string_def takeWhile_eq_all_conv)

lemma fl_reads_back_string:
  "length s < 2 ^ 32 \<Longrightarrow> 0 \<notin> set s \<Longrightarrow>
   fl_reads_back (\<lambda>buf. Inr (fl_standard_message_codec_write_size buf (word_of_nat (length s)) @ s))
     read_string_value (FL_STRING s)"
  using fl_reads_back_sized [of s 1 "word_of_nat (length s)" "\<lambda>n bs. fl_value_new_string_sized bs n" "FL_STRING s"]
  by (simp add: unat_length c_string_id fl_value_new_string_sized_def read_string_value_def [abs_def])

lemma fl_reads_back_uint8_list:
  "length xs < 2 ^ 32 \<Longrightarrow>
   fl_reads_back (\<lambda>buf. Inr (fl_standard_message_codec_write_size buf (word_of_nat (length xs)) @ xs))
     read_uint8_list_value (FL_UINT8_LIST xs)"
  using fl_reads_back_sized [of xs 1 "word_of_nat (length xs)" "\<lambda>n bs. fl_value_new_uint8_list bs n" "FL_UINT8_LIST xs"]
  by (simp add: unat_length fl_value_new_uint8_list_def read_uint8_list_value_def [abs_def])

lemma word_of_nat_unat_map [simp]: "map (word_of_nat \<circ> unat) xs = xs"
  by (induction xs) simp_all

lemma fl_reads_back_typed_lists:
  fixes xs :: "32 word list" and ys :: "64 word list"
  shows "length xs < 2 ^ 32 \<Longrightarrow>
     fl_reads_back (\<lambda>buf. Inr (write_align (fl_standard_message_codec_write_size buf (word_of_nat (length xs))) 4 @
       array_bytes 4 (map unat xs))) read_int32_list_value (FL_INT32_LIST xs)"
    "length xs < 2 ^ 32 \<Longrightarrow>
     fl_reads_back (\<lambda>buf. Inr (write_align (fl_standard_message_codec_write_size buf (word_of_nat (length xs))) 4 @
       array_bytes 4 (map unat xs))) read_float32_list_value (FL_FLOAT32_LIST xs)"
    "length ys < 2 ^ 32 \<Longrightarrow>
     fl_reads_back (\<lambda>buf. Inr (write_align (fl_standard_message_codec_write_size buf (word_of_nat (length ys))) 8 @
       array_bytes 8 (map unat ys))) read_int64_list_value (FL_INT64_LIST ys)"
    "length ys < 2 ^ 32 \<Longrightarrow>
     fl_reads_back (\<lambda>buf. Inr (write_align (fl_standard_message_codec_write_size buf (word_of_nat (length ys))) 8 @
       array_bytes 8 (map unat ys))) read_float64_list_value (FL_FLOAT_LIST ys)"
  using fl_reads_back_aligned [of "array_bytes 4 (map unat xs)" 4 "word_of_nat (length xs)"
      "\<lambda>n bs. fl_value_new_int32_list (map word_of_nat (array_nats 4 n bs)) n" "FL_INT32_LIST xs"]
    fl_reads_back_aligned [of "array_bytes 4 (map unat xs)" 4 "word_of_nat (length xs)"
      "\<lambda>n bs. fl_value_new_float32_list (map word_of_nat (array_nats 4 n bs)) n" "FL_FLOAT32_LIST xs"]
    fl_reads_back_aligned [of "array_bytes 8 (map unat ys)" 8 "word_of_nat (length ys)"
      "\<lambda>n bs. fl_value_new_int64_list (map word_of_nat (array_nats 8 n bs)) n" "FL_INT64_LIST ys"]
    fl_reads_back_aligned [of "array_bytes 8 (map unat ys)" 8 "word_of_nat (length ys)"
      "\<lambda>n bs. fl_value_new_float_list (map word_of_nat (array_nats 8 n bs)) n" "FL_FLOAT_LIST ys"]
  by (simp_all add: unat_length array_nats_append array_nats_words fl_value_new_int32_list_def
      fl_value_new_float32_list_def fl_value_new_int64_list_def fl_value_new_float_list_def
      read_int32_list_value_def [abs_def] read_float32_list_value_def [abs_def]
      read_int64_list_value_def [abs_def] read_float64_list_value_def [abs_def])

lemma fl_reads_back_float:
  "fl_reads_back (\<lambda>buf. Inr (write_float64 (write_align buf 8) d)) read_float64_value (FL_FLOAT d)"
proof -
  let ?B = "\<lambda>b i. bindR (check_size b i 8)
      (\<lambda>_. Inr (fl_value_new_float (word_of_nat (le_nat (take 8 (get_data b i)))), i + 8))"
  have B: "fl_reads_back (\<lambda>buf. Inr (write_float64 buf d)) ?B (FL_FLOAT d)"
    using fl_reads_back_block [of 8 "le_bytes 8 (unat d)" "\<lambda>bs. fl_value_new_float (word_of_nat (le_nat bs))" "FL_FLOAT d"]
      unat_64_bound [of d] by (simp add: write_float64_def le_nat_le_bytes fl_value_new_float_def)
  from fl_reads_back_bind [OF fl_reads_back_align [of 8], where g = "\<lambda>_. ?B", OF _ B] show ?thesis
    by (simp add: bindR_skip read_float64_value_def [abs_def])
qed

section \<open>Values that survive\<close>

text \<open>
  Lengths fit 32 bits, strings have no NUL, no two keys of a map are equal for \<open>fl_value_equal\<close>, and there
  is no custom value.
\<close>

fun fl_serializable :: "FlValue \<Rightarrow> bool" where
  "fl_serializable (FL_STRING s) = (length s < 2 ^ 32 \<and> 0 \<notin> set s)"
| "fl_serializable (FL_UINT8_LIST xs) = (length xs < 2 ^ 32)"
| "fl_serializable (FL_INT32_LIST xs) = (length xs < 2 ^ 32)"
| "fl_serializable (FL_INT64_LIST xs) = (length xs < 2 ^ 32)"
| "fl_serializable (FL_FLOAT32_LIST xs) = (length xs < 2 ^ 32)"
| "fl_serializable (FL_FLOAT_LIST xs) = (length xs < 2 ^ 32)"
| "fl_serializable (FL_LIST vs) = (length vs < 2 ^ 32 \<and> list_all fl_serializable vs)"
| "fl_serializable (FL_MAP m) =
     (length m < 2 ^ 32 \<and> sorted_wrt (\<lambda>k k'. \<not> value_equal k k') (map fst m) \<and>
      list_all (\<lambda>kv. fl_serializable (fst kv) \<and> fl_serializable (snd kv)) m)"
| "fl_serializable (FL_CUSTOM _ _) = False"
| "fl_serializable v = True"

lemma lookup_index_from_absent:
  "(\<forall>kv \<in> set m. \<not> value_equal (fst kv) k) \<Longrightarrow> lookup_index_from i m (Some k) = -1"
  by (induction m arbitrary: i) (auto simp: fl_value_equal_def)

lemma fl_value_set_absent:
  "(\<forall>kv \<in> set m. \<not> value_equal (fst kv) k) \<Longrightarrow>
     fl_value_set (Some (FL_MAP m)) (Some k) (Some v) = Some (FL_MAP (m @ [(k, v)]))"
  by (simp add: fl_value_set_def fl_value_set_take_def fl_value_lookup_index_def lookup_index_from_absent)

lemma fl_reads_back_items:
  assumes "\<And>v. v \<in> set vs \<Longrightarrow> fl_reads_back (write_value v) read_value v"
  shows "fl_reads_back (foldR write_value vs) (\<lambda>b. read_list_items b (length vs) (FL_LIST acc)) (FL_LIST (acc @ vs))"
  using assms
proof (induction vs arbitrary: acc)
  case Nil
  then show ?case using fl_reads_back_pure [of "FL_LIST acc"] by (simp add: ext)
next
  case (Cons v vs)
  let ?G = "\<lambda>child b i. read_list_items b (length vs) (the (fl_value_append (Some (FL_LIST acc)) (Some child))) i"
  have "fl_reads_back (foldR write_value vs) (?G v) (FL_LIST (acc @ v # vs))"
    using Cons.IH [of "acc @ [v]"] Cons.prems by (simp add: fl_value_append_def fl_value_append_take_def)
  from fl_reads_back_bind [where g = ?G, OF _ this, of "write_value v" read_value] Cons.prems
  show ?case by simp
qed

lemma fl_reads_back_entries:
  assumes "\<And>kv. kv \<in> set m \<Longrightarrow> fl_reads_back (write_value (fst kv)) read_value (fst kv) \<and>
      fl_reads_back (write_value (snd kv)) read_value (snd kv)"
    and "sorted_wrt (\<lambda>k k'. \<not> value_equal k k') (map fst (acc @ m))"
  shows "fl_reads_back (foldR (\<lambda>kv buffer. bindR (write_value (fst kv) buffer) (write_value (snd kv))) m)
    (\<lambda>b. read_map_items b (length m) (FL_MAP acc)) (FL_MAP (acc @ m))"
  using assms
proof (induction m arbitrary: acc)
  case Nil
  then show ?case using fl_reads_back_pure [of "FL_MAP acc"] by (simp add: ext)
next
  case (Cons kv m)
  let ?W = "foldR (\<lambda>kv buffer. bindR (write_value (fst kv) buffer) (write_value (snd kv))) m"
  let ?G = "\<lambda>k v b i. read_map_items b (length m) (the (fl_value_set (Some (FL_MAP acc)) (Some k) (Some v))) i"
  let ?H = "\<lambda>k b i. bindR (read_value b i) (\<lambda>(v, i). ?G k v b i)"
  have kv: "fl_reads_back (write_value (fst kv)) read_value (fst kv)"
    "fl_reads_back (write_value (snd kv)) read_value (snd kv)" using Cons.prems(1) by auto
  have "\<forall>e \<in> set acc. \<not> value_equal (fst e) (fst kv)" using Cons.prems(2) by (auto simp: sorted_wrt_append)
  then have set: "fl_value_set (Some (FL_MAP acc)) (Some (fst kv)) (Some (snd kv)) = Some (FL_MAP (acc @ [kv]))"
    by (simp add: fl_value_set_absent)
  have "fl_reads_back ?W (?G (fst kv) (snd kv)) (FL_MAP (acc @ kv # m))"
    using Cons.IH [of "acc @ [kv]"] Cons.prems by (simp add: set)
  from fl_reads_back_bind [where g = "?G (fst kv)", OF kv(2) this]
  have "fl_reads_back (\<lambda>buf. bindR (write_value (snd kv) buf) ?W) (?H (fst kv)) (FL_MAP (acc @ kv # m))" .
  from fl_reads_back_bind [where g = ?H, OF kv(1) this]
  have "fl_reads_back (\<lambda>buf. bindR (write_value (fst kv) buf) (\<lambda>buf. bindR (write_value (snd kv) buf) ?W))
      (\<lambda>b i. bindR (read_value b i) (\<lambda>(k, i). ?H k b i)) (FL_MAP (acc @ kv # m))" .
  moreover have "bindR (bindR (write_value (fst kv) buf) (write_value (snd kv))) ?W =
      bindR (write_value (fst kv) buf) (\<lambda>buf. bindR (write_value (snd kv) buf) ?W)" for buf
    by (cases "write_value (fst kv) buf") simp_all
  ultimately show ?case by simp
qed

lemma read_value_of_type_cases:
  "(\<lambda>b. read_value_of_type b 0) = (\<lambda>b i. Inr (FL_NULL, i))"
  "(\<lambda>b. read_value_of_type b 1) = (\<lambda>b i. Inr (FL_BOOL True, i))"
  "(\<lambda>b. read_value_of_type b 2) = (\<lambda>b i. Inr (FL_BOOL False, i))"
  "(\<lambda>b. read_value_of_type b 3) = (\<lambda>b i. read_int32_value b i)"
  "(\<lambda>b. read_value_of_type b 4) = (\<lambda>b i. read_int64_value b i)"
  "(\<lambda>b. read_value_of_type b 6) = (\<lambda>b i. read_float64_value b i)"
  "(\<lambda>b. read_value_of_type b 7) = (\<lambda>b i. read_string_value b i)"
  "(\<lambda>b. read_value_of_type b 8) = (\<lambda>b i. read_uint8_list_value b i)"
  "(\<lambda>b. read_value_of_type b 9) = (\<lambda>b i. read_int32_list_value b i)"
  "(\<lambda>b. read_value_of_type b 10) = (\<lambda>b i. read_int64_list_value b i)"
  "(\<lambda>b. read_value_of_type b 11) = (\<lambda>b i. read_float64_list_value b i)"
  "(\<lambda>b. read_value_of_type b 14) = (\<lambda>b i. read_float32_list_value b i)"
  "(\<lambda>b. read_value_of_type b 12) = (\<lambda>b i. bindR (fl_standard_message_codec_read_size b i) (\<lambda>(n, i). read_list_items b (unat n) (FL_LIST []) i))"
  "(\<lambda>b. read_value_of_type b 13) = (\<lambda>b i. bindR (fl_standard_message_codec_read_size b i) (\<lambda>(n, i). read_map_items b (unat n) (FL_MAP []) i))"
  by (intro ext; simp add: read_value_of_type.simps fl_value_new_null_def fl_value_new_bool_def
      fl_value_new_list_def fl_value_new_map_def)+

text \<open>The type byte in front of a body.\<close>

lemma fl_reads_back_typed:
  assumes "fl_reads_back body (\<lambda>b. read_value_of_type b t) v" and "\<And>buf. write_value v buf = body (write_uint8 buf t)"
  shows "fl_reads_back (write_value v) read_value v"
proof -
  have "read_value = (\<lambda>b i. bindR (read_uint8 b i) (\<lambda>(t, i). read_value_of_type b t i))"
    by (intro ext) (simp add: read_value.simps)
  moreover have "write_value v = (\<lambda>buf. bindR (Inr (write_uint8 buf t)) body)" using assms(2) by auto
  ultimately show ?thesis
    using fl_reads_back_bind [where g = "\<lambda>t b. read_value_of_type b t", OF fl_reads_back_uint8 assms(1)] by simp
qed

lemmas typed_body = write_value.simps read_value_of_type_cases

lemma fl_reads_back_scalars:
  "fl_reads_back (write_value FL_NULL) read_value FL_NULL"
  "fl_reads_back (write_value (FL_BOOL b)) read_value (FL_BOOL b)"
  "fl_reads_back (write_value (FL_INT i)) read_value (FL_INT i)"
  "fl_reads_back (write_value (FL_FLOAT d)) read_value (FL_FLOAT d)"
proof -
  show "fl_reads_back (write_value FL_NULL) read_value FL_NULL"
    by (rule fl_reads_back_typed [where t = 0 and body = Inr]) (simp_all add: typed_body fl_reads_back_pure)
  show "fl_reads_back (write_value (FL_BOOL b)) read_value (FL_BOOL b)"
  proof (cases b)
    case True
    then show ?thesis
      by (intro fl_reads_back_typed [where t = 1 and body = Inr]) (simp_all add: typed_body fl_reads_back_pure)
  next
    case False
    then show ?thesis
      by (intro fl_reads_back_typed [where t = 2 and body = Inr]) (simp_all add: typed_body fl_reads_back_pure)
  qed
  show "fl_reads_back (write_value (FL_INT i)) read_value (FL_INT i)"
  proof (cases "- (2 ^ 31) \<le> sint i \<and> sint i \<le> 2 ^ 31 - 1")
    case True
    then show ?thesis
      using fl_reads_back_int32 [of i]
      by (intro fl_reads_back_typed [where t = 3 and body = "\<lambda>buf. Inr (write_int32 buf (ucast i))"])
        (simp_all add: typed_body)
  next
    case False
    then show ?thesis
      using fl_reads_back_int64 [of i]
      by (intro fl_reads_back_typed [where t = 4 and body = "\<lambda>buf. Inr (write_int64 buf i)"])
        (auto simp: typed_body)
  qed
  show "fl_reads_back (write_value (FL_FLOAT d)) read_value (FL_FLOAT d)"
    by (rule fl_reads_back_typed [where t = 6 and body = "\<lambda>buf. Inr (write_float64 (write_align buf 8) d)"])
      (simp_all add: typed_body fl_reads_back_float)
qed

lemma fl_reads_back_leaf_lists:
  fixes xs :: "32 word list" and ys :: "64 word list"
  shows "length s < 2 ^ 32 \<Longrightarrow> 0 \<notin> set s \<Longrightarrow> fl_reads_back (write_value (FL_STRING s)) read_value (FL_STRING s)"
    "length bs < 2 ^ 32 \<Longrightarrow> fl_reads_back (write_value (FL_UINT8_LIST bs)) read_value (FL_UINT8_LIST bs)"
    "length xs < 2 ^ 32 \<Longrightarrow> fl_reads_back (write_value (FL_INT32_LIST xs)) read_value (FL_INT32_LIST xs)"
    "length xs < 2 ^ 32 \<Longrightarrow> fl_reads_back (write_value (FL_FLOAT32_LIST xs)) read_value (FL_FLOAT32_LIST xs)"
    "length ys < 2 ^ 32 \<Longrightarrow> fl_reads_back (write_value (FL_INT64_LIST ys)) read_value (FL_INT64_LIST ys)"
    "length ys < 2 ^ 32 \<Longrightarrow> fl_reads_back (write_value (FL_FLOAT_LIST ys)) read_value (FL_FLOAT_LIST ys)"
  using fl_reads_back_string [of s, THEN fl_reads_back_typed [where t = 7, unfolded read_value_of_type_cases]]
    fl_reads_back_uint8_list [of bs, THEN fl_reads_back_typed [where t = 8, unfolded read_value_of_type_cases]]
    fl_reads_back_typed_lists(1) [of xs, THEN fl_reads_back_typed [where t = 9, unfolded read_value_of_type_cases]]
    fl_reads_back_typed_lists(2) [of xs, THEN fl_reads_back_typed [where t = 14, unfolded read_value_of_type_cases]]
    fl_reads_back_typed_lists(3) [of ys, THEN fl_reads_back_typed [where t = 10, unfolded read_value_of_type_cases]]
    fl_reads_back_typed_lists(4) [of ys, THEN fl_reads_back_typed [where t = 11, unfolded read_value_of_type_cases]]
  by (simp_all add: write_value.simps)

lemma fl_reads_back_list:
  assumes "length vs < 2 ^ 32" and "\<And>v. v \<in> set vs \<Longrightarrow> fl_reads_back (write_value v) read_value v"
  shows "fl_reads_back (write_value (FL_LIST vs)) read_value (FL_LIST vs)"
proof (rule fl_reads_back_typed)
  let ?G = "\<lambda>n b. read_list_items b (unat (n :: 32 word)) (FL_LIST [])"
  have "fl_reads_back (foldR write_value vs) (?G (word_of_nat (length vs))) (FL_LIST vs)"
    using fl_reads_back_items [of vs "[]"] assms by (simp add: unat_length)
  from fl_reads_back_bind [OF fl_reads_back_size, where g = ?G, OF this]
  show "fl_reads_back (\<lambda>buf. foldR write_value vs (fl_standard_message_codec_write_size buf (word_of_nat (length vs))))
      (\<lambda>b. read_value_of_type b 12) (FL_LIST vs)"
    unfolding read_value_of_type_cases by simp
  show "write_value (FL_LIST vs) buf = foldR write_value vs
      (fl_standard_message_codec_write_size (write_uint8 buf 12) (word_of_nat (length vs)))" for buf
    by (subst write_value.simps) simp
qed

lemma fl_reads_back_map_value:
  assumes "length m < 2 ^ 32" and "sorted_wrt (\<lambda>k k'. \<not> value_equal k k') (map fst m)"
    and "\<And>kv. kv \<in> set m \<Longrightarrow> fl_reads_back (write_value (fst kv)) read_value (fst kv) \<and>
      fl_reads_back (write_value (snd kv)) read_value (snd kv)"
  shows "fl_reads_back (write_value (FL_MAP m)) read_value (FL_MAP m)"
proof (rule fl_reads_back_typed)
  let ?G = "\<lambda>n b. read_map_items b (unat (n :: 32 word)) (FL_MAP [])"
  let ?W = "foldR (\<lambda>kv buffer. bindR (write_value (fst kv) buffer) (write_value (snd kv))) m"
  have "fl_reads_back ?W (?G (word_of_nat (length m))) (FL_MAP m)"
    using fl_reads_back_entries [of m "[]"] assms by (simp add: unat_length)
  from fl_reads_back_bind [OF fl_reads_back_size, where g = ?G, OF this]
  show "fl_reads_back (\<lambda>buf. ?W (fl_standard_message_codec_write_size buf (word_of_nat (length m))))
      (\<lambda>b. read_value_of_type b 13) (FL_MAP m)"
    unfolding read_value_of_type_cases by simp
  show "write_value (FL_MAP m) buf =
      ?W (fl_standard_message_codec_write_size (write_uint8 buf 13) (word_of_nat (length m)))" for buf
    by (subst write_value.simps) simp
qed

lemma fl_reads_back_value: "fl_serializable v \<Longrightarrow> fl_reads_back (write_value v) read_value v"
proof (induction v)
  case (FL_LIST vs)
  then show ?case by (intro fl_reads_back_list) (auto simp: list_all_iff)
next
  case (FL_MAP m)
  then show ?case by (intro fl_reads_back_map_value) (fastforce simp: list_all_iff prod_set_defs)+
qed (simp_all add: fl_reads_back_scalars fl_reads_back_leaf_lists)

section \<open>The codec contract\<close>

definition fl_put :: "FlValue \<Rightarrow> byte list \<Rightarrow> byte list" where
  "fl_put v buf = (case write_value v buf of Inl _ \<Rightarrow> buf | Inr buf' \<Rightarrow> buf')"

definition fl_get :: "byte list \<Rightarrow> nat \<Rightarrow> (FlValue \<times> nat) option" where
  "fl_get buf i = (case read_value buf i of Inl _ \<Rightarrow> None | Inr r \<Rightarrow> Some r)"

lemma fl_get_read: "fl_get buf i = Some r \<Longrightarrow> read_value buf i = Inr r"
  by (simp add: fl_get_def split: sum.splits)

lemma fl_write_put: "fl_serializable v \<Longrightarrow> write_value v buf = Inr (fl_put v buf)"
  using fl_reads_back_value [of v] unfolding fl_reads_back_def fl_put_def by (metis sum.simps(6))

interpretation fl: value_codec fl_put fl_get fl_serializable
proof
  fix v buf rest assume "fl_serializable v"
  from fl_reads_back_value [OF this] obtain img where w: "write_value v buf = Inr (buf @ img)"
    and r: "\<And>rest. read_value (buf @ img @ rest) (length buf) = Inr (v, length buf + length img)"
    unfolding fl_reads_back_def by blast
  from w show "\<exists>bs. fl_put v buf = buf @ bs" by (simp add: fl_put_def)
  show "fl_get (fl_put v buf @ rest) (length buf) = Some (v, length (fl_put v buf))"
    using r [of rest] by (simp add: fl_get_def fl_put_def w)
qed

text \<open>Reading what one, two or three writes left, to the end of the buffer.\<close>

lemma fl_read_one: "fl_serializable v \<Longrightarrow> read_value (fl_put v buf) (length buf) = Inr (v, length (fl_put v buf))"
  using fl_get_read [OF fl.read_write [of v buf "[]"]] by simp

lemma fl_read_two:
  assumes "fl_serializable v" and "fl_serializable w"
  shows "read_value (fl_put w (fl_put v buf)) (length buf) = Inr (v, length (fl_put v buf))"
    "read_value (fl_put w (fl_put v buf)) (length (fl_put v buf)) = Inr (w, length (fl_put w (fl_put v buf)))"
  using fl.read_two [OF assms, of buf "[]"] fl_get_read by auto

lemma fl_read_three:
  assumes "fl_serializable u" and "fl_serializable v" and "fl_serializable w"
  shows "read_value (fl_put w (fl_put v (fl_put u buf))) (length buf) = Inr (u, length (fl_put u buf))"
    "read_value (fl_put w (fl_put v (fl_put u buf))) (length (fl_put u buf)) = Inr (v, length (fl_put v (fl_put u buf)))"
    "read_value (fl_put w (fl_put v (fl_put u buf))) (length (fl_put v (fl_put u buf))) =
       Inr (w, length (fl_put w (fl_put v (fl_put u buf))))"
  using fl.read_three [OF assms, of buf "[]"] fl_get_read by auto

definition fl_or_null :: "FlValue option \<Rightarrow> FlValue" where
  "fl_or_null v = (case v of None \<Rightarrow> FL_NULL | Some v \<Rightarrow> v)"

lemma fl_or_null_serializable: "pred_option fl_serializable v \<Longrightarrow> fl_serializable (fl_or_null v)"
  by (cases v) (simp_all add: fl_or_null_def)

lemma fl_write_or_null:
  "pred_option fl_serializable v \<Longrightarrow> fl_standard_message_codec_write_value buf v = Inr (fl_put (fl_or_null v) buf)"
  using fl_write_put [of "fl_or_null v" buf] fl_or_null_serializable [of v]
  by (cases v) (simp_all add: fl_or_null_def fl_standard_message_codec_write_value_def write_value.simps)

lemma fl_write_string:
  "length s < 2 ^ 32 \<Longrightarrow> 0 \<notin> set s \<Longrightarrow>
     fl_standard_message_codec_write_value buf (Some (fl_value_new_string s)) = Inr (fl_put (FL_STRING s) buf)"
  using fl_write_or_null [of "Some (FL_STRING s)" buf]
  by (simp add: fl_or_null_def fl_value_new_string_def c_string_id)

lemma fl_put_nonempty: "fl_serializable v \<Longrightarrow> buf \<noteq> [] \<Longrightarrow> fl_put v buf \<noteq> [] \<and> hd (fl_put v buf) = hd buf"
  using fl.write_extends [of v buf] by auto

lemma fl_encode_decode:
  assumes "pred_option fl_serializable v"
  shows "bindR (fl_standard_message_codec_encode_message v) fl_standard_message_codec_decode_message =
     Inr (fl_or_null v)"
proof -
  have s: "fl_serializable (fl_or_null v)" using assms by (rule fl_or_null_serializable)
  have r: "read_value (fl_put (fl_or_null v) []) 0 = Inr (fl_or_null v, length (fl_put (fl_or_null v) []))"
    using fl_read_one [OF s, of "[]"] by simp
  then have "fl_put (fl_or_null v) [] \<noteq> []" by (auto simp: read_value.simps bindR_eq_Inr_iff read_uint8_Inr)
  with r assms show ?thesis
    by (simp add: fl_standard_message_codec_encode_message_def fl_write_or_null
        fl_standard_message_codec_decode_message_def fl_standard_message_codec_read_value_def)
qed

text \<open>C18: The Linux codec decodes the encoding of every serializable value to that value: the encoder
  succeeds, and the decoder consumes exactly what was written.\<close>

theorem fl_message_round_trip:
  assumes "pred_option fl_serializable v"
  shows "bindR (fl_standard_message_codec_encode_message v) fl_standard_message_codec_decode_message =
     Inr (fl_or_null v)"
  using assms by (rule fl_encode_decode)

theorem fl_message_round_trip_witness:
  "bindR (fl_standard_message_codec_encode_message (Some (FL_LIST [FL_INT64_LIST [], FL_INT (-1)])))
     fl_standard_message_codec_decode_message = Inr (FL_LIST [FL_INT64_LIST [], FL_INT (-1)])"
  using fl_message_round_trip [of "Some (FL_LIST [FL_INT64_LIST [], FL_INT (-1)])"] by (simp add: fl_or_null_def)

text \<open>An encoded method call decodes to its name and arguments.\<close>

lemma fl_method_call_round_trip:
  assumes "length name < 2 ^ 32" and "0 \<notin> set name" and "pred_option fl_serializable args"
  shows "bindR (fl_standard_method_codec_encode_method_call name args)
     fl_standard_method_codec_decode_method_call = Inr (name, fl_or_null args)"
proof -
  note a = fl_or_null_serializable [OF assms(3)]
  have n: "fl_serializable (FL_STRING name)" using assms by simp
  show ?thesis
    using fl_read_two [OF n a, of "[]"] assms(2) fl_write_string [OF assms(1,2)]
    by (simp add: fl_standard_method_codec_encode_method_call_def fl_write_or_null [OF assms(3)]
        fl_standard_method_codec_decode_method_call_def fl_standard_message_codec_read_value_def
        fl_value_get_string_def)
qed


text \<open>An encoded response decodes to the response: a success to its result, an error to its code,
  its message if it has one, and its details unless they are null.\<close>

lemma fl_response_round_trip:
  assumes "pred_option fl_serializable v" and "length code < 2 ^ 32" and "0 \<notin> set code"
    and "pred_option (\<lambda>s. length s < 2 ^ 32 \<and> 0 \<notin> set s) message"
  shows "bindR (fl_standard_method_codec_encode_success_envelope v) fl_standard_method_codec_decode_response =
      Inr (SuccessResponse (Some (fl_or_null v))) \<and>
    bindR (fl_standard_method_codec_encode_error_envelope code message v) fl_standard_method_codec_decode_response =
      Inr (ErrorResponse code message (if fl_or_null v = FL_NULL then None else v))"
proof
  note sv = fl_or_null_serializable [OF assms(1)]
  have p: "fl_put (fl_or_null v) [0] \<noteq> []" "hd (fl_put (fl_or_null v) [0]) = 0"
    using fl_put_nonempty [OF sv, of "[0]"] by auto
  show "bindR (fl_standard_method_codec_encode_success_envelope v) fl_standard_method_codec_decode_response =
      Inr (SuccessResponse (Some (fl_or_null v)))"
    using fl_read_one [OF sv, of "[0]"] p
    by (simp add: fl_standard_method_codec_encode_success_envelope_def fl_write_or_null [OF assms(1)]
        fl_standard_method_codec_decode_response_def fl_standard_message_codec_read_value_def)
  define m where "m = fl_or_null (map_option FL_STRING message)"
  define whole where "whole = fl_put (fl_or_null v) (fl_put m (fl_put (FL_STRING code) [1]))"
  have c: "fl_serializable (FL_STRING code)" using assms by simp
  have po: "pred_option fl_serializable (map_option FL_STRING message)" using assms(4) by (cases message) auto
  have sm: "fl_serializable m" using fl_or_null_serializable [OF po] by (simp add: m_def)
  have ms: "map_option fl_value_new_string message = map_option FL_STRING message"
    using assms(4) by (cases message) (simp_all add: fl_value_new_string_def c_string_id)
  have w: "fl_standard_method_codec_encode_error_envelope code message v = Inr whole"
    unfolding fl_standard_method_codec_encode_error_envelope_def fl_write_string [OF assms(2,3)] ms
      bindR_Inr fl_write_or_null [OF po] fl_write_or_null [OF assms(1)] whole_def m_def by (rule refl)
  have h: "whole \<noteq> []" "hd whole = 1"
    using fl_put_nonempty [OF c, of "[1]"] fl_put_nonempty [OF sm, of "fl_put (FL_STRING code) [1]"]
      fl_put_nonempty [OF sv, of "fl_put m (fl_put (FL_STRING code) [1])"] by (auto simp: whole_def)
  have g: "fl_value_get_string (Some m) = message" "\<not> (value_type m \<noteq> TYPE_STRING \<and> value_type m \<noteq> TYPE_NULL)"
    by (cases message; simp add: m_def fl_or_null_def fl_value_get_string_def)+
  have d: "(if value_type (fl_or_null v) \<noteq> TYPE_NULL then Some (fl_or_null v) else None) =
      (if fl_or_null v = FL_NULL then None else v)"
    by (cases v; cases "fl_or_null v") (simp_all add: fl_or_null_def)
  note r = fl_read_three [OF c sm sv, of "[1]", folded whole_def]
  have "read_error_response whole 1 =
      Inr (ErrorResponse code message (if fl_or_null v = FL_NULL then None else v), length whole)"
    using r g(2) unfolding read_error_response_def fl_standard_message_codec_read_value_def g(1) [symmetric] d [symmetric]
    by (simp add: fl_value_get_string_def [of "Some (FL_STRING code)"])
  with h w show "bindR (fl_standard_method_codec_encode_error_envelope code message v)
      fl_standard_method_codec_decode_response =
      Inr (ErrorResponse code message (if fl_or_null v = FL_NULL then None else v))"
    by (simp add: fl_standard_method_codec_decode_response_def)
qed

text \<open>C37: Whatever bytes it is given, the decoder stays inside them: a value it returns ends inside the
  message, behind at least one byte, and the message decoder accepts only a value that ends exactly at
  the end.\<close>

theorem fl_decode_stays_inside:
  assumes "read_value message offset = Inr (v, offset')"
  shows "offset < offset' \<and> offset' \<le> length message \<and>
    (offset = 0 \<longrightarrow> fl_standard_message_codec_decode_message message =
      (if offset' = length message then Inr v else Inl ADDITIONAL_DATA))"
proof -
  have "offset < offset' \<and> offset' \<le> length message"
    using assms by (rule read_value_inside)
  then show ?thesis
    using assms by (auto simp: fl_standard_message_codec_decode_message_def fl_standard_message_codec_read_value_def)
qed

theorem fl_decode_stays_inside_witness:
  "fl_standard_message_codec_decode_message [1, 0] = Inl ADDITIONAL_DATA"
proof -
  have "read_value [1, 0] 0 = Inr (FL_BOOL True, 1)"
    by (simp add: read_value.simps read_uint8_def check_size_def get_data_def read_value_of_type.simps
        fl_value_new_bool_def)
  from fl_decode_stays_inside [OF this] show ?thesis by simp
qed

section \<open>Types on the wire\<close>

definition wire_type :: "byte \<Rightarrow> FlValueType option" where
  "wire_type t = map_of
    [(0, TYPE_NULL), (1, TYPE_BOOL), (2, TYPE_BOOL), (3, TYPE_INT), (4, TYPE_INT), (6, TYPE_FLOAT), (7, TYPE_STRING),
     (8, TYPE_UINT8_LIST), (9, TYPE_INT32_LIST), (10, TYPE_INT64_LIST), (11, TYPE_FLOAT_LIST), (12, TYPE_LIST),
     (13, TYPE_MAP), (14, TYPE_FLOAT32_LIST)] t"

text \<open>The values that can come from the wire: no custom value anywhere, and every length fits the size field.\<close>

fun wire_typed :: "FlValue \<Rightarrow> bool" where
  "wire_typed (FL_STRING s) = (length s < 2 ^ 32)"
| "wire_typed (FL_UINT8_LIST xs) = (length xs < 2 ^ 32)"
| "wire_typed (FL_INT32_LIST xs) = (length xs < 2 ^ 32)"
| "wire_typed (FL_INT64_LIST xs) = (length xs < 2 ^ 32)"
| "wire_typed (FL_FLOAT32_LIST xs) = (length xs < 2 ^ 32)"
| "wire_typed (FL_FLOAT_LIST xs) = (length xs < 2 ^ 32)"
| "wire_typed (FL_LIST vs) = (length vs < 2 ^ 32 \<and> list_all wire_typed vs)"
| "wire_typed (FL_MAP m) = (length m < 2 ^ 32 \<and> list_all (\<lambda>e. wire_typed (fst e) \<and> wire_typed (snd e)) m)"
| "wire_typed (FL_CUSTOM _ _) = False"
| "wire_typed v = True"

lemma sized_lengths:
  "unat (n :: 32 word) < 2 ^ 32" "length (take (unat n) xs) < 2 ^ 32" "length (c_string (take (unat n) bs)) < 2 ^ 32"
proof -
  show n: "unat n < 2 ^ 32" using unsigned_less [of n, where ?'a = nat] by simp
  then show "length (take (unat n) xs) < 2 ^ 32" by simp
  have "length (c_string (take (unat n) bs)) \<le> unat n"
    unfolding c_string_def by (metis le_trans length_take length_takeWhile_le min.cobounded2)
  with n show "length (c_string (take (unat n) bs)) < 2 ^ 32" by simp
qed

lemma leaf_reader_types:
  "read_int32_value b i = Inr (v, j) \<Longrightarrow> wire_typed v \<and> value_type v = TYPE_INT"
  "read_int64_value b i = Inr (v, j) \<Longrightarrow> wire_typed v \<and> value_type v = TYPE_INT"
  "read_float64_value b i = Inr (v, j) \<Longrightarrow> wire_typed v \<and> value_type v = TYPE_FLOAT"
  "read_string_value b i = Inr (v, j) \<Longrightarrow> wire_typed v \<and> value_type v = TYPE_STRING"
  "read_uint8_list_value b i = Inr (v, j) \<Longrightarrow> wire_typed v \<and> value_type v = TYPE_UINT8_LIST"
  "read_int32_list_value b i = Inr (v, j) \<Longrightarrow> wire_typed v \<and> value_type v = TYPE_INT32_LIST"
  "read_int64_list_value b i = Inr (v, j) \<Longrightarrow> wire_typed v \<and> value_type v = TYPE_INT64_LIST"
  "read_float32_list_value b i = Inr (v, j) \<Longrightarrow> wire_typed v \<and> value_type v = TYPE_FLOAT32_LIST"
  "read_float64_list_value b i = Inr (v, j) \<Longrightarrow> wire_typed v \<and> value_type v = TYPE_FLOAT_LIST"
  using sized_lengths
  by (auto simp: read_int32_value_def read_int64_value_def read_float64_value_def read_string_value_def
      read_uint8_list_value_def read_int32_list_value_def read_int64_list_value_def read_float32_list_value_def
      read_float64_list_value_def bindR_eq_Inr_iff fl_value_new_int_def fl_value_new_float_def
      fl_value_new_string_sized_def fl_value_new_uint8_list_def fl_value_new_int32_list_def
      fl_value_new_int64_list_def fl_value_new_float32_list_def fl_value_new_float_list_def)

lemma append_typed:
  "list_all wire_typed xs \<Longrightarrow> wire_typed v \<Longrightarrow>
     \<exists>ys. the (fl_value_append (Some (FL_LIST xs)) (Some v)) = FL_LIST ys \<and> list_all wire_typed ys \<and> length ys = Suc (length xs)"
  by (simp add: fl_value_append_def fl_value_append_take_def)

definition entries_typed :: "(FlValue \<times> FlValue) list \<Rightarrow> bool" where
  "entries_typed m = list_all (\<lambda>e. wire_typed (fst e) \<and> wire_typed (snd e)) m"

lemma set_typed:
  assumes "entries_typed m" "wire_typed k" "wire_typed v"
  shows "\<exists>m'. the (fl_value_set (Some (FL_MAP m)) (Some k) (Some v)) = FL_MAP m' \<and> entries_typed m' \<and> length m' \<le> Suc (length m)"
  using assms set_update_subset_insert [of m]
  by (fastforce simp: fl_value_set_def fl_value_set_take_def Let_def entries_typed_def list_all_iff)

text \<open>What can be read from an offset on is well typed.\<close>

definition typed_from :: "byte list \<Rightarrow> nat \<Rightarrow> bool" where
  "typed_from b i \<longleftrightarrow> (\<forall>k u l. i \<le> k \<longrightarrow> read_value b k = Inr (u, l) \<longrightarrow> wire_typed u)"

lemma typed_fromD: "typed_from b i \<Longrightarrow> i \<le> k \<Longrightarrow> read_value b k = Inr (u, l) \<Longrightarrow> wire_typed u"
  unfolding typed_from_def by blast

lemma typed_from_later: "typed_from b i \<Longrightarrow> i \<le> k \<Longrightarrow> typed_from b k"
  unfolding typed_from_def by (meson le_trans)

lemma list_items_typed:
  assumes "typed_from b i"
    and "read_list_items b n (FL_LIST xs) i = Inr (v, j)" and "list_all wire_typed xs"
  shows "\<exists>ys. v = FL_LIST ys \<and> list_all wire_typed ys \<and> length ys = length xs + n"
  using assms
proof (induction n arbitrary: xs i)
  case 0
  then show ?case by auto
next
  case (Suc n)
  from Suc.prems(2) obtain u k where u: "read_value b i = Inr (u, k)"
    "read_list_items b n (the (fl_value_append (Some (FL_LIST xs)) (Some u))) k = Inr (v, j)"
    by (auto simp: bindR_eq_Inr_iff)
  have "i < k" using read_value_inside [OF u(1)] by simp
  then have later: "typed_from b k" by (intro typed_from_later [OF Suc.prems(1)]) simp
  have "wire_typed u" using Suc.prems(1) order_refl u(1) by (rule typed_fromD)
  from append_typed [OF Suc.prems(3) this] obtain ys
    where ys: "the (fl_value_append (Some (FL_LIST xs)) (Some u)) = FL_LIST ys" "list_all wire_typed ys"
      "length ys = Suc (length xs)" by auto
  from Suc.IH [OF later u(2) [unfolded ys(1)] ys(2)] ys(3) show ?case by auto
qed

lemma map_items_typed:
  assumes "typed_from b i"
    and "read_map_items b n (FL_MAP m) i = Inr (v, j)" and "entries_typed m"
  shows "\<exists>m'. v = FL_MAP m' \<and> entries_typed m' \<and> length m' \<le> length m + n"
  using assms
proof (induction n arbitrary: m i)
  case 0
  then show ?case by auto
next
  case (Suc n)
  from Suc.prems(2) obtain u k w l where u: "read_value b i = Inr (u, k)" "read_value b k = Inr (w, l)"
    "read_map_items b n (the (fl_value_set (Some (FL_MAP m)) (Some u) (Some w))) l = Inr (v, j)"
    by (auto simp: bindR_eq_Inr_iff)
  have less: "i < k" "k < l" using read_value_inside [OF u(1)] read_value_inside [OF u(2)] by simp_all
  then have later: "typed_from b l" by (intro typed_from_later [OF Suc.prems(1)]) simp
  have "wire_typed u" "wire_typed w" using Suc.prems(1) u(1,2) less by (auto intro: typed_fromD less_imp_le)
  from set_typed [OF Suc.prems(3) this] obtain m'
    where m': "the (fl_value_set (Some (FL_MAP m)) (Some u) (Some w)) = FL_MAP m'" "entries_typed m'"
      "length m' \<le> Suc (length m)" by auto
  from Suc.IH [OF later u(3) [unfolded m'(1)] m'(2)] m'(3) show ?case by auto
qed

lemma list_body_typed:
  assumes "typed_from b i"
    and "bindR (fl_standard_message_codec_read_size b i) (\<lambda>(n, i). read_list_items b (unat n) (FL_LIST []) i) = Inr (v, j)"
  shows "wire_typed v \<and> value_type v = TYPE_LIST"
proof -
  from assms(2) obtain n k where n: "fl_standard_message_codec_read_size b i = Inr (n, k)"
    "read_list_items b (unat n) (FL_LIST []) k = Inr (v, j)" by (auto simp: bindR_eq_Inr_iff)
  have later: "typed_from b k"
    using read_size_bounds [OF n(1)] by (intro typed_from_later [OF assms(1)]) simp
  from list_items_typed [OF later n(2)] sized_lengths(1) [of n] show ?thesis by auto
qed

lemma map_body_typed:
  assumes "typed_from b i"
    and "bindR (fl_standard_message_codec_read_size b i) (\<lambda>(n, i). read_map_items b (unat n) (FL_MAP []) i) = Inr (v, j)"
  shows "wire_typed v \<and> value_type v = TYPE_MAP"
proof -
  from assms(2) obtain n k where n: "fl_standard_message_codec_read_size b i = Inr (n, k)"
    "read_map_items b (unat n) (FL_MAP []) k = Inr (v, j)" by (auto simp: bindR_eq_Inr_iff)
  have later: "typed_from b k"
    using read_size_bounds [OF n(1)] by (intro typed_from_later [OF assms(1)]) simp
  from map_items_typed [OF later n(2)] obtain m' where "v = FL_MAP m'" "entries_typed m'" "length m' \<le> unat n"
    by (auto simp: entries_typed_def)
  with sized_lengths(1) [of n] show ?thesis by (auto simp: entries_typed_def)
qed

lemma body_typed:
  assumes "typed_from b i"
    and "read_value_of_type b t i = Inr (v, j)"
  shows "wire_typed v \<and> wire_type t = Some (value_type v)"
proof -
  have split: "read_value_of_type b t i = Inr (v, j) \<Longrightarrow>
      t \<in> {0, 1, 2, 3, 4, 6, 7, 8, 9, 10, 11, 12, 13, 14}"
    by (auto simp: read_value_of_type.simps split: if_splits)
  from split [OF assms(2)] assms(2) leaf_reader_types list_body_typed [OF assms(1)] map_body_typed [OF assms(1)]
  show ?thesis unfolding insert_iff empty_iff
    by (elim disjE; simp add: read_value_of_type.simps fl_value_new_null_def fl_value_new_bool_def
        fl_value_new_list_def fl_value_new_map_def wire_type_def) auto
qed

lemma read_value_typed:
  "read_value b i = Inr (v, j) \<Longrightarrow> wire_typed v \<and> wire_type (b ! i) = Some (value_type v)"
proof (induction "length b - i" arbitrary: i v j rule: less_induct)
  case less
  from less.prems have i: "i < length b" and r: "read_value_of_type b (b ! i) (Suc i) = Inr (v, j)"
    by (auto simp: read_value.simps bindR_eq_Inr_iff read_uint8_Inr)
  have "wire_typed u" if "Suc i \<le> k" "read_value b k = Inr (u, l)" for k u l
    using less.hyps [of k u l] that i by auto
  then have "typed_from b (Suc i)" by (auto simp: typed_from_def)
  from body_typed [OF this r] show ?case by simp
qed

text \<open>
  C33: the decoder is type sound: the value it reads at an offset has the type that the byte there
  announces, contains no custom value at any depth, and all its lengths fit the size field.
\<close>

theorem fl_decode_well_typed:
  assumes "read_value message offset = Inr (v, offset')"
  shows "wire_type (message ! offset) = Some (value_type v) \<and> wire_typed v"
  using read_value_typed [OF assms] by simp

theorem fl_decode_well_typed_witness:
  "wire_type ([12, 1, 1] ! 0) = Some (value_type (FL_LIST [FL_BOOL True])) \<and> wire_typed (FL_LIST [FL_BOOL True])"
proof (rule fl_decode_well_typed)
  show "read_value [12, 1, 1] 0 = Inr (FL_LIST [FL_BOOL True], 3)"
    by (simp add: read_value.simps read_uint8_def check_size_def get_data_def read_value_of_type.simps
        fl_standard_message_codec_read_size_def fl_value_new_list_def fl_value_new_bool_def
        fl_value_append_def fl_value_append_take_def)
qed

end
