(* ===== verification/Fl_Codec_Class.thy ===== *)
theory Fl_Codec_Class
  imports Fl_Codec_Correct
begin

text \<open>
  The codec classes of the Linux shell. A channel holds a codec object and calls it through the class
  structure, so a codec is here the record of its virtual functions; the standard, string and binary
  codecs are values of these records. What a channel relies on, that a decoder undoes its encoder, is
  the locale \<open>method_codec_laws\<close> for method codecs and \<open>message_codec_laws\<close> for message codecs.
\<close>

section \<open>Errors\<close>

datatype FlJsonMessageCodecError = INVALID_UTF8 | INVALID_JSON | INVALID_OBJECT_KEY_TYPE

text \<open>The \<open>GError\<close>s that the codecs, the messenger and the engine set: domain and code.\<close>

datatype gerror =
    MESSAGE_CODEC_ERROR FlMessageCodecError
  | JSON_MESSAGE_CODEC_ERROR FlJsonMessageCodecError
  | BINARY_MESSENGER_ERROR_ALREADY_RESPONDED
  | ENGINE_ERROR_FAILED
  | METHOD_RESPONSE_ERROR_NOT_IMPLEMENTED
  | METHOD_RESPONSE_ERROR_REMOTE_ERROR "byte list" "byte list option" "FlValue option"

type_synonym 'a g_res = "gerror + 'a"

definition codec_error :: "'a fl_res \<Rightarrow> 'a g_res" where
  "codec_error r = map_sum MESSAGE_CODEC_ERROR id r"

lemma codec_error_simps [simp]:
  "codec_error (Inr x) = Inr x" "codec_error (Inl e) = Inl (MESSAGE_CODEC_ERROR e)"
  by (simp_all add: codec_error_def)

lemma codec_error_bind: "codec_error (bindR r f) = bindR (codec_error r) (codec_error \<circ> f)"
  by (cases r) simp_all

section \<open>Message codecs\<close>

record FlMessageCodec =
  encode_message :: "FlValue \<Rightarrow> byte list g_res"
  decode_message :: "byte list \<Rightarrow> FlValue g_res"

text \<open>A null message is encoded as the null value.\<close>

definition fl_message_codec_encode_message :: "FlMessageCodec \<Rightarrow> FlValue option \<Rightarrow> byte list g_res" where
  "fl_message_codec_encode_message codec message =
     encode_message codec (case message of None \<Rightarrow> fl_value_new_null | Some v \<Rightarrow> v)"

definition fl_message_codec_decode_message :: "FlMessageCodec \<Rightarrow> byte list \<Rightarrow> FlValue g_res" where
  "fl_message_codec_decode_message codec message = decode_message codec message"

definition fl_standard_message_codec :: FlMessageCodec where
  "fl_standard_message_codec =
     \<lparr>encode_message = (\<lambda>v. codec_error (fl_standard_message_codec_encode_message (Some v))),
      decode_message = (\<lambda>m. codec_error (fl_standard_message_codec_decode_message m))\<rparr>"

definition fl_string_codec_encode_message :: "FlValue \<Rightarrow> byte list fl_res" where
  "fl_string_codec_encode_message v =
     (case fl_value_get_string (Some v) of
        None \<Rightarrow> Inl UNSUPPORTED_TYPE
      | Some text \<Rightarrow> Inr (c_string text))"

definition fl_string_codec_decode_message :: "byte list \<Rightarrow> FlValue fl_res" where
  "fl_string_codec_decode_message message = Inr (fl_value_new_string_sized message (length message))"

definition fl_string_codec :: FlMessageCodec where
  "fl_string_codec =
     \<lparr>encode_message = (\<lambda>v. codec_error (fl_string_codec_encode_message v)),
      decode_message = (\<lambda>m. codec_error (fl_string_codec_decode_message m))\<rparr>"

definition fl_binary_codec_encode_message :: "FlValue \<Rightarrow> byte list fl_res" where
  "fl_binary_codec_encode_message v =
     (case fl_value_get_uint8_list (Some v) of
        None \<Rightarrow> Inl UNSUPPORTED_TYPE
      | Some bytes \<Rightarrow> Inr bytes)"

definition fl_binary_codec_decode_message :: "byte list \<Rightarrow> FlValue fl_res" where
  "fl_binary_codec_decode_message message = Inr (fl_value_new_uint8_list message (length message))"

definition fl_binary_codec :: FlMessageCodec where
  "fl_binary_codec =
     \<lparr>encode_message = (\<lambda>v. codec_error (fl_binary_codec_encode_message v)),
      decode_message = (\<lambda>m. codec_error (fl_binary_codec_decode_message m))\<rparr>"

section \<open>Method codecs\<close>

text \<open>A decoded call may have no arguments: the JSON codec leaves them null when the field is missing.\<close>

record FlMethodCodec =
  encode_method_call :: "byte list \<Rightarrow> FlValue option \<Rightarrow> byte list g_res"
  decode_method_call :: "byte list \<Rightarrow> (byte list \<times> FlValue option) g_res"
  encode_success_envelope :: "FlValue option \<Rightarrow> byte list g_res"
  encode_error_envelope :: "byte list \<Rightarrow> byte list option \<Rightarrow> FlValue option \<Rightarrow> byte list g_res"
  decode_response :: "byte list \<Rightarrow> FlMethodResponse g_res"

definition fl_method_codec_encode_response :: "FlMethodCodec \<Rightarrow> FlMethodResponse \<Rightarrow> byte list g_res" where
  "fl_method_codec_encode_response codec response =
     (case response of
        SuccessResponse result \<Rightarrow> encode_success_envelope codec result
      | ErrorResponse code message details \<Rightarrow> encode_error_envelope codec code message details
      | NotImplementedResponse \<Rightarrow> Inr [])"

definition fl_method_codec_decode_response :: "FlMethodCodec \<Rightarrow> byte list \<Rightarrow> FlMethodResponse g_res" where
  "fl_method_codec_decode_response codec message =
     (if length message = 0 then Inr NotImplementedResponse else decode_response codec message)"

definition fl_standard_method_codec :: FlMethodCodec where
  "fl_standard_method_codec =
     \<lparr>encode_method_call = (\<lambda>name args. codec_error (fl_standard_method_codec_encode_method_call name args)),
      decode_method_call = (\<lambda>m. codec_error (map_sum id (map_prod id Some)
         (fl_standard_method_codec_decode_method_call m))),
      encode_success_envelope = (\<lambda>r. codec_error (fl_standard_method_codec_encode_success_envelope r)),
      encode_error_envelope = (\<lambda>c m d. codec_error (fl_standard_method_codec_encode_error_envelope c m d)),
      decode_response = (\<lambda>m. codec_error (fl_standard_method_codec_decode_response m))\<rparr>"

text \<open>What a caller makes of a response.\<close>

definition fl_method_response_get_result :: "FlMethodResponse \<Rightarrow> FlValue option g_res" where
  "fl_method_response_get_result response =
     (case response of
        SuccessResponse result \<Rightarrow> Inr result
      | ErrorResponse code message details \<Rightarrow> Inl (METHOD_RESPONSE_ERROR_REMOTE_ERROR code message details)
      | NotImplementedResponse \<Rightarrow> Inl METHOD_RESPONSE_ERROR_NOT_IMPLEMENTED)"

section \<open>What a channel relies on\<close>

text \<open>
  \<open>value_ok\<close> are the values the codec carries, \<open>text_ok\<close> the strings, and \<open>image\<close> what a value is when it
  has gone through the codec.
\<close>

locale message_codec_laws =
  fixes codec :: FlMessageCodec
    and value_ok :: "FlValue \<Rightarrow> bool"
    and image :: "FlValue \<Rightarrow> FlValue"
  assumes message_back:
    "value_ok v \<Longrightarrow> \<exists>bytes. encode_message codec v = Inr bytes \<and> decode_message codec bytes = Inr (image v)"
begin

lemma message_carried:
  assumes "value_ok (case v of None \<Rightarrow> fl_value_new_null | Some v \<Rightarrow> v)"
  obtains bytes where "fl_message_codec_encode_message codec v = Inr bytes"
    "fl_message_codec_decode_message codec bytes = Inr (image (case v of None \<Rightarrow> fl_value_new_null | Some v \<Rightarrow> v))"
  using message_back [OF assms] unfolding fl_message_codec_encode_message_def fl_message_codec_decode_message_def
  by blast

end

definition received_details :: "(FlValue \<Rightarrow> FlValue) \<Rightarrow> FlValue option \<Rightarrow> FlValue option" where
  "received_details f details = (if f (fl_or_null details) = FL_NULL then None else Some (f (fl_or_null details)))"

fun received_response :: "(FlValue \<Rightarrow> FlValue) \<Rightarrow> FlMethodResponse \<Rightarrow> FlMethodResponse" where
  "received_response f (SuccessResponse result) = SuccessResponse (Some (f (fl_or_null result)))"
| "received_response f (ErrorResponse code message details) = ErrorResponse code message (received_details f details)"
| "received_response f NotImplementedResponse = NotImplementedResponse"

fun response_ok :: "(FlValue \<Rightarrow> bool) \<Rightarrow> (byte list \<Rightarrow> bool) \<Rightarrow> FlMethodResponse \<Rightarrow> bool" where
  "response_ok value_ok text_ok (SuccessResponse result) = value_ok (fl_or_null result)"
| "response_ok value_ok text_ok (ErrorResponse code message details) =
     (text_ok code \<and> pred_option text_ok message \<and> value_ok (fl_or_null details))"
| "response_ok value_ok text_ok NotImplementedResponse = True"

locale method_codec_laws =
  fixes codec :: FlMethodCodec
    and value_ok :: "FlValue \<Rightarrow> bool"
    and text_ok :: "byte list \<Rightarrow> bool"
    and image :: "FlValue \<Rightarrow> FlValue"
  assumes call_back: "text_ok name \<Longrightarrow> value_ok (fl_or_null args) \<Longrightarrow>
      \<exists>bytes. encode_method_call codec name args = Inr bytes \<and>
        decode_method_call codec bytes = Inr (name, Some (image (fl_or_null args)))"
    and success_back: "value_ok (fl_or_null result) \<Longrightarrow>
      \<exists>bytes. encode_success_envelope codec result = Inr bytes \<and> bytes \<noteq> [] \<and>
        decode_response codec bytes = Inr (SuccessResponse (Some (image (fl_or_null result))))"
    and error_back: "text_ok code \<Longrightarrow> pred_option text_ok message \<Longrightarrow> value_ok (fl_or_null details) \<Longrightarrow>
      \<exists>bytes. encode_error_envelope codec code message details = Inr bytes \<and> bytes \<noteq> [] \<and>
        decode_response codec bytes = Inr (ErrorResponse code message (received_details image details))"
begin

text \<open>Every response reaches the caller, one that is not implemented as the empty message.\<close>

lemma response_carried:
  assumes "response_ok value_ok text_ok response"
  obtains bytes where "fl_method_codec_encode_response codec response = Inr bytes"
    "fl_method_codec_decode_response codec bytes = Inr (received_response image response)"
proof (cases response)
  case (SuccessResponse result)
  with assms success_back [of result] that show thesis
    by (auto simp: fl_method_codec_encode_response_def fl_method_codec_decode_response_def)
next
  case (ErrorResponse code message details)
  with assms error_back [of code message details] that show thesis
    by (auto simp: fl_method_codec_encode_response_def fl_method_codec_decode_response_def)
next
  case NotImplementedResponse
  with that show thesis
    by (simp add: fl_method_codec_encode_response_def fl_method_codec_decode_response_def)
qed

end

section \<open>The codecs keep the laws\<close>

definition carried_text :: "byte list \<Rightarrow> bool" where
  "carried_text s \<longleftrightarrow> length s < 2 ^ 32 \<and> 0 \<notin> set s"

lemma bindR_InrE: "bindR m f = Inr y \<Longrightarrow> \<exists>x. m = Inr x \<and> f x = Inr y"
  by (simp add: bindR_eq_Inr_iff)

interpretation standard_message: message_codec_laws fl_standard_message_codec fl_serializable id
proof
  fix v assume "fl_serializable v"
  then have "bindR (fl_standard_message_codec_encode_message (Some v)) fl_standard_message_codec_decode_message = Inr v"
    using fl_encode_decode [of "Some v"] by (simp add: fl_or_null_def)
  from bindR_InrE [OF this]
  show "\<exists>bytes. encode_message fl_standard_message_codec v = Inr bytes \<and>
      decode_message fl_standard_message_codec bytes = Inr (id v)"
    by (auto simp: fl_standard_message_codec_def)
qed

interpretation string: message_codec_laws fl_string_codec
    "\<lambda>v. value_type v = TYPE_STRING \<and> fl_serializable v" id
proof
  fix v assume "value_type v = TYPE_STRING \<and> fl_serializable v"
  then obtain s where "v = FL_STRING s" "0 \<notin> set s" by (cases v) auto
  then show "\<exists>bytes. encode_message fl_string_codec v = Inr bytes \<and> decode_message fl_string_codec bytes = Inr (id v)"
    by (simp add: fl_string_codec_def fl_string_codec_encode_message_def fl_string_codec_decode_message_def
        fl_value_get_string_def fl_value_new_string_sized_def c_string_id)
qed

interpretation binary: message_codec_laws fl_binary_codec "\<lambda>v. value_type v = TYPE_UINT8_LIST" id
proof
  fix v assume "value_type v = TYPE_UINT8_LIST"
  then obtain bs where "v = FL_UINT8_LIST bs" by (cases v) auto
  then show "\<exists>bytes. encode_message fl_binary_codec v = Inr bytes \<and> decode_message fl_binary_codec bytes = Inr (id v)"
    by (simp add: fl_binary_codec_def fl_binary_codec_encode_message_def fl_binary_codec_decode_message_def
        fl_value_get_uint8_list_def fl_value_new_uint8_list_def)
qed

lemma pred_option_or_null: "pred_option fl_serializable v \<longleftrightarrow> fl_serializable (fl_or_null v)"
  by (cases v) (simp_all add: fl_or_null_def)

lemma standard_response_nonempty:
  "fl_standard_method_codec_decode_response bytes = Inr r \<Longrightarrow> bytes \<noteq> []"
  by (auto simp: fl_standard_method_codec_decode_response_def)

lemma some_unless_null: "(if fl_or_null v = FL_NULL then None else v) = received_details id v"
  by (cases v) (simp_all add: received_details_def fl_or_null_def)

interpretation standard_method: method_codec_laws fl_standard_method_codec fl_serializable carried_text id
proof
  fix name args assume "carried_text name" "fl_serializable (fl_or_null args)"
  then have "bindR (fl_standard_method_codec_encode_method_call name args)
      fl_standard_method_codec_decode_method_call = Inr (name, fl_or_null args)"
    by (intro fl_method_call_round_trip) (simp_all add: carried_text_def pred_option_or_null)
  from bindR_InrE [OF this]
  show "\<exists>bytes. encode_method_call fl_standard_method_codec name args = Inr bytes \<and>
      decode_method_call fl_standard_method_codec bytes = Inr (name, Some (id (fl_or_null args)))"
    by (auto simp: fl_standard_method_codec_def)
next
  fix result assume "fl_serializable (fl_or_null result)"
  then have "bindR (fl_standard_method_codec_encode_success_envelope result)
      fl_standard_method_codec_decode_response = Inr (SuccessResponse (Some (fl_or_null result)))"
    using fl_response_round_trip [of result "[]" None] by (simp add: pred_option_or_null)
  from bindR_InrE [OF this]
  show "\<exists>bytes. encode_success_envelope fl_standard_method_codec result = Inr bytes \<and> bytes \<noteq> [] \<and>
      decode_response fl_standard_method_codec bytes = Inr (SuccessResponse (Some (id (fl_or_null result))))"
    by (auto simp: fl_standard_method_codec_def dest: standard_response_nonempty)
next
  fix code message details
  assume "carried_text code" "pred_option carried_text message" "fl_serializable (fl_or_null details)"
  then have "bindR (fl_standard_method_codec_encode_error_envelope code message details)
      fl_standard_method_codec_decode_response = Inr (ErrorResponse code message (received_details id details))"
    using fl_response_round_trip [of details code message] some_unless_null [of details]
    by (simp add: pred_option_or_null carried_text_def [abs_def])
  from bindR_InrE [OF this]
  show "\<exists>bytes. encode_error_envelope fl_standard_method_codec code message details = Inr bytes \<and> bytes \<noteq> [] \<and>
      decode_response fl_standard_method_codec bytes = Inr (ErrorResponse code message (received_details id details))"
    by (auto simp: fl_standard_method_codec_def dest: standard_response_nonempty)
qed

end
