(* ===== verification/Fl_Channels.thy ===== *)
theory Fl_Channels
  imports Fl_Codec_Class
begin

text \<open>
  The messaging of the Linux shell: the engine's side of platform messages (\<open>fl_engine.cc\<close>), the binary
  messenger with its table of handlers and its response handles (\<open>fl_binary_messenger.cc\<close>), and the three
  kinds of channel on top of it (\<open>fl_method_channel.cc\<close> with \<open>fl_method_call.cc\<close>,
  \<open>fl_basic_message_channel.cc\<close>, \<open>fl_event_channel.cc\<close>).

  The objects live in stores under their addresses, with the reference counts of the channels. Handlers
  of applications are function pointers, here numbers: a call of one is recorded in \<open>delivered\<close>, and what
  the application then does with what it was given are further operations. The handlers of an event
  channel return their answer and are functions. A \<open>GDestroyNotify\<close> that is called is recorded in
  \<open>destroyed\<close>. The embedder functions are the fields of \<open>embedder_api\<close>; each decides by the number
  of calls so far.
\<close>

section \<open>State\<close>

type_synonym address = nat
type_synonym gpointer = nat
type_synonym FlutterPlatformMessageResponseHandle = nat

record FlMethodChannel =
  mc_ref_count :: nat
  mc_channel_closed :: bool
  mc_name :: "byte list"
  mc_codec :: FlMethodCodec
  mc_handler :: "nat option"
  mc_handler_data :: gpointer
  mc_destroy_notify :: bool

record FlBasicMessageChannel =
  bc_ref_count :: nat
  bc_channel_closed :: bool
  bc_name :: "byte list"
  bc_codec :: FlMessageCodec
  bc_handler :: "nat option"
  bc_handler_data :: gpointer
  bc_destroy_notify :: bool

type_synonym FlMethodErrorResponse = "byte list \<times> byte list option \<times> FlValue option"
type_synonym FlEventChannelHandler = "FlValue option \<Rightarrow> gpointer \<Rightarrow> FlMethodErrorResponse option"

record FlEventChannel =
  ec_ref_count :: nat
  ec_channel_closed :: bool
  ec_name :: "byte list"
  ec_codec :: FlMethodCodec
  ec_listen_handler :: "FlEventChannelHandler option"
  ec_cancel_handler :: "FlEventChannelHandler option"
  ec_handler_data :: gpointer
  ec_destroy_notify :: bool

datatype fl_channel =
    METHOD_CHANNEL FlMethodChannel
  | BASIC_MESSAGE_CHANNEL FlBasicMessageChannel
  | EVENT_CHANNEL FlEventChannel

text \<open>
  An entry of the messenger's table: the \<open>message_cb\<close> of a channel, whose user data is the channel and
  whose destroy function is \<open>channel_closed_cb\<close>, or a handler that the application set itself.
\<close>

datatype PlatformMessageHandler =
    MESSAGE_CB address
  | APPLICATION_HANDLER nat gpointer bool

record FlMethodCall =
  call_name :: "byte list"
  call_args :: FlValue
  call_channel :: address
  call_response_handle :: address

text \<open>What the application's handlers were called with; a method call that could not be made is null.\<close>

datatype delivery =
    Method_call nat gpointer "address option"
  | Message nat gpointer "FlValue option" address
  | Binary_message nat gpointer "byte list" "byte list" address

text \<open>
  A completed \<open>GTask\<close>: an error, the bytes of a response, or the completed task of the layer below. A
  callback is the application's, or that of a layer, which completes the task it was given.
\<close>

datatype GTask = Returned_error gerror | Returned_bytes "byte list" | Returned_result GTask

datatype GAsyncReadyCallback =
    Application_callback nat
  | resize_channel_response_cb
  | set_warns_on_channel_overflow_response_cb
  | message_response_cb GAsyncReadyCallback
  | platform_message_ready_cb GAsyncReadyCallback

record FlutterEngineProcTable =
  api_SendPlatformMessageResponse :: "nat \<Rightarrow> bool"
  api_PlatformMessageCreateResponseHandle :: "nat \<Rightarrow> bool"
  api_SendPlatformMessage :: "nat \<Rightarrow> bool"

record fl_world =
  engine_alive :: bool
  engine_running :: bool
  embedder_api :: FlutterEngineProcTable
  platform_message_handlers :: "(byte list \<times> PlatformMessageHandler) list"
  channels :: "address \<rightharpoonup> fl_channel"
  method_calls :: "address \<rightharpoonup> FlMethodCall"
  response_handles :: "address \<rightharpoonup> FlutterPlatformMessageResponseHandle option"
  basic_handles :: "address \<rightharpoonup> address option"
  next_address :: nat
  responses_sent :: "(FlutterPlatformMessageResponseHandle \<times> byte list option) list"
  messages_sent :: "(byte list \<times> byte list option \<times> nat option) list"
  response_handles_created :: nat
  reply_tasks :: "nat \<rightharpoonup> GAsyncReadyCallback"
  delivered :: "delivery list"
  completed :: "(GAsyncReadyCallback \<times> GTask) list"
  destroyed :: "gpointer list"
  not_responded :: "FlutterPlatformMessageResponseHandle list"

text \<open>The messenger's weak reference to the engine is \<open>engine_alive\<close>; the embedder engine inside is \<open>engine_running\<close>.\<close>

definition fl_binary_messenger_new :: "FlutterEngineProcTable \<Rightarrow> bool \<Rightarrow> fl_world" where
  "fl_binary_messenger_new api running =
     \<lparr>engine_alive = True, engine_running = running, embedder_api = api, platform_message_handlers = [],
      channels = Map.empty, method_calls = Map.empty, response_handles = Map.empty, basic_handles = Map.empty,
      next_address = 0, responses_sent = [], messages_sent = [], response_handles_created = 0,
      reply_tasks = Map.empty, delivered = [], completed = [], destroyed = [], not_responded = []\<rparr>"

section \<open>Closing channels\<close>

definition destroy_notify :: "bool \<Rightarrow> gpointer \<Rightarrow> fl_world \<Rightarrow> fl_world" where
  "destroy_notify notify data w = (if notify then w\<lparr>destroyed := destroyed w @ [data]\<rparr> else w)"

text \<open>The handler part that closing, disposing and replacing a handler share: call the destroy function, clear the fields.\<close>

definition method_disconnect :: "FlMethodChannel \<Rightarrow> FlMethodChannel" where
  "method_disconnect c = c\<lparr>mc_handler := None, mc_handler_data := 0, mc_destroy_notify := False\<rparr>"

definition basic_disconnect :: "FlBasicMessageChannel \<Rightarrow> FlBasicMessageChannel" where
  "basic_disconnect c = c\<lparr>bc_handler := None, bc_handler_data := 0, bc_destroy_notify := False\<rparr>"

definition remove_handlers :: "FlEventChannel \<Rightarrow> FlEventChannel" where
  "remove_handlers c =
     c\<lparr>ec_listen_handler := None, ec_cancel_handler := None, ec_handler_data := 0, ec_destroy_notify := False\<rparr>"

definition put_channel :: "address \<Rightarrow> fl_channel \<Rightarrow> fl_world \<Rightarrow> fl_world" where
  "put_channel a c w = w\<lparr>channels := (channels w)(a \<mapsto> c)\<rparr>"

definition free_channel :: "address \<Rightarrow> fl_world \<Rightarrow> fl_world" where
  "free_channel a w = w\<lparr>channels := (channels w)(a := None)\<rparr>"

definition mark_closed :: "address \<Rightarrow> fl_channel \<Rightarrow> fl_world \<Rightarrow> fl_world" where
  "mark_closed a c w =
     (case c of
        METHOD_CHANNEL c \<Rightarrow>
          put_channel a (METHOD_CHANNEL (method_disconnect (c\<lparr>mc_channel_closed := True\<rparr>)))
            (destroy_notify (mc_destroy_notify c) (mc_handler_data c) w)
      | BASIC_MESSAGE_CHANNEL c \<Rightarrow>
          put_channel a (BASIC_MESSAGE_CHANNEL (basic_disconnect (c\<lparr>bc_channel_closed := True\<rparr>)))
            (destroy_notify (bc_destroy_notify c) (bc_handler_data c) w)
      | EVENT_CHANNEL c \<Rightarrow>
          put_channel a (EVENT_CHANNEL (remove_handlers (c\<lparr>ec_channel_closed := True\<rparr>)))
            (destroy_notify (ec_destroy_notify c) (ec_handler_data c) w))"

text \<open>The end of the \<open>dispose\<close> methods, and the object is gone.\<close>

definition clear_channel :: "address \<Rightarrow> fl_world \<Rightarrow> fl_world" where
  "clear_channel a w =
     (case channels w a of
        None \<Rightarrow> w
      | Some (METHOD_CHANNEL c) \<Rightarrow> free_channel a (destroy_notify (mc_destroy_notify c) (mc_handler_data c) w)
      | Some (BASIC_MESSAGE_CHANNEL c) \<Rightarrow> free_channel a (destroy_notify (bc_destroy_notify c) (bc_handler_data c) w)
      | Some (EVENT_CHANNEL c) \<Rightarrow> free_channel a (destroy_notify (ec_destroy_notify c) (ec_handler_data c) w))"

fun ref_count :: "fl_channel \<Rightarrow> nat" where
  "ref_count (METHOD_CHANNEL c) = mc_ref_count c"
| "ref_count (BASIC_MESSAGE_CHANNEL c) = bc_ref_count c"
| "ref_count (EVENT_CHANNEL c) = ec_ref_count c"

fun set_ref_count :: "nat \<Rightarrow> fl_channel \<Rightarrow> fl_channel" where
  "set_ref_count n (METHOD_CHANNEL c) = METHOD_CHANNEL (c\<lparr>mc_ref_count := n\<rparr>)"
| "set_ref_count n (BASIC_MESSAGE_CHANNEL c) = BASIC_MESSAGE_CHANNEL (c\<lparr>bc_ref_count := n\<rparr>)"
| "set_ref_count n (EVENT_CHANNEL c) = EVENT_CHANNEL (c\<lparr>ec_ref_count := n\<rparr>)"

definition g_object_ref :: "address \<Rightarrow> fl_world \<Rightarrow> fl_world" where
  "g_object_ref a w =
     (case channels w a of
        None \<Rightarrow> w
      | Some c \<Rightarrow> put_channel a (set_ref_count (Suc (ref_count c)) c) w)"

lemma filter_shorter: "map_of xs k = Some v \<Longrightarrow> length (filter (\<lambda>e. fst e \<noteq> k) xs) < length xs"
  by (metis (mono_tags, lifting) fst_conv length_filter_less map_of_SomeD)

lemma handlers_kept [simp]:
  "platform_message_handlers (destroy_notify b d w) = platform_message_handlers w"
  "platform_message_handlers (put_channel a c w) = platform_message_handlers w"
  "platform_message_handlers (mark_closed a c w) = platform_message_handlers w"
  by (simp_all add: destroy_notify_def put_channel_def mark_closed_def split: fl_channel.split)

text \<open>
  Removing a handler calls its destroy function, which for a channel closes it and drops the messenger's
  reference; the last reference disposes the channel, and disposing a basic message channel removes the
  handler of its name once more. Each round takes an entry from the table.
\<close>

function (sequential) unset_message_handler :: "byte list \<Rightarrow> fl_world \<Rightarrow> fl_world"
and platform_message_handler_free :: "PlatformMessageHandler \<Rightarrow> fl_world \<Rightarrow> fl_world"
and channel_closed_cb :: "address \<Rightarrow> fl_world \<Rightarrow> fl_world"
and g_object_unref :: "address \<Rightarrow> fl_world \<Rightarrow> fl_world"
and channel_dispose :: "address \<Rightarrow> fl_world \<Rightarrow> fl_world" where
  "unset_message_handler name w =
     (if \<not> engine_alive w then w
      else case map_of (platform_message_handlers w) name of
        None \<Rightarrow> w
      | Some h \<Rightarrow> platform_message_handler_free h
          (w\<lparr>platform_message_handlers := filter (\<lambda>e. fst e \<noteq> name) (platform_message_handlers w)\<rparr>))"
| "platform_message_handler_free (APPLICATION_HANDLER f data notify) w = destroy_notify notify data w"
| "platform_message_handler_free (MESSAGE_CB a) w = channel_closed_cb a w"
| "channel_closed_cb a w =
     (case channels w a of
        None \<Rightarrow> w
      | Some c \<Rightarrow> g_object_unref a (mark_closed a c w))"
| "g_object_unref a w =
     (case channels w a of
        None \<Rightarrow> w
      | Some c \<Rightarrow>
          if ref_count c \<le> 1 then channel_dispose a w
          else put_channel a (set_ref_count (ref_count c - 1) c) w)"
| "channel_dispose a w =
     clear_channel a
       (case channels w a of
          Some (BASIC_MESSAGE_CHANNEL c) \<Rightarrow> unset_message_handler (bc_name c) w
        | Some (EVENT_CHANNEL c) \<Rightarrow> if \<not> ec_channel_closed c then unset_message_handler (ec_name c) w else w
        | _ \<Rightarrow> w)"
  by pat_completeness auto
termination
  by (relation "measure (\<lambda>x. case x of
      Inl (Inl (_, w)) \<Rightarrow> 5 * length (platform_message_handlers w)
    | Inl (Inr (_, w)) \<Rightarrow> 5 * length (platform_message_handlers w) + 4
    | Inr (Inl (_, w)) \<Rightarrow> 5 * length (platform_message_handlers w) + 3
    | Inr (Inr (Inl (_, w))) \<Rightarrow> 5 * length (platform_message_handlers w) + 2
    | Inr (Inr (Inr (_, w))) \<Rightarrow> 5 * length (platform_message_handlers w) + 1)")
    (auto dest: filter_shorter)

declare unset_message_handler.simps [simp del] channel_closed_cb.simps [simp del]
  g_object_unref.simps [simp del] channel_dispose.simps [simp del]

section \<open>The binary messenger\<close>

text \<open>A handler replaces the entry of its name first, and the old entry is freed with the new one in place.\<close>

definition set_message_handler_on_channel ::
  "byte list \<Rightarrow> PlatformMessageHandler option \<Rightarrow> fl_world \<Rightarrow> fl_world" where
  "set_message_handler_on_channel name handler w =
     (case handler of
        None \<Rightarrow> unset_message_handler name w
      | Some h \<Rightarrow>
          if \<not> engine_alive w then platform_message_handler_free h w
          else
            let old = map_of (platform_message_handlers w) name;
                w = w\<lparr>platform_message_handlers :=
                  (name, h) # filter (\<lambda>e. fst e \<noteq> name) (platform_message_handlers w)\<rparr>
            in case old of None \<Rightarrow> w | Some h' \<Rightarrow> platform_message_handler_free h' w)"

definition fl_engine_send_platform_message_response ::
  "FlutterPlatformMessageResponseHandle \<Rightarrow> byte list option \<Rightarrow> fl_world \<Rightarrow> (bool \<times> gerror option) \<times> fl_world" where
  "fl_engine_send_platform_message_response handle response w =
     (if \<not> engine_running w then ((False, Some ENGINE_ERROR_FAILED), w)
      else
        let result = api_SendPlatformMessageResponse (embedder_api w) (length (responses_sent w));
            w = w\<lparr>responses_sent := responses_sent w @ [(handle, response)]\<rparr>
        in if \<not> result then ((False, Some ENGINE_ERROR_FAILED), w) else ((True, None), w))"

text \<open>
  The two tests of \<open>response_handle\<close> are in the code: the second one, with the error it sets, is behind
  the first. The messenger of a response handle is the only one.
\<close>

definition send_response ::
  "address \<Rightarrow> byte list option \<Rightarrow> fl_world \<Rightarrow> (bool \<times> gerror option) \<times> fl_world" where
  "send_response a response w =
     (case response_handles w a of
        None \<Rightarrow> ((False, None), w)
      | Some response_handle \<Rightarrow>
          if response_handle = None then ((False, None), w)
          else if \<not> engine_alive w then ((True, None), w)
          else (case response_handle of
            None \<Rightarrow> ((False, Some BINARY_MESSENGER_ERROR_ALREADY_RESPONDED), w)
          | Some handle \<Rightarrow>
              let (result, w) = fl_engine_send_platform_message_response handle response w
              in (result, w\<lparr>response_handles := (response_handles w)(a \<mapsto> None)\<rparr>)))"

definition response_handle_dispose :: "address \<Rightarrow> fl_world \<Rightarrow> fl_world" where
  "response_handle_dispose a w =
     (let w' = w\<lparr>response_handles := (response_handles w)(a := None)\<rparr> in
      case response_handles w a of
        Some (Some handle) \<Rightarrow>
          if engine_alive w then w'\<lparr>not_responded := not_responded w @ [handle]\<rparr> else w'
      | _ \<Rightarrow> w')"

definition response_handle_impl_new :: "FlutterPlatformMessageResponseHandle \<Rightarrow> fl_world \<Rightarrow> address \<times> fl_world" where
  "response_handle_impl_new handle w =
     (next_address w,
      w\<lparr>response_handles := (response_handles w)(next_address w \<mapsto> Some handle), next_address := Suc (next_address w)\<rparr>)"

definition shutdown :: "fl_world \<Rightarrow> fl_world" where
  "shutdown w =
     fold (\<lambda>e. platform_message_handler_free (snd e)) (platform_message_handlers w)
       (w\<lparr>platform_message_handlers := []\<rparr>)"

text \<open>A messenger that goes away lets go of the engine and of its table.\<close>

definition fl_binary_messenger_impl_dispose :: "fl_world \<Rightarrow> fl_world" where
  "fl_binary_messenger_impl_dispose w = shutdown (w\<lparr>engine_alive := False\<rparr>)"

section \<open>Method channels\<close>

definition new_address :: "fl_world \<Rightarrow> address \<times> fl_world" where
  "new_address w = (next_address w, w\<lparr>next_address := Suc (next_address w)\<rparr>)"

text \<open>The channel starts with the caller's reference and the one of the messenger.\<close>

definition fl_method_channel_new :: "byte list \<Rightarrow> FlMethodCodec \<Rightarrow> fl_world \<Rightarrow> address \<times> fl_world" where
  "fl_method_channel_new name codec w =
     (let (a, w) = new_address w;
          w = put_channel a (METHOD_CHANNEL
            \<lparr>mc_ref_count = 2, mc_channel_closed = False, mc_name = name, mc_codec = codec,
             mc_handler = None, mc_handler_data = 0, mc_destroy_notify = False\<rparr>) w
      in (a, set_message_handler_on_channel name (Some (MESSAGE_CB a)) w))"

definition fl_method_channel_set_method_call_handler ::
  "address \<Rightarrow> nat option \<Rightarrow> gpointer \<Rightarrow> bool \<Rightarrow> fl_world \<Rightarrow> fl_world" where
  "fl_method_channel_set_method_call_handler a handler data notify w =
     (case channels w a of
        Some (METHOD_CHANNEL c) \<Rightarrow>
          if mc_channel_closed c then destroy_notify notify data w
          else put_channel a (METHOD_CHANNEL
                 (c\<lparr>mc_handler := handler, mc_handler_data := data, mc_destroy_notify := notify\<rparr>))
               (destroy_notify (mc_destroy_notify c) (mc_handler_data c) w)
      | _ \<Rightarrow> w)"

text \<open>A call without arguments is refused, and the caller gets null. The call holds its channel and its response handle.\<close>

definition fl_method_call_new ::
  "byte list \<Rightarrow> FlValue option \<Rightarrow> address \<Rightarrow> address \<Rightarrow> fl_world \<Rightarrow> address option \<times> fl_world" where
  "fl_method_call_new name args channel response_handle w =
     (case args of
        None \<Rightarrow> (None, w)
      | Some v \<Rightarrow>
          let (a, w) = new_address w;
              w = g_object_ref channel w
          in (Some a, w\<lparr>method_calls := (method_calls w)
               (a \<mapsto> \<lparr>call_name = name, call_args = v, call_channel = channel, call_response_handle = response_handle\<rparr>)\<rparr>))"

text \<open>
  The \<open>message_cb\<close> of each kind of channel, and whether something the application was given still holds the response handle.
\<close>

definition method_message_cb :: "address \<Rightarrow> FlMethodChannel \<Rightarrow> byte list \<Rightarrow> address \<Rightarrow> fl_world \<Rightarrow> bool \<times> fl_world" where
  "method_message_cb a self message response_handle w =
     (case mc_handler self of
        None \<Rightarrow> (False, w)
      | Some handler \<Rightarrow>
          (case decode_method_call (mc_codec self) message of
             Inl e \<Rightarrow> (False, w)
           | Inr (method, args) \<Rightarrow>
               let (call, w) = fl_method_call_new method args a response_handle w
               in (call \<noteq> None, w\<lparr>delivered := delivered w @ [Method_call handler (mc_handler_data self) call]\<rparr>)))"

definition fl_method_channel_respond ::
  "address \<Rightarrow> address \<Rightarrow> FlMethodResponse \<Rightarrow> fl_world \<Rightarrow> (bool \<times> gerror option) \<times> fl_world" where
  "fl_method_channel_respond a response_handle response w =
     (case channels w a of
        Some (METHOD_CHANNEL c) \<Rightarrow>
          (case fl_method_codec_encode_response (mc_codec c) response of
             Inl e \<Rightarrow> ((False, Some e), w)
           | Inr message \<Rightarrow> send_response response_handle (Some message) w)
      | _ \<Rightarrow> ((False, None), w))"

text \<open>
  \<open>fl_method_call_respond\<close> reads the message of a local error when the caller did not want the error, and
  gives it to \<open>g_propagate_error\<close>, which frees it if the caller gave no place for it and otherwise hands
  it over; the local variable then frees it again. So a caller without interest in the error gets a null
  dereference or a double free, and one with interest a freed error, or none.
\<close>

datatype propagated = Nothing_propagated | Freed_error gerror

definition fl_method_call_respond ::
  "address \<Rightarrow> FlMethodResponse \<Rightarrow> bool \<Rightarrow> fl_world \<Rightarrow> ((bool \<times> propagated) \<times> fl_world) res" where
  "fl_method_call_respond call response wants_error w =
     (case method_calls w call of
        None \<Rightarrow> Inr ((False, Nothing_propagated), w)
      | Some self \<Rightarrow>
          let ((ok, local_error), w) =
                fl_method_channel_respond (call_channel self) (call_response_handle self) response w
          in if ok then Inr ((True, Nothing_propagated), w)
             else if \<not> wants_error then Inl Undefined
             else case local_error of
               None \<Rightarrow> Inr ((False, Nothing_propagated), w)
             | Some e \<Rightarrow> Inr ((False, Freed_error e), w))"

definition respond_directly ::
  "address \<Rightarrow> FlMethodResponse \<Rightarrow> fl_world \<Rightarrow> (bool \<times> gerror option) \<times> fl_world" where
  "respond_directly call response w =
     (case method_calls w call of
        None \<Rightarrow> ((False, None), w)
      | Some self \<Rightarrow> fl_method_channel_respond (call_channel self) (call_response_handle self) response w)"

definition fl_method_call_respond_success ::
  "address \<Rightarrow> FlValue option \<Rightarrow> fl_world \<Rightarrow> (bool \<times> gerror option) \<times> fl_world" where
  "fl_method_call_respond_success call result = respond_directly call (SuccessResponse result)"

definition fl_method_call_respond_error ::
  "address \<Rightarrow> byte list \<Rightarrow> byte list option \<Rightarrow> FlValue option \<Rightarrow> fl_world \<Rightarrow> (bool \<times> gerror option) \<times> fl_world" where
  "fl_method_call_respond_error call code message details = respond_directly call (ErrorResponse code message details)"

definition fl_method_call_respond_not_implemented ::
  "address \<Rightarrow> fl_world \<Rightarrow> (bool \<times> gerror option) \<times> fl_world" where
  "fl_method_call_respond_not_implemented call = respond_directly call NotImplementedResponse"

text \<open>The last reference to a method call drops its channel and its response handle.\<close>

definition fl_method_call_dispose :: "address \<Rightarrow> fl_world \<Rightarrow> fl_world" where
  "fl_method_call_dispose call w =
     (case method_calls w call of
        None \<Rightarrow> w
      | Some self \<Rightarrow>
          response_handle_dispose (call_response_handle self)
            (g_object_unref (call_channel self) (w\<lparr>method_calls := (method_calls w)(call := None)\<rparr>)))"

section \<open>Basic message channels\<close>

definition fl_basic_message_channel_new :: "byte list \<Rightarrow> FlMessageCodec \<Rightarrow> fl_world \<Rightarrow> address \<times> fl_world" where
  "fl_basic_message_channel_new name codec w =
     (let (a, w) = new_address w;
          w = put_channel a (BASIC_MESSAGE_CHANNEL
            \<lparr>bc_ref_count = 2, bc_channel_closed = False, bc_name = name, bc_codec = codec,
             bc_handler = None, bc_handler_data = 0, bc_destroy_notify = False\<rparr>) w
      in (a, set_message_handler_on_channel name (Some (MESSAGE_CB a)) w))"

definition fl_basic_message_channel_set_message_handler ::
  "address \<Rightarrow> nat option \<Rightarrow> gpointer \<Rightarrow> bool \<Rightarrow> fl_world \<Rightarrow> fl_world" where
  "fl_basic_message_channel_set_message_handler a handler data notify w =
     (case channels w a of
        Some (BASIC_MESSAGE_CHANNEL c) \<Rightarrow>
          if bc_channel_closed c then destroy_notify notify data w
          else put_channel a (BASIC_MESSAGE_CHANNEL
                 (c\<lparr>bc_handler := handler, bc_handler_data := data, bc_destroy_notify := notify\<rparr>))
               (destroy_notify (bc_destroy_notify c) (bc_handler_data c) w)
      | _ \<Rightarrow> w)"

definition basic_response_handle_new :: "address \<Rightarrow> fl_world \<Rightarrow> address \<times> fl_world" where
  "basic_response_handle_new response_handle w =
     (let (a, w) = new_address w
      in (a, w\<lparr>basic_handles := (basic_handles w)(a \<mapsto> Some response_handle)\<rparr>))"

definition basic_message_cb :: "FlBasicMessageChannel \<Rightarrow> byte list \<Rightarrow> address \<Rightarrow> fl_world \<Rightarrow> bool \<times> fl_world" where
  "basic_message_cb self message response_handle w =
     (case bc_handler self of
        None \<Rightarrow> (False, snd (send_response response_handle None w))
      | Some handler \<Rightarrow>
          let (message_value, w) =
                (case fl_message_codec_decode_message (bc_codec self) message of
                   Inl e \<Rightarrow> (None, snd (send_response response_handle None w))
                 | Inr v \<Rightarrow> (Some v, w));
              (handle, w) = basic_response_handle_new response_handle w
          in (True, w\<lparr>delivered := delivered w @ [Message handler (bc_handler_data self) message_value handle]\<rparr>))"

text \<open>The reference to the response handle is given up after the response, whether it was sent or not.\<close>

definition fl_basic_message_channel_respond ::
  "address \<Rightarrow> address \<Rightarrow> FlValue option \<Rightarrow> fl_world \<Rightarrow> (bool \<times> gerror option) \<times> fl_world" where
  "fl_basic_message_channel_respond a handle message w =
     (case (channels w a, basic_handles w handle) of
        (Some (BASIC_MESSAGE_CHANNEL c), Some (Some response_handle)) \<Rightarrow>
          (case fl_message_codec_encode_message (bc_codec c) message of
             Inl e \<Rightarrow> ((False, Some e), w)
           | Inr data \<Rightarrow>
               let (result, w) = send_response response_handle (Some data) w
               in (result, response_handle_dispose response_handle
                     (w\<lparr>basic_handles := (basic_handles w)(handle \<mapsto> None)\<rparr>)))
      | _ \<Rightarrow> ((False, None), w))"

definition basic_response_handle_dispose :: "address \<Rightarrow> fl_world \<Rightarrow> fl_world" where
  "basic_response_handle_dispose handle w =
     (let w' = w\<lparr>basic_handles := (basic_handles w)(handle := None)\<rparr> in
      case basic_handles w handle of
        Some (Some response_handle) \<Rightarrow> response_handle_dispose response_handle w'
      | _ \<Rightarrow> w')"

section \<open>Event channels\<close>

definition kListenMethod :: "byte list" where "kListenMethod = text_bytes ''listen''"
definition kCancelMethod :: "byte list" where "kCancelMethod = text_bytes ''cancel''"
definition kEventRequestError :: "byte list" where "kEventRequestError = text_bytes ''error''"

definition fl_event_channel_new :: "byte list \<Rightarrow> FlMethodCodec \<Rightarrow> fl_world \<Rightarrow> address \<times> fl_world" where
  "fl_event_channel_new name codec w =
     (let (a, w) = new_address w;
          w = put_channel a (EVENT_CHANNEL
            \<lparr>ec_ref_count = 2, ec_channel_closed = False, ec_name = name, ec_codec = codec,
             ec_listen_handler = None, ec_cancel_handler = None, ec_handler_data = 0, ec_destroy_notify = False\<rparr>) w
      in (a, set_message_handler_on_channel name (Some (MESSAGE_CB a)) w))"

definition fl_event_channel_set_stream_handlers ::
  "address \<Rightarrow> FlEventChannelHandler option \<Rightarrow> FlEventChannelHandler option \<Rightarrow> gpointer \<Rightarrow> bool \<Rightarrow> fl_world \<Rightarrow> fl_world" where
  "fl_event_channel_set_stream_handlers a listen cancel data notify w =
     (case channels w a of
        Some (EVENT_CHANNEL c) \<Rightarrow>
          put_channel a (EVENT_CHANNEL
            ((remove_handlers c)\<lparr>ec_listen_handler := listen, ec_cancel_handler := cancel,
              ec_handler_data := data, ec_destroy_notify := notify\<rparr>))
            (destroy_notify (ec_destroy_notify c) (ec_handler_data c) w)
      | _ \<Rightarrow> w)"

definition handle_method_call :: "FlEventChannel \<Rightarrow> byte list \<Rightarrow> FlValue option \<Rightarrow> FlMethodErrorResponse option" where
  "handle_method_call self name args =
     (if name = kListenMethod \<or> name = kCancelMethod then
        (case (if name = kListenMethod then ec_listen_handler self else ec_cancel_handler self) of
           None \<Rightarrow> None
         | Some handler \<Rightarrow> handler args (ec_handler_data self))
      else Some (kEventRequestError,
        Some (text_bytes ''Unknown event channel request '' @ [39] @ name @ [39]), None))"

text \<open>A response that cannot be encoded is sent as null. A failed send reads the message of its error.\<close>

definition event_message_cb :: "FlEventChannel \<Rightarrow> byte list \<Rightarrow> address \<Rightarrow> fl_world \<Rightarrow> fl_world res" where
  "event_message_cb self message response_handle w =
     (case decode_method_call (ec_codec self) message of
        Inl e \<Rightarrow> Inr (snd (send_response response_handle None w))
      | Inr (name, args) \<Rightarrow>
          let data =
                (case handle_method_call self name args of
                   None \<Rightarrow> encode_success_envelope (ec_codec self) None
                 | Some (code, error_message, details) \<Rightarrow>
                     encode_error_envelope (ec_codec self) code error_message details);
              ((ok, error), w) =
                send_response response_handle (case data of Inl e \<Rightarrow> None | Inr bytes \<Rightarrow> Some bytes) w
          in if \<not> ok \<and> error = None then Inl Undefined else Inr w)"

section \<open>Receiving\<close>

text \<open>
  \<open>fl_binary_messenger_handle_message\<close>: nobody handles a message without an entry. The messenger's own
  reference to the response handle goes at the end; if nothing else holds the handle it is disposed.
\<close>

definition fl_binary_messenger_handle_message ::
  "byte list \<Rightarrow> byte list \<Rightarrow> FlutterPlatformMessageResponseHandle \<Rightarrow> fl_world \<Rightarrow> (bool \<times> fl_world) res" where
  "fl_binary_messenger_handle_message channel message response_handle w =
     (case map_of (platform_message_handlers w) channel of
        None \<Rightarrow> Inr (False, w)
      | Some handler \<Rightarrow>
          let (handle, w) = response_handle_impl_new response_handle w
          in bindR
               (case handler of
                  APPLICATION_HANDLER f data notify \<Rightarrow>
                    Inr (True, w\<lparr>delivered := delivered w @ [Binary_message f data channel message handle]\<rparr>)
                | MESSAGE_CB a \<Rightarrow>
                    (case channels w a of
                       Some (METHOD_CHANNEL c) \<Rightarrow> Inr (method_message_cb a c message handle w)
                     | Some (BASIC_MESSAGE_CHANNEL c) \<Rightarrow> Inr (basic_message_cb c message handle w)
                     | Some (EVENT_CHANNEL c) \<Rightarrow> bindR (event_message_cb c message handle w) (\<lambda>w. Inr (False, w))
                     | None \<Rightarrow> Inl Undefined))
               (\<lambda>(held, w). Inr (True, if held then w else response_handle_dispose handle w)))"

definition fl_engine_platform_message_cb ::
  "byte list \<Rightarrow> byte list \<Rightarrow> FlutterPlatformMessageResponseHandle \<Rightarrow> fl_world \<Rightarrow> fl_world res" where
  "fl_engine_platform_message_cb channel message response_handle w =
     bindR (fl_binary_messenger_handle_message channel message response_handle w) (\<lambda>(handled, w).
       Inr (if \<not> handled then snd (fl_engine_send_platform_message_response response_handle None w) else w))"

section \<open>Sending\<close>

text \<open>A layer's callback completes its own task with the task of the layer below.\<close>

primrec complete_task :: "GAsyncReadyCallback \<Rightarrow> GTask \<Rightarrow> fl_world \<Rightarrow> fl_world" where
  "complete_task (message_response_cb callback) task = complete_task callback (Returned_result task)"
| "complete_task (platform_message_ready_cb callback) task = complete_task callback (Returned_result task)"
| "complete_task (Application_callback n) task = (\<lambda>w. w\<lparr>completed := completed w @ [(Application_callback n, task)]\<rparr>)"
| "complete_task resize_channel_response_cb task =
     (\<lambda>w. w\<lparr>completed := completed w @ [(resize_channel_response_cb, task)]\<rparr>)"
| "complete_task set_warns_on_channel_overflow_response_cb task =
     (\<lambda>w. w\<lparr>completed := completed w @ [(set_warns_on_channel_overflow_response_cb, task)]\<rparr>)"

definition send_platform_message_now ::
  "byte list \<Rightarrow> byte list option \<Rightarrow> nat option \<Rightarrow> fl_world \<Rightarrow> bool \<times> fl_world" where
  "send_platform_message_now channel message response_handle w =
     (api_SendPlatformMessage (embedder_api w) (length (messages_sent w)),
      w\<lparr>messages_sent := messages_sent w @ [(channel, message, response_handle)]\<rparr>)"

text \<open>
  The response handle is made for the task of the callback, the message is sent with it, and a failure
  to do either completes the task with an error.
\<close>

definition fl_engine_send_platform_message ::
  "byte list \<Rightarrow> byte list option \<Rightarrow> GAsyncReadyCallback option \<Rightarrow> fl_world \<Rightarrow> fl_world" where
  "fl_engine_send_platform_message channel message callback w =
     (case callback of
        None \<Rightarrow> if \<not> engine_running w then w else snd (send_platform_message_now channel message None w)
      | Some cb \<Rightarrow>
          if \<not> engine_running w then complete_task cb (Returned_error ENGINE_ERROR_FAILED) w
          else
            let n = response_handles_created w;
                w = w\<lparr>response_handles_created := Suc n\<rparr>
            in if \<not> api_PlatformMessageCreateResponseHandle (embedder_api w) n
               then complete_task cb (Returned_error ENGINE_ERROR_FAILED) w
               else
                 let (ok, w) = send_platform_message_now channel message (Some n) w
                 in if \<not> ok then complete_task cb (Returned_error ENGINE_ERROR_FAILED) w
                    else w\<lparr>reply_tasks := (reply_tasks w)(n \<mapsto> cb)\<rparr>)"

text \<open>The embedder calls back for a response handle, once.\<close>

definition fl_engine_platform_message_response_cb :: "nat \<Rightarrow> byte list \<Rightarrow> fl_world \<Rightarrow> fl_world" where
  "fl_engine_platform_message_response_cb n data w =
     (case reply_tasks w n of
        None \<Rightarrow> w
      | Some cb \<Rightarrow> complete_task cb (Returned_bytes data) (w\<lparr>reply_tasks := (reply_tasks w)(n := None)\<rparr>))"

fun g_task_propagate_pointer :: "GTask \<Rightarrow> GTask g_res" where
  "g_task_propagate_pointer (Returned_error e) = Inl e"
| "g_task_propagate_pointer (Returned_result t) = Inr t"
| "g_task_propagate_pointer (Returned_bytes b) = Inr (Returned_bytes b)"

text \<open>The bytes of a completed engine task.\<close>

definition fl_engine_send_platform_message_finish :: "GTask \<Rightarrow> byte list option g_res" where
  "fl_engine_send_platform_message_finish task =
     (case task of
        Returned_error e \<Rightarrow> Inl e
      | Returned_bytes b \<Rightarrow> Inr (Some b)
      | Returned_result _ \<Rightarrow> Inr None)"

definition send_on_channel ::
  "byte list \<Rightarrow> byte list option \<Rightarrow> GAsyncReadyCallback option \<Rightarrow> fl_world \<Rightarrow> fl_world" where
  "send_on_channel channel message callback w =
     (if \<not> engine_alive w then w
      else fl_engine_send_platform_message channel message (map_option platform_message_ready_cb callback) w)"

text \<open>Null with no error when the engine is gone.\<close>

definition send_on_channel_finish :: "GTask \<Rightarrow> fl_world \<Rightarrow> byte list option g_res" where
  "send_on_channel_finish result w =
     bindR (g_task_propagate_pointer result) (\<lambda>r.
       if \<not> engine_alive w then Inr None else fl_engine_send_platform_message_finish r)"

definition fl_method_channel_invoke_method ::
  "address \<Rightarrow> byte list \<Rightarrow> FlValue option \<Rightarrow> GAsyncReadyCallback option \<Rightarrow> fl_world \<Rightarrow> fl_world" where
  "fl_method_channel_invoke_method a method args callback w =
     (case channels w a of
        Some (METHOD_CHANNEL c) \<Rightarrow>
          (case encode_method_call (mc_codec c) method args of
             Inl e \<Rightarrow> (case callback of None \<Rightarrow> w | Some cb \<Rightarrow> complete_task cb (Returned_error e) w)
           | Inr message \<Rightarrow> send_on_channel (mc_name c) (Some message) (map_option message_response_cb callback) w)
      | _ \<Rightarrow> w)"

definition fl_method_channel_invoke_method_finish ::
  "address \<Rightarrow> GTask \<Rightarrow> fl_world \<Rightarrow> FlMethodResponse option g_res" where
  "fl_method_channel_invoke_method_finish a result w =
     (case channels w a of
        Some (METHOD_CHANNEL c) \<Rightarrow>
          bindR (g_task_propagate_pointer result) (\<lambda>r.
          bindR (send_on_channel_finish r w) (\<lambda>response.
            case response of
              None \<Rightarrow> Inr None
            | Some bytes \<Rightarrow> map_sum id Some (fl_method_codec_decode_response (mc_codec c) bytes)))
      | _ \<Rightarrow> Inr None)"

definition fl_basic_message_channel_send ::
  "address \<Rightarrow> FlValue option \<Rightarrow> GAsyncReadyCallback option \<Rightarrow> fl_world \<Rightarrow> fl_world" where
  "fl_basic_message_channel_send a message callback w =
     (case channels w a of
        Some (BASIC_MESSAGE_CHANNEL c) \<Rightarrow>
          (case fl_message_codec_encode_message (bc_codec c) message of
             Inl e \<Rightarrow> (case callback of None \<Rightarrow> w | Some cb \<Rightarrow> complete_task cb (Returned_error e) w)
           | Inr data \<Rightarrow> send_on_channel (bc_name c) (Some data) (map_option message_response_cb callback) w)
      | _ \<Rightarrow> w)"

definition fl_basic_message_channel_send_finish :: "address \<Rightarrow> GTask \<Rightarrow> fl_world \<Rightarrow> FlValue option g_res" where
  "fl_basic_message_channel_send_finish a result w =
     (case channels w a of
        Some (BASIC_MESSAGE_CHANNEL c) \<Rightarrow>
          bindR (g_task_propagate_pointer result) (\<lambda>r.
          bindR (send_on_channel_finish r w) (\<lambda>message.
            case message of
              None \<Rightarrow> Inr None
            | Some bytes \<Rightarrow> map_sum id Some (fl_message_codec_decode_message (bc_codec c) bytes)))
      | _ \<Rightarrow> Inr None)"

definition event_send :: "address \<Rightarrow> (FlMethodCodec \<Rightarrow> byte list option g_res) \<Rightarrow> fl_world \<Rightarrow> bool g_res \<times> fl_world" where
  "event_send a encode w =
     (case channels w a of
        Some (EVENT_CHANNEL c) \<Rightarrow>
          (case encode (ec_codec c) of
             Inl e \<Rightarrow> (Inl e, w)
           | Inr data \<Rightarrow> (Inr True, send_on_channel (ec_name c) data None w))
      | _ \<Rightarrow> (Inr False, w))"

definition fl_event_channel_send :: "address \<Rightarrow> FlValue \<Rightarrow> fl_world \<Rightarrow> bool g_res \<times> fl_world" where
  "fl_event_channel_send a event =
     event_send a (\<lambda>codec. map_sum id Some (encode_success_envelope codec (Some event)))"

definition fl_event_channel_send_error ::
  "address \<Rightarrow> byte list \<Rightarrow> byte list \<Rightarrow> FlValue option \<Rightarrow> fl_world \<Rightarrow> bool g_res \<times> fl_world" where
  "fl_event_channel_send_error a code message details =
     event_send a (\<lambda>codec. map_sum id Some (encode_error_envelope codec code (Some message) details))"

definition fl_event_channel_send_end_of_stream :: "address \<Rightarrow> fl_world \<Rightarrow> bool g_res \<times> fl_world" where
  "fl_event_channel_send_end_of_stream a = event_send a (\<lambda>codec. Inr None)"

definition fl_kControlChannelName :: "byte list" where
  "fl_kControlChannelName = text_bytes ''dev.flutter/channel-buffers''"

text \<open>The control messages always encode: a list of a string and a number or a truth value.\<close>

definition send_control :: "string \<Rightarrow> FlValue \<Rightarrow> GAsyncReadyCallback \<Rightarrow> fl_world \<Rightarrow> fl_world" where
  "send_control method args callback w =
     send_on_channel fl_kControlChannelName
       (case encode_method_call fl_standard_method_codec (text_bytes method) (Some args) of
          Inl e \<Rightarrow> None | Inr message \<Rightarrow> Some message)
       (Some callback) w"

definition resize_channel :: "byte list \<Rightarrow> 64 word \<Rightarrow> fl_world \<Rightarrow> fl_world" where
  "resize_channel channel new_size =
     send_control ''resize'' (FL_LIST [fl_value_new_string channel, fl_value_new_int new_size])
       resize_channel_response_cb"

definition set_warns_on_channel_overflow :: "byte list \<Rightarrow> bool \<Rightarrow> fl_world \<Rightarrow> fl_world" where
  "set_warns_on_channel_overflow channel warns =
     send_control ''overflow'' (FL_LIST [fl_value_new_string channel, fl_value_new_bool (\<not> warns)])
       set_warns_on_channel_overflow_response_cb"

text \<open>Completes a control call: whether it succeeded, or the error.\<close>

definition finish_method :: "GTask \<Rightarrow> fl_world \<Rightarrow> bool g_res" where
  "finish_method result w =
     bindR (send_on_channel_finish result w) (\<lambda>response.
       case response of
         None \<Rightarrow> Inr False
       | Some bytes \<Rightarrow> map_sum id (\<lambda>_. True) (fl_method_codec_decode_response fl_standard_method_codec bytes))"

end
