(* ===== verification/Fl_Channels_Correct.thy ===== *)
theory Fl_Channels_Correct
  imports Fl_Channels
begin

text \<open>
  Executions of the messaging of the Linux shell, as sequences of operations that the engine and the
  application perform in any order, and what holds in all of them: every platform message is answered at
  most once and none is lost while the engine runs, calls and responses arrive as they were sent, and
  event channels answer whatever they get. The last section has the cases in which the code does not do
  what its comments or its callers expect.
\<close>

section \<open>Executions\<close>

datatype fl_op =
    Receive "byte list" "byte list" FlutterPlatformMessageResponseHandle
  | Respond address FlMethodResponse bool
  | Respond_directly address FlMethodResponse
  | Respond_message address address "FlValue option"
  | Respond_binary address "byte list option"
  | Drop_call address
  | Drop_message address
  | Drop_binary address
  | New_method_channel "byte list" FlMethodCodec
  | New_basic_channel "byte list" FlMessageCodec
  | New_event_channel "byte list" FlMethodCodec
  | Unref address
  | Set_method_call_handler address "nat option" gpointer bool
  | Set_message_handler address "nat option" gpointer bool
  | Set_stream_handlers address "FlEventChannelHandler option" "FlEventChannelHandler option" gpointer bool
  | Set_binary_handler "byte list" "(nat \<times> gpointer \<times> bool) option"
  | Invoke_method address "byte list" "FlValue option" "nat option"
  | Send_message address "FlValue option" "nat option"
  | Send_event address FlValue
  | Send_event_error address "byte list" "byte list" "FlValue option"
  | Send_end_of_stream address
  | Resize "byte list" "64 word"
  | Set_warns "byte list" bool
  | Reply nat "byte list"
  | Engine_stops
  | Engine_disposed
  | Shut_down

fun exec :: "fl_op \<Rightarrow> fl_world \<Rightarrow> fl_world res" where
  "exec (Receive channel message h) w = fl_engine_platform_message_cb channel message h w"
| "exec (Respond call r e) w = bindR (fl_method_call_respond call r e w) (\<lambda>(_, w). Inr w)"
| "exec (Respond_directly call r) w = Inr (snd (respond_directly call r w))"
| "exec (Respond_message a handle v) w = Inr (snd (fl_basic_message_channel_respond a handle v w))"
| "exec (Respond_binary handle data) w = Inr (snd (send_response handle data w))"
| "exec (Drop_call call) w = Inr (fl_method_call_dispose call w)"
| "exec (Drop_message handle) w = Inr (basic_response_handle_dispose handle w)"
| "exec (Drop_binary handle) w = Inr (response_handle_dispose handle w)"
| "exec (New_method_channel name codec) w = Inr (snd (fl_method_channel_new name codec w))"
| "exec (New_basic_channel name codec) w = Inr (snd (fl_basic_message_channel_new name codec w))"
| "exec (New_event_channel name codec) w = Inr (snd (fl_event_channel_new name codec w))"
| "exec (Unref a) w = Inr (g_object_unref a w)"
| "exec (Set_method_call_handler a f d n) w = Inr (fl_method_channel_set_method_call_handler a f d n w)"
| "exec (Set_message_handler a f d n) w = Inr (fl_basic_message_channel_set_message_handler a f d n w)"
| "exec (Set_stream_handlers a l c d n) w = Inr (fl_event_channel_set_stream_handlers a l c d n w)"
| "exec (Set_binary_handler name h) w =
     Inr (set_message_handler_on_channel name (map_option (\<lambda>(f, d, n). APPLICATION_HANDLER f d n) h) w)"
| "exec (Invoke_method a m args cb) w =
     Inr (fl_method_channel_invoke_method a m args (map_option Application_callback cb) w)"
| "exec (Send_message a v cb) w = Inr (fl_basic_message_channel_send a v (map_option Application_callback cb) w)"
| "exec (Send_event a v) w = Inr (snd (fl_event_channel_send a v w))"
| "exec (Send_event_error a c m d) w = Inr (snd (fl_event_channel_send_error a c m d w))"
| "exec (Send_end_of_stream a) w = Inr (snd (fl_event_channel_send_end_of_stream a w))"
| "exec (Resize name new_size) w = Inr (resize_channel name new_size w)"
| "exec (Set_warns name warns) w = Inr (set_warns_on_channel_overflow name warns w)"
| "exec (Reply n data) w = Inr (fl_engine_platform_message_response_cb n data w)"
| "exec Engine_stops w = Inr (w\<lparr>engine_running := False\<rparr>)"
| "exec Engine_disposed w = Inr (w\<lparr>engine_alive := False\<rparr>)"
| "exec Shut_down w = Inr (shutdown w)"

text \<open>The messages the engine has delivered; the embedder makes a response handle per message.\<close>

fun received_by :: "fl_op \<Rightarrow> FlutterPlatformMessageResponseHandle list" where
  "received_by (Receive channel message h) = [h]"
| "received_by _ = []"

definition received_in :: "fl_op list \<Rightarrow> FlutterPlatformMessageResponseHandle list" where
  "received_in ops = concat (map received_by ops)"

inductive fl_run :: "FlutterEngineProcTable \<Rightarrow> fl_op list \<Rightarrow> fl_world \<Rightarrow> bool" for api where
  start: "fl_run api [] (fl_binary_messenger_new api True)"
| step: "fl_run api ops w \<Longrightarrow> exec op w = Inr w' \<Longrightarrow>
    set (received_by op) \<inter> set (received_in ops) = {} \<Longrightarrow> fl_run api (ops @ [op]) w'"

lemma received_in_simps [simp]:
  "received_in [] = []" "received_in (ops @ [op]) = received_in ops @ received_by op"
  by (simp_all add: received_in_def)

section \<open>What an operation leaves alone\<close>

text \<open>Closing channels changes the table, the channels and the log of destroyed data, nothing else.\<close>

definition beyond_channels :: "fl_world \<Rightarrow> fl_world" where
  "beyond_channels w = w\<lparr>platform_message_handlers := [], channels := Map.empty, destroyed := []\<rparr>"

lemma beyond_channels_update [simp]:
  "beyond_channels (w\<lparr>platform_message_handlers := H\<rparr>) = beyond_channels w"
  "beyond_channels (destroy_notify b d w) = beyond_channels w"
  "beyond_channels (put_channel a c w) = beyond_channels w"
  "beyond_channels (mark_closed a c w) = beyond_channels w"
  "beyond_channels (clear_channel a w) = beyond_channels w"
  "beyond_channels (g_object_ref a w) = beyond_channels w"
  by (simp_all add: beyond_channels_def destroy_notify_def put_channel_def mark_closed_def clear_channel_def
      free_channel_def g_object_ref_def split: fl_channel.split option.split)

lemma closing_beyond [simp]:
  "beyond_channels (unset_message_handler name w) = beyond_channels w"
  "beyond_channels (platform_message_handler_free h w) = beyond_channels w"
  "beyond_channels (channel_closed_cb a w) = beyond_channels w"
  "beyond_channels (g_object_unref a w) = beyond_channels w"
  "beyond_channels (channel_dispose a w) = beyond_channels w"
proof (induction name w and h w and a w and a w and a w
    rule: unset_message_handler_platform_message_handler_free_channel_closed_cb_g_object_unref_channel_dispose.induct)
  case (1 name w)
  then show ?case by (simp add: unset_message_handler.simps [of name w] split: option.split)
next
  case (4 a w)
  then show ?case by (simp add: channel_closed_cb.simps [of a w] split: option.split)
next
  case (5 a w)
  then show ?case by (simp add: g_object_unref.simps [of a w] split: option.split)
next
  case (6 a w)
  then show ?case by (simp add: channel_dispose.simps [of a w] split: option.split fl_channel.split)
qed simp_all

lemma set_handler_beyond [simp]: "beyond_channels (set_message_handler_on_channel name h w) = beyond_channels w"
  by (simp add: set_message_handler_on_channel_def Let_def split: option.split)

lemma shutdown_beyond [simp]: "beyond_channels (shutdown w) = beyond_channels w"
proof -
  have "beyond_channels (fold (\<lambda>e. platform_message_handler_free (snd e)) hs w) = beyond_channels w"
    for hs :: "(byte list \<times> PlatformMessageHandler) list" and w by (induction hs arbitrary: w) simp_all
  from this [of "platform_message_handlers w" "w\<lparr>platform_message_handlers := []\<rparr>"]
  show ?thesis by (simp add: shutdown_def)
qed

text \<open>What answering depends on: the engine, the responses and the response handles.\<close>

definition answering ::
  "fl_world \<Rightarrow> bool \<times> bool \<times> (nat \<times> byte list option) list \<times> (address \<rightharpoonup> nat option) \<times> nat list" where
  "answering w = (engine_alive w, engine_running w, responses_sent w, response_handles w, not_responded w)"

definition only_allocates :: "fl_world \<Rightarrow> fl_world \<Rightarrow> bool" where
  "only_allocates w w' \<longleftrightarrow> answering w' = answering w \<and> next_address w \<le> next_address w'"

lemma only_allocates_refl [simp]: "only_allocates w w"
  by (simp add: only_allocates_def)

lemma only_allocates_trans: "only_allocates w w' \<Longrightarrow> only_allocates w' w'' \<Longrightarrow> only_allocates w w''"
  by (auto simp: only_allocates_def)

lemma beyond_allocates: "beyond_channels w' = beyond_channels w \<Longrightarrow> only_allocates w w'"
proof -
  have "answering (beyond_channels w) = answering w" "next_address (beyond_channels w) = next_address w" for w
    by (simp_all add: answering_def beyond_channels_def)
  then show "beyond_channels w' = beyond_channels w \<Longrightarrow> only_allocates w w'"
    unfolding only_allocates_def by (metis order_refl)
qed

lemma complete_task_fields [simp]:
  "engine_alive (complete_task cb t w) = engine_alive w"
  "engine_running (complete_task cb t w) = engine_running w"
  "responses_sent (complete_task cb t w) = responses_sent w"
  "response_handles (complete_task cb t w) = response_handles w"
  "not_responded (complete_task cb t w) = not_responded w"
  "next_address (complete_task cb t w) = next_address w"
  by (induction cb arbitrary: t) simp_all

lemma complete_task_allocates: "only_allocates w (complete_task cb t w)"
  by (simp add: only_allocates_def answering_def)

lemma send_on_channel_allocates: "only_allocates w (send_on_channel name m cb w)"
  by (simp add: send_on_channel_def fl_engine_send_platform_message_def send_platform_message_now_def Let_def
      only_allocates_def answering_def split: option.split)

lemma sending_allocates:
  "only_allocates w (fl_method_channel_invoke_method a method args cb w)"
  "only_allocates w (fl_basic_message_channel_send a v cb w)"
  "only_allocates w (snd (event_send a encode w))"
  "only_allocates w (send_control s control_args callback w)"
  "only_allocates w (fl_engine_platform_message_response_cb n data w)"
proof -
  note h = send_on_channel_allocates complete_task_allocates
  show "only_allocates w (fl_method_channel_invoke_method a method args cb w)"
    by (auto simp: fl_method_channel_invoke_method_def h split: option.split fl_channel.split sum.split)
  show "only_allocates w (fl_basic_message_channel_send a v cb w)"
    by (auto simp: fl_basic_message_channel_send_def h split: option.split fl_channel.split sum.split)
  show "only_allocates w (snd (event_send a encode w))"
    by (auto simp: event_send_def h split: option.split fl_channel.split sum.split)
  show "only_allocates w (send_control s control_args callback w)"
    by (simp add: send_control_def h)
  show "only_allocates w (fl_engine_platform_message_response_cb n data w)"
    by (simp add: fl_engine_platform_message_response_cb_def only_allocates_def answering_def split: option.split)
qed

lemma channel_ops_allocate:
  "only_allocates w (snd (fl_method_channel_new name mcodec w))"
  "only_allocates w (snd (fl_basic_message_channel_new name bcodec w))"
  "only_allocates w (snd (fl_event_channel_new name mcodec w))"
  "only_allocates w (fl_method_channel_set_method_call_handler a f d n w)"
  "only_allocates w (fl_basic_message_channel_set_message_handler a f d n w)"
  "only_allocates w (fl_event_channel_set_stream_handlers a l c d n w)"
proof -
  have new: "only_allocates w (set_message_handler_on_channel name h (put_channel a c (w\<lparr>next_address := Suc (next_address w)\<rparr>)))"
    for name h a c
  proof (rule only_allocates_trans)
    show "only_allocates w (w\<lparr>next_address := Suc (next_address w)\<rparr>)" by (simp add: only_allocates_def answering_def)
    show "only_allocates (w\<lparr>next_address := Suc (next_address w)\<rparr>)
        (set_message_handler_on_channel name h (put_channel a c (w\<lparr>next_address := Suc (next_address w)\<rparr>)))"
      by (rule beyond_allocates) simp
  qed
  then show "only_allocates w (snd (fl_method_channel_new name mcodec w))"
    "only_allocates w (snd (fl_basic_message_channel_new name bcodec w))"
    "only_allocates w (snd (fl_event_channel_new name mcodec w))"
    by (simp_all add: fl_method_channel_new_def fl_basic_message_channel_new_def fl_event_channel_new_def new_address_def)
  show "only_allocates w (fl_method_channel_set_method_call_handler a f d n w)"
    "only_allocates w (fl_basic_message_channel_set_message_handler a f d n w)"
    "only_allocates w (fl_event_channel_set_stream_handlers a l c d n w)"
    by (auto intro!: beyond_allocates simp: fl_method_channel_set_method_call_handler_def
        fl_basic_message_channel_set_message_handler_def fl_event_channel_set_stream_handlers_def
        split: option.split fl_channel.split)
qed

section \<open>Accounting for the messages\<close>

definition answered :: "fl_world \<Rightarrow> nat set" where
  "answered w = fst ` set (responses_sent w)"

definition pending :: "fl_world \<Rightarrow> nat set" where
  "pending w = {h. \<exists>a. response_handles w a = Some (Some h)}"

text \<open>
  \<open>R\<close> are the messages received: each is answered, pending in a response handle or reported as not
  responded to, in one of the three ways only; none is missing while the engine runs.
\<close>

definition accounted :: "nat set \<Rightarrow> fl_world \<Rightarrow> bool" where
  "accounted R w \<longleftrightarrow>
     distinct (map fst (responses_sent w)) \<and>
     answered w \<inter> pending w = {} \<and> answered w \<inter> set (not_responded w) = {} \<and> pending w \<inter> set (not_responded w) = {} \<and>
     answered w \<union> pending w \<union> set (not_responded w) \<subseteq> R \<and>
     (engine_alive w \<and> engine_running w \<longrightarrow> R \<subseteq> answered w \<union> pending w \<union> set (not_responded w)) \<and>
     (\<forall>a b h. response_handles w a = Some (Some h) \<longrightarrow> response_handles w b = Some (Some h) \<longrightarrow> a = b) \<and>
     (\<forall>a \<in> dom (response_handles w). a < next_address w)"

lemma accounted_allocates:
  assumes "only_allocates w w'" "accounted R w" shows "accounted R w'"
proof -
  have *: "engine_alive w' = engine_alive w" "engine_running w' = engine_running w" "responses_sent w' = responses_sent w"
    "response_handles w' = response_handles w" "not_responded w' = not_responded w" "next_address w \<le> next_address w'"
    using assms(1) by (simp_all add: only_allocates_def answering_def)
  have b: "\<forall>a \<in> dom (response_handles w). a < next_address w'"
  proof
    fix a assume "a \<in> dom (response_handles w)"
    with assms(2) have "a < next_address w" unfolding accounted_def by blast
    with *(6) show "a < next_address w'" by simp
  qed
  have e: "answered w' = answered w" "pending w' = pending w" by (simp_all add: answered_def pending_def *)
  show ?thesis using assms(2) b unfolding accounted_def e *(1-5)
    by (elim conjE) (intro conjI; assumption)
qed

lemma accounted_engine_down:
  "accounted R w \<Longrightarrow> accounted R (w\<lparr>engine_running := False\<rparr>)" "accounted R w \<Longrightarrow> accounted R (w\<lparr>engine_alive := False\<rparr>)"
  by (simp_all add: accounted_def answered_def pending_def)

lemma pending_update:
  assumes "\<And>a b h. response_handles w a = Some (Some h) \<Longrightarrow> response_handles w b = Some (Some h) \<Longrightarrow> a = b"
    and "x \<in> {None, Some None}"
  shows "pending (w\<lparr>response_handles := (response_handles w)(a := x)\<rparr>) =
    pending w - {h. response_handles w a = Some (Some h)}"
proof (intro equalityI subsetI)
  fix h assume "h \<in> pending w - {h. response_handles w a = Some (Some h)}"
  then obtain b where "response_handles w b = Some (Some h)" "b \<noteq> a" by (auto simp: pending_def)
  then show "h \<in> pending (w\<lparr>response_handles := (response_handles w)(a := x)\<rparr>)"
    by (auto simp: pending_def intro!: exI [of _ b])
qed (use assms in \<open>auto simp: pending_def split: if_splits\<close>)

lemma accounted_answer:
  assumes "accounted R w" and "response_handles w a = Some (Some h)"
  shows "accounted R (w\<lparr>responses_sent := responses_sent w @ [(h, r)], response_handles := (response_handles w)(a \<mapsto> None)\<rparr>)"
proof -
  have "pending (w\<lparr>response_handles := (response_handles w)(a \<mapsto> None)\<rparr>) = pending w - {h}"
    using pending_update [of w "Some None" a] assms by (simp add: accounted_def)
  moreover have "h \<in> pending w" using assms(2) by (auto simp: pending_def)
  moreover have "a < next_address w" using assms by (auto simp: accounted_def)
  ultimately show ?thesis
    using assms unfolding accounted_def answered_def by (auto simp: pending_def)
qed

lemma accounted_forget:
  assumes "accounted R w" and "x \<in> {None, Some None}"
    and "\<not> (engine_alive w \<and> engine_running w) \<or> (\<forall>h. response_handles w a \<noteq> Some (Some h))"
    and "a < next_address w \<or> x = None"
  shows "accounted R (w\<lparr>response_handles := (response_handles w)(a := x)\<rparr>)"
proof -
  have "pending (w\<lparr>response_handles := (response_handles w)(a := x)\<rparr>) =
      pending w - {h. response_handles w a = Some (Some h)}"
    using pending_update [of w x a] assms by (simp add: accounted_def)
  then show ?thesis
    using assms unfolding accounted_def answered_def by auto
qed

lemma accounted_report:
  assumes "accounted R w" and "response_handles w a = Some (Some h)"
  shows "accounted R (w\<lparr>response_handles := (response_handles w)(a := None), not_responded := not_responded w @ [h]\<rparr>)"
proof -
  have "pending (w\<lparr>response_handles := (response_handles w)(a := None)\<rparr>) = pending w - {h}"
    using pending_update [of w None a] assms by (simp add: accounted_def)
  moreover have "h \<in> pending w" using assms(2) by (auto simp: pending_def)
  ultimately show ?thesis
    using assms unfolding accounted_def answered_def by (auto simp: pending_def)
qed

lemma accounted_new_handle:
  assumes "accounted R w" and "h \<notin> R"
  shows "accounted (insert h R) (snd (response_handle_impl_new h w))"
proof -
  define w' where "w' = snd (response_handle_impl_new h w)"
  have w': "response_handles w' = (response_handles w)(next_address w \<mapsto> Some h)" "next_address w' = Suc (next_address w)"
    "answered w' = answered w" "responses_sent w' = responses_sent w" "not_responded w' = not_responded w"
    "engine_alive w' = engine_alive w" "engine_running w' = engine_running w"
    by (simp_all add: w'_def response_handle_impl_new_def answered_def)
  have fresh: "response_handles w (next_address w) = None"
    using assms(1) by (auto simp: accounted_def domIff)
  then have p: "pending w' = insert h (pending w)"
  proof (intro equalityI subsetI)
    fix x assume "x \<in> insert h (pending w)"
    then show "x \<in> pending w'"
    proof
      assume "x \<in> pending w"
      then obtain a where "response_handles w a = Some (Some x)" by (auto simp: pending_def)
      then have "response_handles w' a = Some (Some x)" using fresh unfolding w' by auto
      then show ?thesis by (auto simp: pending_def)
    qed (auto simp: pending_def w')
  qed (auto simp: pending_def w' split: if_splits)
  have h: "h \<notin> pending w" "h \<notin> answered w" "h \<notin> set (not_responded w)" using assms by (auto simp: accounted_def)
  have i: "\<forall>a b x. response_handles w' a = Some (Some x) \<longrightarrow> response_handles w' b = Some (Some x) \<longrightarrow> a = b"
  proof (intro allI impI)
    fix a b x assume *: "response_handles w' a = Some (Some x)" "response_handles w' b = Some (Some x)"
    have "\<forall>a. response_handles w a \<noteq> Some (Some h)" using h(1) by (simp add: pending_def)
    moreover have "response_handles w a = Some (Some x) \<Longrightarrow> response_handles w b = Some (Some x) \<Longrightarrow> a = b"
      using assms(1) unfolding accounted_def by blast
    ultimately show "a = b" using * unfolding w' fun_upd_apply by (metis option.inject)
  qed
  have d: "\<forall>a \<in> dom (response_handles w'). a < next_address w'"
    using assms(1) unfolding accounted_def w' by (auto simp: less_Suc_eq)
  show ?thesis
    using assms(1) h i d unfolding w'_def [symmetric] accounted_def p w'(3-7)
    by (elim conjE) (intro conjI; (assumption | blast))
qed

lemma accounted_send_response:
  assumes "accounted R w" shows "accounted R (snd (send_response a r w))"
proof (cases "\<exists>h. response_handles w a = Some (Some h) \<and> engine_alive w")
  case True
  then obtain h where h: "response_handles w a = Some (Some h)" "engine_alive w" by blast
  show ?thesis
  proof (cases "engine_running w")
    case True
    then show ?thesis using accounted_answer [OF assms h(1)] h
      by (simp add: send_response_def fl_engine_send_platform_message_response_def Let_def)
  next
    case False
    have "a < next_address w" using assms h by (auto simp: accounted_def)
    with False h accounted_forget [OF assms, of "Some None" a] show ?thesis
      by (simp add: send_response_def fl_engine_send_platform_message_response_def)
  qed
next
  case False
  with assms show ?thesis by (auto simp: send_response_def split: option.split)
qed

lemma accounted_dispose:
  assumes "accounted R w" shows "accounted R (response_handle_dispose a w)"
proof (cases "\<exists>h. response_handles w a = Some (Some h) \<and> engine_alive w")
  case True
  then show ?thesis using accounted_report [OF assms] by (auto simp: response_handle_dispose_def Let_def)
next
  case False
  then show ?thesis using accounted_forget [OF assms, of None a]
    by (auto simp: response_handle_dispose_def Let_def split: option.split)
qed

section \<open>Every operation keeps the accounts\<close>

lemma accounted_method_respond:
  "accounted R w \<Longrightarrow> accounted R (snd (fl_method_channel_respond a handle r w))"
  by (auto simp: fl_method_channel_respond_def accounted_send_response split: option.split fl_channel.split sum.split)

lemma accounted_respond_directly: "accounted R w \<Longrightarrow> accounted R (snd (respond_directly call r w))"
  by (simp add: respond_directly_def accounted_method_respond split: option.split)

lemma accounted_respond:
  assumes "accounted R w" "fl_method_call_respond call r e w = Inr (x, w')"
  shows "accounted R w'"
proof -
  have "w' = snd (respond_directly call r w)"
    using assms(2) by (auto simp: fl_method_call_respond_def respond_directly_def Let_def
        split: option.splits prod.splits if_splits)
  with accounted_respond_directly [OF assms(1)] show ?thesis by simp
qed

lemma accounted_other_fields [simp]:
  "accounted R (w\<lparr>basic_handles := B\<rparr>) = accounted R w" "accounted R (w\<lparr>method_calls := M\<rparr>) = accounted R w"
  "accounted R (w\<lparr>delivered := D\<rparr>) = accounted R w"
  by (simp_all add: accounted_def answered_def pending_def)

lemma accounted_basic_respond:
  assumes "accounted R w" shows "accounted R (snd (fl_basic_message_channel_respond a handle v w))"
proof -
  have *: "accounted R (response_handle_dispose b (w'\<lparr>basic_handles := B\<rparr>))" if "accounted R w'" for b w' B
    using accounted_dispose [of R "w'\<lparr>basic_handles := B\<rparr>" b] that by simp
  show ?thesis
    using * [OF accounted_send_response [OF assms]] assms
    by (auto simp: fl_basic_message_channel_respond_def Let_def case_prod_beta
        split: option.split fl_channel.split sum.split)
qed

lemma accounted_basic_dispose:
  assumes "accounted R w" shows "accounted R (basic_response_handle_dispose handle w)"
  using accounted_dispose [of R "w\<lparr>basic_handles := (basic_handles w)(handle := None)\<rparr>"] assms
  by (simp add: basic_response_handle_dispose_def Let_def split: option.split)

lemma accounted_call_dispose:
  assumes "accounted R w" shows "accounted R (fl_method_call_dispose call w)"
proof -
  have "accounted R (g_object_unref a (w\<lparr>method_calls := M\<rparr>))" for a M
    by (rule accounted_allocates [of "w\<lparr>method_calls := M\<rparr>"]) (simp_all add: beyond_allocates assms)
  with assms show ?thesis by (simp add: fl_method_call_dispose_def accounted_dispose split: option.split)
qed

lemma method_cb_allocates: "only_allocates w (snd (method_message_cb a c m handle w))"
proof -
  have "only_allocates w (snd (fl_method_call_new name args a handle w))" for name args
  proof (cases args)
    case (Some v)
    have "only_allocates (w\<lparr>next_address := Suc (next_address w)\<rparr>) (g_object_ref a (w\<lparr>next_address := Suc (next_address w)\<rparr>))"
      by (rule beyond_allocates) simp
    with Some show ?thesis
      by (simp add: fl_method_call_new_def new_address_def only_allocates_def answering_def Let_def)
  qed (simp add: fl_method_call_new_def)
  then have "only_allocates w (snd (fl_method_call_new name args a handle w)\<lparr>delivered := D\<rparr>)" for name args D
    by (simp add: only_allocates_def answering_def)
  then show ?thesis by (auto simp: method_message_cb_def Let_def case_prod_beta split: option.split sum.split)
qed

lemma accounted_basic_cb:
  assumes "accounted R w" shows "accounted R (snd (basic_message_cb c m handle w))"
proof -
  have *: "accounted R (w'\<lparr>next_address := Suc (next_address w')\<rparr>)" if "accounted R w'" for w'
    using accounted_allocates [OF _ that, of "w'\<lparr>next_address := Suc (next_address w')\<rparr>"]
    by (simp add: only_allocates_def answering_def)
  show ?thesis
    using * [OF assms] * [OF accounted_send_response [OF assms]] accounted_send_response [OF assms]
    by (auto simp: basic_message_cb_def basic_response_handle_new_def new_address_def Let_def case_prod_beta
        split: option.split sum.split)
qed

lemma accounted_event_cb:
  assumes "accounted R w" "event_message_cb c m handle w = Inr w'" shows "accounted R w'"
  using assms accounted_send_response [OF assms(1), of handle]
  by (auto simp: event_message_cb_def Let_def case_prod_beta split: sum.splits prod.splits option.splits if_splits)

lemma accounted_handle_message:
  assumes "accounted R w" and "h \<notin> R" and r: "fl_binary_messenger_handle_message name m h w = Inr (handled, w')"
  shows "if handled then accounted (insert h R) w' else w' = w"
proof (cases "map_of (platform_message_handlers w) name")
  case None
  with r show ?thesis by (simp add: fl_binary_messenger_handle_message_def)
next
  case (Some handler)
  define w1 where "w1 = snd (response_handle_impl_new h w)"
  define b where "b = fst (response_handle_impl_new h w)"
  have a1: "accounted (insert h R) w1" unfolding w1_def using assms(1,2) by (rule accounted_new_handle)
  define called where "called =
      (case handler of
         APPLICATION_HANDLER f data notify \<Rightarrow> Inr (True, w1\<lparr>delivered := delivered w1 @ [Binary_message f data name m b]\<rparr>)
       | MESSAGE_CB a \<Rightarrow>
           (case channels w1 a of
              Some (METHOD_CHANNEL c) \<Rightarrow> Inr (method_message_cb a c m b w1)
            | Some (BASIC_MESSAGE_CHANNEL c) \<Rightarrow> Inr (basic_message_cb c m b w1)
            | Some (EVENT_CHANNEL c) \<Rightarrow> bindR (event_message_cb c m b w1) (\<lambda>w. Inr (False, w))
            | None \<Rightarrow> Inl Undefined))"
  have a2: "accounted (insert h R) w2" if "called = Inr (held, w2)" for held w2
    using that a1 accounted_basic_cb [OF a1] accounted_event_cb [OF a1] accounted_allocates [OF method_cb_allocates a1]
    unfolding called_def
    by (auto simp: bindR_eq_Inr_iff split: PlatformMessageHandler.splits option.splits fl_channel.splits)
      (metis snd_conv)+
  have "fl_binary_messenger_handle_message name m h w =
      bindR called (\<lambda>(held, w). Inr (True, if held then w else response_handle_dispose b w))"
    unfolding fl_binary_messenger_handle_message_def Some option.case called_def w1_def b_def Let_def case_prod_beta
    by (rule refl)
  with r obtain held w2 where "called = Inr (held, w2)" "handled" "w' = (if held then w2 else response_handle_dispose b w2)"
    by (auto simp: bindR_eq_Inr_iff)
  with a2 show ?thesis by (simp add: accounted_dispose)
qed

lemma accounted_direct:
  assumes "accounted R w" and "h \<notin> R"
  shows "accounted (insert h R) (snd (fl_engine_send_platform_message_response h r w))"
  using assms unfolding accounted_def
  by (auto simp: fl_engine_send_platform_message_response_def Let_def answered_def pending_def)

lemma accounted_receive:
  assumes "accounted R w" and "h \<notin> R" and "fl_engine_platform_message_cb name m h w = Inr w'"
  shows "accounted (insert h R) w'"
proof -
  from assms(3) obtain handled w1 where 1: "fl_binary_messenger_handle_message name m h w = Inr (handled, w1)"
    and 2: "w' = (if \<not> handled then snd (fl_engine_send_platform_message_response h None w1) else w1)"
    by (auto simp: fl_engine_platform_message_cb_def bindR_eq_Inr_iff)
  show ?thesis using accounted_handle_message [OF assms(1,2) 1] accounted_direct [OF assms(1,2)] 2
    by (cases handled) simp_all
qed

lemma exec_accounted:
  assumes "accounted R w" and "exec op w = Inr w'" and "set (received_by op) \<inter> R = {}"
  shows "accounted (R \<union> set (received_by op)) w'"
proof (cases op)
  case (Receive name m h)
  with assms accounted_receive show ?thesis by simp
next
  case (Respond call r e)
  with assms accounted_respond show ?thesis by (auto simp: bindR_eq_Inr_iff)
qed (use assms in \<open>auto simp: accounted_engine_down accounted_send_response accounted_dispose
    accounted_respond_directly accounted_basic_respond accounted_basic_dispose accounted_call_dispose
    fl_event_channel_send_def fl_event_channel_send_error_def fl_event_channel_send_end_of_stream_def
    resize_channel_def set_warns_on_channel_overflow_def accounted_allocates [OF beyond_allocates [OF closing_beyond(4)]]
    accounted_allocates [OF beyond_allocates [OF set_handler_beyond]] accounted_allocates [OF beyond_allocates [OF shutdown_beyond]]
    intro: accounted_allocates [rotated] sending_allocates channel_ops_allocate\<close>)

lemma run_accounted: "fl_run api ops w \<Longrightarrow> accounted (set (received_in ops)) w"
proof (induction rule: fl_run.induct)
  case start
  show ?case by (simp add: accounted_def fl_binary_messenger_new_def answered_def pending_def)
next
  case (step ops w op w')
  then show ?case using exec_accounted [of "set (received_in ops)" w op w'] by simp
qed

text \<open>
  C19: in every execution of the Linux messaging, with the application's handlers responding as often and
  as late as they like, channels being made, replaced, closed and dropped and the engine stopping at any
  time, no platform message is answered twice, and an answer is always to a message that was received.
  As long as the engine is there, every message received has been answered, or is pending in a response
  handle that somebody still holds, or was reported as not responded to, and only one of these.
\<close>

theorem messages_answered_at_most_once:
  assumes "fl_run api ops w"
  shows "distinct (map fst (responses_sent w)) \<and> answered w \<subseteq> set (received_in ops) \<and>
    (engine_alive w \<and> engine_running w \<longrightarrow>
      set (received_in ops) = answered w \<union> pending w \<union> set (not_responded w)) \<and>
    answered w \<inter> pending w = {} \<and> (answered w \<union> pending w) \<inter> set (not_responded w) = {}"
  using run_accounted [OF assms] unfolding accounted_def by auto

definition willing_embedder :: FlutterEngineProcTable where
  "willing_embedder = \<lparr>api_SendPlatformMessageResponse = (\<lambda>_. True),
     api_PlatformMessageCreateResponseHandle = (\<lambda>_. True), api_SendPlatformMessage = (\<lambda>_. True)\<rparr>"

theorem messages_answered_at_most_once_witness:
  "\<exists>w. fl_run willing_embedder [Receive [1] [] 7] w \<and> distinct (map fst (responses_sent w)) \<and>
     {7} = answered w \<union> pending w \<union> set (not_responded w)"
proof -
  define w0 where "w0 = fl_binary_messenger_new willing_embedder True"
  define w where "w = snd (fl_engine_send_platform_message_response 7 None w0)"
  have "exec (Receive [1] [] 7) w0 = Inr w"
    by (simp add: w_def w0_def fl_binary_messenger_new_def fl_engine_platform_message_cb_def
        fl_binary_messenger_handle_message_def)
  then have run: "fl_run willing_embedder ([] @ [Receive [1] [] 7]) w"
    using fl_run.step [OF fl_run.start [of willing_embedder]] by (simp add: w0_def)
  have "engine_alive w \<and> engine_running w"
    by (simp add: w_def w0_def fl_binary_messenger_new_def fl_engine_send_platform_message_response_def Let_def)
  with messages_answered_at_most_once [OF run] run show ?thesis
    by (intro exI [of _ w]) (simp add: received_in_def)
qed

section \<open>A method call and its response\<close>

text \<open>The result of receiving a decodable call.\<close>

definition call_received ::
  "address \<Rightarrow> FlMethodChannel \<Rightarrow> nat \<Rightarrow> byte list \<Rightarrow> FlValue \<Rightarrow> nat \<Rightarrow> fl_world \<Rightarrow> fl_world" where
  "call_received a c f method v h w =
     w\<lparr>response_handles := (response_handles w)(next_address w \<mapsto> Some h),
       channels := (channels w)(a \<mapsto> METHOD_CHANNEL (c\<lparr>mc_ref_count := Suc (mc_ref_count c)\<rparr>)),
       next_address := Suc (Suc (next_address w)),
       method_calls := (method_calls w)(Suc (next_address w) \<mapsto>
         \<lparr>call_name = method, call_args = v, call_channel = a, call_response_handle = next_address w\<rparr>),
       delivered := delivered w @ [Method_call f (mc_handler_data c) (Some (Suc (next_address w)))]\<rparr>"

lemma method_call_delivered:
  assumes "map_of (platform_message_handlers w) name = Some (MESSAGE_CB a)"
    and "channels w a = Some (METHOD_CHANNEL c)" "mc_handler c = Some f"
    and "decode_method_call (mc_codec c) message = Inr (method, Some v)"
  shows "fl_engine_platform_message_cb name message h w = Inr (call_received a c f method v h w)"
  using assms
  by (simp add: fl_engine_platform_message_cb_def fl_binary_messenger_handle_message_def response_handle_impl_new_def
      method_message_cb_def fl_method_call_new_def new_address_def g_object_ref_def put_channel_def
      call_received_def)

lemma received_call_responded:
  assumes "fl_method_codec_encode_response (mc_codec c) response = Inr reply" "engine_alive w" "engine_running w"
  shows "\<exists>w2. snd (respond_directly (Suc (next_address w)) response (call_received a c f method v h w)) = w2 \<and>
    responses_sent w2 = responses_sent w @ [(h, Some reply)] \<and>
    response_handles w2 (next_address w) = Some None"
  using assms
  by (simp add: respond_directly_def call_received_def fl_method_channel_respond_def send_response_def
      fl_engine_send_platform_message_response_def Let_def)

context method_codec_laws
begin

lemma call_answered:
  assumes "map_of (platform_message_handlers w) name = Some (MESSAGE_CB a)"
    and "channels w a = Some (METHOD_CHANNEL c)" "mc_handler c = Some f" "mc_codec c = codec"
    and "engine_alive w" "engine_running w"
    and "text_ok method" "value_ok (fl_or_null args)" "response_ok value_ok text_ok response"
  shows "\<exists>message call handle w1 w2 reply.
    encode_method_call codec method args = Inr message \<and>
    fl_engine_platform_message_cb name message h w = Inr w1 \<and>
    delivered w1 = delivered w @ [Method_call f (mc_handler_data c) (Some call)] \<and>
    method_calls w1 call = Some \<lparr>call_name = method, call_args = image (fl_or_null args),
      call_channel = a, call_response_handle = handle\<rparr> \<and>
    responses_sent w1 = responses_sent w \<and> response_handles w1 handle = Some (Some h) \<and>
    snd (respond_directly call response w1) = w2 \<and>
    responses_sent w2 = responses_sent w @ [(h, Some reply)] \<and> response_handles w2 handle = Some None \<and>
    fl_method_codec_decode_response codec reply = Inr (received_response image response)"
proof -
  obtain message where m: "encode_method_call codec method args = Inr message"
    "decode_method_call codec message = Inr (method, Some (image (fl_or_null args)))"
    using call_back assms(7,8) by blast
  obtain reply where r: "fl_method_codec_encode_response codec response = Inr reply"
    "fl_method_codec_decode_response codec reply = Inr (received_response image response)"
    using assms(9) by (rule response_carried)
  define w1 where "w1 = call_received a c f method (image (fl_or_null args)) h w"
  have 1: "fl_engine_platform_message_cb name message h w = Inr w1"
    unfolding w1_def using assms(1-4) m(2) by (intro method_call_delivered) simp_all
  obtain w2 where 2: "snd (respond_directly (Suc (next_address w)) response w1) = w2"
    "responses_sent w2 = responses_sent w @ [(h, Some reply)]" "response_handles w2 (next_address w) = Some None"
    using received_call_responded [of c response reply w a f "method" "image (fl_or_null args)" h] assms(4-6) r(1)
    unfolding w1_def by auto
  show ?thesis
    using m(1) 1 2 r(2)
    by (intro exI [of _ message] exI [of _ "Suc (next_address w)"] exI [of _ "next_address w"] exI [of _ w1]
        exI [of _ w2] exI [of _ reply]) (simp add: w1_def call_received_def)
qed

text \<open>The caller's side: what is sent, and what the callback finds.\<close>

lemma invocation_completes:
  assumes "channels w a = Some (METHOD_CHANNEL c)" "mc_codec c = codec"
    and "engine_alive w" "engine_running w"
    and "api_PlatformMessageCreateResponseHandle (embedder_api w) (response_handles_created w)"
    and "api_SendPlatformMessage (embedder_api w) (length (messages_sent w))"
    and "text_ok method" "value_ok (fl_or_null args)" "response_ok value_ok text_ok response"
  shows "\<exists>message k w1 reply task w2.
    fl_method_channel_invoke_method a method args (Some (Application_callback n)) w = w1 \<and>
    messages_sent w1 = messages_sent w @ [(mc_name c, Some message, Some k)] \<and>
    decode_method_call codec message = Inr (method, Some (image (fl_or_null args))) \<and>
    completed w1 = completed w \<and>
    fl_method_codec_encode_response codec response = Inr reply \<and>
    fl_engine_platform_message_response_cb k reply w1 = w2 \<and>
    completed w2 = completed w @ [(Application_callback n, task)] \<and>
    fl_method_channel_invoke_method_finish a task w2 = Inr (Some (received_response image response)) \<and>
    (\<forall>again. fl_engine_platform_message_response_cb k again w2 = w2)"
proof -
  obtain message where m: "encode_method_call codec method args = Inr message"
    "decode_method_call codec message = Inr (method, Some (image (fl_or_null args)))"
    using call_back assms(7,8) by blast
  obtain reply where r: "fl_method_codec_encode_response codec response = Inr reply"
    "fl_method_codec_decode_response codec reply = Inr (received_response image response)"
    using assms(9) by (rule response_carried)
  define k where "k = response_handles_created w"
  define cb where "cb = platform_message_ready_cb (message_response_cb (Application_callback n))"
  define w1 where "w1 = w\<lparr>response_handles_created := Suc k,
      messages_sent := messages_sent w @ [(mc_name c, Some message, Some k)], reply_tasks := (reply_tasks w)(k \<mapsto> cb)\<rparr>"
  define task where "task = Returned_result (Returned_result (Returned_bytes reply))"
  define w2 where "w2 = w1\<lparr>reply_tasks := (reply_tasks w1)(k := None), completed := completed w1 @ [(Application_callback n, task)]\<rparr>"
  have 1: "fl_method_channel_invoke_method a method args (Some (Application_callback n)) w = w1"
    using assms(1-6) m(1) by (simp add: fl_method_channel_invoke_method_def send_on_channel_def
        fl_engine_send_platform_message_def send_platform_message_now_def Let_def w1_def cb_def k_def)
  have 2: "fl_engine_platform_message_response_cb k reply w1 = w2"
    by (simp add: fl_engine_platform_message_response_cb_def w2_def w1_def cb_def task_def)
  have 3: "fl_method_channel_invoke_method_finish a task w2 = Inr (Some (received_response image response))"
    using assms(1-4) r(2) by (simp add: fl_method_channel_invoke_method_finish_def task_def w2_def w1_def
        send_on_channel_finish_def fl_engine_send_platform_message_finish_def)
  show ?thesis
    using 1 2 3 m(2) r(1)
    by (intro exI [of _ message] exI [of _ k] exI [of _ w1] exI [of _ reply] exI [of _ task] exI [of _ w2])
      (simp add: w1_def w2_def fl_engine_platform_message_response_cb_def)
qed

end

text \<open>
  C27: a method call that the engine delivers to a Linux method channel with a handler reaches the handler
  with its name and arguments and is not answered before the handler responds; the response is then sent
  for that message, and decodes to what the handler gave. Afterwards the response handle is spent.
\<close>

theorem linux_method_call_answered:
  assumes "map_of (platform_message_handlers w) name = Some (MESSAGE_CB a)"
    and "channels w a = Some (METHOD_CHANNEL c)" "mc_handler c = Some f" "mc_codec c = fl_standard_method_codec"
    and "engine_alive w" "engine_running w"
    and "carried_text method" "fl_serializable (fl_or_null args)" "response_ok fl_serializable carried_text response"
  shows "\<exists>message call handle w1 w2 reply.
    encode_method_call fl_standard_method_codec method args = Inr message \<and>
    fl_engine_platform_message_cb name message h w = Inr w1 \<and>
    delivered w1 = delivered w @ [Method_call f (mc_handler_data c) (Some call)] \<and>
    method_calls w1 call = Some \<lparr>call_name = method, call_args = fl_or_null args,
      call_channel = a, call_response_handle = handle\<rparr> \<and>
    responses_sent w1 = responses_sent w \<and> response_handles w1 handle = Some (Some h) \<and>
    snd (respond_directly call response w1) = w2 \<and>
    responses_sent w2 = responses_sent w @ [(h, Some reply)] \<and> response_handles w2 handle = Some None \<and>
    fl_method_codec_decode_response fl_standard_method_codec reply = Inr (received_response id response)"
  using standard_method.call_answered [OF assms] by simp

text \<open>A messenger with one method channel, for the witnesses.\<close>

definition sample_world :: fl_world where
  "sample_world = fl_method_channel_set_method_call_handler 0 (Some 3) 5 True
     (snd (fl_method_channel_new [1] fl_standard_method_codec (fl_binary_messenger_new willing_embedder True)))"

lemma sample_world_facts:
  "map_of (platform_message_handlers sample_world) [1] = Some (MESSAGE_CB 0)"
  "channels sample_world 0 = Some (METHOD_CHANNEL
    \<lparr>mc_ref_count = 2, mc_channel_closed = False, mc_name = [1], mc_codec = fl_standard_method_codec,
     mc_handler = Some 3, mc_handler_data = 5, mc_destroy_notify = True\<rparr>)"
  "engine_alive sample_world" "engine_running sample_world" "embedder_api sample_world = willing_embedder"
  "delivered sample_world = []" "responses_sent sample_world = []" "messages_sent sample_world = []"
  "completed sample_world = []"
  by (simp_all add: sample_world_def fl_method_channel_new_def new_address_def fl_binary_messenger_new_def
      put_channel_def set_message_handler_on_channel_def fl_method_channel_set_method_call_handler_def destroy_notify_def)

theorem linux_method_call_answered_witness:
  "\<exists>message call w1 w2 reply.
    encode_method_call fl_standard_method_codec [112] None = Inr message \<and>
    fl_engine_platform_message_cb [1] message 9 sample_world = Inr w1 \<and>
    delivered w1 = [Method_call 3 5 (Some call)] \<and>
    snd (respond_directly call NotImplementedResponse w1) = w2 \<and> responses_sent w2 = [(9, Some reply)] \<and>
    fl_method_codec_decode_response fl_standard_method_codec reply = Inr NotImplementedResponse"
  using linux_method_call_answered [OF sample_world_facts(1,2), of 3 "[112]" None NotImplementedResponse 9]
    sample_world_facts
  by (auto simp: carried_text_def fl_or_null_def)

text \<open>
  C28: a call made on a Linux method channel sends the engine one message on the channel, which decodes to
  the method and its arguments, and its callback does not run before the engine replies. When the engine
  replies with the encoding of a response, the callback runs, finds exactly that response, and does not
  run again.
\<close>

theorem linux_invocation_completes:
  assumes "channels w a = Some (METHOD_CHANNEL c)" "mc_codec c = fl_standard_method_codec"
    and "engine_alive w" "engine_running w"
    and "api_PlatformMessageCreateResponseHandle (embedder_api w) (response_handles_created w)"
    and "api_SendPlatformMessage (embedder_api w) (length (messages_sent w))"
    and "carried_text method" "fl_serializable (fl_or_null args)" "response_ok fl_serializable carried_text response"
  shows "\<exists>message k w1 reply task w2.
    fl_method_channel_invoke_method a method args (Some (Application_callback n)) w = w1 \<and>
    messages_sent w1 = messages_sent w @ [(mc_name c, Some message, Some k)] \<and>
    decode_method_call fl_standard_method_codec message = Inr (method, Some (fl_or_null args)) \<and>
    completed w1 = completed w \<and>
    fl_method_codec_encode_response fl_standard_method_codec response = Inr reply \<and>
    fl_engine_platform_message_response_cb k reply w1 = w2 \<and>
    completed w2 = completed w @ [(Application_callback n, task)] \<and>
    fl_method_channel_invoke_method_finish a task w2 = Inr (Some (received_response id response)) \<and>
    (\<forall>again. fl_engine_platform_message_response_cb k again w2 = w2)"
  using standard_method.invocation_completes [OF assms, of n] by simp

theorem linux_invocation_completes_witness:
  "\<exists>message k w1 reply task w2.
    fl_method_channel_invoke_method 0 [112] (Some (FL_BOOL True)) (Some (Application_callback 4)) sample_world = w1 \<and>
    messages_sent w1 = [([1], Some message, Some k)] \<and>
    fl_engine_platform_message_response_cb k reply w1 = w2 \<and> completed w2 = [(Application_callback 4, task)] \<and>
    fl_method_channel_invoke_method_finish 0 task w2 = Inr (Some (SuccessResponse (Some (FL_INT 1))))"
  using linux_invocation_completes [OF sample_world_facts(2), of "[112]" "Some (FL_BOOL True)" "SuccessResponse (Some (FL_INT 1))" 4]
    sample_world_facts
  by (auto simp: carried_text_def fl_or_null_def willing_embedder_def)

section \<open>Event channels\<close>

text \<open>What an event channel answers.\<close>

definition event_answer :: "FlEventChannel \<Rightarrow> byte list \<Rightarrow> byte list option" where
  "event_answer c message =
     (case decode_method_call (ec_codec c) message of
        Inl e \<Rightarrow> None
      | Inr (name, args) \<Rightarrow>
          (case (case handle_method_call c name args of
                   None \<Rightarrow> encode_success_envelope (ec_codec c) None
                 | Some (code, error_message, details) \<Rightarrow> encode_error_envelope (ec_codec c) code error_message details) of
             Inl e \<Rightarrow> None
           | Inr bytes \<Rightarrow> Some bytes))"

text \<open>
  C29: an event channel answers every message it gets, exactly once and before it returns, whatever the
  bytes, the codec and the stream handlers are and whether or not the embedder takes the response; it
  never reads a missing error, and leaves no response handle behind.
\<close>

theorem event_channel_always_answers:
  assumes "map_of (platform_message_handlers w) name = Some (MESSAGE_CB a)"
    and "channels w a = Some (EVENT_CHANNEL c)" "engine_alive w" "engine_running w"
  shows "\<exists>w'. fl_engine_platform_message_cb name message h w = Inr w' \<and>
    responses_sent w' = responses_sent w @ [(h, event_answer c message)] \<and>
    not_responded w' = not_responded w \<and> response_handles w' = (response_handles w)(next_address w := None)"
proof -
  define handle where "handle = next_address w"
  define w1 where "w1 = w\<lparr>response_handles := (response_handles w)(handle \<mapsto> Some h), next_address := Suc handle\<rparr>"
  define w2 where "w2 = w1\<lparr>responses_sent := responses_sent w1 @ [(h, event_answer c message)],
      response_handles := (response_handles w1)(handle \<mapsto> None)\<rparr>"
  have sent: "\<exists>ok e. send_response handle r w1 = ((ok, e), w1\<lparr>responses_sent := responses_sent w1 @ [(h, r)],
      response_handles := (response_handles w1)(handle \<mapsto> None)\<rparr>) \<and> (\<not> ok \<longrightarrow> e \<noteq> None)" for r
    using assms(3,4) by (auto simp: send_response_def w1_def fl_engine_send_platform_message_response_def Let_def)
  have ev: "event_message_cb c message handle w1 = Inr w2"
  proof (cases "decode_method_call (ec_codec c) message")
    case (Inl e)
    with sent [of None] show ?thesis by (auto simp: event_message_cb_def w2_def event_answer_def)
  next
    case (Inr call)
    obtain m a where call: "call = (m, a)" by (cases call)
    obtain ok e where "send_response handle (event_answer c message) w1 = ((ok, e), w2)" "\<not> ok \<longrightarrow> e \<noteq> None"
      using sent [of "event_answer c message"] unfolding w2_def by auto
    with Inr call show ?thesis by (auto simp: event_message_cb_def Let_def event_answer_def)
  qed
  have "fl_binary_messenger_handle_message name message h w = Inr (True, response_handle_dispose handle w2)"
    using assms(1,2) ev by (simp add: fl_binary_messenger_handle_message_def response_handle_impl_new_def
        w1_def handle_def)
  then show ?thesis
    by (simp add: fl_engine_platform_message_cb_def response_handle_dispose_def w2_def w1_def handle_def)
qed

theorem event_channel_always_answers_witness:
  "\<exists>w'. fl_engine_platform_message_cb [2] [255] 7
      (snd (fl_event_channel_new [2] fl_standard_method_codec (fl_binary_messenger_new willing_embedder True))) = Inr w' \<and>
    responses_sent w' = [(7, None)]"
proof -
  define c where "c = \<lparr>ec_ref_count = 2, ec_channel_closed = False, ec_name = [2], ec_codec = fl_standard_method_codec,
      ec_listen_handler = None, ec_cancel_handler = None, ec_handler_data = 0, ec_destroy_notify = False\<rparr>"
  define w where "w = snd (fl_event_channel_new [2] fl_standard_method_codec (fl_binary_messenger_new willing_embedder True))"
  have w: "map_of (platform_message_handlers w) [2] = Some (MESSAGE_CB 0)" "channels w 0 = Some (EVENT_CHANNEL c)"
    "engine_alive w" "engine_running w" "responses_sent w = []"
    by (simp_all add: w_def fl_event_channel_new_def new_address_def fl_binary_messenger_new_def put_channel_def
        set_message_handler_on_channel_def c_def)
  have "event_answer c [255] = None"
    by (simp add: event_answer_def c_def fl_standard_method_codec_def fl_standard_method_codec_decode_method_call_def
        fl_standard_message_codec_read_value_def read_value.simps read_uint8_def check_size_def get_data_def
        read_value_of_type.simps)
  with event_channel_always_answers [OF w(1-4), of "[255]" 7] w(5) show ?thesis
    unfolding w_def [symmetric] by auto
qed

section \<open>Where the code falls short\<close>

text \<open>
  A basic message channel is disposed when its last reference goes, and then removes the handler of its
  name, whoever set it. If the messenger holds the last reference to a channel, making another one with
  the same name disposes the old one with the handler of the new one in place, and the new channel is
  closed before its constructor returns.
\<close>

lemma basic_channel_new_unregistered:
  assumes "engine_alive w" "map_of (platform_message_handlers w) name = None"
  shows "fl_basic_message_channel_new name codec w = (next_address w,
    w\<lparr>next_address := Suc (next_address w),
      channels := (channels w)(next_address w \<mapsto> BASIC_MESSAGE_CHANNEL
        \<lparr>bc_ref_count = 2, bc_channel_closed = False, bc_name = name, bc_codec = codec,
         bc_handler = None, bc_handler_data = 0, bc_destroy_notify = False\<rparr>),
      platform_message_handlers := (name, MESSAGE_CB (next_address w)) #
        filter (\<lambda>e. fst e \<noteq> name) (platform_message_handlers w)\<rparr>)"
  using assms by (simp add: fl_basic_message_channel_new_def new_address_def put_channel_def
      set_message_handler_on_channel_def Let_def)

lemma map_of_filtered [simp]: "map_of (filter (\<lambda>e. fst e \<noteq> k) xs) k = None"
  by (induction xs) auto

theorem replaced_basic_channel_closes_its_successor:
  assumes "engine_alive w" "map_of (platform_message_handlers w) name = None"
  shows "\<exists>a w1 b w3 c.
    fl_basic_message_channel_new name codec w = (a, w1) \<and>
    fl_basic_message_channel_new name codec (g_object_unref a w1) = (b, w3) \<and>
    map_of (platform_message_handlers w3) name = None \<and>
    channels w3 b = Some (BASIC_MESSAGE_CHANNEL c) \<and> bc_channel_closed c"
proof -
  define a where "a = next_address w"
  define w1 where "w1 = snd (fl_basic_message_channel_new name codec w)"
  have 1: "fl_basic_message_channel_new name codec w = (a, w1)"
    using assms by (simp add: w1_def a_def basic_channel_new_unregistered)
  have w1: "channels w1 a = Some (BASIC_MESSAGE_CHANNEL \<lparr>bc_ref_count = 2, bc_channel_closed = False, bc_name = name,
      bc_codec = codec, bc_handler = None, bc_handler_data = 0, bc_destroy_notify = False\<rparr>)"
    "engine_alive w1" "next_address w1 = Suc a"
    "platform_message_handlers w1 = (name, MESSAGE_CB a) # filter (\<lambda>e. fst e \<noteq> name) (platform_message_handlers w)"
    using assms by (simp_all add: w1_def a_def basic_channel_new_unregistered)
  define w2 where "w2 = g_object_unref a w1"
  have w2: "w2 = w1\<lparr>channels := (channels w1)(a \<mapsto> BASIC_MESSAGE_CHANNEL \<lparr>bc_ref_count = 1, bc_channel_closed = False,
      bc_name = name, bc_codec = codec, bc_handler = None, bc_handler_data = 0, bc_destroy_notify = False\<rparr>)\<rparr>"
    by (simp add: w2_def g_object_unref.simps w1 put_channel_def)
  show ?thesis
    unfolding 1 by (auto simp: w2_def [symmetric] w2 fl_basic_message_channel_new_def new_address_def put_channel_def
      set_message_handler_on_channel_def Let_def w1 channel_closed_cb.simps mark_closed_def basic_disconnect_def
      destroy_notify_def g_object_unref.simps channel_dispose.simps unset_message_handler.simps clear_channel_def
      free_channel_def)
qed

text \<open>
  A message that a basic message channel cannot decode is answered with nothing, and then given to the
  handler all the same, as null, with a response handle that refuses every response.
\<close>

theorem undecodable_message_reaches_handler:
  assumes "map_of (platform_message_handlers w) name = Some (MESSAGE_CB a)"
    and "channels w a = Some (BASIC_MESSAGE_CHANNEL c)" "bc_handler c = Some f"
    and "decode_message (bc_codec c) message = Inl e" "engine_alive w" "engine_running w"
    and "fl_message_codec_encode_message (bc_codec c) v = Inr data"
  shows "\<exists>w' handle w''. fl_engine_platform_message_cb name message h w = Inr w' \<and>
    responses_sent w' = responses_sent w @ [(h, None)] \<and>
    delivered w' = delivered w @ [Message f (bc_handler_data c) None handle] \<and>
    fl_basic_message_channel_respond a handle v w' = ((False, None), w'') \<and>
    responses_sent w'' = responses_sent w'"
  using assms
  by (simp add: fl_engine_platform_message_cb_def fl_binary_messenger_handle_message_def response_handle_impl_new_def
      basic_message_cb_def fl_message_codec_decode_message_def send_response_def Let_def case_prod_beta
      fl_engine_send_platform_message_response_def basic_response_handle_new_def new_address_def
      fl_basic_message_channel_respond_def response_handle_dispose_def)

text \<open>
  A message that a method channel cannot decode, or has no handler for, counts as handled and gets no
  answer at all, where the other channels answer with nothing.
\<close>

theorem undecodable_call_is_not_answered:
  assumes "map_of (platform_message_handlers w) name = Some (MESSAGE_CB a)"
    and "channels w a = Some (METHOD_CHANNEL c)" "engine_alive w"
    and "mc_handler c = None \<or> decode_method_call (mc_codec c) message = Inl e"
  shows "\<exists>w'. fl_engine_platform_message_cb name message h w = Inr w' \<and>
    responses_sent w' = responses_sent w \<and> not_responded w' = not_responded w @ [h]"
  using assms
  by (auto simp: fl_engine_platform_message_cb_def fl_binary_messenger_handle_message_def response_handle_impl_new_def
      method_message_cb_def response_handle_dispose_def split: option.split)

text \<open>
  A second response to a method call, or one that cannot be encoded, takes \<open>fl_method_call_respond\<close> to a
  null dereference or a double free when the caller passes no error, although its comment says the error
  is then logged.
\<close>

theorem failed_response_is_undefined:
  assumes "method_calls w call = Some self" "channels w (call_channel self) = Some (METHOD_CHANNEL c)"
    and "response_handles w (call_response_handle self) = Some None \<or>
      fl_method_codec_encode_response (mc_codec c) response = Inl e"
  shows "fl_method_call_respond call response False w = Inl Undefined"
  using assms by (auto simp: fl_method_call_respond_def fl_method_channel_respond_def send_response_def split: sum.split)

text \<open>A caller that does pass an error gets one that is freed already, unless there was none to report.\<close>

theorem failed_response_error_is_freed:
  assumes "method_calls w call = Some self" "channels w (call_channel self) = Some (METHOD_CHANNEL c)"
    and "fl_method_codec_encode_response (mc_codec c) response = Inl e"
  shows "fl_method_call_respond call response True w = Inr ((False, Freed_error e), w)"
  using assms by (simp add: fl_method_call_respond_def fl_method_channel_respond_def)

text \<open>An asynchronous call behind the end of the engine never completes.\<close>

theorem invocation_without_engine_never_completes:
  assumes "\<not> engine_alive w" "channels w a = Some (METHOD_CHANNEL c)"
    and "encode_method_call (mc_codec c) method args = Inr message"
  shows "fl_method_channel_invoke_method a method args callback w = w"
  using assms by (simp add: fl_method_channel_invoke_method_def send_on_channel_def)

text \<open>
  A method codec may decode a call without arguments; no method call object is made for it, and the
  handler is called with null, which has nothing to respond to.
\<close>

theorem call_without_args_is_null:
  assumes "map_of (platform_message_handlers w) name = Some (MESSAGE_CB a)"
    and "channels w a = Some (METHOD_CHANNEL c)" "mc_handler c = Some f" "engine_alive w"
    and "decode_method_call (mc_codec c) message = Inr (method, None)"
  shows "\<exists>w'. fl_engine_platform_message_cb name message h w = Inr w' \<and>
    delivered w' = delivered w @ [Method_call f (mc_handler_data c) None] \<and>
    responses_sent w' = responses_sent w \<and> not_responded w' = not_responded w @ [h]"
  using assms
  by (simp add: fl_engine_platform_message_cb_def fl_binary_messenger_handle_message_def response_handle_impl_new_def
      method_message_cb_def fl_method_call_new_def response_handle_dispose_def)

end
