(* ===== verification/Fl_Json_Codec.thy ===== *)
theory Fl_Json_Codec
  imports Fl_Codec_Class
begin

text \<open>
  The JSON message and method codecs of the Linux shell (\<open>fl_json_message_codec.cc\<close>,
  \<open>fl_json_method_codec.cc\<close>). They drive the writer and the event parser of rapidjson, which is not part of
  the repository: \<open>json_text\<close> stands for the text that a writer makes of its calls, \<open>json_parse\<close> for the
  events that the parser finds in a text and whether it accepts it, \<open>utf8_valid\<close> for the validation of
  GLib, \<open>to_double\<close> for the conversion of an unsigned number to the bits of a double. The code's side is
  here: which calls a value is written with, and the handler that builds a value out of events. The handler
  fills containers that are already in their parent, so the values under construction are objects of a
  store.
\<close>

section \<open>Events\<close>

text \<open>The calls of a writer and of a handler: the same functions.\<close>

datatype json_event =
    JNull
  | JBool bool
  | JInt "32 word"
  | JUint "32 word"
  | JInt64 "64 word"
  | JUint64 "64 word"
  | JDouble "64 word"
  | JRawNumber "byte list"
  | JString "byte list"
  | JStartObject
  | JKey "byte list"
  | JEndObject
  | JStartArray
  | JEndArray

section \<open>Writing\<close>

definition json_array :: "json_event list \<Rightarrow> json_event list" where
  "json_array items = JStartArray # items @ [JEndArray]"

fun json_write_value :: "FlValue \<Rightarrow> json_event list \<Rightarrow> json_event list g_res" where
  "json_write_value value writer =
     (case value of
        FL_NULL \<Rightarrow> Inr (writer @ [JNull])
      | FL_BOOL b \<Rightarrow> Inr (writer @ [JBool b])
      | FL_INT i \<Rightarrow> Inr (writer @ [JInt64 i])
      | FL_FLOAT d \<Rightarrow> Inr (writer @ [JDouble d])
      | FL_STRING s \<Rightarrow> Inr (writer @ [JString (c_string s)])
      | FL_UINT8_LIST xs \<Rightarrow> Inr (writer @ json_array (map (JInt \<circ> ucast) xs))
      | FL_INT32_LIST xs \<Rightarrow> Inr (writer @ json_array (map JInt xs))
      | FL_INT64_LIST xs \<Rightarrow> Inr (writer @ json_array (map JInt64 xs))
      | FL_FLOAT_LIST xs \<Rightarrow> Inr (writer @ json_array (map JDouble xs))
      | FL_LIST vs \<Rightarrow>
          bindR (foldR json_write_value vs (writer @ [JStartArray])) (\<lambda>writer. Inr (writer @ [JEndArray]))
      | FL_MAP m \<Rightarrow>
          bindR (foldR (\<lambda>kv writer.
              case fl_value_get_string (Some (fst kv)) of
                None \<Rightarrow> Inl (JSON_MESSAGE_CODEC_ERROR INVALID_OBJECT_KEY_TYPE)
              | Some key \<Rightarrow> json_write_value (snd kv) (writer @ [JKey (c_string key)])) m (writer @ [JStartObject]))
            (\<lambda>writer. Inr (writer @ [JEndObject]))
      | FL_FLOAT32_LIST _ \<Rightarrow> Inl (MESSAGE_CODEC_ERROR UNSUPPORTED_TYPE)
      | FL_CUSTOM _ _ \<Rightarrow> Inl (MESSAGE_CODEC_ERROR UNSUPPORTED_TYPE))"

declare json_write_value.simps [simp del]

definition fl_json_message_codec_encode_message ::
  "(json_event list \<Rightarrow> byte list) \<Rightarrow> FlValue \<Rightarrow> byte list g_res" where
  "fl_json_message_codec_encode_message json_text message =
     bindR (json_write_value message []) (\<lambda>writer. Inr (c_string (json_text writer)))"

section \<open>The handler\<close>

datatype json_object = Leaf FlValue | List_object "nat list" | Map_object "(FlValue \<times> nat) list"

text \<open>\<open>stack\<close> has its top first. The key is the one of the entry to come.\<close>

record FlValueHandler =
  objects :: "json_object list"
  stack :: "nat list"
  key :: "FlValue option"

definition FlValueHandler_new :: FlValueHandler where
  "FlValueHandler_new = \<lparr>objects = [], stack = [], key = None\<rparr>"

text \<open>The object that \<open>fl_value_new_*\<close> allocates for a value.\<close>

fun object_of :: "FlValue \<Rightarrow> json_object" where
  "object_of (FL_LIST []) = List_object []"
| "object_of (FL_MAP []) = Map_object []"
| "object_of v = Leaf v"

text \<open>\<open>fl_value_set_take\<close> on a map of the store: the entry with an equal key is replaced.\<close>

fun entry_index :: "(FlValue \<times> nat) list \<Rightarrow> FlValue \<Rightarrow> nat option" where
  "entry_index [] k = None"
| "entry_index ((k', v) # m) k = (if value_equal k' k then Some 0 else map_option Suc (entry_index m k))"

definition set_entry :: "FlValue option \<Rightarrow> nat \<Rightarrow> (FlValue \<times> nat) list \<Rightarrow> (FlValue \<times> nat) list" where
  "set_entry k a m =
     (case k of
        None \<Rightarrow> m
      | Some k \<Rightarrow> (case entry_index m k of None \<Rightarrow> m @ [(k, a)] | Some i \<Rightarrow> m[i := (k, a)]))"

definition is_container :: "json_object \<Rightarrow> bool" where
  "is_container ob = (case ob of Leaf _ \<Rightarrow> False | _ \<Rightarrow> True)"

definition handler_push :: "nat \<Rightarrow> FlValueHandler \<Rightarrow> FlValueHandler" where
  "handler_push a self = self\<lparr>stack := a # stack self\<rparr>"

definition handler_pop :: "FlValueHandler \<Rightarrow> FlValueHandler" where
  "handler_pop self = self\<lparr>stack := tl (stack self)\<rparr>"

text \<open>
  The root container is pushed twice, so that it is still there when it is closed. A stack with no
  element cannot be popped.
\<close>

definition handler_add :: "FlValue \<Rightarrow> FlValueHandler \<Rightarrow> FlValueHandler g_res" where
  "handler_add value self =
     (let ob = object_of value;
          a = length (objects self);
          self = self\<lparr>objects := objects self @ [ob]\<rparr>
      in bindR
           (case stack self of
              [] \<Rightarrow> Inr (handler_push a self)
            | head # _ \<Rightarrow>
                (case objects self ! head of
                   List_object xs \<Rightarrow> Inr (self\<lparr>objects := (objects self)[head := List_object (xs @ [a])]\<rparr>)
                 | Map_object m \<Rightarrow>
                     Inr (self\<lparr>objects := (objects self)[head := Map_object (set_entry (key self) a m)], key := None\<rparr>)
                 | Leaf _ \<Rightarrow> Inl (MESSAGE_CODEC_ERROR FAILED)))
           (\<lambda>self. Inr (if is_container ob then handler_push a self else self)))"

definition G_MAXINT64 :: "64 word" where
  "G_MAXINT64 = 9223372036854775807"

fun handler_event :: "(64 word \<Rightarrow> 64 word) \<Rightarrow> json_event \<Rightarrow> FlValueHandler \<Rightarrow> FlValueHandler g_res" where
  "handler_event to_double JNull self = handler_add fl_value_new_null self"
| "handler_event to_double (JBool b) self = handler_add (fl_value_new_bool b) self"
| "handler_event to_double (JInt i) self = handler_add (fl_value_new_int (scast i)) self"
| "handler_event to_double (JUint i) self = handler_add (fl_value_new_int (ucast i)) self"
| "handler_event to_double (JInt64 i) self = handler_add (fl_value_new_int i) self"
| "handler_event to_double (JUint64 i) self =
     (if i = G_MAXINT64 then handler_add (fl_value_new_int i) self
      else handler_add (fl_value_new_float (to_double i)) self)"
| "handler_event to_double (JDouble d) self = handler_add (fl_value_new_float d) self"
| "handler_event to_double (JRawNumber s) self = Inl (MESSAGE_CODEC_ERROR FAILED)"
| "handler_event to_double (JString s) self = handler_add (fl_value_new_string_sized s (length s)) self"
| "handler_event to_double JStartObject self = handler_add fl_value_new_map self"
| "handler_event to_double (JKey s) self = Inr (self\<lparr>key := Some (fl_value_new_string_sized s (length s))\<rparr>)"
| "handler_event to_double JEndObject self = Inr (handler_pop self)"
| "handler_event to_double JStartArray self = handler_add fl_value_new_list self"
| "handler_event to_double JEndArray self = Inr (handler_pop self)"

section \<open>Reading\<close>

text \<open>The value an object of the store is. An object is older than what it holds, so its depth is at most the size of the store.\<close>

fun object_value :: "nat \<Rightarrow> json_object list \<Rightarrow> nat \<Rightarrow> FlValue" where
  "object_value 0 H a = FL_NULL"
| "object_value (Suc n) H a =
     (case H ! a of
        Leaf v \<Rightarrow> v
      | List_object xs \<Rightarrow> FL_LIST (map (object_value n H) xs)
      | Map_object m \<Rightarrow> FL_MAP (map (\<lambda>e. (fst e, object_value n H (snd e))) m))"

definition fl_json_message_codec_decode_message ::
  "(byte list \<Rightarrow> bool) \<Rightarrow> (byte list \<Rightarrow> json_event list \<times> bool) \<Rightarrow> (64 word \<Rightarrow> 64 word) \<Rightarrow> byte list \<Rightarrow> FlValue g_res" where
  "fl_json_message_codec_decode_message utf8_valid json_parse to_double message =
     (if \<not> utf8_valid message then Inl (JSON_MESSAGE_CODEC_ERROR INVALID_UTF8)
      else
        bindR (foldR (handler_event to_double) (fst (json_parse message)) FlValueHandler_new) (\<lambda>handler.
          if \<not> snd (json_parse message) then Inl (JSON_MESSAGE_CODEC_ERROR INVALID_JSON)
          else case stack handler of
            [] \<Rightarrow> Inl (JSON_MESSAGE_CODEC_ERROR INVALID_JSON)
          | head # _ \<Rightarrow> Inr (object_value (length (objects handler)) (objects handler) head)))"

text \<open>The text functions of the class; \<open>decode\<close> takes the length of its C string.\<close>

definition fl_json_message_codec_encode :: "(json_event list \<Rightarrow> byte list) \<Rightarrow> FlValue \<Rightarrow> byte list g_res" where
  "fl_json_message_codec_encode json_text value =
     bindR (json_write_value value []) (\<lambda>writer. Inr (c_string (json_text writer)))"

definition fl_json_message_codec_decode ::
  "(byte list \<Rightarrow> bool) \<Rightarrow> (byte list \<Rightarrow> json_event list \<times> bool) \<Rightarrow> (64 word \<Rightarrow> 64 word) \<Rightarrow> byte list \<Rightarrow> FlValue g_res" where
  "fl_json_message_codec_decode utf8_valid json_parse to_double text =
     fl_json_message_codec_decode_message utf8_valid json_parse to_double (c_string text)"

definition fl_json_message_codec ::
  "(json_event list \<Rightarrow> byte list) \<Rightarrow> (byte list \<Rightarrow> bool) \<Rightarrow> (byte list \<Rightarrow> json_event list \<times> bool) \<Rightarrow>
   (64 word \<Rightarrow> 64 word) \<Rightarrow> FlMessageCodec" where
  "fl_json_message_codec json_text utf8_valid json_parse to_double =
     \<lparr>encode_message = fl_json_message_codec_encode_message json_text,
      decode_message = fl_json_message_codec_decode_message utf8_valid json_parse to_double\<rparr>"

section \<open>The method codec\<close>

text \<open>The method codec holds a message codec; here it is a parameter, the JSON codec in the code.\<close>

definition kMethodKey :: "byte list" where "kMethodKey = text_bytes ''method''"
definition kArgsKey :: "byte list" where "kArgsKey = text_bytes ''args''"

definition fl_json_method_codec_encode_method_call ::
  "FlMessageCodec \<Rightarrow> byte list \<Rightarrow> FlValue option \<Rightarrow> byte list g_res" where
  "fl_json_method_codec_encode_method_call codec name args =
     (let message = Some fl_value_new_map;
          message = fl_value_set_take message (Some (fl_value_new_string kMethodKey)) (Some (fl_value_new_string name));
          message = fl_value_set_take message (Some (fl_value_new_string kArgsKey))
            (Some (case args of None \<Rightarrow> fl_value_new_null | Some v \<Rightarrow> v))
      in fl_message_codec_encode_message codec message)"

definition fl_json_method_codec_decode_method_call ::
  "FlMessageCodec \<Rightarrow> byte list \<Rightarrow> (byte list \<times> FlValue option) g_res" where
  "fl_json_method_codec_decode_method_call codec message =
     bindR (fl_message_codec_decode_message codec message) (\<lambda>value.
       if value_type value \<noteq> TYPE_MAP then Inl (MESSAGE_CODEC_ERROR FAILED)
       else case fl_value_lookup_string (Some value) kMethodKey of
         Inr (Some method_value) \<Rightarrow>
           (case fl_value_get_string (Some method_value) of
              None \<Rightarrow> Inl (MESSAGE_CODEC_ERROR FAILED)
            | Some name \<Rightarrow>
                (case fl_value_lookup_string (Some value) kArgsKey of
                   Inr args_value \<Rightarrow> Inr (c_string name, args_value)
                 | Inl _ \<Rightarrow> Inl (MESSAGE_CODEC_ERROR FAILED)))
       | _ \<Rightarrow> Inl (MESSAGE_CODEC_ERROR FAILED))"

definition fl_json_method_codec_encode_success_envelope ::
  "FlMessageCodec \<Rightarrow> FlValue option \<Rightarrow> byte list g_res" where
  "fl_json_method_codec_encode_success_envelope codec result =
     fl_message_codec_encode_message codec
       (fl_value_append_take (Some fl_value_new_list)
         (Some (case result of None \<Rightarrow> fl_value_new_null | Some v \<Rightarrow> v)))"

definition fl_json_method_codec_encode_error_envelope ::
  "FlMessageCodec \<Rightarrow> byte list \<Rightarrow> byte list option \<Rightarrow> FlValue option \<Rightarrow> byte list g_res" where
  "fl_json_method_codec_encode_error_envelope codec code error_message details =
     (let message = Some fl_value_new_list;
          message = fl_value_append_take message (Some (fl_value_new_string code));
          message = fl_value_append_take message
            (Some (case error_message of None \<Rightarrow> fl_value_new_null | Some m \<Rightarrow> fl_value_new_string m));
          message = fl_value_append_take message (Some (case details of None \<Rightarrow> fl_value_new_null | Some v \<Rightarrow> v))
      in fl_message_codec_encode_message codec message)"

definition fl_json_method_codec_decode_response :: "FlMessageCodec \<Rightarrow> byte list \<Rightarrow> FlMethodResponse g_res" where
  "fl_json_method_codec_decode_response codec message =
     bindR (fl_message_codec_decode_message codec message) (\<lambda>value.
       case value of
         FL_LIST vs \<Rightarrow>
           if length vs = 1 then Inr (SuccessResponse (Some (vs ! 0)))
           else if length vs = 3 then
             (case fl_value_get_string (Some (vs ! 0)) of
                None \<Rightarrow> Inl (MESSAGE_CODEC_ERROR FAILED)
              | Some code \<Rightarrow>
                  if value_type (vs ! 1) \<noteq> TYPE_STRING \<and> value_type (vs ! 1) \<noteq> TYPE_NULL
                  then Inl (MESSAGE_CODEC_ERROR FAILED)
                  else Inr (ErrorResponse (c_string code) (map_option c_string (fl_value_get_string (Some (vs ! 1))))
                    (if value_type (vs ! 2) = TYPE_NULL then None else Some (vs ! 2))))
           else Inl (MESSAGE_CODEC_ERROR FAILED)
       | _ \<Rightarrow> Inl (MESSAGE_CODEC_ERROR FAILED))"

definition fl_json_method_codec :: "FlMessageCodec \<Rightarrow> FlMethodCodec" where
  "fl_json_method_codec codec =
     \<lparr>encode_method_call = fl_json_method_codec_encode_method_call codec,
      decode_method_call = fl_json_method_codec_decode_method_call codec,
      encode_success_envelope = fl_json_method_codec_encode_success_envelope codec,
      encode_error_envelope = fl_json_method_codec_encode_error_envelope codec,
      decode_response = fl_json_method_codec_decode_response codec\<rparr>"

end
