(* ===== verification/Fl_Json_Codec_Correct.thy ===== *)
theory Fl_Json_Codec_Correct
  imports Fl_Json_Codec
begin

text \<open>
  The JSON codec of the Linux shell reads back what it wrote: the handler, run on the events that the
  parser makes of the text, builds the value that was written, up to what JSON cannot say. Lists of
  numbers come back as lists of values, and whole numbers that the parser reports as unsigned 64-bit
  numbers come back as floating-point numbers.
\<close>

section \<open>Values that survive, and what becomes of them\<close>

definition json_text_key :: "FlValue \<Rightarrow> bool" where
  "json_text_key k = (case k of FL_STRING s \<Rightarrow> 0 \<notin> set s | _ \<Rightarrow> False)"

fun json_ok :: "FlValue \<Rightarrow> bool" where
  "json_ok (FL_STRING s) = (0 \<notin> set s)"
| "json_ok (FL_LIST vs) = list_all json_ok vs"
| "json_ok (FL_MAP m) = (distinct (map fst m) \<and> list_all (\<lambda>e. json_text_key (fst e) \<and> json_ok (snd e)) m)"
| "json_ok (FL_FLOAT32_LIST _) = False"
| "json_ok (FL_CUSTOM _ _) = False"
| "json_ok _ = True"

definition json_number :: "(64 word \<Rightarrow> 64 word) \<Rightarrow> 64 word \<Rightarrow> FlValue" where
  "json_number to_double i = (if sint i < 2 ^ 32 \<or> i = G_MAXINT64 then FL_INT i else FL_FLOAT (to_double i))"

text \<open>\<open>reread\<close> is what becomes of a floating-point number that is printed and parsed.\<close>

fun json_image :: "(64 word \<Rightarrow> 64 word) \<Rightarrow> (64 word \<Rightarrow> 64 word) \<Rightarrow> FlValue \<Rightarrow> FlValue" where
  "json_image to_double reread (FL_INT i) = json_number to_double i"
| "json_image to_double reread (FL_FLOAT d) = FL_FLOAT (reread d)"
| "json_image to_double reread (FL_UINT8_LIST xs) = FL_LIST (map (\<lambda>x. FL_INT (ucast x)) xs)"
| "json_image to_double reread (FL_INT32_LIST xs) = FL_LIST (map (\<lambda>x. FL_INT (scast x)) xs)"
| "json_image to_double reread (FL_INT64_LIST xs) = FL_LIST (map (json_number to_double) xs)"
| "json_image to_double reread (FL_FLOAT_LIST xs) = FL_LIST (map (\<lambda>d. FL_FLOAT (reread d)) xs)"
| "json_image to_double reread (FL_LIST vs) = FL_LIST (map (json_image to_double reread) vs)"
| "json_image to_double reread (FL_MAP m) = FL_MAP (map (\<lambda>e. (fst e, json_image to_double reread (snd e))) m)"
| "json_image to_double reread v = v"

text \<open>The events that the parser of rapidjson reports for what the writer was called with.\<close>

fun reader_event :: "(64 word \<Rightarrow> 64 word) \<Rightarrow> json_event \<Rightarrow> json_event" where
  "reader_event reread (JInt i) = (if 0 \<le> sint i then JUint i else JInt i)"
| "reader_event reread (JInt64 i) =
     (if 0 \<le> sint i then (if sint i < 2 ^ 32 then JUint (ucast i) else JUint64 i)
      else if - (2 ^ 31) \<le> sint i then JInt (ucast i) else JInt64 i)"
| "reader_event reread (JDouble d) = JDouble (reread d)"
| "reader_event reread e = e"

fun json_events :: "FlValue \<Rightarrow> json_event list" where
  "json_events FL_NULL = [JNull]"
| "json_events (FL_BOOL b) = [JBool b]"
| "json_events (FL_INT i) = [JInt64 i]"
| "json_events (FL_FLOAT d) = [JDouble d]"
| "json_events (FL_STRING s) = [JString s]"
| "json_events (FL_UINT8_LIST xs) = json_array (map (JInt \<circ> ucast) xs)"
| "json_events (FL_INT32_LIST xs) = json_array (map JInt xs)"
| "json_events (FL_INT64_LIST xs) = json_array (map JInt64 xs)"
| "json_events (FL_FLOAT_LIST xs) = json_array (map JDouble xs)"
| "json_events (FL_LIST vs) = json_array (concat (map json_events vs))"
| "json_events (FL_MAP m) =
     JStartObject # concat (map (\<lambda>e. JKey (the (fl_value_get_string (Some (fst e)))) # json_events (snd e)) m) @ [JEndObject]"
| "json_events _ = []"

lemma foldR_appends:
  "(\<And>x out. x \<in> set xs \<Longrightarrow> f x out = Inr (out @ g x)) \<Longrightarrow> foldR f xs out = Inr (out @ concat (map g xs))"
  by (induction xs arbitrary: out) auto

lemma json_text_keyE:
  assumes "json_text_key k" obtains s where "k = FL_STRING s" "0 \<notin> set s"
  using assms by (cases k) (auto simp: json_text_key_def)

lemma json_write_events: "json_ok v \<Longrightarrow> json_write_value v out = Inr (out @ json_events v)"
proof (induction v arbitrary: out rule: json_ok.induct)
  case (2 vs)
  then have "foldR json_write_value vs (out @ [JStartArray]) = Inr ((out @ [JStartArray]) @ concat (map json_events vs))"
    by (intro foldR_appends) (auto simp: list_all_iff)
  then show ?case by (simp add: json_write_value.simps json_array_def)
next
  case (3 m)
  have "foldR (\<lambda>kv writer. case fl_value_get_string (Some (fst kv)) of
        None \<Rightarrow> Inl (JSON_MESSAGE_CODEC_ERROR INVALID_OBJECT_KEY_TYPE)
      | Some txt \<Rightarrow> json_write_value (snd kv) (writer @ [JKey (c_string txt)])) m (out @ [JStartObject]) =
      Inr ((out @ [JStartObject]) @
        concat (map (\<lambda>e. JKey (the (fl_value_get_string (Some (fst e)))) # json_events (snd e)) m))"
  proof (rule foldR_appends)
    fix e out assume e: "e \<in> set m"
    with 3 have "json_text_key (fst e)" by (auto simp: list_all_iff)
    then obtain s where "fst e = FL_STRING s" "0 \<notin> set s" by (rule json_text_keyE)
    with 3 e show "(case fl_value_get_string (Some (fst e)) of
          None \<Rightarrow> Inl (JSON_MESSAGE_CODEC_ERROR INVALID_OBJECT_KEY_TYPE)
        | Some txt \<Rightarrow> json_write_value (snd e) (out @ [JKey (c_string txt)])) =
        Inr (out @ JKey (the (fl_value_get_string (Some (fst e)))) # json_events (snd e))"
      by (simp add: list_all_iff fl_value_get_string_def c_string_id)
  qed
  then show ?case by (simp add: json_write_value.simps)
qed (simp_all add: json_write_value.simps c_string_id)

section \<open>The values of the store\<close>

inductive holds :: "json_object list \<Rightarrow> nat \<Rightarrow> FlValue \<Rightarrow> bool" for H where
  leaf: "a < length H \<Longrightarrow> H ! a = Leaf v \<Longrightarrow> holds H a v"
| list: "a < length H \<Longrightarrow> H ! a = List_object xs \<Longrightarrow> list_all2 (holds H) xs vs \<Longrightarrow> \<forall>x \<in> set xs. a < x \<Longrightarrow>
    holds H a (FL_LIST vs)"
| map: "a < length H \<Longrightarrow> H ! a = Map_object m \<Longrightarrow> map fst m = map fst fs \<Longrightarrow>
    list_all2 (holds H) (map snd m) (map snd fs) \<Longrightarrow> \<forall>x \<in> snd ` set m. a < x \<Longrightarrow> holds H a (FL_MAP fs)"

lemma object_value_holds: "holds H a v \<Longrightarrow> length H \<le> a + n \<Longrightarrow> object_value n H a = v"
proof (induction arbitrary: n rule: holds.induct)
  case (leaf a v)
  then show ?case by (cases n) auto
next
  case (list a xs vs)
  then obtain n' where n: "n = Suc n'" by (cases n) auto
  have "object_value n' H (xs ! i) = vs ! i" if "i < length xs" for i
  proof -
    have "a < xs ! i" using list.hyps(3) that by simp
    with list.IH list.prems n that show ?thesis by (auto simp: list_all2_conv_all_nth)
  qed
  then have "map (object_value n' H) xs = vs"
    using list_all2_lengthD [OF list.IH] by (intro nth_equalityI) auto
  with list n show ?case by simp
next
  case (map a m fs)
  then obtain n' where n: "n = Suc n'" by (cases n) auto
  have "map (\<lambda>e. (fst e, object_value n' H (snd e))) m = fs"
  proof (rule nth_equalityI)
    show len: "length (map (\<lambda>e. (fst e, object_value n' H (snd e))) m) = length fs"
      using list_all2_lengthD [OF map.IH] by simp
    fix i assume "i < length (map (\<lambda>e. (fst e, object_value n' H (snd e))) m)"
    then have i: "i < length m" "i < length fs" using len by auto
    have "a < snd (m ! i)" using map.hyps(4) i by simp
    then have "length H \<le> snd (m ! i) + n'" using map.prems n by simp
    then have "object_value n' H (snd (m ! i)) = snd (fs ! i)"
      using map.IH i by (auto simp: list_all2_conv_all_nth)
    moreover have "fst (m ! i) = fst (fs ! i)" using arg_cong [OF map.hyps(3), of "\<lambda>l. l ! i"] i by simp
    ultimately show "map (\<lambda>e. (fst e, object_value n' H (snd e))) m ! i = fs ! i" using i by (simp add: prod_eq_iff)
  qed
  with map n show ?case by simp
qed

lemma holds_frame:
  assumes "holds H a v" and "\<And>b. a \<le> b \<Longrightarrow> b < length H \<Longrightarrow> b < length H' \<and> H' ! b = H ! b"
  shows "holds H' a v"
  using assms
proof (induction rule: holds.induct)
  case (leaf a v)
  then show ?case by (intro holds.leaf) auto
next
  case (list a xs vs)
  have "holds H' (xs ! i) (vs ! i)" if "i < length xs" for i
  proof -
    have "a < xs ! i" using list.hyps(3) that by simp
    with list.IH list.prems that show ?thesis by (auto simp: list_all2_conv_all_nth)
  qed
  with list.IH have "list_all2 (holds H') xs vs" by (auto simp: list_all2_conv_all_nth)
  with list show ?case by (intro holds.list [of a H' xs]) auto
next
  case (map a m fs)
  have "holds H' (map snd m ! i) (map snd fs ! i)" if "i < length m" for i
  proof -
    have "a < map snd m ! i" using map.hyps(4) that by simp
    with map.IH map.prems that show ?thesis by (auto simp: list_all2_conv_all_nth)
  qed
  with map.IH have "list_all2 (holds H') (map snd m) (map snd fs)" by (auto simp: list_all2_conv_all_nth)
  with map show ?case by (intro holds.map [of a H' m]) auto
qed

section \<open>What events build\<close>

text \<open>
  Where the next value goes: onto the empty stack, or into the container on top of it. \<open>placed\<close> is the
  store with the new address in its parent.
\<close>

fun attach :: "FlValue option \<Rightarrow> nat \<Rightarrow> json_object \<Rightarrow> json_object" where
  "attach k a (List_object xs) = List_object (xs @ [a])"
| "attach k a (Map_object m) = Map_object (set_entry k a m)"
| "attach k a (Leaf v) = Leaf v"

definition placed :: "json_object list \<Rightarrow> nat list \<Rightarrow> FlValue option \<Rightarrow> json_object list" where
  "placed H st k = (case st of [] \<Rightarrow> H | p # _ \<Rightarrow> H[p := attach k (length H) (H ! p)])"

definition stacked :: "nat list \<Rightarrow> nat \<Rightarrow> nat list" where
  "stacked st a = (if st = [] then [a] else st)"

definition accepts :: "json_object list \<Rightarrow> nat list \<Rightarrow> FlValue option \<Rightarrow> bool" where
  "accepts H st k =
     (case st of
        [] \<Rightarrow> k = None
      | p # _ \<Rightarrow> p < length H \<and> (case H ! p of Leaf _ \<Rightarrow> False | List_object _ \<Rightarrow> k = None | Map_object _ \<Rightarrow> True))"

definition builds :: "(64 word \<Rightarrow> 64 word) \<Rightarrow> json_event list \<Rightarrow> FlValue \<Rightarrow> bool" where
  "builds to_double evs v \<longleftrightarrow>
     (\<forall>H st k. accepts H st k \<longrightarrow>
        (\<exists>N. foldR (handler_event to_double) evs \<lparr>objects = H, stack = st, key = k\<rparr> =
             Inr \<lparr>objects = placed H st k @ N, stack = stacked st (length H), key = None\<rparr> \<and>
           holds (placed H st k @ N) (length H) v))"

lemma length_placed [simp]: "length (placed H st k) = length H"
  by (simp add: placed_def split: list.split)

lemma handler_add_placed:
  assumes "accepts H st k"
  shows "handler_add v \<lparr>objects = H, stack = st, key = k\<rparr> =
    Inr \<lparr>objects = placed H st k @ [object_of v],
      stack = (if is_container (object_of v) then [length H] else []) @ stacked st (length H), key = None\<rparr>"
  using assms
  by (cases st; cases "H ! hd st")
    (auto simp: handler_add_def Let_def accepts_def placed_def stacked_def handler_push_def nth_append list_update_append)

lemma builds_leaf:
  assumes "\<And>s. handler_event to_double e s = handler_add v s" "object_of v = Leaf v"
  shows "builds to_double [e] v"
  using assms by (auto simp: builds_def handler_add_placed is_container_def nth_append intro!: exI [of _ "[Leaf v]"] holds.leaf)

text \<open>The items of a list are added to the list object under the top of the stack.\<close>

lemma builds_items:
  assumes "list_all2 (builds to_double) evss vs" and "a = length B"
    and "list_all2 (holds (B @ List_object xs # M)) xs us" and "\<forall>x \<in> set xs. a < x"
  shows "\<exists>ys M'. foldR (handler_event to_double) (concat evss) \<lparr>objects = B @ List_object xs # M, stack = a # st, key = None\<rparr> =
      Inr \<lparr>objects = B @ List_object ys # M', stack = a # st, key = None\<rparr> \<and>
    list_all2 (holds (B @ List_object ys # M')) ys (us @ vs) \<and> (\<forall>x \<in> set ys. a < x)"
  using assms
proof (induction evss vs arbitrary: xs M us rule: list_all2_induct)
  case Nil
  then show ?case by (intro exI [of _ xs] exI [of _ M]) simp
next
  case (Cons evs evss v vs)
  let ?H = "B @ List_object xs # M"
  let ?xs = "xs @ [length ?H]"
  have acc: "accepts ?H (a # st) None" using Cons.prems(1) by (simp add: accepts_def nth_append)
  have pl: "placed ?H (a # st) None = B @ List_object ?xs # M"
    using Cons.prems(1) by (simp add: placed_def nth_append list_update_append)
  obtain N where N: "foldR (handler_event to_double) evs \<lparr>objects = ?H, stack = a # st, key = None\<rparr> =
      Inr \<lparr>objects = B @ List_object ?xs # M @ N, stack = a # st, key = None\<rparr>"
    "holds (B @ List_object ?xs # M @ N) (length ?H) v"
  proof -
    from Cons.hyps(1) acc obtain N where "foldR (handler_event to_double) evs \<lparr>objects = ?H, stack = a # st, key = None\<rparr> =
        Inr \<lparr>objects = placed ?H (a # st) None @ N, stack = stacked (a # st) (length ?H), key = None\<rparr>"
      "holds (placed ?H (a # st) None @ N) (length ?H) v" unfolding builds_def by blast
    then show thesis unfolding pl using that by (simp add: stacked_def)
  qed
  have old: "holds (B @ List_object ?xs # M @ N) x u" if "holds ?H x u" "a < x" for x u
    using that Cons.prems(1)
    by (elim holds_frame) (auto simp: nth_append nth_Cons split: nat.split)
  have "list_all2 (holds (B @ List_object ?xs # M @ N)) xs us"
    using Cons.prems(2,3) old by (auto simp: list_all2_conv_all_nth)
  then have all: "list_all2 (holds (B @ List_object ?xs # M @ N)) ?xs (us @ [v])"
    using N(2) by (auto intro: list_all2_appendI)
  have "\<forall>x \<in> set ?xs. a < x" using Cons.prems(1,3) by auto
  from Cons.IH [OF Cons.prems(1) all this] N(1) show ?case by (auto simp: foldR_append)
qed

lemma builds_list:
  assumes "list_all2 (builds to_double) evss vs"
  shows "builds to_double (json_array (concat evss)) (FL_LIST vs)"
  unfolding builds_def
proof (intro allI impI)
  fix H st k assume acc: "accepts H st k"
  let ?P = "placed H st k" let ?st = "stacked st (length H)"
  have 1: "handler_event to_double JStartArray \<lparr>objects = H, stack = st, key = k\<rparr> =
      Inr \<lparr>objects = ?P @ [List_object []], stack = length H # ?st, key = None\<rparr>"
    using handler_add_placed [OF acc, of fl_value_new_list] by (simp add: fl_value_new_list_def is_container_def)
  obtain ys M' where 2: "foldR (handler_event to_double) (concat evss)
        \<lparr>objects = ?P @ [List_object []], stack = length H # ?st, key = None\<rparr> =
      Inr \<lparr>objects = ?P @ List_object ys # M', stack = length H # ?st, key = None\<rparr>"
    "list_all2 (holds (?P @ List_object ys # M')) ys vs" "\<forall>x \<in> set ys. length H < x"
    using builds_items [OF assms, of "length H" ?P "[]" "[]" "[]" ?st] by auto
  have "holds (?P @ List_object ys # M') (length H) (FL_LIST vs)"
    using 2(2,3) by (intro holds.list [of _ _ ys]) (simp_all add: nth_append)
  then show "\<exists>N. foldR (handler_event to_double) (json_array (concat evss)) \<lparr>objects = H, stack = st, key = k\<rparr> =
        Inr \<lparr>objects = ?P @ N, stack = ?st, key = None\<rparr> \<and> holds (?P @ N) (length H) (FL_LIST vs)"
    using 1 2(1) by (intro exI [of _ "List_object ys # M'"]) (simp add: json_array_def foldR_append handler_pop_def)
qed

text \<open>The same for the entries of a map, each behind its key.\<close>

lemma value_equal_strings: "value_equal (FL_STRING s) (FL_STRING t) = (s = t)"
  by (simp add: value_equal.simps)

lemma entry_index_absent: "(\<forall>e \<in> set m. \<not> value_equal (fst e) k) \<Longrightarrow> entry_index m k = None"
  by (induction m) auto

lemma set_entry_absent: "(\<forall>e \<in> set m. \<not> value_equal (fst e) k) \<Longrightarrow> set_entry (Some k) a m = m @ [(k, a)]"
  by (simp add: set_entry_def entry_index_absent)

definition entry_events :: "byte list \<times> json_event list \<Rightarrow> json_event list" where
  "entry_events ke = JKey (fst ke) # snd ke"

lemma builds_entries:
  assumes "list_all2 (\<lambda>ke f. fst f = FL_STRING (fst ke) \<and> 0 \<notin> set (fst ke) \<and> builds to_double (snd ke) (snd f)) kes fs"
    and "a = length B" and "list_all2 (holds (B @ Map_object m # M)) (map snd m) (map snd gs)" and "map fst m = map fst gs"
    and "\<forall>x \<in> snd ` set m. a < x" and "\<forall>g \<in> set gs. \<exists>s. fst g = FL_STRING s" and "distinct (map fst (gs @ fs))"
  shows "\<exists>m' M'. foldR (handler_event to_double) (concat (map entry_events kes))
        \<lparr>objects = B @ Map_object m # M, stack = a # st, key = None\<rparr> =
      Inr \<lparr>objects = B @ Map_object m' # M', stack = a # st, key = None\<rparr> \<and>
    list_all2 (holds (B @ Map_object m' # M')) (map snd m') (map snd (gs @ fs)) \<and> map fst m' = map fst (gs @ fs) \<and>
    (\<forall>x \<in> snd ` set m'. a < x)"
  using assms
proof (induction kes fs arbitrary: m M gs rule: list_all2_induct)
  case Nil
  then show ?case by (intro exI [of _ m] exI [of _ M]) simp
next
  case (Cons ke kes f fs)
  let ?H = "B @ Map_object m # M"
  let ?k = "FL_STRING (fst ke)"
  let ?m = "m @ [(?k, length ?H)]"
  have f: "fst f = ?k" "0 \<notin> set (fst ke)" "builds to_double (snd ke) (snd f)" using Cons.hyps(1) by auto
  have key: "handler_event to_double (JKey (fst ke)) \<lparr>objects = ?H, stack = a # st, key = None\<rparr> =
      Inr \<lparr>objects = ?H, stack = a # st, key = Some ?k\<rparr>"
    using f(2) by (simp add: fl_value_new_string_sized_def c_string_id)
  have "\<forall>e \<in> set m. \<not> value_equal (fst e) ?k"
  proof
    fix e assume "e \<in> set m"
    then have "fst e \<in> fst ` set gs" using Cons.prems(3) by (metis image_eqI list.set_map)
    then obtain g where g: "g \<in> set gs" "fst e = fst g" by auto
    moreover have "fst g \<noteq> ?k" using Cons.prems(6) f(1) g(1) by (auto simp: image_iff)
    moreover obtain s where "fst g = FL_STRING s" using Cons.prems(5) g(1) by auto
    ultimately show "\<not> value_equal (fst e) ?k" by (simp add: value_equal_strings)
  qed
  then have pl: "placed ?H (a # st) (Some ?k) = B @ Map_object ?m # M"
    using Cons.prems(1) by (simp add: placed_def nth_append list_update_append set_entry_absent)
  have acc: "accepts ?H (a # st) (Some ?k)" using Cons.prems(1) by (simp add: accepts_def nth_append)
  obtain N where N: "foldR (handler_event to_double) (snd ke) \<lparr>objects = ?H, stack = a # st, key = Some ?k\<rparr> =
      Inr \<lparr>objects = B @ Map_object ?m # M @ N, stack = a # st, key = None\<rparr>"
    "holds (B @ Map_object ?m # M @ N) (length ?H) (snd f)"
  proof -
    from f(3) acc obtain N where "foldR (handler_event to_double) (snd ke) \<lparr>objects = ?H, stack = a # st, key = Some ?k\<rparr> =
        Inr \<lparr>objects = placed ?H (a # st) (Some ?k) @ N, stack = stacked (a # st) (length ?H), key = None\<rparr>"
      "holds (placed ?H (a # st) (Some ?k) @ N) (length ?H) (snd f)" unfolding builds_def by blast
    then show thesis unfolding pl using that by (simp add: stacked_def)
  qed
  have old: "holds (B @ Map_object ?m # M @ N) x u" if "holds ?H x u" "a < x" for x u
    using that Cons.prems(1)
    by (elim holds_frame) (auto simp: nth_append nth_Cons split: nat.split)
  have "list_all2 (holds (B @ Map_object ?m # M @ N)) (map snd m) (map snd gs)"
    using Cons.prems(2,4) old by (auto simp: list_all2_conv_all_nth)
  then have all: "list_all2 (holds (B @ Map_object ?m # M @ N)) (map snd ?m) (map snd (gs @ [f]))"
    using N(2) by (auto intro!: list_all2_appendI)
  have k: "map fst ?m = map fst (gs @ [f])" using Cons.prems(3) f(1) by simp
  have b: "\<forall>x \<in> snd ` set ?m. a < x" using Cons.prems(1,4) by auto
  have s: "\<forall>g \<in> set (gs @ [f]). \<exists>s. fst g = FL_STRING s" using Cons.prems(5) f(1) by auto
  have d: "distinct (map fst ((gs @ [f]) @ fs))" using Cons.prems(6) by simp
  from Cons.IH [OF Cons.prems(1) all k b s d] N(1) key show ?case
    by (auto simp: foldR_append entry_events_def)
qed

lemma builds_map:
  assumes "list_all2 (\<lambda>ke f. fst f = FL_STRING (fst ke) \<and> 0 \<notin> set (fst ke) \<and> builds to_double (snd ke) (snd f)) kes fs"
    and "distinct (map fst fs)"
  shows "builds to_double (JStartObject # concat (map entry_events kes) @ [JEndObject]) (FL_MAP fs)"
  unfolding builds_def
proof (intro allI impI)
  fix H st k assume acc: "accepts H st k"
  let ?P = "placed H st k" let ?st = "stacked st (length H)"
  have 1: "handler_event to_double JStartObject \<lparr>objects = H, stack = st, key = k\<rparr> =
      Inr \<lparr>objects = ?P @ [Map_object []], stack = length H # ?st, key = None\<rparr>"
    using handler_add_placed [OF acc, of fl_value_new_map] by (simp add: fl_value_new_map_def is_container_def)
  obtain m M' where 2: "foldR (handler_event to_double) (concat (map entry_events kes))
        \<lparr>objects = ?P @ [Map_object []], stack = length H # ?st, key = None\<rparr> =
      Inr \<lparr>objects = ?P @ Map_object m # M', stack = length H # ?st, key = None\<rparr>"
    "list_all2 (holds (?P @ Map_object m # M')) (map snd m) (map snd fs)" "map fst m = map fst fs"
    "\<forall>x \<in> snd ` set m. length H < x"
    using builds_entries [OF assms(1), of "length H" ?P "[]" "[]" "[]" ?st] assms(2) by auto
  have "holds (?P @ Map_object m # M') (length H) (FL_MAP fs)"
    using 2(2-4) by (intro holds.map [of _ _ m]) (simp_all add: nth_append)
  then show "\<exists>N. foldR (handler_event to_double) (JStartObject # concat (map entry_events kes) @ [JEndObject])
          \<lparr>objects = H, stack = st, key = k\<rparr> =
        Inr \<lparr>objects = ?P @ N, stack = ?st, key = None\<rparr> \<and> holds (?P @ N) (length H) (FL_MAP fs)"
    using 1 2(1) by (intro exI [of _ "Map_object m # M'"]) (simp add: foldR_append handler_pop_def)
qed

section \<open>Every value is read back\<close>

text \<open>Whole numbers in the ranges that the parser tells apart.\<close>

lemma uint_of_nonnegative:
  fixes i :: "'a :: len word" assumes "0 \<le> sint i" shows "uint i = sint i"
proof -
  have "sint i < 2 ^ LENGTH('a)"
    using sint_lt [of i] by (smt (verit) diff_le_self power_increasing_iff)
  with assms have "take_bit LENGTH('a) (sint i) = sint i" by (simp add: take_bit_int_eq_self)
  moreover have "uint i = take_bit LENGTH('a) (sint i)"
    using unsigned_of_int [of "sint i", where ?'a = int and ?'b = 'a] by simp
  ultimately show ?thesis by simp
qed

lemma zero_extend_truncate:
  fixes i :: "64 word" assumes "uint i < 2 ^ 32" shows "ucast (ucast i :: 32 word) = i"
  using assms by (intro word_uint_eqI) (simp add: unsigned_ucast_eq unsigned_take_bit_eq take_bit_int_eq_self)

lemma zero_extend_nonnegative:
  fixes i :: "32 word" assumes "0 \<le> sint i" shows "(ucast i :: 64 word) = scast i"
  using uint_of_nonnegative [OF assms] by (metis scast_eq ucast_eq)

lemma builds_int_value:
  assumes "\<And>s. handler_event to_double e s = handler_add (FL_INT i) s"
  shows "builds to_double [e] (FL_INT i)"
  using assms by (rule builds_leaf) simp

lemma builds_number: "builds to_double [reader_event reread (JInt64 i)] (json_number to_double i)"
proof (cases "0 \<le> sint i")
  case True
  then have u: "uint i = sint i" by (rule uint_of_nonnegative)
  show ?thesis
  proof (cases "sint i < 2 ^ 32")
    case small: True
    then have "ucast (ucast i :: 32 word) = i" using u by (intro zero_extend_truncate) simp
    then show ?thesis using True small by (auto simp: json_number_def fl_value_new_int_def intro!: builds_int_value)
  next
    case False
    then show ?thesis using True
      by (auto simp: json_number_def fl_value_new_int_def fl_value_new_float_def intro!: builds_leaf)
  qed
next
  case False
  then have "sint i < 2 ^ 32" by simp
  moreover have "scast (ucast i :: 32 word) = i" if "- (2 ^ 31) \<le> sint i"
    using that False by (intro sign_extend_truncate) simp_all
  ultimately show ?thesis using False
    by (auto simp: json_number_def fl_value_new_int_def intro!: builds_int_value)
qed

lemma builds_int: "builds to_double [reader_event reread (JInt i)] (FL_INT (scast i))"
  by (auto simp: fl_value_new_int_def zero_extend_nonnegative intro!: builds_int_value)

lemma builds_double: "builds to_double [reader_event reread (JDouble d)] (FL_FLOAT (reread d))"
  by (rule builds_leaf) (simp_all add: fl_value_new_float_def)

lemma builds_array:
  assumes "\<And>x. builds to_double [reader_event reread (f x)] (g x)"
  shows "builds to_double (map (reader_event reread) (json_array (map f xs))) (FL_LIST (map g xs))"
proof -
  have "list_all2 (builds to_double) (map (\<lambda>x. [reader_event reread (f x)]) xs) (map g xs)"
    using assms by (simp add: list_all2_conv_all_nth)
  from builds_list [OF this] show ?thesis by (simp add: json_array_def comp_def concat_map_singleton)
qed

lemma sint_ucast_byte: "(scast (ucast (x :: 8 word) :: 32 word) :: 64 word) = ucast x"
proof -
  have "0 \<le> uint x" by simp
  then have b: "- (2 ^ 31) \<le> uint x" by (rule order.trans [rotated]) simp
  have c: "uint x < 2 ^ 31" using unsigned_less [of x, where ?'a = int] by simp
  have "uint (ucast x :: 32 word) = uint x" using c by (simp add: unsigned_ucast_eq take_bit_int_eq_self)
  then have "sint (ucast x :: 32 word) = signed_take_bit 31 (uint x)" by (simp add: sint_uint)
  also have "\<dots> = uint x" using b c by (intro signed_take_bit_int_eq_self)
  finally have "(scast (ucast x :: 32 word) :: 64 word) = word_of_int (uint x)" by (simp only: scast_eq)
  then show ?thesis by (simp only: ucast_eq [of x, symmetric])
qed

lemma builds_value:
  "json_ok v \<Longrightarrow> builds to_double (map (reader_event reread) (json_events v)) (json_image to_double reread v)"
proof (induction v rule: json_ok.induct)
  case (1 s)
  then show ?case by (auto intro!: builds_leaf simp: fl_value_new_string_sized_def c_string_id)
next
  case (2 vs)
  then have "list_all2 (builds to_double) (map (\<lambda>v. map (reader_event reread) (json_events v)) vs)
      (map (json_image to_double reread) vs)"
    by (auto simp: list_all2_conv_all_nth list_all_length)
  from builds_list [OF this] show ?case by (simp add: json_array_def map_concat comp_def)
next
  case (3 m)
  define kes where "kes = map (\<lambda>e. (the (fl_value_get_string (Some (fst e))), map (reader_event reread) (json_events (snd e)))) m"
  have "list_all2 (\<lambda>ke f. fst f = FL_STRING (fst ke) \<and> 0 \<notin> set (fst ke) \<and> builds to_double (snd ke) (snd f)) kes
      (map (\<lambda>e. (fst e, json_image to_double reread (snd e))) m)"
  proof -
    have "fst e = FL_STRING (the (fl_value_get_string (Some (fst e)))) \<and> 0 \<notin> set (the (fl_value_get_string (Some (fst e)))) \<and>
        builds to_double (map (reader_event reread) (json_events (snd e))) (json_image to_double reread (snd e))"
      if "e \<in> set m" for e
    proof -
      from 3 that have "json_text_key (fst e)" "json_ok (snd e)" by (auto simp: list_all_iff)
      with 3 that show ?thesis by (auto elim!: json_text_keyE simp: fl_value_get_string_def)
    qed
    then show ?thesis by (simp add: kes_def list_all2_conv_all_nth)
  qed
  moreover have "distinct (map fst (map (\<lambda>e. (fst e, json_image to_double reread (snd e))) m))"
    using 3(2) by (simp add: comp_def)
  ultimately have "builds to_double (JStartObject # concat (map entry_events kes) @ [JEndObject])
      (FL_MAP (map (\<lambda>e. (fst e, json_image to_double reread (snd e))) m))" by (rule builds_map)
  then show ?case by (simp add: kes_def entry_events_def comp_def map_concat)
qed (use builds_number [of to_double reread] builds_double [of to_double reread]
    builds_array [OF builds_int] builds_array [OF builds_number] builds_array [OF builds_double]
    builds_array [of to_double reread "JInt \<circ> ucast" "\<lambda>x :: 8 word. FL_INT (ucast x)"] builds_int
  in \<open>auto simp: sint_ucast_byte [symmetric] comp_def fl_value_new_null_def fl_value_new_bool_def intro!: builds_leaf\<close>)

text \<open>
  What the codec relies on for the calls \<open>evs\<close> of a writer: their text is valid, has no NUL, and the
  parser finds the events of \<open>reader_event\<close> in it and accepts it.
\<close>

definition reads_back_text ::
  "(json_event list \<Rightarrow> byte list) \<Rightarrow> (byte list \<Rightarrow> bool) \<Rightarrow> (byte list \<Rightarrow> json_event list \<times> bool) \<Rightarrow>
   (64 word \<Rightarrow> 64 word) \<Rightarrow> json_event list \<Rightarrow> bool" where
  "reads_back_text json_text utf8_valid json_parse reread evs \<longleftrightarrow>
     0 \<notin> set (json_text evs) \<and> utf8_valid (json_text evs) \<and>
     json_parse (json_text evs) = (map (reader_event reread) evs, True)"

lemma json_encode_decode:
  assumes "json_ok v" and "reads_back_text json_text utf8_valid json_parse reread (json_events v)"
  shows "fl_json_message_codec_encode_message json_text v = Inr (json_text (json_events v))"
    and "fl_json_message_codec_decode_message utf8_valid json_parse to_double (json_text (json_events v)) =
      Inr (json_image to_double reread v)"
proof -
  show "fl_json_message_codec_encode_message json_text v = Inr (json_text (json_events v))"
    using assms by (simp add: fl_json_message_codec_encode_message_def json_write_events reads_back_text_def c_string_id)
  have "accepts [] [] None" by (simp add: accepts_def)
  with builds_value [OF assms(1), of to_double reread] obtain N
    where "foldR (handler_event to_double) (map (reader_event reread) (json_events v)) FlValueHandler_new =
        Inr \<lparr>objects = N, stack = [0], key = None\<rparr>" "holds N 0 (json_image to_double reread v)"
    unfolding builds_def FlValueHandler_new_def by (fastforce simp: placed_def stacked_def)
  with assms(2) show "fl_json_message_codec_decode_message utf8_valid json_parse to_double (json_text (json_events v)) =
      Inr (json_image to_double reread v)"
    by (simp add: fl_json_message_codec_decode_message_def reads_back_text_def object_value_holds)
qed

text \<open>
  C23: the JSON codec encodes every value without custom values, 32-bit float lists, keys that are not
  text and repeated keys, and decodes the text to the same value, given that the parser reports what the
  writer was called with: the handler builds nested lists and maps of any depth in place and ends with
  the whole value on its stack. Lists of numbers come back as lists, and a whole number from \<open>2^32\<close>
  to below the largest comes back as a floating-point number.
\<close>

theorem json_message_round_trip:
  assumes "json_ok v" and "reads_back_text json_text utf8_valid json_parse reread (json_events v)"
  shows "bindR (fl_json_message_codec_encode_message json_text v)
      (fl_json_message_codec_decode_message utf8_valid json_parse to_double) = Inr (json_image to_double reread v)"
  using json_encode_decode [OF assms] by simp

text \<open>A writer for one text, for the witness: \<open>{"a":[4294967296,{}],"b":[]}\<close>.\<close>

definition sample_value :: FlValue where
  "sample_value = FL_MAP [(FL_STRING [97], FL_LIST [FL_INT 4294967296, FL_MAP []]), (FL_STRING [98], FL_INT64_LIST [])]"

definition sample_text :: "byte list" where
  "sample_text = [123, 34, 97, 34, 58, 91, 52, 50, 57, 52, 57, 54, 55, 50, 57, 54, 44, 123, 125, 93, 44, 34, 98, 34, 58, 91, 93, 125]"

definition sample_parse :: "byte list \<Rightarrow> json_event list \<times> bool" where
  "sample_parse bytes =
     (if bytes = sample_text then
        ([JStartObject, JKey [97], JStartArray, JUint64 4294967296, JStartObject, JEndObject, JEndArray,
          JKey [98], JStartArray, JEndArray, JEndObject], True)
      else ([], False))"

theorem json_message_round_trip_witness:
  "bindR (fl_json_message_codec_encode_message (\<lambda>_. sample_text) sample_value)
      (fl_json_message_codec_decode_message (\<lambda>_. True) sample_parse (\<lambda>_. 0x41F0000000000000)) =
    Inr (FL_MAP [(FL_STRING [97], FL_LIST [FL_FLOAT 0x41F0000000000000, FL_MAP []]), (FL_STRING [98], FL_LIST [])])"
proof -
  have "json_ok sample_value" by (simp add: sample_value_def json_text_key_def)
  moreover have "reads_back_text (\<lambda>_. sample_text) (\<lambda>_. True) sample_parse id (json_events sample_value)"
    by (simp add: reads_back_text_def sample_parse_def sample_value_def json_array_def fl_value_get_string_def)
      (simp add: sample_text_def)
  ultimately have "bindR (fl_json_message_codec_encode_message (\<lambda>_. sample_text) sample_value)
      (fl_json_message_codec_decode_message (\<lambda>_. True) sample_parse (\<lambda>_. 0x41F0000000000000)) =
    Inr (json_image (\<lambda>_. 0x41F0000000000000) id sample_value)" by (rule json_message_round_trip)
  then show ?thesis by (simp add: sample_value_def json_number_def G_MAXINT64_def)
qed

text \<open>
  The reader calls \<open>Uint64\<close> for every whole number from \<open>2^32\<close> on, and the handler makes an integer only
  of the largest of them, so an integer in between changes its type on the way through the codec.
\<close>

theorem json_large_integer_becomes_float:
  assumes "2 ^ 32 \<le> sint i" "i \<noteq> G_MAXINT64"
  shows "json_ok (FL_INT i) \<and> value_type (json_image to_double reread (FL_INT i)) = TYPE_FLOAT"
  using assms by (simp add: json_number_def)

section \<open>The codec classes\<close>

text \<open>A basic message channel with a JSON codec carries what the text carries.\<close>

interpretation json_message: message_codec_laws "fl_json_message_codec json_text utf8_valid json_parse to_double"
    "\<lambda>v. json_ok v \<and> reads_back_text json_text utf8_valid json_parse reread (json_events v)"
    "json_image to_double reread"
  for json_text utf8_valid json_parse to_double reread
  by unfold_locales (use json_encode_decode in \<open>auto simp: fl_json_message_codec_def\<close>)

text \<open>Method calls and responses are maps and lists of values.\<close>

definition json_call :: "byte list \<Rightarrow> FlValue \<Rightarrow> FlValue" where
  "json_call name args = FL_MAP [(FL_STRING kMethodKey, FL_STRING name), (FL_STRING kArgsKey, args)]"

lemma json_keys: "kMethodKey \<noteq> kArgsKey" "0 \<notin> set kMethodKey" "0 \<notin> set kArgsKey"
  by (simp_all add: kMethodKey_def kArgsKey_def text_bytes_def)

lemma json_call_encoded:
  "0 \<notin> set name \<Longrightarrow> fl_json_method_codec_encode_method_call codec name args =
     fl_message_codec_encode_message codec (Some (json_call name (fl_or_null args)))"
  using json_keys
  by (cases args) (simp_all add: fl_json_method_codec_encode_method_call_def fl_value_new_map_def fl_value_set_take_def
      fl_value_lookup_index_def fl_value_new_string_def c_string_id fl_value_equal_def value_equal_strings
      json_call_def fl_or_null_def fl_value_new_null_def Let_def)

lemma json_call_decoded:
  assumes "fl_message_codec_decode_message codec message = Inr (json_call name v)" "0 \<notin> set name"
  shows "fl_json_method_codec_decode_method_call codec message = Inr (name, Some v)"
  using assms json_keys
  by (simp add: fl_json_method_codec_decode_method_call_def json_call_def fl_value_lookup_string_def
      fl_value_lookup_def fl_value_lookup_index_def fl_value_new_string_def c_string_id fl_value_equal_def
      value_equal_strings fl_value_get_map_value_def ptr_array_index_def fl_value_get_string_def Let_def)

definition json_error :: "byte list \<Rightarrow> byte list option \<Rightarrow> FlValue \<Rightarrow> FlValue" where
  "json_error code message details =
     FL_LIST [FL_STRING code, case message of None \<Rightarrow> FL_NULL | Some m \<Rightarrow> FL_STRING m, details]"

lemma json_success_encoded:
  "fl_json_method_codec_encode_success_envelope codec result =
     fl_message_codec_encode_message codec (Some (FL_LIST [fl_or_null result]))"
  by (cases result) (simp_all add: fl_json_method_codec_encode_success_envelope_def fl_value_append_take_def
      fl_value_new_list_def fl_or_null_def fl_value_new_null_def)

lemma json_error_encoded:
  assumes "0 \<notin> set code" "pred_option (\<lambda>m. 0 \<notin> set m) message"
  shows "fl_json_method_codec_encode_error_envelope codec code message details =
    fl_message_codec_encode_message codec (Some (json_error code message (fl_or_null details)))"
  using assms
  by (cases message; cases details) (simp_all add: fl_json_method_codec_encode_error_envelope_def
      fl_value_append_take_def fl_value_new_list_def fl_or_null_def fl_value_new_null_def fl_value_new_string_def
      c_string_id json_error_def)

lemma json_success_decoded:
  "fl_message_codec_decode_message codec bytes = Inr (FL_LIST [v]) \<Longrightarrow>
     fl_json_method_codec_decode_response codec bytes = Inr (SuccessResponse (Some v))"
  by (simp add: fl_json_method_codec_decode_response_def)

lemma json_error_decoded:
  assumes "fl_message_codec_decode_message codec bytes = Inr (json_error code message v)"
    "0 \<notin> set code" "pred_option (\<lambda>m. 0 \<notin> set m) message"
  shows "fl_json_method_codec_decode_response codec bytes =
    Inr (ErrorResponse code message (if v = FL_NULL then None else Some v))"
proof -
  have "value_type v = TYPE_NULL \<longleftrightarrow> v = FL_NULL" by (cases v) simp_all
  with assms show ?thesis
    by (cases message) (simp_all add: fl_json_method_codec_decode_response_def json_error_def
        fl_value_get_string_def c_string_id)
qed

lemmas json_envelopes = json_success_encoded json_error_encoded json_success_decoded json_error_decoded

text \<open>A call without the arguments field decodes, with null arguments.\<close>

lemma json_call_without_args:
  assumes "fl_message_codec_decode_message codec message = Inr (FL_MAP [(FL_STRING kMethodKey, FL_STRING name)])"
    "0 \<notin> set name"
  shows "fl_json_method_codec_decode_method_call codec message = Inr (name, None)"
  using assms json_keys
  by (simp add: fl_json_method_codec_decode_method_call_def fl_value_lookup_string_def
      fl_value_lookup_def fl_value_lookup_index_def fl_value_new_string_def c_string_id fl_value_equal_def
      value_equal_strings fl_value_get_map_value_def ptr_array_index_def fl_value_get_string_def Let_def)

text \<open>
  With the JSON method codec, a method call decodes to its name and arguments and a response to its
  result, or its code, message and details; the values come back as the message codec brings them back.
\<close>

theorem json_method_round_trip:
  assumes "codec = fl_json_method_codec (fl_json_message_codec json_text utf8_valid json_parse to_double)"
    and "\<forall>e \<in> {json_call name v, FL_LIST [v], json_error code message v}.
      reads_back_text json_text utf8_valid json_parse reread (json_events e)"
    and "json_ok v" "0 \<notin> set name" "0 \<notin> set code" "pred_option (\<lambda>m. 0 \<notin> set m) message"
  shows "bindR (encode_method_call codec name (Some v)) (decode_method_call codec) =
      Inr (name, Some (json_image to_double reread v)) \<and>
    bindR (encode_success_envelope codec (Some v)) (decode_response codec) =
      Inr (SuccessResponse (Some (json_image to_double reread v))) \<and>
    bindR (encode_error_envelope codec code message (Some v)) (decode_response codec) =
      Inr (ErrorResponse code message (received_details (json_image to_double reread) (Some v)))"
proof -
  let ?c = "fl_json_message_codec json_text utf8_valid json_parse to_double"
  let ?i = "json_image to_double reread"
  have carried: "\<exists>bytes. fl_message_codec_encode_message ?c (Some e) = Inr bytes \<and>
      fl_message_codec_decode_message ?c bytes = Inr (?i e)"
    if "e \<in> {json_call name v, FL_LIST [v], json_error code message v}" for e
  proof -
    have "json_ok e" using that assms(3-6) json_keys
      by (cases message) (auto simp: json_call_def json_error_def json_text_key_def)
    with that assms(2) show ?thesis using json_encode_decode [of e]
      by (auto simp: fl_message_codec_encode_message_def fl_message_codec_decode_message_def fl_json_message_codec_def)
  qed
  have i: "?i (json_call name v) = json_call name (?i v)" "?i (FL_LIST [v]) = FL_LIST [?i v]"
    "?i (json_error code message v) = json_error code message (?i v)"
    by (simp_all add: json_call_def json_error_def split: option.split)
  have n: "fl_or_null (Some v) = v" by (simp add: fl_or_null_def)
  show ?thesis
    using carried [of "json_call name v"] carried [of "FL_LIST [v]"] carried [of "json_error code message v"]
      assms(4-6) unfolding i assms(1)
    by (auto simp: fl_json_method_codec_def json_call_encoded json_call_decoded json_envelopes
        n received_details_def)
qed

text \<open>Three texts for the witness: \<open>{"method":"a","args":true}\<close>, \<open>[true]\<close> and \<open>["b",null,true]\<close>.\<close>

definition sample_messages :: "(json_event list \<times> byte list) list" where
  "sample_messages =
    [([JStartObject, JKey kMethodKey, JString [97], JKey kArgsKey, JBool True, JEndObject],
      [123, 34, 109, 101, 116, 104, 111, 100, 34, 58, 34, 97, 34, 44, 34, 97, 114, 103, 115, 34, 58, 116, 114, 117, 101, 125]),
     ([JStartArray, JBool True, JEndArray], [91, 116, 114, 117, 101, 93]),
     ([JStartArray, JString [98], JNull, JBool True, JEndArray], [91, 34, 98, 34, 44, 110, 117, 108, 108, 44, 116, 114, 117, 101, 93])]"

definition sample_writer :: "json_event list \<Rightarrow> byte list" where
  "sample_writer evs = (case map_of sample_messages evs of None \<Rightarrow> [] | Some t \<Rightarrow> t)"

definition sample_reader :: "byte list \<Rightarrow> json_event list \<times> bool" where
  "sample_reader t =
     (case map_of (map prod.swap sample_messages) t of None \<Rightarrow> ([], False) | Some evs \<Rightarrow> (evs, True))"

theorem json_method_round_trip_witness:
  "bindR (encode_error_envelope (fl_json_method_codec (fl_json_message_codec sample_writer (\<lambda>_. True) sample_reader id))
      [98] None (Some (FL_BOOL True)))
    (decode_response (fl_json_method_codec (fl_json_message_codec sample_writer (\<lambda>_. True) sample_reader id))) =
   Inr (ErrorResponse [98] None (Some (FL_BOOL True)))"
proof -
  have "\<forall>e \<in> {json_call [97] (FL_BOOL True), FL_LIST [FL_BOOL True], json_error [98] None (FL_BOOL True)}.
      reads_back_text sample_writer (\<lambda>_. True) sample_reader id (json_events e)"
    by (simp add: reads_back_text_def json_call_def json_error_def json_array_def fl_value_get_string_def
        sample_writer_def sample_reader_def sample_messages_def)
  from json_method_round_trip [OF refl this, of id] show ?thesis
    by (simp add: received_details_def fl_or_null_def)
qed

end
