(* ===== verification/Dart_Isolate.thy ===== *)
theory Dart_Isolate
  imports Task_Source
begin

text \<open>
  \<open>runtime/dart_isolate\<close>: the embedder's side of a Dart isolate, the phases it goes through and
  the calls it makes on the Dart VM. The VM is not part of the repository: its C API, and the
  library glue that only calls it, are a record of functions on the VM's own state, an argument of
  every operation below. A Dart handle is \<open>None\<close> when it is an error handle. The world of an
  operation is one isolate object, the data of its group, the VM, the manager of the platform
  isolates, the tasks posted and the closures called. An operation returns whether it succeeded,
  as the C++ one does, or aborts.
\<close>

section \<open>Data\<close>

datatype Phase =
  Unknown | Uninitialized | Initialized | LibrariesSetup | Ready | Running | Shutdown

type_synonym Dart_Isolate = nat
type_synonym Dart_Handle = "nat option"

record task_runner =
  runner_id :: nat
  runner_queue_valid :: bool

record TaskRunners =
  runners_label :: string
  runners_platform :: "task_runner option"
  runners_ui :: "task_runner option"

text \<open>The two lambdas that \<open>SetMessageHandlingTaskRunner\<close> may install.\<close>

datatype TaskDispatcher = Post_on task_runner | Register_on_queue_of task_runner

text \<open>The two lambdas that the \<open>PrepareForRunning\<close> operations store for child isolates.\<close>

datatype ChildIsolatePreparer = From_precompiled_code | From_kernel_buffers "fml_mapping list"

record DartIsolateGroupData =
  advisory_script_uri :: string
  advisory_script_entrypoint :: string
  child_isolate_preparer :: "ChildIsolatePreparer option"
  isolate_create_callback :: "closure option"
  isolate_shutdown_callback :: "closure option"
  kernel_buffers :: "fml_mapping list"

record DartIsolate =
  phase :: Phase
  isolate :: "Dart_Isolate option"
  is_root_isolate :: bool
  is_platform_isolate :: bool
  is_spawning_in_group :: bool
  task_runners :: TaskRunners
  message_handling_task_runner :: "task_runner option"
  task_dispatcher :: "TaskDispatcher option"
  has_ui_provider :: bool
  platform_configuration :: "nat option"
  shutdown_callbacks :: "closure list"
  is_shutting_down :: bool
  loading_unit_snapshots :: "(fml_mapping \<times> fml_mapping) list"

record PlatformIsolateManager =
  is_shutdown :: bool
  platform_isolates :: "Dart_Isolate list"

record Dart_IsolateFlags =
  null_safety :: bool
  snapshot_is_dontneed_safe :: bool
  load_vmservice_library :: bool

record 'v dart_api =
  api_IsPrecompiledRuntime :: bool
  api_ServiceIsolateName :: string
  api_CurrentIsolate :: "'v \<Rightarrow> Dart_Isolate option"
  api_EnterIsolate :: "Dart_Isolate \<Rightarrow> 'v \<Rightarrow> 'v"
  api_ExitIsolate :: "'v \<Rightarrow> 'v"
  api_CreateIsolateGroup ::
    "string \<Rightarrow> string \<Rightarrow> Dart_IsolateFlags \<Rightarrow> 'v \<Rightarrow> Dart_Isolate option \<times> 'v"
  api_CreateIsolateInGroup :: "Dart_Isolate \<Rightarrow> string \<Rightarrow> 'v \<Rightarrow> Dart_Isolate option \<times> 'v"
  api_IsolateMakeRunnable :: "Dart_Isolate \<Rightarrow> 'v \<Rightarrow> bool \<times> 'v"
  api_ShutdownIsolate :: "'v \<Rightarrow> 'v"
  api_ShutdownCallsBack :: "'v \<Rightarrow> bool"
  api_SetPrivateConstructorName :: "'v \<Rightarrow> 'v"
  api_SetCurrentUserTag :: "string \<Rightarrow> 'v \<Rightarrow> 'v"
  api_SetMessageNotifyCallback :: "'v \<Rightarrow> 'v"
  api_SetLibraryTagHandler :: "'v \<Rightarrow> Dart_Handle \<times> 'v"
  api_SetDeferredLoadHandler :: "'v \<Rightarrow> Dart_Handle \<times> 'v"
  api_ReportError :: "'v \<Rightarrow> 'v"
  api_InitNativeAssets :: "'v \<Rightarrow> 'v"
  api_InitDartIO :: "'v \<Rightarrow> 'v"
  api_InitDartUI :: "'v \<Rightarrow> 'v"
  api_InstallRuntimeHooks :: "bool \<Rightarrow> 'v \<Rightarrow> 'v"
  api_IsServiceIsolate :: "Dart_Isolate option \<Rightarrow> 'v \<Rightarrow> bool"
  api_SetCurrentThreadOwnsIsolate :: "'v \<Rightarrow> 'v"
  api_IsKernel :: "fml_mapping \<Rightarrow> bool"
  api_LoadLibraryFromKernel :: "fml_mapping \<Rightarrow> 'v \<Rightarrow> Dart_Handle \<times> 'v"
  api_FinalizeLoading :: "'v \<Rightarrow> Dart_Handle \<times> 'v"
  api_SetRootLibrary :: "Dart_Handle \<Rightarrow> 'v \<Rightarrow> 'v"
  api_RootLibrary :: "'v \<Rightarrow> Dart_Handle"
  api_Null :: Dart_Handle
  api_ToDart :: "string \<Rightarrow> 'v \<Rightarrow> Dart_Handle"
  api_ToDartList :: "string list \<Rightarrow> 'v \<Rightarrow> Dart_Handle"
  api_FromDart :: "Dart_Handle \<Rightarrow> 'v \<Rightarrow> string"
  api_LookupLibrary :: "Dart_Handle \<Rightarrow> 'v \<Rightarrow> Dart_Handle"
  api_GetClass :: "Dart_Handle \<Rightarrow> Dart_Handle \<Rightarrow> 'v \<Rightarrow> Dart_Handle"
  api_GetField :: "Dart_Handle \<Rightarrow> Dart_Handle \<Rightarrow> 'v \<Rightarrow> Dart_Handle \<times> 'v"
  api_InvokeField :: "Dart_Handle \<Rightarrow> string \<Rightarrow> Dart_Handle list \<Rightarrow> 'v \<Rightarrow> Dart_Handle \<times> 'v"
  api_DeferredLoadComplete :: "int \<Rightarrow> fml_mapping \<Rightarrow> fml_mapping \<Rightarrow> 'v \<Rightarrow> Dart_Handle \<times> 'v"
  api_DeferredLoadCompleteError :: "int \<Rightarrow> 'v \<Rightarrow> Dart_Handle \<times> 'v"

record 'v isolate_world =
  w_vm :: 'v
  w_isolate :: DartIsolate
  w_group :: DartIsolateGroupData
  w_platform_isolates :: PlatformIsolateManager
  w_posted :: "(task_runner \<times> string) list"
  w_called :: "closure list"

text \<open>An operation: it aborts, or returns its C++ result and the world it leaves.\<close>

type_synonym 'v operation = "'v isolate_world \<Rightarrow> (bool \<times> 'v isolate_world) res"

section \<open>Building blocks\<close>

text \<open>A sequence of steps of which each but the last is \<open>if (!step) return false;\<close>.\<close>

fun steps :: "'v operation list \<Rightarrow> 'v operation" where
  "steps [] w = Inr (True, w)"
| "steps (a # as) w = bindR (a w) (\<lambda>(ok, w). if ok then steps as w else Inr (False, w))"

definition require :: "('v isolate_world \<Rightarrow> bool) \<Rightarrow> 'v operation" where
  "require P w = Inr (P w, w)"

definition effect_vm :: "('v \<Rightarrow> 'v) \<Rightarrow> 'v operation" where
  "effect_vm f w = Inr (True, w\<lparr>w_vm := f (w_vm w)\<rparr>)"

definition effect_isolate :: "(DartIsolate \<Rightarrow> DartIsolate) \<Rightarrow> 'v operation" where
  "effect_isolate f w = Inr (True, w\<lparr>w_isolate := f (w_isolate w)\<rparr>)"

definition unless :: "bool \<Rightarrow> 'v operation \<Rightarrow> 'v operation" where
  "unless skip a w = (if skip then Inr (True, w) else a w)"

definition call_closure :: "closure option \<Rightarrow> 'v isolate_world \<Rightarrow> 'v isolate_world" where
  "call_closure c w = (case c of None \<Rightarrow> w | Some c \<Rightarrow> w\<lparr>w_called := w_called w @ [c]\<rparr>)"

definition in_phase :: "Phase \<Rightarrow> 'v operation" where
  "in_phase p = require (\<lambda>w. phase (w_isolate w) = p)"

definition enter_phase :: "Phase \<Rightarrow> 'v operation" where
  "enter_phase p = effect_isolate (\<lambda>i. i\<lparr>phase := p\<rparr>)"

text \<open>\<open>CheckAndHandleError\<close>: an error handle is reported; \<open>True\<close> when there was an error.\<close>

definition CheckAndHandleError :: "'v dart_api \<Rightarrow> Dart_Handle \<Rightarrow> 'v \<Rightarrow> bool \<times> 'v" where
  "CheckAndHandleError api h v = (if h = None then (True, api_ReportError api v) else (False, v))"

text \<open>\<open>if (CheckAndHandleError(call)) return false;\<close>\<close>

definition checked :: "'v dart_api \<Rightarrow> ('v \<Rightarrow> Dart_Handle \<times> 'v) \<Rightarrow> 'v operation" where
  "checked api call w =
     (let (h, v) = call (w_vm w); (err, v) = CheckAndHandleError api h v in
      Inr (\<not> err, w\<lparr>w_vm := v\<rparr>))"

text \<open>
  \<open>tonic::DartIsolateScope\<close>: the constructor enters the isolate, whatever isolate was current, and
  the destructor, which runs on every return, puts that one back.
\<close>

definition scope_enter :: "'v dart_api \<Rightarrow> Dart_Isolate option \<Rightarrow> 'v \<Rightarrow> 'v" where
  "scope_enter api target v =
     (let previous = api_CurrentIsolate api v in
      if previous = target then v
      else (let v = (if previous \<noteq> None then api_ExitIsolate api v else v) in
            case target of None \<Rightarrow> v | Some i \<Rightarrow> api_EnterIsolate api i v))"

definition scope_leave ::
  "'v dart_api \<Rightarrow> Dart_Isolate option \<Rightarrow> Dart_Isolate option \<Rightarrow> 'v \<Rightarrow> 'v" where
  "scope_leave api target previous v =
     (if previous = target then v
      else (let v = (if api_CurrentIsolate api v \<noteq> None then api_ExitIsolate api v else v) in
            case previous of None \<Rightarrow> v | Some p \<Rightarrow> api_EnterIsolate api p v))"

definition in_scope :: "'v dart_api \<Rightarrow> 'v operation \<Rightarrow> 'v operation" where
  "in_scope api body w =
     (let target = isolate (w_isolate w); previous = api_CurrentIsolate api (w_vm w) in
      bindR (body (w\<lparr>w_vm := scope_enter api target (w_vm w)\<rparr>)) (\<lambda>(ok, w).
        Inr (ok, w\<lparr>w_vm := scope_leave api target previous (w_vm w)\<rparr>)))"

section \<open>Operations\<close>

definition DartIsolate_new :: "bool \<Rightarrow> bool \<Rightarrow> bool \<Rightarrow> TaskRunners \<Rightarrow> DartIsolate" where
  "DartIsolate_new root platform spawning runners =
     \<lparr>phase = Uninitialized, isolate = None, is_root_isolate = root,
      is_platform_isolate = platform, is_spawning_in_group = spawning, task_runners = runners,
      message_handling_task_runner = None, task_dispatcher = None, has_ui_provider = False,
      platform_configuration = None, shutdown_callbacks = [], is_shutting_down = False,
      loading_unit_snapshots = []\<rparr>"

text \<open>\<open>DartMessageHandler::Initialize\<close> aborts when a dispatcher is installed already.\<close>

definition message_handler_Initialize :: "'v dart_api \<Rightarrow> TaskDispatcher \<Rightarrow> 'v operation" where
  "message_handler_Initialize api d w =
     bindR (check (task_dispatcher (w_isolate w) = None)) (\<lambda>_.
       steps [effect_isolate (\<lambda>i. i\<lparr>task_dispatcher := Some d\<rparr>),
              effect_vm (api_SetMessageNotifyCallback api)] w)"

definition SetMessageHandlingTaskRunner ::
  "'v dart_api \<Rightarrow> task_runner option \<Rightarrow> bool \<Rightarrow> 'v operation" where
  "SetMessageHandlingTaskRunner api runner post_directly_to_runner w =
     (case runner of
        None \<Rightarrow> Inr (True, w)
      | Some r \<Rightarrow> steps
          [effect_isolate (\<lambda>i. i\<lparr>message_handling_task_runner := Some r\<rparr>),
           message_handler_Initialize api
             (if post_directly_to_runner then Post_on r else Register_on_queue_of r)] w)"

definition post :: "task_runner option \<Rightarrow> string \<Rightarrow> 'v isolate_world \<Rightarrow> 'v isolate_world" where
  "post runner label w =
     (case runner of None \<Rightarrow> w | Some r \<Rightarrow> w\<lparr>w_posted := w_posted w @ [(r, label)]\<rparr>)"

definition UpdateThreadPoolNames :: "'v operation" where
  "UpdateThreadPoolNames w =
     (let rs = task_runners (w_isolate w);
          w = post (runners_ui rs) (runners_label rs @ ''.ui'') w;
          merged = (runners_platform rs = runners_ui rs);
          w = post (runners_platform rs)
                (runners_label rs @ (if merged then ''.ui'' else ''.platform'')) w in
      Inr (True, w))"

definition SetIsolate :: "'v dart_api \<Rightarrow> Dart_Isolate \<Rightarrow> 'v operation" where
  "SetIsolate api i = steps
     [effect_isolate (\<lambda>d. d\<lparr>isolate := Some i\<rparr>),
      effect_vm (api_SetPrivateConstructorName api)]"

text \<open>
  Messages of a platform isolate are posted directly; those of other isolates go to the UI
  runner, directly when it has no task queue of its own.
\<close>

definition set_message_runner :: "'v dart_api \<Rightarrow> 'v operation" where
  "set_message_runner api w =
     (let rs = task_runners (w_isolate w) in
      if is_platform_isolate (w_isolate w)
      then SetMessageHandlingTaskRunner api (runners_platform rs) True w
      else SetMessageHandlingTaskRunner api (runners_ui rs)
             (case runners_ui rs of None \<Rightarrow> False | Some r \<Rightarrow> \<not> runner_queue_valid r) w)"

definition Initialize :: "'v dart_api \<Rightarrow> Dart_Isolate \<Rightarrow> 'v operation" where
  "Initialize api dart_isolate = steps
     [in_phase Uninitialized,
      SetIsolate api dart_isolate,
      (\<lambda>w. unless (\<not> is_root_isolate (w_isolate w))
             (effect_vm (api_SetCurrentUserTag api ''AppStartUp'')) w),
      set_message_runner api,
      checked api (api_SetLibraryTagHandler api),
      checked api (api_SetDeferredLoadHandler api),
      UpdateThreadPoolNames,
      enter_phase Initialized]"

definition is_service :: "'v dart_api \<Rightarrow> 'v isolate_world \<Rightarrow> bool" where
  "is_service api w = api_IsServiceIsolate api (isolate (w_isolate w)) (w_vm w)"

definition LoadLibraries :: "'v dart_api \<Rightarrow> 'v operation" where
  "LoadLibraries api = steps
     [in_phase Initialized,
      in_scope api (steps
        [effect_vm (api_InitDartIO api),
         effect_vm (api_InitDartUI api),
         (\<lambda>w. let service = is_service api w in steps
            [effect_vm (api_InstallRuntimeHooks api (is_root_isolate (w_isolate w) \<and> \<not> service)),
             unless service (effect_isolate (\<lambda>i. i\<lparr>has_ui_provider := True\<rparr>))] w),
         enter_phase LibrariesSetup])]"

text \<open>
  The VM refuses to make an isolate runnable while one is current, so it is left for the call
  and entered again whatever the answer.
\<close>

definition MarkIsolateRunnable :: "'v dart_api \<Rightarrow> 'v operation" where
  "MarkIsolateRunnable api = steps
     [in_phase LibrariesSetup,
      require (\<lambda>w. api_CurrentIsolate api (w_vm w) = isolate (w_isolate w)),
      (\<lambda>w. case isolate (w_isolate w) of
             None \<Rightarrow> Inl Undefined
           | Some i \<Rightarrow>
               (let (err, v) = api_IsolateMakeRunnable api i (api_ExitIsolate api (w_vm w)) in
                Inr (\<not> err, w\<lparr>w_vm := api_EnterIsolate api i v\<rparr>)))]"

definition SetChildIsolatePreparer ::
  "ChildIsolatePreparer \<Rightarrow> DartIsolateGroupData \<Rightarrow> DartIsolateGroupData" where
  "SetChildIsolatePreparer p g = g\<lparr>child_isolate_preparer := Some p\<rparr>"

definition set_preparer_once :: "(DartIsolateGroupData \<Rightarrow> ChildIsolatePreparer) \<Rightarrow> 'v operation" where
  "set_preparer_once p w =
     Inr (True, if child_isolate_preparer (w_group w) = None
                then w\<lparr>w_group := SetChildIsolatePreparer (p (w_group w)) (w_group w)\<rparr> else w)"

definition call_create_callback :: "'v operation" where
  "call_create_callback w = Inr (True, call_closure (isolate_create_callback (w_group w)) w)"

definition PrepareForRunningFromPrecompiledCode :: "'v dart_api \<Rightarrow> 'v operation" where
  "PrepareForRunningFromPrecompiledCode api = steps
     [in_phase LibrariesSetup,
      in_scope api (steps
        [require (\<lambda>w. api_RootLibrary api (w_vm w) \<noteq> api_Null api),
         MarkIsolateRunnable api,
         set_preparer_once (\<lambda>_. From_precompiled_code),
         call_create_callback,
         enter_phase Ready])]"

definition AddKernelBuffer :: "fml_mapping \<Rightarrow> DartIsolateGroupData \<Rightarrow> DartIsolateGroupData" where
  "AddKernelBuffer m g = g\<lparr>kernel_buffers := kernel_buffers g @ [m]\<rparr>"

definition LoadKernel :: "'v dart_api \<Rightarrow> fml_mapping \<Rightarrow> bool \<Rightarrow> 'v operation" where
  "LoadKernel api m last_piece = steps
     [require (\<lambda>_. api_IsKernel api m),
      (\<lambda>w. Inr (True, w\<lparr>w_group := AddKernelBuffer m (w_group w)\<rparr>)),
      (\<lambda>w. let (library, v) = api_LoadLibraryFromKernel api m (w_vm w);
                (err, v) = CheckAndHandleError api library v;
                w = w\<lparr>w_vm := v\<rparr> in
            if err then Inr (False, w)
            else if \<not> last_piece then Inr (True, w)
            else steps [effect_vm (api_SetRootLibrary api library),
                        checked api (api_FinalizeLoading api)] w)]"

definition PrepareForRunningFromKernel ::
  "'v dart_api \<Rightarrow> fml_mapping option \<Rightarrow> bool \<Rightarrow> bool \<Rightarrow> 'v operation" where
  "PrepareForRunningFromKernel api mapping child_isolate last_piece = steps
     [in_phase LibrariesSetup,
      require (\<lambda>_. \<not> api_IsPrecompiledRuntime api),
      in_scope api (steps
        [(\<lambda>w. unless (child_isolate \<or> is_spawning_in_group (w_isolate w))
               (case mapping of
                  None \<Rightarrow> require (\<lambda>_. False)
                | Some m \<Rightarrow> steps
                    [require (\<lambda>_. length m \<noteq> 0),
                     effect_vm (api_SetRootLibrary api (api_Null api)),
                     LoadKernel api m last_piece]) w),
         unless (\<not> last_piece) (steps
           [require (\<lambda>w. api_RootLibrary api (w_vm w) \<noteq> api_Null api),
            MarkIsolateRunnable api,
            set_preparer_once (\<lambda>g. From_kernel_buffers (kernel_buffers g)),
            call_create_callback,
            enter_phase Ready])])]"

text \<open>The loop over kernel pieces: \<open>last_piece\<close> holds for the last one only.\<close>

fun prepare_pieces ::
  "'v dart_api \<Rightarrow> bool \<Rightarrow> fml_mapping option list \<Rightarrow> 'v operation" where
  "prepare_pieces api child [] w = Inr (True, w)"
| "prepare_pieces api child (m # ms) w =
     bindR (PrepareForRunningFromKernel api m child (ms = []) w) (\<lambda>(ok, w).
       if ok then prepare_pieces api child ms w else Inr (False, w))"

definition PrepareForRunningFromKernels ::
  "'v dart_api \<Rightarrow> fml_mapping option list \<Rightarrow> 'v operation" where
  "PrepareForRunningFromKernels api kernels w =
     (if kernels = [] then Inr (False, w) else prepare_pieces api False kernels w)"

text \<open>Calling the stored preparer on a child isolate.\<close>

definition run_preparer :: "'v dart_api \<Rightarrow> ChildIsolatePreparer \<Rightarrow> 'v operation" where
  "run_preparer api p =
     (case p of
        From_precompiled_code \<Rightarrow> PrepareForRunningFromPrecompiledCode api
      | From_kernel_buffers buffers \<Rightarrow> prepare_pieces api True (map Some buffers))"

subsection \<open>Running the entrypoint\<close>

definition InvokeDartPluginRegistrantIfAvailable ::
  "'v dart_api \<Rightarrow> Dart_Handle \<Rightarrow> 'v \<Rightarrow> bool \<times> 'v" where
  "InvokeDartPluginRegistrantIfAvailable api library v =
     (let registrant = api_GetClass api library (api_ToDart api ''_PluginRegistrant'' v) v in
      if registrant = None then (False, v)
      else (let (h, v) = api_InvokeField api registrant ''register'' [] v in
            (True, snd (CheckAndHandleError api h v))))"

definition FindAndInvokeDartPluginRegistrant ::
  "'v dart_api \<Rightarrow> string option \<Rightarrow> 'v \<Rightarrow> bool \<times> 'v" where
  "FindAndInvokeDartPluginRegistrant api library_override v =
     (let name = (case library_override of
                    None \<Rightarrow> ''package:flutter/src/dart_plugin_registrant.dart'' | Some n \<Rightarrow> n);
          library = api_LookupLibrary api (api_ToDart api name v) v in
      if library = None then (False, v)
      else (let (uri, v) =
                  api_GetField api library (api_ToDart api ''dartPluginRegistrantLibrary'' v) v in
            if uri = None then InvokeDartPluginRegistrantIfAvailable api library v
            else if api_FromDart api uri v = [] then (False, v)
            else InvokeDartPluginRegistrantIfAvailable api (api_LookupLibrary api uri v) v))"

definition InvokeMainEntrypoint ::
  "'v dart_api \<Rightarrow> Dart_Handle \<Rightarrow> Dart_Handle \<Rightarrow> 'v operation" where
  "InvokeMainEntrypoint api user_entrypoint args = steps
     [checked api (\<lambda>v. (user_entrypoint, v)),
      (\<lambda>w. let (start, v) = api_InvokeField api
                (api_LookupLibrary api (api_ToDart api ''dart:isolate'' (w_vm w)) (w_vm w))
                ''_getStartMainIsolateFunction'' [] (w_vm w) in
            steps
              [checked api (\<lambda>v. (start, v)),
               checked api (\<lambda>v. api_InvokeField api
                 (api_LookupLibrary api (api_ToDart api ''dart:ui'' v) v)
                 ''_runMain'' [start, user_entrypoint, args] v)] (w\<lparr>w_vm := v\<rparr>))]"

definition given :: "string option \<Rightarrow> bool" where
  "given s = (s \<noteq> None \<and> s \<noteq> Some [])"

text \<open>\<open>registrant\<close> is the process-wide \<open>dart_plugin_registrant_library_override\<close>.\<close>

definition RunFromLibrary ::
  "'v dart_api \<Rightarrow> string option \<Rightarrow> string option \<Rightarrow> string option \<Rightarrow> string list \<Rightarrow> 'v operation" where
  "RunFromLibrary api registrant library_name entrypoint args = steps
     [in_phase Ready,
      in_scope api (steps
        [(\<lambda>w. let v = w_vm w;
                   library = (if given library_name
                              then api_LookupLibrary api (api_ToDart api (the library_name) v) v
                              else api_RootLibrary api v);
                   entry = api_ToDart api (if given entrypoint then the entrypoint else ''main'') v;
                   (found, v) = FindAndInvokeDartPluginRegistrant api registrant v;
                   v = (if found then v
                        else snd (InvokeDartPluginRegistrantIfAvailable api library v));
                   (user_entrypoint, v) = api_GetField api library entry v in
               InvokeMainEntrypoint api user_entrypoint (api_ToDartList api args v) (w\<lparr>w_vm := v\<rparr>)),
         enter_phase Running])]"

subsection \<open>Shutting down\<close>

definition AddIsolateShutdownCallback :: "closure \<Rightarrow> 'v operation" where
  "AddIsolateShutdownCallback c =
     effect_isolate (\<lambda>i. i\<lparr>shutdown_callbacks := shutdown_callbacks i @ [c]\<rparr>)"

text \<open>
  \<open>PlatformIsolateManager\<close>: once it has shut its isolates down it takes no more, and a removal
  is ignored. The unordered set is kept as a list, in its iteration order.
\<close>

definition RegisterPlatformIsolate ::
  "Dart_Isolate \<Rightarrow> PlatformIsolateManager \<Rightarrow> bool \<times> PlatformIsolateManager" where
  "RegisterPlatformIsolate i m =
     (if is_shutdown m then (False, m)
      else (True, m\<lparr>platform_isolates := List.insert i (platform_isolates m)\<rparr>))"

definition RemovePlatformIsolate ::
  "Dart_Isolate \<Rightarrow> PlatformIsolateManager \<Rightarrow> PlatformIsolateManager" where
  "RemovePlatformIsolate i m =
     (if is_shutdown m then m
      else m\<lparr>platform_isolates := removeAll i (platform_isolates m)\<rparr>)"

definition IsRegisteredForTestingOnly :: "Dart_Isolate \<Rightarrow> PlatformIsolateManager \<Rightarrow> bool" where
  "IsRegisteredForTestingOnly i m = (i \<in> set (platform_isolates m))"

text \<open>
  The set is swapped out before the loop: the shutdown callbacks of the isolates, which remove
  them from the manager, must not change what is iterated over.
\<close>

definition ShutdownPlatformIsolates ::
  "'v dart_api \<Rightarrow> PlatformIsolateManager \<Rightarrow> 'v \<Rightarrow> PlatformIsolateManager \<times> 'v" where
  "ShutdownPlatformIsolates api m v =
     fold (\<lambda>i (m, v).
         let v = api_EnterIsolate api i v;
             m = (if api_ShutdownCallsBack api v then RemovePlatformIsolate i m else m) in
         (m, api_ShutdownIsolate api v))
       (platform_isolates m) (m\<lparr>is_shutdown := True, platform_isolates := []\<rparr>, v)"

text \<open>
  \<open>shutdown_callbacks_.clear()\<close> destroys its elements, which call their closures; libc++ destroys
  from the back.
\<close>

definition OnShutdownCallback :: "'v dart_api \<Rightarrow> 'v isolate_world \<Rightarrow> 'v isolate_world res" where
  "OnShutdownCallback api w =
     (case isolate (w_isolate w) of
        None \<Rightarrow> Inl Undefined
      | Some i \<Rightarrow>
          (let d = w_isolate w;
               d = (if api_CurrentIsolate api (w_vm w) \<noteq> None
                    then d\<lparr>is_shutting_down := True\<rparr> else d);
               m = (if is_platform_isolate d then RemovePlatformIsolate i (w_platform_isolates w)
                    else w_platform_isolates w) in
           Inr (call_closure (isolate_shutdown_callback (w_group w))
                 (w\<lparr>w_isolate := d\<lparr>shutdown_callbacks := []\<rparr>, w_platform_isolates := m,
                    w_called := w_called w @ rev (shutdown_callbacks d)\<rparr>))))"

text \<open>
  \<open>Dart_ShutdownIsolate\<close> calls the shutdown callback of the isolate, still current, before it is
  gone; whether it does is the VM's answer.
\<close>

definition vm_ShutdownIsolate :: "'v dart_api \<Rightarrow> 'v isolate_world \<Rightarrow> 'v isolate_world res" where
  "vm_ShutdownIsolate api w =
     bindR (if api_ShutdownCallsBack api (w_vm w) then OnShutdownCallback api w else Inr w) (\<lambda>w.
       Inr (w\<lparr>w_vm := api_ShutdownIsolate api (w_vm w)\<rparr>))"

definition isolate_Shutdown :: "'v dart_api \<Rightarrow> 'v operation" where
  "isolate_Shutdown api w =
     (if phase (w_isolate w) = Shutdown then Inr (False, w)
      else (let w = w\<lparr>w_isolate := (w_isolate w)\<lparr>phase := Shutdown\<rparr>\<rparr> in
            case isolate (w_isolate w) of
              None \<Rightarrow> Inr (True, w)
            | Some i \<Rightarrow>
                bindR (vm_ShutdownIsolate api (w\<lparr>w_vm := api_EnterIsolate api i (w_vm w)\<rparr>))
                  (\<lambda>w. Inr (True, w))))"

subsection \<open>Deferred components\<close>

definition LoadLoadingUnitError :: "'v dart_api \<Rightarrow> int \<Rightarrow> 'v operation" where
  "LoadLoadingUnitError api loading_unit_id = in_scope api (\<lambda>w.
     bindR (checked api (api_DeferredLoadCompleteError api loading_unit_id) w) (\<lambda>(_, w).
       Inr (True, w)))"

definition LoadLoadingUnit ::
  "'v dart_api \<Rightarrow> int \<Rightarrow> fml_mapping \<Rightarrow> fml_mapping \<Rightarrow> 'v operation" where
  "LoadLoadingUnit api loading_unit_id data instructions = in_scope api (\<lambda>w.
     bindR (checked api (api_DeferredLoadComplete api loading_unit_id data instructions) w)
       (\<lambda>(ok, w).
         if ok then effect_isolate (\<lambda>i. i\<lparr>loading_unit_snapshots :=
                loading_unit_snapshots i @ [(data, instructions)]\<rparr>) w
         else bindR (LoadLoadingUnitError api loading_unit_id w) (\<lambda>(_, w). Inr (False, w))))"

section \<open>Phases\<close>

text \<open>The phases are ordered as the enumeration lists them.\<close>

fun phase_index :: "Phase \<Rightarrow> nat" where
  "phase_index Unknown = 0"
| "phase_index Uninitialized = 1"
| "phase_index Initialized = 2"
| "phase_index LibrariesSetup = 3"
| "phase_index Ready = 4"
| "phase_index Running = 5"
| "phase_index Shutdown = 6"

lemma phase_index_inject: "phase_index p = phase_index q \<longleftrightarrow> p = q"
  by (cases p; cases q) simp_all

instantiation Phase :: linorder
begin

definition less_eq_Phase :: "Phase \<Rightarrow> Phase \<Rightarrow> bool" where
  "less_eq_Phase p q = (phase_index p \<le> phase_index q)"

definition less_Phase :: "Phase \<Rightarrow> Phase \<Rightarrow> bool" where
  "less_Phase p q = (phase_index p < phase_index q)"

instance
  by standard (auto simp: less_eq_Phase_def less_Phase_def phase_index_inject)

end

named_theorems phase_intros \<open>which operations keep or change the phase of the isolate\<close>

text \<open>An operation that leaves the phase alone, whatever it returns.\<close>

definition keeps_phase :: "'v operation \<Rightarrow> bool" where
  "keeps_phase a =
     (\<forall>w ok w'. a w = Inr (ok, w') \<longrightarrow> phase (w_isolate w') = phase (w_isolate w))"

text \<open>An operation that succeeds in phase \<open>p\<close> only, and then goes to \<open>q\<close>.\<close>

definition moves_phase :: "Phase \<Rightarrow> Phase \<Rightarrow> 'v operation \<Rightarrow> bool" where
  "moves_phase p q a =
     (\<forall>w ok w'. a w = Inr (ok, w') \<longrightarrow>
        (if ok then phase (w_isolate w) = p \<and> phase (w_isolate w') = q
         else phase (w_isolate w') = phase (w_isolate w)))"

text \<open>The same for a body that runs when the phase has been tested.\<close>

definition ends_in_phase :: "Phase \<Rightarrow> 'v operation \<Rightarrow> bool" where
  "ends_in_phase q a =
     (\<forall>w ok w'. a w = Inr (ok, w') \<longrightarrow>
        phase (w_isolate w') = (if ok then q else phase (w_isolate w)))"

lemma keeps_phase_basic [phase_intros]:
  "keeps_phase (require P)"
  "keeps_phase (effect_vm f)"
  "keeps_phase (in_phase p)"
  "keeps_phase (checked api call)"
  "keeps_phase UpdateThreadPoolNames"
  "keeps_phase (set_preparer_once g)"
  "keeps_phase call_create_callback"
  by (auto simp: keeps_phase_def require_def effect_vm_def in_phase_def checked_def
      UpdateThreadPoolNames_def post_def set_preparer_once_def call_create_callback_def
      call_closure_def Let_def split: prod.splits option.splits)

lemma keeps_phase_isolate [phase_intros]:
  "(\<And>i. phase (f i) = phase i) \<Longrightarrow> keeps_phase (effect_isolate f)"
  by (auto simp: keeps_phase_def effect_isolate_def)

lemma keeps_phase_unless [phase_intros]: "keeps_phase a \<Longrightarrow> keeps_phase (unless b a)"
  by (simp add: keeps_phase_def unless_def)

lemma keeps_phase_unless_at [phase_intros]:
  "keeps_phase a \<Longrightarrow> keeps_phase (\<lambda>w. unless (b w) a w)"
  by (simp add: keeps_phase_def unless_def)

lemma steps_Cons_Inr:
  "steps (a # as) w = Inr (ok, w'') \<longleftrightarrow>
   (\<exists>w'. a w = Inr (True, w') \<and> steps as w' = Inr (ok, w'')) \<or> (a w = Inr (False, w'') \<and> \<not> ok)"
  by (auto simp: bindR_eq_Inr_iff split: prod.splits if_splits)

lemma keeps_phase_steps [phase_intros]:
  "keeps_phase (steps [])"
  "keeps_phase a \<Longrightarrow> keeps_phase (steps as) \<Longrightarrow> keeps_phase (steps (a # as))"
  unfolding keeps_phase_def steps_Cons_Inr by auto

lemma in_scope_Inr:
  "in_scope api body w = Inr (ok, w') \<Longrightarrow>
   \<exists>u v u'. body (w\<lparr>w_vm := u\<rparr>) = Inr (ok, v) \<and> w' = v\<lparr>w_vm := u'\<rparr>"
  by (auto simp: in_scope_def Let_def bindR_eq_Inr_iff)

lemma keeps_phase_in_scope [phase_intros]: "keeps_phase a \<Longrightarrow> keeps_phase (in_scope api a)"
  unfolding keeps_phase_def by (force dest!: in_scope_Inr)

lemma ends_in_phase_in_scope [phase_intros]: "ends_in_phase q a \<Longrightarrow> ends_in_phase q (in_scope api a)"
  unfolding ends_in_phase_def by (force dest!: in_scope_Inr)

lemma ends_in_phase_steps [phase_intros]:
  "ends_in_phase q (steps [enter_phase q])"
  "ends_in_phase q a \<Longrightarrow> ends_in_phase q (steps [a])"
  "keeps_phase a \<Longrightarrow> ends_in_phase q (steps (b # as)) \<Longrightarrow> ends_in_phase q (steps (a # b # as))"
proof -
  assume "keeps_phase a" "ends_in_phase q (steps (b # as))"
  then show "ends_in_phase q (steps (a # b # as))"
    unfolding keeps_phase_def ends_in_phase_def steps_Cons_Inr [of a] by (metis (full_types))
qed (auto simp: ends_in_phase_def enter_phase_def effect_isolate_def bindR_eq_Inr_iff split: if_splits)

lemma moves_phase_steps [phase_intros]:
  "ends_in_phase q (steps as) \<Longrightarrow> moves_phase p q (steps (in_phase p # as))"
  unfolding moves_phase_def ends_in_phase_def steps_Cons_Inr
  by (auto simp: in_phase_def require_def)

section \<open>A small VM\<close>

text \<open>
  A VM on which the operations can be run: isolates are numbered, one may be current, and every
  library and function that is asked for exists. The root library is set by the snapshot.
\<close>

record example_vm =
  vm_current :: "Dart_Isolate option"
  vm_next :: Dart_Isolate
  vm_dead :: "Dart_Isolate list"
  vm_root :: Dart_Handle

definition example_api :: "example_vm dart_api" where
  "example_api =
     \<lparr>api_IsPrecompiledRuntime = True, api_ServiceIsolateName = ''vm-service'',
      api_CurrentIsolate = vm_current,
      api_EnterIsolate = (\<lambda>i v. v\<lparr>vm_current := Some i\<rparr>),
      api_ExitIsolate = (\<lambda>v. v\<lparr>vm_current := None\<rparr>),
      api_CreateIsolateGroup = (\<lambda>_ _ _ v. (Some (vm_next v),
        v\<lparr>vm_current := Some (vm_next v), vm_next := vm_next v + 1,
          vm_dead := removeAll (vm_next v) (vm_dead v)\<rparr>)),
      api_CreateIsolateInGroup = (\<lambda>_ _ v. (None, v)),
      api_IsolateMakeRunnable = (\<lambda>_ v. (False, v)),
      api_ShutdownIsolate = (\<lambda>v. case vm_current v of
          None \<Rightarrow> v | Some i \<Rightarrow> v\<lparr>vm_current := None, vm_dead := i # vm_dead v\<rparr>),
      api_ShutdownCallsBack = (\<lambda>_. True),
      api_SetPrivateConstructorName = id, api_SetCurrentUserTag = (\<lambda>_. id),
      api_SetMessageNotifyCallback = id,
      api_SetLibraryTagHandler = (\<lambda>v. (Some 1, v)),
      api_SetDeferredLoadHandler = (\<lambda>v. (Some 1, v)),
      api_ReportError = id, api_InitNativeAssets = id, api_InitDartIO = id, api_InitDartUI = id,
      api_InstallRuntimeHooks = (\<lambda>_. id), api_IsServiceIsolate = (\<lambda>_ _. False),
      api_SetCurrentThreadOwnsIsolate = id, api_IsKernel = (\<lambda>m. m \<noteq> []),
      api_LoadLibraryFromKernel = (\<lambda>m v. (Some (length m), v)),
      api_FinalizeLoading = (\<lambda>v. (Some 1, v)),
      api_SetRootLibrary = (\<lambda>h v. v\<lparr>vm_root := h\<rparr>), api_RootLibrary = vm_root,
      api_Null = Some 0,
      api_ToDart = (\<lambda>s _. Some (length s)), api_ToDartList = (\<lambda>s _. Some (length s)),
      api_FromDart = (\<lambda>_ _. ''main.dart''), api_LookupLibrary = (\<lambda>h _. h),
      api_GetClass = (\<lambda>h _ _. h), api_GetField = (\<lambda>h _ v. (h, v)),
      api_InvokeField = (\<lambda>h _ _ v. (h, v)),
      api_DeferredLoadComplete = (\<lambda>_ _ _ v. (Some 1, v)),
      api_DeferredLoadCompleteError = (\<lambda>_ v. (Some 1, v))\<rparr>"

definition example_world :: "example_vm isolate_world" where
  "example_world =
     \<lparr>w_vm = \<lparr>vm_current = None, vm_next = 3, vm_dead = [2], vm_root = Some 9\<rparr>,
      w_isolate = DartIsolate_new True False False
        \<lparr>runners_label = ''app'', runners_platform = None, runners_ui = None\<rparr>,
      w_group = \<lparr>advisory_script_uri = ''main.dart'', advisory_script_entrypoint = ''main'',
        child_isolate_preparer = None, isolate_create_callback = None,
        isolate_shutdown_callback = None, kernel_buffers = []\<rparr>,
      w_platform_isolates = \<lparr>is_shutdown = False, platform_isolates = []\<rparr>,
      w_posted = [], w_called = []\<rparr>"

end
