(* ===== verification/Asset_Manager.thy ===== *)
theory Asset_Manager
  imports Prelude
begin

text \<open>
  \<open>assets/asset_manager\<close>: an ordered list of asset resolvers, asked in turn. What a resolver
  answers is its own affair (a directory, an archive of the platform), so a resolver is a record of
  its virtual functions.
\<close>

section \<open>Operations\<close>

datatype AssetResolverType =
  kAssetManager | kApkAssetProvider | kDirectoryAssetBundle

record AssetResolver =
  resolver_IsValid :: bool
  resolver_IsValidAfterAssetManagerChange :: bool
  resolver_GetType :: AssetResolverType
  resolver_GetAsMapping :: "string \<Rightarrow> fml_mapping option"
  resolver_GetAsMappings :: "string \<Rightarrow> string option \<Rightarrow> fml_mapping list"

type_synonym AssetManager = "AssetResolver list"

definition AssetManager_PushFront :: "AssetResolver option \<Rightarrow> AssetManager \<Rightarrow> bool \<times> AssetManager" where
  "AssetManager_PushFront resolver resolvers =
     (case resolver of
        None \<Rightarrow> (False, resolvers)
      | Some r \<Rightarrow> if resolver_IsValid r then (True, r # resolvers) else (False, resolvers))"

definition AssetManager_PushBack :: "AssetResolver option \<Rightarrow> AssetManager \<Rightarrow> bool \<times> AssetManager" where
  "AssetManager_PushBack resolver resolvers =
     (case resolver of
        None \<Rightarrow> (False, resolvers)
      | Some r \<Rightarrow> if resolver_IsValid r then (True, resolvers @ [r]) else (False, resolvers))"

text \<open>The loop: \<open>updated\<close> is whether the new resolver has been placed.\<close>

fun update_resolvers ::
  "AssetResolver \<Rightarrow> AssetResolverType \<Rightarrow> bool \<Rightarrow> AssetManager \<Rightarrow> AssetManager \<Rightarrow> bool \<times> AssetManager" where
  "update_resolvers new type updated new_resolvers [] = (updated, new_resolvers)"
| "update_resolvers new type updated new_resolvers (old # rest) =
     (if \<not> updated \<and> resolver_GetType old = type
      then update_resolvers new type True (new_resolvers @ [new]) rest
      else update_resolvers new type updated (new_resolvers @ [old]) rest)"

definition UpdateResolverByType ::
  "AssetResolver option \<Rightarrow> AssetResolverType \<Rightarrow> AssetManager \<Rightarrow> AssetManager" where
  "UpdateResolverByType resolver type resolvers =
     (case resolver of
        None \<Rightarrow> resolvers
      | Some new \<Rightarrow>
          (let (updated, new_resolvers) = update_resolvers new type False [] resolvers in
           if \<not> updated then new_resolvers @ [new] else new_resolvers))"

definition TakeResolvers :: "AssetManager \<Rightarrow> AssetResolver list \<times> AssetManager" where
  "TakeResolvers resolvers = (resolvers, [])"

fun first_mapping :: "string \<Rightarrow> AssetManager \<Rightarrow> fml_mapping option" where
  "first_mapping asset_name [] = None"
| "first_mapping asset_name (r # rs) =
     (case resolver_GetAsMapping r asset_name of
        Some m \<Rightarrow> Some m
      | None \<Rightarrow> first_mapping asset_name rs)"

definition AssetManager_GetAsMapping :: "string \<Rightarrow> AssetManager \<Rightarrow> fml_mapping option" where
  "AssetManager_GetAsMapping asset_name resolvers =
     (if asset_name = [] then None else first_mapping asset_name resolvers)"

definition AssetManager_GetAsMappings ::
  "string \<Rightarrow> string option \<Rightarrow> AssetManager \<Rightarrow> fml_mapping list" where
  "AssetManager_GetAsMappings asset_pattern subdir resolvers =
     (if asset_pattern = [] then []
      else fold (\<lambda>r mappings. mappings @ resolver_GetAsMappings r asset_pattern subdir) resolvers [])"

definition AssetManager_IsValid :: "AssetManager \<Rightarrow> bool" where
  "AssetManager_IsValid resolvers = (resolvers \<noteq> [])"

text \<open>\<open>operator==\<close>; \<open>eq\<close> is that of the resolvers and \<open>None\<close> a resolver that is no manager.\<close>

definition AssetManager_eq ::
  "(AssetResolver \<Rightarrow> AssetResolver \<Rightarrow> bool) \<Rightarrow> AssetManager \<Rightarrow> AssetManager option \<Rightarrow> bool" where
  "AssetManager_eq eq resolvers other =
     (case other of
        None \<Rightarrow> False
      | Some rs \<Rightarrow> length resolvers = length rs \<and> list_all2 eq resolvers rs)"

section \<open>Where an updated resolver ends up\<close>

lemma update_resolvers_done:
  "update_resolvers new type True acc rs = (True, acc @ rs)"
  by (induction rs arbitrary: acc) auto

lemma update_resolvers_first:
  "update_resolvers new type False acc rs =
   (if \<exists>r \<in> set rs. resolver_GetType r = type
    then (True, acc @ takeWhile (\<lambda>r. resolver_GetType r \<noteq> type) rs @
                new # tl (dropWhile (\<lambda>r. resolver_GetType r \<noteq> type) rs))
    else (False, acc @ rs))"
  by (induction rs arbitrary: acc) (auto simp: update_resolvers_done)

lemma UpdateResolverByType_takeWhile:
  "UpdateResolverByType (Some new) type rs =
   takeWhile (\<lambda>r. resolver_GetType r \<noteq> type) rs @
   new # tl (dropWhile (\<lambda>r. resolver_GetType r \<noteq> type) rs)"
proof (cases "\<exists>r \<in> set rs. resolver_GetType r = type")
  case True
  then show ?thesis by (auto simp: UpdateResolverByType_def update_resolvers_first)
next
  case False
  then have "takeWhile (\<lambda>r. resolver_GetType r \<noteq> type) rs = rs"
    "dropWhile (\<lambda>r. resolver_GetType r \<noteq> type) rs = []" by (auto simp: takeWhile_eq_all_conv)
  then show ?thesis using False
    by (simp only: UpdateResolverByType_def update_resolvers_first) simp
qed

lemma first_mapping_append:
  "first_mapping a (rs @ rs') =
   (case first_mapping a rs of Some m \<Rightarrow> Some m | None \<Rightarrow> first_mapping a rs')"
  by (induction rs) (auto split: option.splits)

text \<open>
  Updating the resolver of a type keeps the priorities of the others. An asset is looked up in
  the resolvers before the first one of that type, then in the new resolver, then in those behind
  the replaced one, which is asked no more; when no resolver has the type the new one is asked
  last. The empty name is never found.
\<close>

theorem update_keeps_priorities:
  "AssetManager_GetAsMapping asset (UpdateResolverByType (Some new) type resolvers) =
   (if asset = [] then None
    else case first_mapping asset (takeWhile (\<lambda>r. resolver_GetType r \<noteq> type) resolvers) of
        Some m \<Rightarrow> Some m
      | None \<Rightarrow> (case resolver_GetAsMapping new asset of
          Some m \<Rightarrow> Some m
        | None \<Rightarrow> first_mapping asset (tl (dropWhile (\<lambda>r. resolver_GetType r \<noteq> type) resolvers))))"
  by (simp add: AssetManager_GetAsMapping_def UpdateResolverByType_takeWhile first_mapping_append
      split: option.split)

end
