(* ===== verification/Isolate_Configuration.thy ===== *)
theory Isolate_Configuration
  imports Dart_Isolate Asset_Manager
begin

text \<open>
  \<open>runtime/isolate_configuration\<close>: where the code of an isolate comes from (an application
  snapshot, one kernel, a list of kernel pieces fetched by a worker), how it is chosen from the
  settings, and how it takes an isolate from the phase \<open>LibrariesSetup\<close> to \<open>Ready\<close>. A future is the value
  its promise is given, and \<open>None\<close> once that value was taken out: a second \<open>get\<close> throws.
\<close>

section \<open>Data and operations\<close>

type_synonym kernel_future = "fml_mapping option option"

datatype IsolateConfiguration =
    AppSnapshotIsolateConfiguration
  | KernelIsolateConfiguration "fml_mapping option"
  | KernelListIsolateConfiguration "kernel_future list" "fml_mapping option list"

fun take_futures :: "kernel_future list \<Rightarrow> fml_mapping option list res" where
  "take_futures [] = Inr []"
| "take_futures (piece # pieces) =
     (case piece of
        None \<Rightarrow> Inl Undefined
      | Some m \<Rightarrow> bindR (take_futures pieces) (\<lambda>ms. Inr (m # ms)))"

definition ResolveKernelPiecesIfNecessary ::
  "kernel_future list \<Rightarrow> fml_mapping option list
     \<Rightarrow> (kernel_future list \<times> fml_mapping option list) res" where
  "ResolveKernelPiecesIfNecessary futures resolved =
     (if length resolved = length futures then Inr (futures, resolved)
      else bindR (take_futures futures) (\<lambda>ms. Inr (map (\<lambda>_. None) futures, ms)))"

text \<open>Each piece is moved out of the configuration into the call, so it is gone whatever the result.\<close>

fun prepare_from_list ::
  "'v dart_api \<Rightarrow> fml_mapping option list \<Rightarrow> 'v isolate_world
     \<Rightarrow> (bool \<times> fml_mapping option list \<times> 'v isolate_world) res" where
  "prepare_from_list api [] w = Inr (True, [], w)"
| "prepare_from_list api (piece # pieces) w =
     (if piece = None then Inr (False, piece # pieces, w)
      else bindR (PrepareForRunningFromKernel api piece False (pieces = []) w) (\<lambda>(ok, w).
        if \<not> ok then Inr (False, None # pieces, w)
        else bindR (prepare_from_list api pieces w) (\<lambda>(ok, pieces, w).
          Inr (ok, None # pieces, w))))"

definition DoPrepareIsolate ::
  "'v dart_api \<Rightarrow> IsolateConfiguration \<Rightarrow> 'v isolate_world
     \<Rightarrow> (bool \<times> IsolateConfiguration \<times> 'v isolate_world) res" where
  "DoPrepareIsolate api config w =
     (case config of
        AppSnapshotIsolateConfiguration \<Rightarrow>
          bindR (PrepareForRunningFromPrecompiledCode api w) (\<lambda>(ok, w). Inr (ok, config, w))
      | KernelIsolateConfiguration blob \<Rightarrow>
          if api_IsPrecompiledRuntime api then Inr (False, config, w)
          else bindR (PrepareForRunningFromKernel api blob False True w) (\<lambda>(ok, w).
            Inr (ok, KernelIsolateConfiguration None, w))
      | KernelListIsolateConfiguration futures resolved \<Rightarrow>
          if api_IsPrecompiledRuntime api then Inr (False, config, w)
          else bindR (ResolveKernelPiecesIfNecessary futures resolved) (\<lambda>(futures, resolved).
            if resolved = []
            then Inr (False, KernelListIsolateConfiguration futures resolved, w)
            else bindR (prepare_from_list api resolved w) (\<lambda>(ok, resolved, w).
              Inr (ok, KernelListIsolateConfiguration futures resolved, w))))"

definition PrepareIsolate ::
  "'v dart_api \<Rightarrow> IsolateConfiguration \<Rightarrow> 'v isolate_world
     \<Rightarrow> (bool \<times> IsolateConfiguration \<times> 'v isolate_world) res" where
  "PrepareIsolate api config w =
     (if phase (w_isolate w) \<noteq> LibrariesSetup then Inr (False, config, w)
      else DoPrepareIsolate api config w)"

text \<open>A snapshot as far as it is asked here.\<close>

record DartSnapshot =
  snapshot_IsNullSafetyEnabled :: "fml_mapping option \<Rightarrow> bool"
  snapshot_IsDontNeedSafe :: bool

definition IsNullSafetyEnabled ::
  "DartSnapshot \<Rightarrow> IsolateConfiguration \<Rightarrow> (bool \<times> IsolateConfiguration) res" where
  "IsNullSafetyEnabled snapshot config =
     (case config of
        AppSnapshotIsolateConfiguration \<Rightarrow> Inr (snapshot_IsNullSafetyEnabled snapshot None, config)
      | KernelIsolateConfiguration blob \<Rightarrow> Inr (snapshot_IsNullSafetyEnabled snapshot blob, config)
      | KernelListIsolateConfiguration futures resolved \<Rightarrow>
          bindR (ResolveKernelPiecesIfNecessary futures resolved) (\<lambda>(futures, resolved).
            Inr (snapshot_IsNullSafetyEnabled snapshot (case resolved of [] \<Rightarrow> None | m # _ \<Rightarrow> m),
                 KernelListIsolateConfiguration futures resolved)))"

definition CreateForAppSnapshot :: IsolateConfiguration where
  "CreateForAppSnapshot = AppSnapshotIsolateConfiguration"

definition CreateForKernel :: "fml_mapping option \<Rightarrow> IsolateConfiguration" where
  "CreateForKernel blob = KernelIsolateConfiguration blob"

definition CreateForKernelFutures :: "kernel_future list \<Rightarrow> IsolateConfiguration" where
  "CreateForKernelFutures pieces = KernelListIsolateConfiguration pieces []"

fun fulfilled_pieces :: "fml_mapping option list \<Rightarrow> kernel_future list" where
  "fulfilled_pieces [] = []"
| "fulfilled_pieces (piece # pieces) =
     (if piece = None then fulfilled_pieces pieces else Some piece # fulfilled_pieces pieces)"

definition CreateForKernelList :: "fml_mapping option list \<Rightarrow> IsolateConfiguration" where
  "CreateForKernelList kernel_pieces = CreateForKernelFutures (fulfilled_pieces kernel_pieces)"

subsection \<open>The list of kernel pieces\<close>

text \<open>The inner loop: the index of the next line feed, or the size.\<close>

function piece_path_end :: "string \<Rightarrow> nat \<Rightarrow> nat" where
  "piece_path_end s i =
     (if i < length s \<and> s ! i \<noteq> CHR 0x0A then piece_path_end s (Suc i) else i)"
  by pat_completeness auto
termination
  by (relation "measure (\<lambda>(s, i). length s - i)") auto

declare piece_path_end.simps [simp del]

lemma piece_path_end_le: "i \<le> piece_path_end s i"
  by (induction s i rule: piece_path_end.induct) (subst piece_path_end.simps, force)

function piece_paths_from :: "string \<Rightarrow> nat \<Rightarrow> string list" where
  "piece_paths_from s start =
     (if start < length s
      then (let e = piece_path_end s start in
            take (e - start) (drop start s) # piece_paths_from s (e + 1))
      else [])"
  by pat_completeness auto
termination
  using piece_path_end_le
  by (relation "measure (\<lambda>(s, i). length s - i)") (auto simp: diff_less_mono2 less_Suc_eq_le)

declare piece_paths_from.simps [simp del]

definition ParseKernelListPaths :: "fml_mapping \<Rightarrow> string list" where
  "ParseKernelListPaths kernel_list = piece_paths_from (map (\<lambda>b. char_of (unat b)) kernel_list) 0"

text \<open>Every piece is fetched from the assets, on the worker when there is one.\<close>

definition PrepareKernelMappings :: "string list \<Rightarrow> AssetManager \<Rightarrow> kernel_future list" where
  "PrepareKernelMappings paths assets = map (\<lambda>p. Some (AssetManager_GetAsMapping p assets)) paths"

datatype IsolateLaunchType = kNewGroup | kExistingGroup

record kernel_settings =
  application_kernels :: "fml_mapping option list option"
  application_kernel_asset :: string
  application_kernel_list_asset :: string

definition InferFromSettings ::
  "'v dart_api \<Rightarrow> kernel_settings \<Rightarrow> AssetManager option \<Rightarrow> bool \<Rightarrow> IsolateLaunchType
     \<Rightarrow> IsolateConfiguration option" where
  "InferFromSettings api settings asset_manager io_worker launch_type =
     (if api_IsPrecompiledRuntime api then Some CreateForAppSnapshot
      else if launch_type = kExistingGroup then Some (CreateForKernel None)
      else case application_kernels settings of
        Some kernels \<Rightarrow> Some (CreateForKernelList kernels)
      | None \<Rightarrow>
          if application_kernel_asset settings = [] \<and> application_kernel_list_asset settings = []
          then None
          else case asset_manager of
            None \<Rightarrow> None
          | Some assets \<Rightarrow>
              (case AssetManager_GetAsMapping (application_kernel_asset settings) assets of
                 Some blob \<Rightarrow> Some (CreateForKernel (Some blob))
               | None \<Rightarrow>
                   if \<not> io_worker then None
                   else case AssetManager_GetAsMapping (application_kernel_list_asset settings) assets of
                     None \<Rightarrow> None
                   | Some kernel_list \<Rightarrow>
                       Some (CreateForKernelFutures
                         (PrepareKernelMappings (ParseKernelListPaths kernel_list) assets))))"

section \<open>Kernel lists\<close>

lemma piece_path_end_found:
  "CHR 0x0A \<notin> set p \<Longrightarrow> piece_path_end (pre @ p @ CHR 0x0A # rest) (length pre) = length pre + length p"
proof (induction p arbitrary: pre)
  case Nil
  then show ?case by (subst piece_path_end.simps) (simp add: nth_append)
next
  case (Cons c p)
  then show ?case
    using Cons.IH [of "pre @ [c]"] by (subst piece_path_end.simps) (auto simp: nth_append)
qed

lemma piece_paths_from_line:
  assumes "CHR 0x0A \<notin> set p"
  shows "piece_paths_from (pre @ p @ CHR 0x0A # rest) (length pre) =
         p # piece_paths_from (pre @ p @ CHR 0x0A # rest) (length (pre @ p @ [CHR 0x0A]))"
  using piece_path_end_found [OF assms, of pre rest]
  by (subst piece_paths_from.simps) (simp add: Let_def)

lemma piece_paths_from_lines:
  "\<forall>p \<in> set paths. CHR 0x0A \<notin> set p \<Longrightarrow>
   piece_paths_from (pre @ concat (map (\<lambda>p. p @ [CHR 0x0A]) paths)) (length pre) = paths"
proof (induction paths arbitrary: pre)
  case Nil
  then show ?case by (simp add: piece_paths_from.simps)
next
  case (Cons p paths)
  then show ?case
    using piece_paths_from_line [of p pre "concat (map (\<lambda>p. p @ [CHR 0x0A]) paths)"]
      Cons.IH [of "pre @ p @ [CHR 0x0A]"] by simp
qed

lemma text_bytes_chars: "map (\<lambda>b. char_of (unat b)) (text_bytes s) = s"
proof -
  have "unat (word_of_nat (of_char c) :: 8 word) = of_char c" for c :: char
    by (simp add: unat_of_nat take_bit_nat_eq_self)
  then show ?thesis by (simp add: text_bytes_def comp_def)
qed

text \<open>
  A kernel list file with one path per line is read back as exactly those paths, in order,
  empty lines included.
\<close>

theorem kernel_list_round_trip:
  "\<forall>p \<in> set paths. CHR 0x0A \<notin> set p \<Longrightarrow>
   ParseKernelListPaths (text_bytes (concat (map (\<lambda>p. p @ [CHR 0x0A]) paths))) = paths"
  using piece_paths_from_lines [of paths "[]"]
  by (simp add: ParseKernelListPaths_def text_bytes_chars)

theorem kernel_list_round_trip_witness:
  "ParseKernelListPaths (text_bytes (concat (map (\<lambda>p. p @ [CHR 0x0A]) [''a.dill'', [], ''b.dill'']))) =
   [''a.dill'', [], ''b.dill'']"
  by (rule kernel_list_round_trip) simp

section \<open>A configuration is used up by the isolate it prepares\<close>

lemma prepare_from_list_pieces:
  "prepare_from_list api pieces w = Inr (ok, pieces', w') \<Longrightarrow>
   length pieces' = length pieces \<and> (ok \<longrightarrow> set pieces' \<subseteq> {None})"
proof (induction pieces arbitrary: w ok pieces' w')
  case Nil
  then show ?case by simp
next
  case (Cons piece pieces)
  then show ?case by (fastforce simp: bindR_eq_Inr_iff split: if_splits)
qed

lemma take_futures_length: "take_futures fs = Inr ms \<Longrightarrow> length ms = length fs"
  by (induction fs arbitrary: ms) (auto simp: bindR_eq_Inr_iff split: option.splits)

lemma resolve_length:
  "ResolveKernelPiecesIfNecessary fs rs = Inr (fs', rs') \<Longrightarrow> length rs' = length fs'"
  by (auto simp: ResolveKernelPiecesIfNecessary_def bindR_eq_Inr_iff take_futures_length
      split: if_splits)

text \<open>
  A list of kernel pieces prepares one isolate. Once it has, it refuses every other isolate,
  without waiting for its futures again (which would throw) and without touching that isolate.
\<close>

theorem kernel_list_prepares_once:
  assumes "PrepareIsolate api (KernelListIsolateConfiguration futures resolved) w = Inr (True, config, w')"
  shows "PrepareIsolate api config u = Inr (False, config, u)"
proof -
  from assms obtain fs rs rs' where
    r: "ResolveKernelPiecesIfNecessary futures resolved = Inr (fs, rs)" "rs \<noteq> []"
      "prepare_from_list api rs w = Inr (True, rs', w')"
    and c: "config = KernelListIsolateConfiguration fs rs'" "\<not> api_IsPrecompiledRuntime api"
    by (auto simp: PrepareIsolate_def DoPrepareIsolate_def bindR_eq_Inr_iff split: if_splits)
  from r prepare_from_list_pieces [OF r(3)] resolve_length [OF r(1)]
  have l: "length rs' = length fs" "rs' \<noteq> []" "set rs' \<subseteq> {None}" by auto
  then obtain more where "rs' = None # more" by (cases rs') auto
  with l c show ?thesis
    by (simp add: PrepareIsolate_def DoPrepareIsolate_def ResolveKernelPiecesIfNecessary_def)
qed

definition kernel_world :: "example_vm isolate_world" where
  "kernel_world = example_world\<lparr>w_isolate := (w_isolate example_world)
     \<lparr>phase := LibrariesSetup, isolate := Some 1\<rparr>\<rparr>"

theorem kernel_list_prepares_once_witness:
  "PrepareIsolate (example_api\<lparr>api_IsPrecompiledRuntime := False\<rparr>)
     (KernelListIsolateConfiguration [None, None] [None, None]) kernel_world =
   Inr (False, KernelListIsolateConfiguration [None, None] [None, None], kernel_world)"
proof -
  have "\<exists>w'. PrepareIsolate (example_api\<lparr>api_IsPrecompiledRuntime := False\<rparr>)
      (KernelListIsolateConfiguration [Some (Some [1]), Some (Some [2])] []) kernel_world =
      Inr (True, KernelListIsolateConfiguration [None, None] [None, None], w')"
    by (simp add: PrepareIsolate_def DoPrepareIsolate_def ResolveKernelPiecesIfNecessary_def
        PrepareForRunningFromKernel_def LoadKernel_def MarkIsolateRunnable_def in_phase_def require_def
        in_scope_def scope_enter_def scope_leave_def unless_def effect_vm_def effect_isolate_def
        enter_phase_def checked_def CheckAndHandleError_def set_preparer_once_def call_create_callback_def
        call_closure_def kernel_world_def example_world_def example_api_def DartIsolate_new_def
        AddKernelBuffer_def SetChildIsolatePreparer_def Let_def)
  then show ?thesis using kernel_list_prepares_once by blast
qed

end
