(* ===== verification/Root_Isolate.thy ===== *)
theory Root_Isolate
  imports Isolate_Configuration
begin

text \<open>
  The creation of isolates in \<open>runtime/dart_isolate\<close>: the root isolate of an application, from the
  VM isolate to the running entrypoint, with the clean-up of every failure; the service isolate;
  the isolates that Dart code spawns.
\<close>

section \<open>Operations\<close>

definition InitializeIsolate :: "'v dart_api \<Rightarrow> Dart_Isolate \<Rightarrow> 'v operation" where
  "InitializeIsolate api vm_isolate = steps
     [Initialize api vm_isolate,
      LoadLibraries api,
      (\<lambda>w. unless (is_root_isolate (w_isolate w))
             (case child_isolate_preparer (w_group w) of
                None \<Rightarrow> (\<lambda>_. Inl Undefined)
              | Some p \<Rightarrow> run_preparer api p) w)]"

text \<open>
  \<open>make_isolate\<close> leaves the new VM isolate current; it is left at the end, and shut down when it
  could not be initialized.
\<close>

definition CreateDartIsolateGroup ::
  "'v dart_api \<Rightarrow> ('v \<Rightarrow> Dart_Isolate option \<times> 'v) \<Rightarrow> 'v operation" where
  "CreateDartIsolateGroup api make_isolate w =
     (let (vm_isolate, v) = make_isolate (w_vm w) in
      case vm_isolate of
        None \<Rightarrow> Inr (False, w\<lparr>w_vm := v\<rparr>)
      | Some i \<Rightarrow>
          bindR (InitializeIsolate api i (w\<lparr>w_vm := api_InitNativeAssets api v\<rparr>)) (\<lambda>(success, w).
            if success then Inr (True, w\<lparr>w_vm := api_ExitIsolate api (w_vm w)\<rparr>)
            else bindR (vm_ShutdownIsolate api w) (\<lambda>w. Inr (False, w))))"

record root_arguments =
  arg_flags :: Dart_IsolateFlags
  arg_runners :: TaskRunners
  arg_uri :: string
  arg_entrypoint :: string
  arg_create_callback :: "closure option"
  arg_shutdown_callback :: "closure option"
  arg_platform_configuration :: "nat option"
  arg_spawning :: "Dart_Isolate option"

text \<open>
  A root isolate spawned from another joins its group, which is the one of the world; otherwise
  it gets a group of its own.
\<close>

definition CreateRootIsolate :: "'v dart_api \<Rightarrow> root_arguments \<Rightarrow> 'v operation" where
  "CreateRootIsolate api args w =
     (let group = (if arg_spawning args \<noteq> None then w_group w
                   else \<lparr>advisory_script_uri = arg_uri args,
                         advisory_script_entrypoint = arg_entrypoint args,
                         child_isolate_preparer = None,
                         isolate_create_callback = arg_create_callback args,
                         isolate_shutdown_callback = arg_shutdown_callback args,
                         kernel_buffers = []\<rparr>);
          maker = (case arg_spawning args of
                     Some s \<Rightarrow> api_CreateIsolateInGroup api s (advisory_script_entrypoint group)
                   | None \<Rightarrow> api_CreateIsolateGroup api (advisory_script_uri group)
                               (advisory_script_entrypoint group) (arg_flags args)) in
      steps
        [CreateDartIsolateGroup api maker,
         effect_isolate (\<lambda>i. i\<lparr>platform_configuration := arg_platform_configuration args\<rparr>)]
        (w\<lparr>w_isolate := DartIsolate_new True False (arg_spawning args \<noteq> None) (arg_runners args),
           w_group := group\<rparr>))"

datatype MergedPlatformUIThread = kDisabled | kEnabled | kMergeAfterLaunch

record isolate_settings =
  merged_platform_ui_thread :: MergedPlatformUIThread
  root_isolate_create_callback :: "closure option"
  root_isolate_shutdown_callback :: "closure option"

record run_arguments =
  run_registrant :: "string option"
  run_library :: "string option"
  run_entrypoint :: "string option"
  run_args :: "string list"
  run_create_callback :: "closure option"

text \<open>The part of \<open>CreateRunningRootIsolate\<close> that \<open>shutdown_on_error\<close> guards.\<close>

definition prepare_and_run ::
  "'v dart_api \<Rightarrow> isolate_settings \<Rightarrow> IsolateConfiguration \<Rightarrow> run_arguments \<Rightarrow> 'v operation" where
  "prepare_and_run api settings config run = steps
     [in_phase LibrariesSetup,
      (\<lambda>w. bindR (PrepareIsolate api config w) (\<lambda>(ok, _, w). Inr (ok, w))),
      in_phase Ready,
      in_scope api (steps
        [unless (merged_platform_ui_thread settings = kMergeAfterLaunch)
           (effect_vm (api_SetCurrentThreadOwnsIsolate api)),
         (\<lambda>w. Inr (True, call_closure (root_isolate_create_callback settings) w))]),
      (\<lambda>w. Inr (True, call_closure (run_create_callback run) w)),
      RunFromLibrary api (run_registrant run) (run_library run) (run_entrypoint run) (run_args run),
      (\<lambda>w. case root_isolate_shutdown_callback settings of
             None \<Rightarrow> Inr (True, w)
           | Some c \<Rightarrow> AddIsolateShutdownCallback c w)]"

text \<open>
  A null snapshot or configuration is refused. The result is whether the weak pointer returned is
  not empty.
\<close>

definition CreateRunningRootIsolate ::
  "'v dart_api \<Rightarrow> isolate_settings \<Rightarrow> DartSnapshot option \<Rightarrow> root_arguments
     \<Rightarrow> IsolateConfiguration option \<Rightarrow> run_arguments \<Rightarrow> 'v operation" where
  "CreateRunningRootIsolate api settings snapshot args configuration run w =
     (case (snapshot, configuration) of
        (Some snapshot, Some config) \<Rightarrow>
          bindR (IsNullSafetyEnabled snapshot config) (\<lambda>(enabled, config).
          bindR (CreateRootIsolate api (args\<lparr>arg_flags := (arg_flags args)
              \<lparr>null_safety := enabled,
               snapshot_is_dontneed_safe := snapshot_IsDontNeedSafe snapshot\<rparr>\<rparr>) w) (\<lambda>(ok, w).
            if \<not> ok then Inr (False, w)
            else bindR (prepare_and_run api settings config run w) (\<lambda>(ok, w).
              if ok then Inr (True, w)
              else bindR (isolate_Shutdown api w) (\<lambda>(_, w). Inr (False, w)))))
      | _ \<Rightarrow> Inr (False, w))"

subsection \<open>The service isolate and spawned isolates\<close>

text \<open>
  \<open>startup\<close> is \<open>DartServiceIsolate::Startup\<close>, which drives the VM's own service library, and \<open>hooks\<close>
  the \<open>ToggleHooks\<close> of the service protocol handlers, when there are any. The null safety flag is
  set as in the modes other than debug.
\<close>

record 'v service_settings =
  enable_vm_service :: bool
  service_null_safety :: bool
  service_isolate_create_callback :: "closure option"
  service_startup :: "'v \<Rightarrow> bool \<times> 'v"
  service_hooks :: "('v \<Rightarrow> 'v) option"

definition no_runners :: "string \<Rightarrow> TaskRunners" where
  "no_runners label = \<lparr>runners_label = label, runners_platform = None, runners_ui = None\<rparr>"

definition DartCreateAndStartServiceIsolate ::
  "'v dart_api \<Rightarrow> 'v service_settings option \<Rightarrow> Dart_IsolateFlags \<Rightarrow> 'v operation" where
  "DartCreateAndStartServiceIsolate api vm_data flags w =
     (case vm_data of
        None \<Rightarrow> Inr (False, w)
      | Some settings \<Rightarrow>
          if \<not> enable_vm_service settings then Inr (False, w)
          else (let name = api_ServiceIsolateName api in steps
            [CreateRootIsolate api
               \<lparr>arg_flags = flags\<lparr>load_vmservice_library := True,
                                  null_safety := service_null_safety settings\<rparr>,
                arg_runners = no_runners (''io.flutter.'' @ name), arg_uri = name,
                arg_entrypoint = name, arg_create_callback = None,
                arg_shutdown_callback = None, arg_platform_configuration = None,
                arg_spawning = None\<rparr>,
             in_scope api (steps
               [(\<lambda>w. let (ok, v) = service_startup settings (w_vm w) in Inr (ok, w\<lparr>w_vm := v\<rparr>)),
                (\<lambda>w. Inr (True, call_closure (service_isolate_create_callback settings) w)),
                (case service_hooks settings of
                   None \<Rightarrow> steps [] | Some toggle \<Rightarrow> effect_vm toggle)])] w))"

text \<open>
  \<open>Isolate.spawnUri\<close>: the new isolate forms a group that takes the parent's preparer and callbacks.
  The group of the world is the parent's.
\<close>

definition DartIsolateGroupCreateCallback ::
  "'v dart_api \<Rightarrow> 'v service_settings option \<Rightarrow> string \<Rightarrow> string \<Rightarrow> Dart_IsolateFlags \<Rightarrow> bool
     \<Rightarrow> 'v operation" where
  "DartIsolateGroupCreateCallback api vm_data uri entrypoint flags has_parent w =
     (if \<not> has_parent \<and> uri = api_ServiceIsolateName api
      then DartCreateAndStartServiceIsolate api vm_data flags w
      else if \<not> has_parent then Inr (False, w)
      else if take 7 uri \<noteq> ''file://'' then Inr (False, w)
      else CreateDartIsolateGroup api (api_CreateIsolateGroup api uri entrypoint flags)
        (w\<lparr>w_isolate := DartIsolate_new False False False (no_runners uri),
           w_group := (w_group w)\<lparr>advisory_script_uri := uri, advisory_script_entrypoint := entrypoint,
                                  kernel_buffers := []\<rparr>\<rparr>))"

text \<open>\<open>Isolate.spawn\<close>: the VM has made the isolate in the parent's group and entered it.\<close>

definition DartIsolateInitializeCallback :: "'v dart_api \<Rightarrow> 'v operation" where
  "DartIsolateInitializeCallback api w =
     (case api_CurrentIsolate api (w_vm w) of
        None \<Rightarrow> Inr (False, w)
      | Some i \<Rightarrow> InitializeIsolate api i
          (w\<lparr>w_isolate := DartIsolate_new False False False
               (no_runners (advisory_script_uri (w_group w)))\<rparr>))"

definition DartIsolateShutdownCallback ::
  "'v dart_api \<Rightarrow> bool \<Rightarrow> 'v isolate_world \<Rightarrow> 'v isolate_world res" where
  "DartIsolateShutdownCallback api has_isolate_data w =
     (if \<not> has_isolate_data then Inr w else OnShutdownCallback api w)"

end
