(* ===== verification/Isolate_Lifecycle.thy ===== *)
theory Isolate_Lifecycle
  imports Root_Isolate
begin

text \<open>
  The lifecycle of an isolate: its phases only advance, in the order of the enumeration, and the
  creation of a root isolate, successful or not, leaves the VM as it must be left.
\<close>

section \<open>The phase each operation leads to\<close>

lemma keeps_phase_message_runner [phase_intros]: "keeps_phase (set_message_runner api)"
  by (auto simp: keeps_phase_def set_message_runner_def SetMessageHandlingTaskRunner_def
      message_handler_Initialize_def effect_isolate_def effect_vm_def Let_def bindR_eq_Inr_iff
      split: option.splits if_splits)

lemma keeps_phase_SetIsolate [phase_intros]: "keeps_phase (SetIsolate api i)"
  unfolding SetIsolate_def by (intro phase_intros) simp

lemma keeps_phase_MarkIsolateRunnable [phase_intros]: "keeps_phase (MarkIsolateRunnable api)"
  by (auto simp: keeps_phase_def MarkIsolateRunnable_def in_phase_def require_def bindR_eq_Inr_iff
      split: option.splits prod.splits if_splits)

lemma keeps_phase_LoadKernel [phase_intros]: "keeps_phase (LoadKernel api m last_piece)"
  by (auto simp: keeps_phase_def LoadKernel_def require_def CheckAndHandleError_def effect_vm_def
      checked_def Let_def bindR_eq_Inr_iff split: prod.splits if_splits)

lemma keeps_phase_InvokeMainEntrypoint [phase_intros]:
  "keeps_phase (InvokeMainEntrypoint api f args)"
  by (auto simp: keeps_phase_def InvokeMainEntrypoint_def checked_def CheckAndHandleError_def
      Let_def bindR_eq_Inr_iff split: prod.splits if_splits)

lemma keeps_phase_hooks [phase_intros]:
  "keeps_phase (\<lambda>w. let service = is_service api w in steps
     [effect_vm (api_InstallRuntimeHooks api (is_root_isolate (w_isolate w) \<and> \<not> service)),
      unless service (effect_isolate (\<lambda>i. i\<lparr>has_ui_provider := True\<rparr>))] w)"
  by (auto simp: keeps_phase_def effect_vm_def unless_def effect_isolate_def Let_def)

lemma Initialize_moves: "moves_phase Uninitialized Initialized (Initialize api i)"
  unfolding Initialize_def by (intro phase_intros)

lemma LoadLibraries_moves: "moves_phase Initialized LibrariesSetup (LoadLibraries api)"
  unfolding LoadLibraries_def by (intro phase_intros)

lemma PrepareForRunningFromPrecompiledCode_moves:
  "moves_phase LibrariesSetup Ready (PrepareForRunningFromPrecompiledCode api)"
  unfolding PrepareForRunningFromPrecompiledCode_def by (intro phase_intros)

lemma keeps_phase_case_option [phase_intros]:
  "keeps_phase a \<Longrightarrow> (\<And>x. keeps_phase (f x)) \<Longrightarrow> keeps_phase (case x of None \<Rightarrow> a | Some x \<Rightarrow> f x)"
  by (simp split: option.split)

lemma ends_in_phase_unless [phase_intros]:
  "ends_in_phase q a \<Longrightarrow> ends_in_phase q (unless (\<not> True) a)"
  by (simp add: ends_in_phase_def unless_def)

lemma PrepareForRunningFromKernel_moves:
  "moves_phase LibrariesSetup Ready (PrepareForRunningFromKernel api m child True)"
  unfolding PrepareForRunningFromKernel_def by (intro phase_intros)

lemma PrepareForRunningFromKernel_keeps:
  "keeps_phase (PrepareForRunningFromKernel api m child False)"
proof -
  have skip: "unless (\<not> False) a = steps []" for a :: "'a operation"
    by (simp add: unless_def fun_eq_iff)
  show ?thesis unfolding PrepareForRunningFromKernel_def skip by (intro phase_intros)
qed

lemma keeps_phase_entrypoint [phase_intros]:
  "keeps_phase (\<lambda>w. let v = w_vm w; library = f v; entry = g v; (found, v) = h v;
     v = (if found then v else k library v); (user_entrypoint, v) = l library entry v in
     InvokeMainEntrypoint api user_entrypoint (m v) (w\<lparr>w_vm := v\<rparr>))"
  using keeps_phase_InvokeMainEntrypoint
  by (fastforce simp: keeps_phase_def Let_def split: prod.splits)

lemma RunFromLibrary_moves:
  "moves_phase Ready Running (RunFromLibrary api registrant library entrypoint args)"
  unfolding RunFromLibrary_def by (intro phase_intros)

lemma OnShutdownCallback_keeps:
  "OnShutdownCallback api w = Inr w' \<Longrightarrow>
   phase (w_isolate w') = phase (w_isolate w) \<and> isolate (w_isolate w') = isolate (w_isolate w) \<and>
   w_vm w' = w_vm w"
  by (auto simp: OnShutdownCallback_def call_closure_def Let_def split: option.splits if_splits)

lemma isolate_Shutdown_phase:
  "isolate_Shutdown api w = Inr (ok, w') \<Longrightarrow> phase (w_isolate w') = Shutdown"
  by (auto simp: isolate_Shutdown_def vm_ShutdownIsolate_def Let_def bindR_eq_Inr_iff
      split: if_splits option.splits dest!: OnShutdownCallback_keeps)

lemma prepare_pieces_phase:
  "prepare_pieces api child ms w = Inr (ok, w') \<Longrightarrow>
   phase (w_isolate w') = phase (w_isolate w) \<or>
   (phase (w_isolate w) = LibrariesSetup \<and> phase (w_isolate w') = Ready)"
proof (induction ms arbitrary: w)
  case Nil
  then show ?case by simp
next
  case (Cons m ms)
  then show ?case
    using PrepareForRunningFromKernel_moves [of api m child]
      PrepareForRunningFromKernel_keeps [of api m child]
    by (cases "ms = []")
      (fastforce simp: bindR_eq_Inr_iff moves_phase_def keeps_phase_def split: if_splits)+
qed

lemma prepare_from_list_phase:
  "prepare_from_list api ms w = Inr (ok, ms', w') \<Longrightarrow>
   phase (w_isolate w') = phase (w_isolate w) \<or>
   (phase (w_isolate w) = LibrariesSetup \<and> phase (w_isolate w') = Ready)"
proof (induction ms arbitrary: w ok ms')
  case Nil
  then show ?case by simp
next
  case (Cons m ms)
  then show ?case
    using PrepareForRunningFromKernel_moves [of api m False]
      PrepareForRunningFromKernel_keeps [of api m False]
    by (cases "ms = []")
      (fastforce simp: bindR_eq_Inr_iff moves_phase_def keeps_phase_def split: if_splits)+
qed

lemma PrepareIsolate_phase:
  "PrepareIsolate api config w = Inr (ok, config', w') \<Longrightarrow>
   phase (w_isolate w') = phase (w_isolate w) \<or>
   (phase (w_isolate w) = LibrariesSetup \<and> phase (w_isolate w') = Ready)"
  using PrepareForRunningFromPrecompiledCode_moves [of api] PrepareForRunningFromKernel_moves [of api]
  by (fastforce simp: PrepareIsolate_def DoPrepareIsolate_def bindR_eq_Inr_iff moves_phase_def
      split: if_splits IsolateConfiguration.splits dest!: prepare_from_list_phase)

section \<open>An isolate under any sequence of operations\<close>

inductive isolate_step :: "'v dart_api \<Rightarrow> 'v isolate_world \<Rightarrow> 'v isolate_world \<Rightarrow> bool"
  for api :: "'v dart_api" where
  step_initialize: "Initialize api i w = Inr (ok, w') \<Longrightarrow> isolate_step api w w'"
| step_libraries: "LoadLibraries api w = Inr (ok, w') \<Longrightarrow> isolate_step api w w'"
| step_configuration: "PrepareIsolate api config w = Inr (ok, config', w') \<Longrightarrow> isolate_step api w w'"
| step_precompiled: "PrepareForRunningFromPrecompiledCode api w = Inr (ok, w') \<Longrightarrow> isolate_step api w w'"
| step_kernel: "PrepareForRunningFromKernel api m child last_piece w = Inr (ok, w') \<Longrightarrow>
    isolate_step api w w'"
| step_kernels: "PrepareForRunningFromKernels api ms w = Inr (ok, w') \<Longrightarrow> isolate_step api w w'"
| step_child: "run_preparer api p w = Inr (ok, w') \<Longrightarrow> isolate_step api w w'"
| step_run: "RunFromLibrary api registrant library entrypoint args w = Inr (ok, w') \<Longrightarrow>
    isolate_step api w w'"
| step_loading_unit: "LoadLoadingUnit api n data instructions w = Inr (ok, w') \<Longrightarrow>
    isolate_step api w w'"
| step_loading_error: "LoadLoadingUnitError api n w = Inr (ok, w') \<Longrightarrow> isolate_step api w w'"
| step_add_callback: "AddIsolateShutdownCallback c w = Inr (ok, w') \<Longrightarrow> isolate_step api w w'"
| step_vm_callback: "DartIsolateShutdownCallback api data w = Inr w' \<Longrightarrow> isolate_step api w w'"
| step_shutdown: "isolate_Shutdown api w = Inr (ok, w') \<Longrightarrow> isolate_step api w w'"

lemma LoadLoadingUnitError_keeps: "keeps_phase (LoadLoadingUnitError api n)"
  unfolding LoadLoadingUnitError_def
  by (intro keeps_phase_in_scope)
    (auto simp: keeps_phase_def checked_def Let_def bindR_eq_Inr_iff split: prod.splits)

lemma LoadLoadingUnit_keeps: "keeps_phase (LoadLoadingUnit api n data instructions)"
  unfolding LoadLoadingUnit_def
  using LoadLoadingUnitError_keeps [of api n]
  by (intro keeps_phase_in_scope)
    (fastforce simp: keeps_phase_def checked_def effect_isolate_def Let_def bindR_eq_Inr_iff
      split: prod.splits if_splits)

text \<open>Where one operation can take the phase.\<close>

definition phase_follows :: "Phase \<Rightarrow> Phase \<Rightarrow> bool" where
  "phase_follows p q = (q = p \<or> phase_index q = phase_index p + 1 \<or> q = Shutdown)"

lemma moves_phase_follows:
  "moves_phase p q a \<Longrightarrow> a w = Inr (ok, w') \<Longrightarrow> phase_index q = phase_index p + 1 \<Longrightarrow>
   phase_follows (phase (w_isolate w)) (phase (w_isolate w'))"
  by (cases ok) (force simp: moves_phase_def phase_follows_def)+

lemma keeps_phase_follows:
  "keeps_phase a \<Longrightarrow> a w = Inr (ok, w') \<Longrightarrow> phase_follows (phase (w_isolate w)) (phase (w_isolate w'))"
  by (force simp: keeps_phase_def phase_follows_def)

lemma kept_or_ready_follows:
  "phase (w_isolate w') = phase (w_isolate w) \<or>
   (phase (w_isolate w) = LibrariesSetup \<and> phase (w_isolate w') = Ready) \<Longrightarrow>
   phase_follows (phase (w_isolate w)) (phase (w_isolate w'))"
  by (auto simp: phase_follows_def)

lemma phase_follows_le: "phase_follows p q \<Longrightarrow> p \<le> q"
  by (cases p) (auto simp: phase_follows_def less_eq_Phase_def)

lemma isolate_step_follows:
  "isolate_step api w w' \<Longrightarrow> phase_follows (phase (w_isolate w)) (phase (w_isolate w'))"
proof (induction rule: isolate_step.induct)
  case (step_initialize i w ok w')
  then show ?case by (rule moves_phase_follows [OF Initialize_moves]) simp
next
  case (step_libraries w ok w')
  then show ?case by (rule moves_phase_follows [OF LoadLibraries_moves]) simp
next
  case (step_configuration config w ok config' w')
  then show ?case by (intro kept_or_ready_follows PrepareIsolate_phase)
next
  case (step_precompiled w ok w')
  then show ?case by (rule moves_phase_follows [OF PrepareForRunningFromPrecompiledCode_moves]) simp
next
  case (step_kernel m child last_piece w ok w')
  then show ?case
    using moves_phase_follows [OF PrepareForRunningFromKernel_moves]
      keeps_phase_follows [OF PrepareForRunningFromKernel_keeps]
    by (cases last_piece) auto
next
  case (step_kernels ms w ok w')
  then show ?case
    by (intro kept_or_ready_follows)
      (auto simp: PrepareForRunningFromKernels_def split: if_splits dest: prepare_pieces_phase)
next
  case (step_child p w ok w')
  then show ?case
    using moves_phase_follows [OF PrepareForRunningFromPrecompiledCode_moves [of api], of w ok w']
      kept_or_ready_follows [OF prepare_pieces_phase, of api True _ w ok w']
    by (cases p) (auto simp: run_preparer_def)
next
  case (step_run registrant library entrypoint args w ok w')
  then show ?case by (rule moves_phase_follows [OF RunFromLibrary_moves]) simp
next
  case (step_loading_unit n data instructions w ok w')
  then show ?case by (rule keeps_phase_follows [OF LoadLoadingUnit_keeps])
next
  case (step_loading_error n w ok w')
  then show ?case by (rule keeps_phase_follows [OF LoadLoadingUnitError_keeps])
next
  case (step_add_callback c w ok w')
  then show ?case by (auto simp: AddIsolateShutdownCallback_def effect_isolate_def phase_follows_def)
next
  case (step_vm_callback data w w')
  then show ?case
    by (auto simp: DartIsolateShutdownCallback_def phase_follows_def split: if_splits
        dest: OnShutdownCallback_keeps)
next
  case (step_shutdown w ok w')
  then show ?case by (simp add: phase_follows_def isolate_Shutdown_phase)
qed

lemma isolate_steps_advance:
  "(isolate_step api)\<^sup>*\<^sup>* w u \<Longrightarrow> phase (w_isolate w) \<le> phase (w_isolate u)"
  by (induction rule: rtranclp_induct) (auto intro: order_trans phase_follows_le isolate_step_follows)

text \<open>
  C10: whatever operations an isolate goes through, in whatever order and however they fail, its
  phase only advances: one that was left is never entered again, and each operation takes it to
  the next phase of the enumeration or to \<open>Shutdown\<close>, or leaves it where it is.
\<close>

theorem isolate_phases_advance:
  assumes "(isolate_step api)\<^sup>*\<^sup>* w u" and "isolate_step api u v"
  shows "phase (w_isolate w) \<le> phase (w_isolate u) \<and>
         (phase (w_isolate v) = phase (w_isolate u) \<or>
          phase_index (phase (w_isolate v)) = phase_index (phase (w_isolate u)) + 1 \<or>
          phase (w_isolate v) = Shutdown)"
  using isolate_steps_advance [OF assms(1)] isolate_step_follows [OF assms(2)]
  by (auto simp: phase_follows_def)

theorem isolate_phases_advance_witness:
  "phase (w_isolate example_world) \<le> phase (w_isolate example_world) \<and>
   (let v = example_world\<lparr>w_isolate := (w_isolate example_world)\<lparr>phase := Shutdown\<rparr>\<rparr> in
    phase (w_isolate v) = phase (w_isolate example_world) \<or>
    phase_index (phase (w_isolate v)) = phase_index (phase (w_isolate example_world)) + 1 \<or>
    phase (w_isolate v) = Shutdown)"
proof -
  have "isolate_Shutdown example_api example_world =
      Inr (True, example_world\<lparr>w_isolate := (w_isolate example_world)\<lparr>phase := Shutdown\<rparr>\<rparr>)"
    by (simp add: isolate_Shutdown_def example_world_def DartIsolate_new_def)
  from isolate_phases_advance [OF rtranclp.rtrancl_refl step_shutdown [OF this]] show ?thesis
    by (simp add: Let_def)
qed

end
