(* ===== verification/Isolate_Creation.thy ===== *)
theory Isolate_Creation
  imports Isolate_Lifecycle
begin

text \<open>
  What the creation of isolates owes the VM and what it gets from it. The VM's contract is the
  predicate \<open>vm_conforms\<close>: the current isolate and the set of live isolates change as the C API
  says, provided a call is made when it may be made (no isolate is current when one is entered,
  made runnable or created; one is current for every other call). The theorems show that the
  operations keep their side, so that a thread is left without a current isolate and a root
  isolate that does not come up is not left behind in the VM.
\<close>

section \<open>The contract of the VM\<close>

text \<open>A call that needs a current isolate and leaves it current.\<close>

definition vm_frame :: "'v dart_api \<Rightarrow> ('v \<Rightarrow> Dart_Isolate set) \<Rightarrow> ('v \<Rightarrow> 'v) \<Rightarrow> bool" where
  "vm_frame api live f =
     (\<forall>v. api_CurrentIsolate api v \<noteq> None \<longrightarrow>
        api_CurrentIsolate api (f v) = api_CurrentIsolate api v \<and> live (f v) = live v)"

definition vm_creates ::
  "'v dart_api \<Rightarrow> ('v \<Rightarrow> Dart_Isolate set) \<Rightarrow> ('v \<Rightarrow> Dart_Isolate option \<times> 'v) \<Rightarrow> bool" where
  "vm_creates api live maker =
     (\<forall>v. api_CurrentIsolate api v = None \<longrightarrow>
        (case maker v of
           (None, v') \<Rightarrow> api_CurrentIsolate api v' = None \<and> live v' = live v
         | (Some i, v') \<Rightarrow> api_CurrentIsolate api v' = Some i \<and> i \<notin> live v \<and>
             live v' = insert i (live v)))"

definition vm_frames :: "'v dart_api \<Rightarrow> ('v \<Rightarrow> Dart_Isolate set) \<Rightarrow> bool" where
  "vm_frames api live =
     ((\<forall>f \<in> {api_SetPrivateConstructorName api, api_SetMessageNotifyCallback api, api_ReportError api,
             api_InitNativeAssets api, api_InitDartIO api, api_InitDartUI api,
             api_SetCurrentThreadOwnsIsolate api}. vm_frame api live f) \<and>
      (\<forall>f \<in> {api_SetLibraryTagHandler api, api_SetDeferredLoadHandler api, api_FinalizeLoading api}.
         vm_frame api live (\<lambda>v. snd (f v))) \<and>
      (\<forall>t. vm_frame api live (api_SetCurrentUserTag api t)) \<and>
      (\<forall>b. vm_frame api live (api_InstallRuntimeHooks api b)) \<and>
      (\<forall>m. vm_frame api live (\<lambda>v. snd (api_LoadLibraryFromKernel api m v))) \<and>
      (\<forall>h. vm_frame api live (api_SetRootLibrary api h)) \<and>
      (\<forall>h n. vm_frame api live (\<lambda>v. snd (api_GetField api h n v))) \<and>
      (\<forall>h n as. vm_frame api live (\<lambda>v. snd (api_InvokeField api h n as v))))"

definition vm_conforms :: "'v dart_api \<Rightarrow> ('v \<Rightarrow> Dart_Isolate set) \<Rightarrow> bool" where
  "vm_conforms api live =
     ((\<forall>i v. api_CurrentIsolate api v = None \<longrightarrow>
         api_CurrentIsolate api (api_EnterIsolate api i v) = Some i \<and>
         live (api_EnterIsolate api i v) = live v) \<and>
      (\<forall>v. api_CurrentIsolate api v \<noteq> None \<longrightarrow>
         api_CurrentIsolate api (api_ExitIsolate api v) = None \<and>
         live (api_ExitIsolate api v) = live v) \<and>
      (\<forall>i v. api_CurrentIsolate api v = None \<longrightarrow>
         api_CurrentIsolate api (snd (api_IsolateMakeRunnable api i v)) = None \<and>
         live (snd (api_IsolateMakeRunnable api i v)) = live v) \<and>
      (\<forall>i v. api_CurrentIsolate api v = Some i \<longrightarrow>
         api_CurrentIsolate api (api_ShutdownIsolate api v) = None \<and>
         live (api_ShutdownIsolate api v) = live v - {i}) \<and>
      (\<forall>uri entrypoint flags. vm_creates api live (api_CreateIsolateGroup api uri entrypoint flags)) \<and>
      (\<forall>i name. vm_creates api live (api_CreateIsolateInGroup api i name)) \<and>
      vm_frames api live)"

section \<open>Operations on an entered isolate and on one that is not\<close>

text \<open>The isolate of the world is a root isolate, its VM isolate is \<open>i\<close>, and the VM is as told.\<close>

definition vm_at ::
  "'v dart_api \<Rightarrow> ('v \<Rightarrow> Dart_Isolate set) \<Rightarrow> Dart_Isolate option \<Rightarrow> Dart_Isolate \<Rightarrow> Dart_Isolate set
     \<Rightarrow> 'v isolate_world \<Rightarrow> bool" where
  "vm_at api live current i L w =
     (isolate (w_isolate w) = Some i \<and> is_root_isolate (w_isolate w) \<and>
      api_CurrentIsolate api (w_vm w) = current \<and> live (w_vm w) = L)"

text \<open>The operation returns, and leaves the VM where it was.\<close>

definition stays ::
  "('v isolate_world \<Rightarrow> bool) \<Rightarrow> 'v operation \<Rightarrow> bool" where
  "stays I a = (\<forall>w. I w \<longrightarrow> (\<exists>ok w'. a w = Inr (ok, w') \<and> I w'))"

named_theorems stays_intros \<open>which operations leave the current isolate as it was\<close>

lemma staysI: "(\<And>w. I w \<Longrightarrow> \<exists>ok w'. a w = Inr (ok, w') \<and> I w') \<Longrightarrow> stays I a"
  by (simp add: stays_def)

lemma staysD: "stays I a \<Longrightarrow> I w \<Longrightarrow> \<exists>ok w'. a w = Inr (ok, w') \<and> I w'"
  by (simp add: stays_def)

lemma stays_steps [stays_intros]:
  "stays I (steps [])"
  "stays I a \<Longrightarrow> stays I (steps as) \<Longrightarrow> stays I (steps (a # as))"
  by (fastforce simp: stays_def)+

lemma stays_require [stays_intros]: "stays I (require P)" "stays I (in_phase p)"
  by (simp_all add: stays_def require_def in_phase_def)

lemma stays_unless [stays_intros]:
  "stays I a \<Longrightarrow> stays I (unless b a)"
  "stays I a \<Longrightarrow> stays I (\<lambda>w. unless (c w) a w)"
  by (auto simp: stays_def unless_def)

lemma stays_case_option [stays_intros]:
  "stays I a \<Longrightarrow> (\<And>x. stays I (f x)) \<Longrightarrow> stays I (case x of None \<Rightarrow> a | Some x \<Rightarrow> f x)"
  by (simp split: option.split)

lemma stays_effect_isolate [stays_intros]:
  "(\<And>d. isolate (f d) = isolate d \<and> is_root_isolate (f d) = is_root_isolate d) \<Longrightarrow>
   stays (vm_at api live c i L) (effect_isolate f)"
  by (auto simp: stays_def effect_isolate_def vm_at_def)

lemma stays_enter_phase [stays_intros]: "stays (vm_at api live c i L) (enter_phase p)"
  unfolding enter_phase_def by (rule stays_effect_isolate) simp

lemma stays_effect_vm:
  "vm_frame api live f \<Longrightarrow> stays (vm_at api live (Some j) i L) (effect_vm f)"
  by (auto simp: stays_def effect_vm_def vm_at_def vm_frame_def)

lemma stays_group [stays_intros]:
  "stays (vm_at api live c i L) (set_preparer_once p)"
  "stays (vm_at api live c i L) call_create_callback"
  "stays (vm_at api live c i L) UpdateThreadPoolNames"
  by (auto simp: stays_def vm_at_def set_preparer_once_def call_create_callback_def call_closure_def
      UpdateThreadPoolNames_def post_def Let_def split: option.split)

lemma stays_call_closure [stays_intros]:
  "stays (vm_at api live c i L) (\<lambda>w. Inr (True, call_closure k w))"
  by (auto simp: stays_def vm_at_def call_closure_def split: option.split)

lemma conforms_frames:
  assumes "vm_conforms api live"
  shows "vm_frame api live (api_SetPrivateConstructorName api)"
    and "vm_frame api live (api_SetMessageNotifyCallback api)"
    and "vm_frame api live (api_ReportError api)"
    and "vm_frame api live (api_InitNativeAssets api)"
    and "vm_frame api live (api_InitDartIO api)"
    and "vm_frame api live (api_InitDartUI api)"
    and "vm_frame api live (api_SetCurrentThreadOwnsIsolate api)"
    and "vm_frame api live (api_SetCurrentUserTag api t)"
    and "vm_frame api live (api_InstallRuntimeHooks api b)"
    and "vm_frame api live (api_SetRootLibrary api h)"
  using assms by (simp_all add: vm_conforms_def vm_frames_def)

lemma conforms_calls:
  assumes "vm_conforms api live"
  shows "vm_frame api live (\<lambda>v. snd (api_SetLibraryTagHandler api v))"
    and "vm_frame api live (\<lambda>v. snd (api_SetDeferredLoadHandler api v))"
    and "vm_frame api live (\<lambda>v. snd (api_FinalizeLoading api v))"
    and "vm_frame api live (\<lambda>v. snd (api_LoadLibraryFromKernel api m v))"
    and "vm_frame api live (\<lambda>v. snd (api_GetField api h n v))"
    and "vm_frame api live (\<lambda>v. snd (api_InvokeField api h f as v))"
  using assms by (simp_all add: vm_conforms_def vm_frames_def)

lemma vm_frame_id: "vm_frame api live (\<lambda>v. v)"
  by (simp add: vm_frame_def)

lemma vm_frame_comp: "vm_frame api live f \<Longrightarrow> vm_frame api live g \<Longrightarrow> vm_frame api live (\<lambda>v. g (f v))"
  by (simp add: vm_frame_def)

lemma stays_checked:
  assumes "vm_conforms api live" "vm_frame api live (\<lambda>v. snd (call v))"
  shows "stays (vm_at api live (Some j) i L) (checked api call)"
  using assms(2) conforms_frames(3) [OF assms(1)]
  by (auto simp: stays_def checked_def CheckAndHandleError_def vm_at_def vm_frame_def Let_def
      split: prod.split)

lemma stays_in_scope:
  assumes "vm_conforms api live" "stays (vm_at api live (Some i) i L) body" "c = None \<or> c = Some i"
  shows "stays (vm_at api live c i L) (in_scope api body)"
proof (rule staysI)
  fix w
  assume w: "vm_at api live c i L w"
  then have "vm_at api live (Some i) i L (w\<lparr>w_vm := scope_enter api (Some i) (w_vm w)\<rparr>)"
    using assms(1,3) by (auto simp: vm_at_def scope_enter_def Let_def vm_conforms_def)
  from staysD [OF assms(2) this] obtain ok w' where
    b: "body (w\<lparr>w_vm := scope_enter api (Some i) (w_vm w)\<rparr>) = Inr (ok, w')"
      "vm_at api live (Some i) i L w'" by blast
  then have "vm_at api live c i L (w'\<lparr>w_vm := scope_leave api (Some i) c (w_vm w')\<rparr>)"
    using assms(1,3) by (auto simp: vm_at_def scope_leave_def Let_def vm_conforms_def)
  with b w show "\<exists>ok w'. in_scope api body w = Inr (ok, w') \<and> vm_at api live c i L w'"
    by (auto simp: in_scope_def vm_at_def)
qed

lemma stays_MarkIsolateRunnable:
  assumes "vm_conforms api live"
  shows "stays (vm_at api live (Some i) i L) (MarkIsolateRunnable api)"
  using assms
  by (auto simp: stays_def vm_at_def MarkIsolateRunnable_def in_phase_def require_def vm_conforms_def
      Let_def split: prod.split) (metis option.distinct(1) snd_conv)+

lemma stays_LoadLibraries:
  assumes "vm_conforms api live" "c = None \<or> c = Some i"
  shows "stays (vm_at api live c i L) (LoadLibraries api)"
proof -
  have hooks: "stays (vm_at api live (Some i) i L) (\<lambda>w. let service = is_service api w in steps
     [effect_vm (api_InstallRuntimeHooks api (is_root_isolate (w_isolate w) \<and> \<not> service)),
      unless service (effect_isolate (\<lambda>i. i\<lparr>has_ui_provider := True\<rparr>))] w)"
    using conforms_frames(9) [OF assms(1)]
    by (auto simp: stays_def vm_at_def vm_frame_def effect_vm_def effect_isolate_def unless_def Let_def)
  show ?thesis unfolding LoadLibraries_def
    by (intro stays_intros stays_in_scope assms hooks stays_effect_vm conforms_frames)
qed

lemma stays_PrepareForRunningFromPrecompiledCode:
  assumes "vm_conforms api live" "c = None \<or> c = Some i"
  shows "stays (vm_at api live c i L) (PrepareForRunningFromPrecompiledCode api)"
  unfolding PrepareForRunningFromPrecompiledCode_def
  by (intro stays_intros stays_in_scope assms stays_MarkIsolateRunnable)

text \<open>A call whose result the rest of the operation uses.\<close>

lemma stays_call:
  assumes "vm_frame api live (\<lambda>v. snd (call v))" "\<And>h. stays (vm_at api live (Some j) i L) (rest h)"
  shows "stays (vm_at api live (Some j) i L)
           (\<lambda>w. case call (w_vm w) of (h, v) \<Rightarrow> rest h (w\<lparr>w_vm := v\<rparr>))"
proof (rule staysI)
  fix w
  assume "vm_at api live (Some j) i L w"
  then have "vm_at api live (Some j) i L (w\<lparr>w_vm := snd (call (w_vm w))\<rparr>)"
    using assms(1) by (simp add: vm_at_def vm_frame_def)
  from staysD [OF assms(2) this]
  show "\<exists>ok w'. (case call (w_vm w) of (h, v) \<Rightarrow> rest h (w\<lparr>w_vm := v\<rparr>)) = Inr (ok, w') \<and>
      vm_at api live (Some j) i L w'"
    by (simp add: split_beta)
qed

lemma stays_LoadKernel:
  assumes "vm_conforms api live"
  shows "stays (vm_at api live (Some j) i L) (LoadKernel api m last_piece)" (is "stays ?I _")
proof -
  have add: "stays ?I (\<lambda>w. Inr (True, w\<lparr>w_group := AddKernelBuffer m (w_group w)\<rparr>))"
    by (auto simp: stays_def vm_at_def)
  have final: "stays ?I (steps [effect_vm (api_SetRootLibrary api h),
      checked api (api_FinalizeLoading api)])" for h
    by (intro stays_intros stays_effect_vm conforms_frames conforms_calls stays_checked assms)
  have handled: "stays ?I (\<lambda>w. case CheckAndHandleError api h (w_vm w) of (err, v) \<Rightarrow>
      (if err then (\<lambda>w. Inr (False, w)) else if \<not> last_piece then (\<lambda>w. Inr (True, w))
       else steps [effect_vm (api_SetRootLibrary api h), checked api (api_FinalizeLoading api)])
      (w\<lparr>w_vm := v\<rparr>))" for h
    using final [of h] conforms_frames(3) [OF assms]
    by (intro stays_call) (auto simp: stays_def CheckAndHandleError_def vm_frame_def)
  have load: "stays ?I (\<lambda>w. case api_LoadLibraryFromKernel api m (w_vm w) of (h, v) \<Rightarrow>
      (\<lambda>w. case CheckAndHandleError api h (w_vm w) of (err, v) \<Rightarrow>
      (if err then (\<lambda>w. Inr (False, w)) else if \<not> last_piece then (\<lambda>w. Inr (True, w))
       else steps [effect_vm (api_SetRootLibrary api h), checked api (api_FinalizeLoading api)])
      (w\<lparr>w_vm := v\<rparr>)) (w\<lparr>w_vm := v\<rparr>))"
    by (rule stays_call [OF conforms_calls(4) [OF assms] handled])
  show ?thesis unfolding LoadKernel_def
    by (intro stays_intros add)
      (use load in \<open>simp add: Let_def if_distribR split_beta del: steps.simps cong: if_cong\<close>)
qed

lemma stays_PrepareForRunningFromKernel:
  assumes "vm_conforms api live" "c = None \<or> c = Some i"
  shows "stays (vm_at api live c i L) (PrepareForRunningFromKernel api m child last_piece)"
  unfolding PrepareForRunningFromKernel_def
  by (intro stays_intros stays_in_scope assms stays_MarkIsolateRunnable stays_effect_vm
      conforms_frames stays_LoadKernel)

lemma vm_frame_registrant:
  assumes "vm_conforms api live"
  shows "vm_frame api live (\<lambda>v. snd (InvokeDartPluginRegistrantIfAvailable api h v))"
    and "vm_frame api live (\<lambda>v. snd (FindAndInvokeDartPluginRegistrant api override v))"
proof -
  show invoke: "vm_frame api live (\<lambda>v. snd (InvokeDartPluginRegistrantIfAvailable api h v))" for h
    using conforms_calls(6) [OF assms] conforms_frames(3) [OF assms]
    by (simp add: vm_frame_def InvokeDartPluginRegistrantIfAvailable_def CheckAndHandleError_def
        Let_def split_beta)
  show "vm_frame api live (\<lambda>v. snd (FindAndInvokeDartPluginRegistrant api override v))"
    using invoke conforms_calls(5) [OF assms]
    by (simp add: vm_frame_def FindAndInvokeDartPluginRegistrant_def Let_def split_beta)
qed

lemma vm_frame_InvokeField:
  "vm_conforms api live \<Longrightarrow> vm_frame api live (\<lambda>v. snd (api_InvokeField api (g v) n as v))"
  using conforms_calls(6) [of api live] by (simp add: vm_frame_def)

lemma stays_InvokeMainEntrypoint:
  assumes "vm_conforms api live"
  shows "stays (vm_at api live (Some j) i L) (InvokeMainEntrypoint api f args)"
  unfolding InvokeMainEntrypoint_def Let_def
  by (intro stays_intros stays_checked assms stays_call [where call = "\<lambda>v. api_InvokeField api
        (api_LookupLibrary api (api_ToDart api ''dart:isolate'' v) v) n [] v" for n]
      vm_frame_InvokeField) (simp_all add: vm_frame_id)

lemma stays_RunFromLibrary:
  assumes "vm_conforms api live" "c = None \<or> c = Some i"
  shows "stays (vm_at api live c i L) (RunFromLibrary api registrant library entrypoint args)"
proof -
  have run: "stays (vm_at api live (Some i) i L) (\<lambda>w.
      let v = w_vm w; library = lib v; entry = ent v;
          (found, v) = FindAndInvokeDartPluginRegistrant api registrant v;
          v = (if found then v else snd (InvokeDartPluginRegistrantIfAvailable api library v));
          (user_entrypoint, v) = api_GetField api library entry v in
      InvokeMainEntrypoint api user_entrypoint (api_ToDartList api args v) (w\<lparr>w_vm := v\<rparr>))"
    for lib ent
  proof (rule staysI)
    fix w
    assume w: "vm_at api live (Some i) i L w"
    define v1 where "v1 = FindAndInvokeDartPluginRegistrant api registrant (w_vm w)"
    define v2 where "v2 = (if fst v1 then snd v1
      else snd (InvokeDartPluginRegistrantIfAvailable api (lib (w_vm w)) (snd v1)))"
    define v3 where "v3 = api_GetField api (lib (w_vm w)) (ent (w_vm w)) v2"
    have "vm_at api live (Some i) i L (w\<lparr>w_vm := snd v3\<rparr>)"
      using w vm_frame_registrant [OF assms(1)] conforms_calls(5) [OF assms(1)]
      by (simp add: v1_def v2_def v3_def vm_at_def vm_frame_def)
    from staysD [OF stays_InvokeMainEntrypoint
        [OF assms(1), of _ _ _ "fst v3" "api_ToDartList api args (snd v3)"] this]
    show "\<exists>ok w'. (let v = w_vm w; library = lib v; entry = ent v;
          (found, v) = FindAndInvokeDartPluginRegistrant api registrant v;
          v = (if found then v else snd (InvokeDartPluginRegistrantIfAvailable api library v));
          (user_entrypoint, v) = api_GetField api library entry v in
      InvokeMainEntrypoint api user_entrypoint (api_ToDartList api args v) (w\<lparr>w_vm := v\<rparr>)) =
        Inr (ok, w') \<and> vm_at api live (Some i) i L w'"
      unfolding v1_def v2_def v3_def Let_def split_beta .
  qed
  show ?thesis unfolding RunFromLibrary_def by (intro stays_intros stays_in_scope assms run)
qed

lemma stays_prepare_from_list:
  assumes "vm_conforms api live" "c = None \<or> c = Some i" "vm_at api live c i L w"
  shows "\<exists>ok ms' w'. prepare_from_list api ms w = Inr (ok, ms', w') \<and> vm_at api live c i L w'"
  using assms(3)
proof (induction ms arbitrary: w)
  case Nil
  then show ?case by auto
next
  case (Cons m ms)
  from staysD [OF stays_PrepareForRunningFromKernel [OF assms(1,2)] Cons.prems]
  obtain ok w1 where "PrepareForRunningFromKernel api m False (ms = []) w = Inr (ok, w1)"
    "vm_at api live c i L w1" by blast
  with Cons.IH [of w1] Cons.prems show ?case by auto
qed

text \<open>A configuration whose futures are still to be fetched, or have been.\<close>

fun fresh_configuration :: "IsolateConfiguration \<Rightarrow> bool" where
  "fresh_configuration (KernelListIsolateConfiguration futures resolved) =
     (length resolved = length futures \<or> None \<notin> set futures)"
| "fresh_configuration _ = True"

lemma take_futures_fresh: "None \<notin> set fs \<Longrightarrow> \<exists>ms. take_futures fs = Inr ms \<and> length ms = length fs"
proof (induction fs)
  case (Cons f fs)
  then show ?case by (cases f) auto
qed simp

lemma resolve_fresh:
  "length rs = length fs \<or> None \<notin> set fs \<Longrightarrow>
   \<exists>fs' rs'. ResolveKernelPiecesIfNecessary fs rs = Inr (fs', rs') \<and> length rs' = length fs'"
  using take_futures_fresh [of fs] by (auto simp: ResolveKernelPiecesIfNecessary_def)

lemma IsNullSafetyEnabled_fresh:
  "fresh_configuration config \<Longrightarrow>
   \<exists>b config'. IsNullSafetyEnabled snapshot config = Inr (b, config') \<and> fresh_configuration config'"
proof (cases config)
  case (KernelListIsolateConfiguration fs rs)
  then show "fresh_configuration config \<Longrightarrow> ?thesis"
    using resolve_fresh [of rs fs] by (auto simp: IsNullSafetyEnabled_def)
qed (auto simp: IsNullSafetyEnabled_def)

lemma stays_PrepareIsolate:
  assumes "vm_conforms api live" "c = None \<or> c = Some i" "fresh_configuration config"
    "vm_at api live c i L w"
  shows "\<exists>ok config' w'. PrepareIsolate api config w = Inr (ok, config', w') \<and> vm_at api live c i L w'"
proof (cases config)
  case AppSnapshotIsolateConfiguration
  then show ?thesis
    using staysD [OF stays_PrepareForRunningFromPrecompiledCode [OF assms(1,2)] assms(4)] assms(4)
    by (auto simp: PrepareIsolate_def DoPrepareIsolate_def)
next
  case (KernelIsolateConfiguration m)
  then show ?thesis
    using staysD [OF stays_PrepareForRunningFromKernel [OF assms(1,2)] assms(4), of m False True]
      assms(4)
    by (auto simp: PrepareIsolate_def DoPrepareIsolate_def)
next
  case (KernelListIsolateConfiguration fs rs)
  with assms(3) resolve_fresh [of rs fs] obtain fs' rs' where
    "ResolveKernelPiecesIfNecessary fs rs = Inr (fs', rs')" by auto
  with KernelListIsolateConfiguration show ?thesis
    using stays_prepare_from_list [OF assms(1,2,4), of rs'] assms(4)
    by (auto simp: PrepareIsolate_def DoPrepareIsolate_def)
qed

lemma stays_prepare_and_run:
  assumes "vm_conforms api live" "fresh_configuration config"
  shows "stays (vm_at api live None i L) (prepare_and_run api settings config run)"
proof -
  have prepare: "stays (vm_at api live None i L)
      (\<lambda>w. bindR (PrepareIsolate api config w) (\<lambda>(ok, _, w). Inr (ok, w)))"
    using stays_PrepareIsolate [OF assms(1) _ assms(2)] by (fastforce simp: stays_def)
  have callback: "stays (vm_at api live None i L)
      (\<lambda>w. case root_isolate_shutdown_callback settings of
         None \<Rightarrow> Inr (True, w) | Some c \<Rightarrow> AddIsolateShutdownCallback c w)"
    by (auto simp: stays_def vm_at_def AddIsolateShutdownCallback_def effect_isolate_def
        split: option.split)
  show ?thesis unfolding prepare_and_run_def
    by (intro stays_intros prepare callback stays_in_scope stays_effect_vm conforms_frames
        stays_RunFromLibrary assms disjI1 refl)
qed

section \<open>Creating an isolate\<close>

text \<open>A DartIsolate as the constructor leaves it, in the scope of the VM isolate just made.\<close>

definition newly_made ::
  "'v dart_api \<Rightarrow> ('v \<Rightarrow> Dart_Isolate set) \<Rightarrow> Dart_Isolate \<Rightarrow> Dart_Isolate set \<Rightarrow> 'v isolate_world \<Rightarrow> bool" where
  "newly_made api live i L w =
     (phase (w_isolate w) = Uninitialized \<and> task_dispatcher (w_isolate w) = None \<and>
      is_root_isolate (w_isolate w) \<and> api_CurrentIsolate api (w_vm w) = Some i \<and> live (w_vm w) = L)"

lemma set_message_runner_once:
  assumes "vm_conforms api live" "vm_at api live (Some i) i L w" "task_dispatcher (w_isolate w) = None"
  shows "\<exists>w'. set_message_runner api w = Inr (True, w') \<and> vm_at api live (Some i) i L w'"
  using assms conforms_frames(2) [OF assms(1)]
  by (auto simp: set_message_runner_def SetMessageHandlingTaskRunner_def message_handler_Initialize_def
      effect_isolate_def effect_vm_def vm_at_def vm_frame_def Let_def split: option.split)

lemma Initialize_enters:
  assumes "vm_conforms api live" "newly_made api live i L w"
  shows "\<exists>ok w'. Initialize api i w = Inr (ok, w') \<and> vm_at api live (Some i) i L w'"
proof -
  define d where "d = (w_isolate w)\<lparr>isolate := Some i\<rparr>"
  define v where "v = api_SetCurrentUserTag api ''AppStartUp'' (api_SetPrivateConstructorName api (w_vm w))"
  have "vm_at api live (Some i) i L (w\<lparr>w_isolate := d, w_vm := v\<rparr>)"
    using assms conforms_frames(1,8) [OF assms(1)]
    by (simp add: newly_made_def vm_at_def vm_frame_def d_def v_def)
  with set_message_runner_once [OF assms(1) this] assms(2) obtain w1 where
    w1: "set_message_runner api (w\<lparr>w_isolate := d, w_vm := v\<rparr>) = Inr (True, w1)"
      "vm_at api live (Some i) i L w1" by (auto simp: newly_made_def d_def)
  have "stays (vm_at api live (Some i) i L) (steps
      [checked api (api_SetLibraryTagHandler api), checked api (api_SetDeferredLoadHandler api),
       UpdateThreadPoolNames, enter_phase Initialized])" (is "stays _ (steps ?rest)")
    by (intro stays_intros stays_checked conforms_calls assms)
  moreover have "Initialize api i w = steps ?rest w1"
    using w1(1) assms(2)
    by (simp add: Initialize_def SetIsolate_def in_phase_def require_def effect_isolate_def
        effect_vm_def unless_def newly_made_def d_def v_def)
  ultimately show ?thesis using staysD w1(2) by metis
qed

lemma InitializeIsolate_enters:
  assumes "vm_conforms api live" "newly_made api live i L w"
  shows "\<exists>ok w'. InitializeIsolate api i w = Inr (ok, w') \<and> vm_at api live (Some i) i L w' \<and>
    (ok \<longrightarrow> phase (w_isolate w') = LibrariesSetup)"
proof -
  have root: "vm_at api live (Some i) i L u \<Longrightarrow> is_root_isolate (w_isolate u)" for u
    by (simp add: vm_at_def)
  from Initialize_enters [OF assms] obtain ok u where
    u: "Initialize api i w = Inr (ok, u)" "vm_at api live (Some i) i L u" by blast
  from staysD [OF stays_LoadLibraries [OF assms(1) disjI2 [OF refl]] u(2)] obtain ok' u' where
    u': "LoadLibraries api u = Inr (ok', u')" "vm_at api live (Some i) i L u'" by blast
  have "ok' \<Longrightarrow> phase (w_isolate u') = LibrariesSetup"
    using u'(1) LoadLibraries_moves by (force simp: moves_phase_def)
  then show ?thesis using u u' root [OF u'(2)] by (auto simp: InitializeIsolate_def unless_def)
qed

text \<open>The isolate of the world has been shut down in the VM.\<close>

lemma vm_ShutdownIsolate_removes:
  assumes "vm_conforms api live" "vm_at api live (Some i) i L w"
  shows "\<exists>w'. vm_ShutdownIsolate api w = Inr w' \<and> api_CurrentIsolate api (w_vm w') = None \<and>
    live (w_vm w') = L - {i} \<and> phase (w_isolate w') = phase (w_isolate w)"
  using assms
  by (auto simp: vm_ShutdownIsolate_def OnShutdownCallback_def call_closure_def vm_at_def
      vm_conforms_def Let_def split: option.split)

text \<open>What creating an isolate leaves, from the VM state \<open>v\<close>: one more live isolate, or none.\<close>

definition creation_result ::
  "'v dart_api \<Rightarrow> ('v \<Rightarrow> Dart_Isolate set) \<Rightarrow> 'v \<Rightarrow> bool \<Rightarrow> 'v isolate_world \<Rightarrow> bool" where
  "creation_result api live v ok w =
     (if ok then phase (w_isolate w) = LibrariesSetup \<and>
        (\<exists>i. i \<notin> live v \<and> vm_at api live None i (insert i (live v)) w)
      else api_CurrentIsolate api (w_vm w) = None \<and> live (w_vm w) = live v)"

lemma make_and_initialize:
  assumes "vm_conforms api live" "vm_at api live (Some i) i (insert i L) u" "i \<notin> L" "L = live v"
    "success \<longrightarrow> phase (w_isolate u) = LibrariesSetup"
  shows "\<exists>w'. (if success then Inr (True, u\<lparr>w_vm := api_ExitIsolate api (w_vm u)\<rparr>)
     else bindR (vm_ShutdownIsolate api u) (\<lambda>w. Inr (False, w))) = Inr (success, w') \<and>
     creation_result api live v success w'"
proof -
  have "vm_at api live None i (insert i L) (u\<lparr>w_vm := api_ExitIsolate api (w_vm u)\<rparr>)"
    using assms(1,2) by (simp add: vm_at_def vm_conforms_def)
  with vm_ShutdownIsolate_removes [OF assms(1,2)] assms(3,4,5) show ?thesis
    by (cases success) (auto simp: creation_result_def)
qed

lemma CreateDartIsolateGroup_result:
  assumes "vm_conforms api live" "vm_creates api live maker"
    "phase (w_isolate w) = Uninitialized" "task_dispatcher (w_isolate w) = None"
    "is_root_isolate (w_isolate w)" "api_CurrentIsolate api (w_vm w) = None"
  shows "\<exists>ok w'. CreateDartIsolateGroup api maker w = Inr (ok, w') \<and>
    creation_result api live (w_vm w) ok w'"
proof (cases "maker (w_vm w)")
  case (Pair r v)
  note made = assms(2) [unfolded vm_creates_def, rule_format, OF assms(6)]
  show ?thesis
  proof (cases r)
    case None
    then show ?thesis using Pair made
      by (auto simp: CreateDartIsolateGroup_def creation_result_def)
  next
    case (Some i)
    have v: "api_CurrentIsolate api v = Some i" "i \<notin> live (w_vm w)" "live v = insert i (live (w_vm w))"
      using made unfolding Pair Some by simp_all
    then have "newly_made api live i (live v) (w\<lparr>w_vm := api_InitNativeAssets api v\<rparr>)"
      using assms(3,4,5) conforms_frames(4) [OF assms(1)] by (simp add: newly_made_def vm_frame_def)
    from InitializeIsolate_enters [OF assms(1) this] obtain ok u where
      u: "InitializeIsolate api i (w\<lparr>w_vm := api_InitNativeAssets api v\<rparr>) = Inr (ok, u)"
        "vm_at api live (Some i) i (live v) u" "ok \<longrightarrow> phase (w_isolate u) = LibrariesSetup" by blast
    have "CreateDartIsolateGroup api maker w =
        (if ok then Inr (True, u\<lparr>w_vm := api_ExitIsolate api (w_vm u)\<rparr>)
         else bindR (vm_ShutdownIsolate api u) (\<lambda>w. Inr (False, w)))"
      unfolding CreateDartIsolateGroup_def Let_def Pair Some by (simp add: u(1))
    with make_and_initialize [OF assms(1) u(2) [unfolded v(3)] v(2) refl u(3)]
    show ?thesis by metis
  qed
qed

lemma CreateRootIsolate_result:
  assumes "vm_conforms api live" "api_CurrentIsolate api (w_vm w) = None"
  shows "\<exists>ok w'. CreateRootIsolate api args w = Inr (ok, w') \<and> creation_result api live (w_vm w) ok w'"
proof -
  define maker where "maker = (\<lambda>g :: DartIsolateGroupData. case arg_spawning args of
      Some s \<Rightarrow> api_CreateIsolateInGroup api s (advisory_script_entrypoint g)
    | None \<Rightarrow> api_CreateIsolateGroup api (advisory_script_uri g) (advisory_script_entrypoint g)
        (arg_flags args))"
  define start where "start = (\<lambda>g. w\<lparr>w_isolate := DartIsolate_new True False
      (arg_spawning args \<noteq> None) (arg_runners args), w_group := g\<rparr>)"
  have made: "\<exists>ok w'. CreateDartIsolateGroup api (maker g) (start g) = Inr (ok, w') \<and>
      creation_result api live (w_vm w) ok w'" for g
  proof -
    have "vm_creates api live (maker g)"
      using assms(1) by (simp add: maker_def vm_conforms_def split: option.split)
    from CreateDartIsolateGroup_result [OF assms(1) this, of "start g"] assms(2) show ?thesis
      by (simp add: start_def DartIsolate_new_def)
  qed
  have configured: "\<exists>ok w'. steps [CreateDartIsolateGroup api (maker g), effect_isolate (\<lambda>i.
      i\<lparr>platform_configuration := p\<rparr>)] (start g) = Inr (ok, w') \<and>
      creation_result api live (w_vm w) ok w'" for g p
    using made [of g] by (auto simp: effect_isolate_def creation_result_def vm_at_def split: if_splits)
  show ?thesis
    unfolding CreateRootIsolate_def Let_def
    by (rule configured [unfolded maker_def start_def])
qed

lemma prepare_and_run_running:
  assumes "prepare_and_run api settings config run w = Inr (True, w')"
  shows "phase (w_isolate w') = Running"
proof -
  from assms obtain u u' where
    "RunFromLibrary api (run_registrant run) (run_library run) (run_entrypoint run) (run_args run) u =
       Inr (True, u')"
    and last: "(case root_isolate_shutdown_callback settings of
       None \<Rightarrow> Inr (True, u') | Some c \<Rightarrow> AddIsolateShutdownCallback c u') = Inr (True, w')"
    unfolding prepare_and_run_def steps_Cons_Inr by auto
  then have "phase (w_isolate u') = Running" using RunFromLibrary_moves by (force simp: moves_phase_def)
  with last show ?thesis
    by (auto simp: AddIsolateShutdownCallback_def effect_isolate_def split: option.splits)
qed

lemma isolate_Shutdown_removes:
  assumes "vm_conforms api live" "vm_at api live None i L w" "phase (w_isolate w) \<noteq> Shutdown"
  shows "\<exists>w'. isolate_Shutdown api w = Inr (True, w') \<and> api_CurrentIsolate api (w_vm w') = None \<and>
    live (w_vm w') = L - {i}"
proof -
  define u where "u = w\<lparr>w_isolate := (w_isolate w)\<lparr>phase := Shutdown\<rparr>,
    w_vm := api_EnterIsolate api i (w_vm w)\<rparr>"
  have "vm_at api live (Some i) i L u"
    using assms(1,2) by (simp add: u_def vm_at_def vm_conforms_def)
  from vm_ShutdownIsolate_removes [OF assms(1) this] assms(2,3) show ?thesis
    by (auto simp: isolate_Shutdown_def Let_def vm_at_def u_def)
qed

lemma prepare_and_run_not_shut_down:
  assumes "prepare_and_run api settings config run w = Inr (ok, w')" "phase (w_isolate w) \<noteq> Shutdown"
  shows "phase (w_isolate w') \<noteq> Shutdown"
proof -
  define alive where "alive = (\<lambda>a :: 'a operation. \<forall>w ok w'. a w = Inr (ok, w') \<longrightarrow>
    phase (w_isolate w) \<noteq> Shutdown \<longrightarrow> phase (w_isolate w') \<noteq> Shutdown)"
  have steps: "alive (steps [])" "alive a \<Longrightarrow> alive (steps as) \<Longrightarrow> alive (steps (a # as))" for a as
    unfolding alive_def steps_Cons_Inr by auto
  have keeps: "keeps_phase a \<Longrightarrow> alive a" for a
    by (simp add: alive_def keeps_phase_def)
  have prepare: "alive (\<lambda>w. bindR (PrepareIsolate api config w) (\<lambda>(ok, _, w). Inr (ok, w)))"
    unfolding alive_def by (fastforce simp: bindR_eq_Inr_iff dest!: PrepareIsolate_phase)
  have run: "alive (RunFromLibrary api a b c d)" for a b c d
    using RunFromLibrary_moves [of api a b c d] unfolding alive_def moves_phase_def
    by (metis Phase.distinct(41))
  have close: "alive (\<lambda>w. Inr (True, call_closure k w))"
    "keeps_phase (\<lambda>w. Inr (True, call_closure k w))"
    "alive (\<lambda>w. case k of None \<Rightarrow> Inr (True, w) | Some c \<Rightarrow> AddIsolateShutdownCallback c w)" for k
    by (auto simp: alive_def keeps_phase_def call_closure_def AddIsolateShutdownCallback_def
        effect_isolate_def split: option.splits)
  have "alive (prepare_and_run api settings config run)"
    unfolding prepare_and_run_def
    by (intro steps prepare run close keeps phase_intros)
  then show ?thesis using assms by (simp add: alive_def)
qed

text \<open>The part of \<open>CreateRunningRootIsolate\<close> behind \<open>shutdown_on_error\<close>.\<close>

lemma run_or_shut_down:
  assumes "vm_conforms api live" "fresh_configuration config"
    and u: "i \<notin> L" "phase (w_isolate u) = LibrariesSetup" "vm_at api live None i (insert i L) u"
  shows "\<exists>ok w'. bindR (prepare_and_run api settings config run u) (\<lambda>(ok, w).
      if ok then Inr (True, w) else bindR (isolate_Shutdown api w) (\<lambda>(_, w). Inr (False, w))) =
        Inr (ok, w') \<and> api_CurrentIsolate api (w_vm w') = None \<and>
    (if ok then phase (w_isolate w') = Running \<and> vm_at api live None i (insert i L) w'
     else live (w_vm w') = L)"
proof -
  from staysD [OF stays_prepare_and_run [OF assms(1,2)] u(3)] obtain ok w' where
    p: "prepare_and_run api settings config run u = Inr (ok, w')"
      "vm_at api live None i (insert i L) w'" by blast
  have "phase (w_isolate w') \<noteq> Shutdown"
    using prepare_and_run_not_shut_down [OF p(1)] u(2) by simp
  from isolate_Shutdown_removes [OF assms(1) p(2) this] obtain w'' where
    q: "isolate_Shutdown api w' = Inr (True, w'')" "api_CurrentIsolate api (w_vm w'') = None"
      "live (w_vm w'') = L" using u(1) by auto
  show ?thesis
  proof (cases ok)
    case True
    then show ?thesis
      using p prepare_and_run_running [of api settings config run u w']
      by (intro exI [of _ True] exI [of _ w']) (simp add: vm_at_def)
  next
    case False
    then show ?thesis using p(1) q by (intro exI [of _ False] exI [of _ w'']) simp
  qed
qed

lemma CreateRunningRootIsolate_result:
  assumes "vm_conforms api live" "api_CurrentIsolate api (w_vm w) = None"
    and "\<And>config. configuration = Some config \<Longrightarrow> fresh_configuration config"
  shows "\<exists>ok w'. CreateRunningRootIsolate api settings snapshot args configuration run w = Inr (ok, w') \<and>
    api_CurrentIsolate api (w_vm w') = None \<and>
    (if ok then phase (w_isolate w') = Running \<and>
       (\<exists>i. i \<notin> live (w_vm w) \<and> vm_at api live None i (insert i (live (w_vm w))) w')
     else live (w_vm w') = live (w_vm w))"
proof (cases "snapshot = None \<or> configuration = None")
  case True
  then show ?thesis using assms(2)
    by (intro exI [of _ False] exI [of _ w])
      (auto simp: CreateRunningRootIsolate_def split: option.split)
next
  case False
  then obtain sn config where c: "snapshot = Some sn" "configuration = Some config" by auto
  from IsNullSafetyEnabled_fresh [OF assms(3) [OF c(2)], of sn] obtain b config' where
    n: "IsNullSafetyEnabled sn config = Inr (b, config')" "fresh_configuration config'" by blast
  define args' where "args' = args\<lparr>arg_flags := (arg_flags args)\<lparr>null_safety := b,
    snapshot_is_dontneed_safe := snapshot_IsDontNeedSafe sn\<rparr>\<rparr>"
  from CreateRootIsolate_result [OF assms(1,2), of args'] obtain made u where
    r: "CreateRootIsolate api args' w = Inr (made, u)" "creation_result api live (w_vm w) made u" by blast
  note unfolded = CreateRunningRootIsolate_def c n(1) r(1) [unfolded args'_def]
  show ?thesis
  proof (cases made)
    case False
    with r show ?thesis by (auto simp: unfolded creation_result_def)
  next
    case True
    with r(2) obtain i where i: "i \<notin> live (w_vm w)" "phase (w_isolate u) = LibrariesSetup"
      "vm_at api live None i (insert i (live (w_vm w))) u" by (auto simp: creation_result_def)
    from run_or_shut_down [OF assms(1) n(2) i, of settings run] obtain ok w' where
      "CreateRunningRootIsolate api settings snapshot args configuration run w = Inr (ok, w')"
      and w': "api_CurrentIsolate api (w_vm w') = None"
        "if ok then phase (w_isolate w') = Running \<and> vm_at api live None i (insert i (live (w_vm w))) w'
         else live (w_vm w') = live (w_vm w)"
      using True by (simp add: unfolded) blast
    then show ?thesis using i(1) by (intro exI [of _ ok] exI [of _ w']) (cases ok; auto)
  qed
qed

text \<open>
  C7: creating and running a root isolate returns, on every path, with no isolate current on the
  thread. When it succeeds the isolate is running and is the one isolate that was added to the VM;
  when it fails, at whatever step, the VM has the live isolates it had before: the isolate that was
  made for it has been shut down.
\<close>

theorem root_isolate_runs_or_is_gone:
  assumes "vm_conforms api live" "api_CurrentIsolate api (w_vm w) = None"
    and "\<And>config. configuration = Some config \<Longrightarrow> fresh_configuration config"
  shows "\<exists>ok w'. CreateRunningRootIsolate api settings snapshot args configuration run w = Inr (ok, w') \<and>
    api_CurrentIsolate api (w_vm w') = None \<and>
    (if ok then phase (w_isolate w') = Running \<and>
       (\<exists>i. isolate (w_isolate w') = Some i \<and> i \<notin> live (w_vm w) \<and>
            live (w_vm w') = insert i (live (w_vm w)))
     else live (w_vm w') = live (w_vm w))"
proof -
  from CreateRunningRootIsolate_result [OF assms, of configuration settings snapshot args run] obtain ok w' where
    "CreateRunningRootIsolate api settings snapshot args configuration run w = Inr (ok, w')"
    "api_CurrentIsolate api (w_vm w') = None"
    "if ok then phase (w_isolate w') = Running \<and>
       (\<exists>i. i \<notin> live (w_vm w) \<and> vm_at api live None i (insert i (live (w_vm w))) w')
     else live (w_vm w') = live (w_vm w)" by blast
  then show ?thesis by (intro exI [of _ ok] exI [of _ w']) (cases ok; auto simp: vm_at_def)
qed

section \<open>Platform isolates\<close>

lemma shutdown_loop:
  assumes "vm_conforms api live" "api_CurrentIsolate api v = None" "is_shutdown m"
  shows "\<exists>v'. fold (\<lambda>i (m, v).
         let v = api_EnterIsolate api i v;
             m = (if api_ShutdownCallsBack api v then RemovePlatformIsolate i m else m) in
         (m, api_ShutdownIsolate api v)) is (m, v) = (m, v') \<and>
      api_CurrentIsolate api v' = None \<and> live v' = live v - set is"
  using assms(2)
proof (induction "is" arbitrary: v)
  case Nil
  then show ?case by simp
next
  case (Cons i "is")
  define u where "u = api_ShutdownIsolate api (api_EnterIsolate api i v)"
  have "api_CurrentIsolate api u = None" "live u = live v - {i}"
    using assms(1) Cons.prems by (simp_all add: vm_conforms_def u_def)
  with Cons.IH [of u] assms(3) show ?case
    by (auto simp: u_def RemovePlatformIsolate_def Let_def)
qed

lemma ShutdownPlatformIsolates_result:
  assumes "vm_conforms api live" "api_CurrentIsolate api v = None"
  shows "\<exists>v'. ShutdownPlatformIsolates api m v = (m\<lparr>is_shutdown := True, platform_isolates := []\<rparr>, v') \<and>
    api_CurrentIsolate api v' = None \<and> live v' = live v - set (platform_isolates m)"
  using shutdown_loop [OF assms, of "m\<lparr>is_shutdown := True, platform_isolates := []\<rparr>" "platform_isolates m"]
  unfolding ShutdownPlatformIsolates_def by simp

text \<open>
  Shutting the platform isolates down ends every registered isolate in the VM and no other,
  leaves none registered and no isolate current, and from then on every registration is refused,
  although each isolate calls the manager back to be removed while the loop is running.
\<close>

theorem platform_isolates_shut_down:
  assumes "vm_conforms api live" "api_CurrentIsolate api v = None"
  shows "case ShutdownPlatformIsolates api m v of (m', v') \<Rightarrow>
    live v' = live v - set (platform_isolates m) \<and> api_CurrentIsolate api v' = None \<and>
    platform_isolates m' = [] \<and> RegisterPlatformIsolate i m' = (False, m')"
proof -
  obtain v' where "ShutdownPlatformIsolates api m v = (m\<lparr>is_shutdown := True, platform_isolates := []\<rparr>, v')"
    "api_CurrentIsolate api v' = None" "live v' = live v - set (platform_isolates m)"
    using ShutdownPlatformIsolates_result [OF assms] by blast
  then show ?thesis by (simp add: RegisterPlatformIsolate_def)
qed

definition example_settings :: isolate_settings where
  "example_settings = \<lparr>merged_platform_ui_thread = kEnabled, root_isolate_create_callback = None,
     root_isolate_shutdown_callback = Some 7\<rparr>"

definition example_snapshot :: DartSnapshot where
  "example_snapshot = \<lparr>snapshot_IsNullSafetyEnabled = (\<lambda>_. True), snapshot_IsDontNeedSafe = True\<rparr>"

definition example_args :: root_arguments where
  "example_args = \<lparr>arg_flags = \<lparr>null_safety = True, snapshot_is_dontneed_safe = False,
       load_vmservice_library = False\<rparr>,
     arg_runners = no_runners ''app'', arg_uri = ''main.dart'', arg_entrypoint = ''main'',
     arg_create_callback = None, arg_shutdown_callback = None, arg_platform_configuration = Some 1,
     arg_spawning = None\<rparr>"

definition example_run :: run_arguments where
  "example_run = \<lparr>run_registrant = None, run_library = None, run_entrypoint = None, run_args = [],
     run_create_callback = None\<rparr>"

text \<open>A VM that keeps the contract, entered in turn by the isolates it has numbered.\<close>

definition example_live :: "example_vm \<Rightarrow> Dart_Isolate set" where
  "example_live v = {i. i < vm_next v \<and> i \<notin> set (vm_dead v)}"

lemma example_conforms: "vm_conforms example_api example_live"
  by (auto simp: vm_conforms_def vm_creates_def vm_frames_def vm_frame_def example_api_def example_live_def)

theorem root_isolate_runs_or_is_gone_witness:
  "\<exists>ok w'. CreateRunningRootIsolate example_api example_settings (Some example_snapshot) example_args
       (Some AppSnapshotIsolateConfiguration) example_run example_world = Inr (ok, w') \<and>
     api_CurrentIsolate example_api (w_vm w') = None \<and>
     (if ok then phase (w_isolate w') = Running \<and>
        (\<exists>i. isolate (w_isolate w') = Some i \<and> i \<notin> example_live (w_vm example_world) \<and>
             example_live (w_vm w') = insert i (example_live (w_vm example_world)))
      else example_live (w_vm w') = example_live (w_vm example_world))"
  by (rule root_isolate_runs_or_is_gone [OF example_conforms])
    (simp_all add: example_world_def example_api_def)

theorem platform_isolates_shut_down_witness:
  "case ShutdownPlatformIsolates example_api \<lparr>is_shutdown = False, platform_isolates = [0, 1]\<rparr>
      (w_vm example_world) of (m', v') \<Rightarrow>
    example_live v' = example_live (w_vm example_world) - {0, 1} \<and> vm_current v' = None \<and>
    platform_isolates m' = [] \<and> RegisterPlatformIsolate 5 m' = (False, m')"
proof -
  have "api_CurrentIsolate example_api = vm_current" by (simp add: example_api_def)
  with platform_isolates_shut_down [OF example_conforms, of "w_vm example_world"
      "\<lparr>is_shutdown = False, platform_isolates = [0, 1]\<rparr>" 5]
  show ?thesis by (simp add: example_world_def)
qed

end
