(* ===== verification/Runtime_Controller.thy ===== *)
theory Runtime_Controller
  imports Isolate_Creation
begin

text \<open>
  The runtime controller of an engine (\<open>runtime/runtime_controller.cc\<close>): it launches the root isolate and
  holds it weakly, shuts it down when it goes, and forwards to the platform configuration of the isolate
  (\<open>lib/ui/window/platform_configuration.cc\<close>), which calls the Dart functions of \<open>dart:ui\<close> and keeps the
  responses that Dart code owes. The isolate of the world is the root isolate; its \<open>shared_ptr\<close> goes away
  when the VM has shut it down, so the weak pointer can be locked as long as it is not in the phase
  \<open>Shutdown\<close>. The weak pointer to a spawning isolate is the id of that isolate, which is taken to be alive at
  the launch of the spawned one, as the shell that spawns holds it. The \<open>int\<close> that numbers the responses is unbounded, exact
  for fewer than \<open>2\<^sup>3\<^sup>1 - 1\<close> responses. The calls of the Dart C API that occur here and not in the isolates are in \<open>ui_api\<close>.
\<close>

section \<open>State\<close>

record 'v ui_api =
  ui_InvokeClosure :: "Dart_Handle \<Rightarrow> Dart_Handle list \<Rightarrow> 'v \<Rightarrow> Dart_Handle \<times> 'v"
  ui_IntToDart :: "int \<Rightarrow> 'v \<Rightarrow> Dart_Handle"
  ui_ByteData :: "fml_mapping \<Rightarrow> 'v \<Rightarrow> Dart_Handle \<times> 'v"
  ui_NotifyIdle :: "int \<Rightarrow> 'v \<Rightarrow> 'v"
  ui_TimelineGetMicros :: "'v \<Rightarrow> int"
  ui_HasLivePorts :: "'v \<Rightarrow> bool"
  ui_CurrentIsolateGroup :: "'v \<Rightarrow> nat"

text \<open>A persistent value that was never set has no Dart state; a response is an object of the platform.\<close>

record PlatformConfiguration =
  on_error :: "Dart_Handle option"
  set_engine_id :: "Dart_Handle option"
  update_locales :: "Dart_Handle option"
  dispatch_platform_message :: "Dart_Handle option"
  invoke_hot_restart_listeners :: "Dart_Handle option"
  next_response_id :: int
  pending_responses :: "int \<rightharpoonup> nat"
  completed_responses :: "(nat \<times> fml_mapping option) list"

definition PlatformConfiguration_new :: PlatformConfiguration where
  "PlatformConfiguration_new =
     \<lparr>on_error = None, set_engine_id = None, update_locales = None, dispatch_platform_message = None,
      invoke_hot_restart_listeners = None, next_response_id = 1, pending_responses = Map.empty, completed_responses = []\<rparr>"

record PlatformMessage =
  pm_channel :: string
  pm_data :: "fml_mapping option"
  pm_response :: "nat option"

datatype client_call =
    OnRootIsolateCreated
  | Client_HandlePlatformMessage PlatformMessage
  | Client_UpdateIsolateDescription string int
  | Client_SendChannelUpdate string bool
  | Client_RequestDartDeferredLibrary int
  | Client_SetPlatformMessageHandler
  | Idle_notification int

record RuntimeController =
  rc_isolate_snapshot :: "DartSnapshot option"
  rc_idle_notification_callback :: bool
  rc_locale_data :: "string list"
  rc_isolate_create_callback :: "closure option"
  rc_isolate_shutdown_callback :: "closure option"
  rc_persistent_isolate_data :: "fml_mapping option"
  rc_runners :: TaskRunners
  rc_uri :: string
  rc_entrypoint :: string
  rc_root_isolate :: bool
  rc_spawning_isolate :: "Dart_Isolate option"
  rc_return_code_callback :: bool
  rc_root_isolate_return_code :: "32 word option"
  rc_has_flushed_runtime_state :: bool
  rc_client_calls :: "client_call list"

record 'v runtime_world =
  rw_controller :: RuntimeController
  rw_isolates :: "'v isolate_world"
  rw_configuration :: PlatformConfiguration

abbreviation root_isolate :: "'v runtime_world \<Rightarrow> DartIsolate" where
  "root_isolate x \<equiv> w_isolate (rw_isolates x)"

definition isolate_alive :: "'v runtime_world \<Rightarrow> bool" where
  "isolate_alive x \<longleftrightarrow> phase (root_isolate x) \<noteq> Shutdown"

definition root_isolate_lock :: "'v runtime_world \<Rightarrow> bool" where
  "root_isolate_lock x \<longleftrightarrow> rc_root_isolate (rw_controller x) \<and> isolate_alive x"

definition on_controller :: "(RuntimeController \<Rightarrow> RuntimeController) \<Rightarrow> 'v runtime_world \<Rightarrow> 'v runtime_world" where
  "on_controller f x = x\<lparr>rw_controller := f (rw_controller x)\<rparr>"

definition tell_client :: "client_call \<Rightarrow> 'v runtime_world \<Rightarrow> 'v runtime_world" where
  "tell_client c = on_controller (\<lambda>r. r\<lparr>rc_client_calls := rc_client_calls r @ [c]\<rparr>)"

text \<open>\<open>tonic::DartState::Scope\<close> on the root isolate.\<close>

definition in_state_scope ::
  "'v dart_api \<Rightarrow> ('v runtime_world \<Rightarrow> 'v runtime_world) \<Rightarrow> 'v runtime_world \<Rightarrow> 'v runtime_world" where
  "in_state_scope api body x =
     (let target = isolate (root_isolate x);
          previous = api_CurrentIsolate api (w_vm (rw_isolates x));
          x = body (x\<lparr>rw_isolates := (rw_isolates x)\<lparr>w_vm := scope_enter api target (w_vm (rw_isolates x))\<rparr>\<rparr>)
      in x\<lparr>rw_isolates := (rw_isolates x)\<lparr>w_vm := scope_leave api target previous (w_vm (rw_isolates x))\<rparr>\<rparr>)"

definition on_vm :: "('v \<Rightarrow> 'v) \<Rightarrow> 'v runtime_world \<Rightarrow> 'v runtime_world" where
  "on_vm f x = x\<lparr>rw_isolates := (rw_isolates x)\<lparr>w_vm := f (w_vm (rw_isolates x))\<rparr>\<rparr>"

section \<open>The platform configuration\<close>

text \<open>\<open>tonic::DartInvoke\<close> reports an error, and its caller reports it once more.\<close>

definition DartInvoke ::
  "'v dart_api \<Rightarrow> 'v ui_api \<Rightarrow> Dart_Handle \<Rightarrow> Dart_Handle list \<Rightarrow> 'v \<Rightarrow> Dart_Handle \<times> 'v" where
  "DartInvoke api ui closure args v =
     (let (handle, v) = ui_InvokeClosure ui closure args v
      in (handle, snd (CheckAndHandleError api handle v)))"

definition invoke_and_check ::
  "'v dart_api \<Rightarrow> 'v ui_api \<Rightarrow> Dart_Handle \<Rightarrow> ('v \<Rightarrow> Dart_Handle list) \<Rightarrow> 'v \<Rightarrow> 'v" where
  "invoke_and_check api ui closure args v =
     (let (handle, v) = DartInvoke api ui closure (args v) v
      in snd (CheckAndHandleError api handle v))"

definition ui_field :: "'v dart_api \<Rightarrow> string \<Rightarrow> 'v \<Rightarrow> Dart_Handle \<times> 'v" where
  "ui_field api name v =
     api_GetField api (api_LookupLibrary api (api_ToDart api ''dart:ui'' v) v) (api_ToDart api name v) v"

text \<open>\<open>DidCreateIsolate\<close> reads the functions of \<open>dart:ui\<close>, one after the other.\<close>

definition DidCreateIsolate :: "'v dart_api \<Rightarrow> 'v runtime_world \<Rightarrow> 'v runtime_world" where
  "DidCreateIsolate api x =
     (let v = w_vm (rw_isolates x);
          (e, v) = ui_field api ''_onError'' v;
          (i, v) = ui_field api ''_setEngineId'' v;
          (l, v) = ui_field api ''_updateLocales'' v;
          (d, v) = ui_field api ''_dispatchPlatformMessage'' v;
          (h, v) = ui_field api ''_invokeHotRestartListeners'' v
      in x\<lparr>rw_isolates := (rw_isolates x)\<lparr>w_vm := v\<rparr>,
           rw_configuration := (rw_configuration x)\<lparr>on_error := Some e, set_engine_id := Some i,
             update_locales := Some l, dispatch_platform_message := Some d, invoke_hot_restart_listeners := Some h\<rparr>\<rparr>)"

text \<open>The pattern of the calls into Dart: nothing without the state of the closure, else the call in its scope.\<close>

definition call_dart ::
  "'v dart_api \<Rightarrow> 'v ui_api \<Rightarrow> Dart_Handle option \<Rightarrow> ('v \<Rightarrow> Dart_Handle list) \<Rightarrow> 'v runtime_world \<Rightarrow> bool \<times> 'v runtime_world" where
  "call_dart api ui closure args x =
     (case closure of
        None \<Rightarrow> (False, x)
      | Some c \<Rightarrow>
          if \<not> isolate_alive x then (False, x)
          else (True, in_state_scope api (on_vm (invoke_and_check api ui c args)) x))"

definition SetEngineId :: "'v dart_api \<Rightarrow> 'v ui_api \<Rightarrow> int \<Rightarrow> 'v runtime_world \<Rightarrow> bool \<times> 'v runtime_world" where
  "SetEngineId api ui engine_id x =
     call_dart api ui (set_engine_id (rw_configuration x)) (\<lambda>v. [ui_IntToDart ui engine_id v]) x"

definition InvokeHotRestartListeners :: "'v dart_api \<Rightarrow> 'v ui_api \<Rightarrow> 'v runtime_world \<Rightarrow> 'v runtime_world" where
  "InvokeHotRestartListeners api ui x =
     snd (call_dart api ui (invoke_hot_restart_listeners (rw_configuration x)) (\<lambda>v. []) x)"

definition UpdateLocales :: "'v dart_api \<Rightarrow> 'v ui_api \<Rightarrow> string list \<Rightarrow> 'v runtime_world \<Rightarrow> 'v runtime_world" where
  "UpdateLocales api ui locales x =
     snd (call_dart api ui (update_locales (rw_configuration x)) (\<lambda>v. [api_ToDartList api locales v]) x)"

text \<open>The response is stored under a new number before Dart code gets to see the message; 0 stands for no response.\<close>

definition store_response :: "PlatformMessage \<Rightarrow> PlatformConfiguration \<Rightarrow> int \<times> PlatformConfiguration" where
  "store_response message c =
     (case pm_response message of
        None \<Rightarrow> (0, c)
      | Some r \<Rightarrow>
          (next_response_id c,
           c\<lparr>next_response_id := next_response_id c + 1,
             pending_responses := (pending_responses c)(next_response_id c \<mapsto> r)\<rparr>))"

definition configuration_DispatchPlatformMessage ::
  "'v dart_api \<Rightarrow> 'v ui_api \<Rightarrow> PlatformMessage \<Rightarrow> 'v runtime_world \<Rightarrow> 'v runtime_world" where
  "configuration_DispatchPlatformMessage api ui message x =
     (case dispatch_platform_message (rw_configuration x) of
        None \<Rightarrow> x
      | Some c \<Rightarrow>
          if \<not> isolate_alive x then x
          else in_state_scope api (\<lambda>x.
            let (data_handle, v) =
                  (case pm_data message of
                     None \<Rightarrow> (api_Null api, w_vm (rw_isolates x))
                   | Some d \<Rightarrow> ui_ByteData ui d (w_vm (rw_isolates x)));
                x = on_vm (\<lambda>_. v) x
            in if data_handle = None then x
               else
                 let (response_id, conf) = store_response message (rw_configuration x)
                 in on_vm (invoke_and_check api ui c (\<lambda>v.
                      [api_ToDart api (pm_channel message) v, data_handle, ui_IntToDart ui response_id v]))
                      (x\<lparr>rw_configuration := conf\<rparr>)) x)"

definition complete_response :: "int \<Rightarrow> fml_mapping option \<Rightarrow> PlatformConfiguration \<Rightarrow> PlatformConfiguration" where
  "complete_response response_id data c =
     (if response_id = 0 then c
      else case pending_responses c response_id of
        None \<Rightarrow> c
      | Some r \<Rightarrow> c\<lparr>pending_responses := (pending_responses c)(response_id := None),
                    completed_responses := completed_responses c @ [(r, data)]\<rparr>)"

definition CompletePlatformMessageEmptyResponse :: "int \<Rightarrow> PlatformConfiguration \<Rightarrow> PlatformConfiguration" where
  "CompletePlatformMessageEmptyResponse response_id = complete_response response_id None"

definition CompletePlatformMessageResponse :: "int \<Rightarrow> fml_mapping \<Rightarrow> PlatformConfiguration \<Rightarrow> PlatformConfiguration" where
  "CompletePlatformMessageResponse response_id data = complete_response response_id (Some data)"

text \<open>The native function that Dart code calls to respond.\<close>

definition RespondToPlatformMessage :: "int \<Rightarrow> fml_mapping option \<Rightarrow> PlatformConfiguration \<Rightarrow> PlatformConfiguration" where
  "RespondToPlatformMessage response_id data =
     (case data of
        None \<Rightarrow> CompletePlatformMessageEmptyResponse response_id
      | Some d \<Rightarrow> CompletePlatformMessageResponse response_id d)"

section \<open>The controller\<close>

definition GetPlatformConfigurationIfAvailable :: "'v runtime_world \<Rightarrow> bool" where
  "GetPlatformConfigurationIfAvailable x \<longleftrightarrow> root_isolate_lock x \<and> platform_configuration (root_isolate x) \<noteq> None"

definition IsRootIsolateRunning :: "'v runtime_world \<Rightarrow> bool" where
  "IsRootIsolateRunning x = (if root_isolate_lock x then phase (root_isolate x) = Running else False)"

definition SetLocales :: "'v dart_api \<Rightarrow> 'v ui_api \<Rightarrow> string list \<Rightarrow> 'v runtime_world \<Rightarrow> bool \<times> 'v runtime_world" where
  "SetLocales api ui locale_data x =
     (let x = on_controller (\<lambda>r. r\<lparr>rc_locale_data := locale_data\<rparr>) x
      in if GetPlatformConfigurationIfAvailable x then (True, UpdateLocales api ui locale_data x) else (False, x))"

definition FlushRuntimeStateToIsolate :: "'v dart_api \<Rightarrow> 'v ui_api \<Rightarrow> 'v runtime_world \<Rightarrow> bool \<times> 'v runtime_world" where
  "FlushRuntimeStateToIsolate api ui x =
     (let x = on_controller (\<lambda>r. r\<lparr>rc_has_flushed_runtime_state := True\<rparr>) x
      in if \<not> GetPlatformConfigurationIfAvailable x then (False, x)
         else SetLocales api ui (rc_locale_data (rw_controller x)) x)"

definition rc_DispatchPlatformMessage ::
  "'v dart_api \<Rightarrow> 'v ui_api \<Rightarrow> PlatformMessage \<Rightarrow> 'v runtime_world \<Rightarrow> bool \<times> 'v runtime_world" where
  "rc_DispatchPlatformMessage api ui message x =
     (if GetPlatformConfigurationIfAvailable x then (True, configuration_DispatchPlatformMessage api ui message x)
      else (False, x))"

text \<open>Times in microseconds; \<open>latency\<close> is the performance mode that Dart code asked for.\<close>

definition NotifyIdle :: "'v dart_api \<Rightarrow> 'v ui_api \<Rightarrow> bool \<Rightarrow> int \<Rightarrow> 'v runtime_world \<Rightarrow> bool \<times> 'v runtime_world" where
  "NotifyIdle api ui latency deadline x =
     (if deadline - ui_TimelineGetMicros ui (w_vm (rw_isolates x)) < 1000 then (False, x)
      else if \<not> root_isolate_lock x then (False, x)
      else (\<not> latency, in_state_scope api (\<lambda>x.
        if latency then x
        else
          let x = on_vm (ui_NotifyIdle ui deadline) x
          in if rc_idle_notification_callback (rw_controller x) then tell_client (Idle_notification deadline) x else x) x))"

definition HasLivePorts :: "'v dart_api \<Rightarrow> 'v ui_api \<Rightarrow> 'v runtime_world \<Rightarrow> bool" where
  "HasLivePorts api ui x \<longleftrightarrow> root_isolate_lock x \<and>
     ui_HasLivePorts ui (scope_enter api (isolate (root_isolate x)) (w_vm (rw_isolates x)))"

definition GetRootIsolateGroup :: "'v dart_api \<Rightarrow> 'v ui_api \<Rightarrow> 'v runtime_world \<Rightarrow> nat" where
  "GetRootIsolateGroup api ui x =
     (if root_isolate_lock x
      then ui_CurrentIsolateGroup ui (scope_enter api (isolate (root_isolate x)) (w_vm (rw_isolates x))) else 0)"

definition HandlePlatformMessage :: "PlatformMessage \<Rightarrow> 'v runtime_world \<Rightarrow> 'v runtime_world" where
  "HandlePlatformMessage message = tell_client (Client_HandlePlatformMessage message)"

definition UpdateIsolateDescription :: "string \<Rightarrow> int \<Rightarrow> 'v runtime_world \<Rightarrow> 'v runtime_world" where
  "UpdateIsolateDescription name port = tell_client (Client_UpdateIsolateDescription name port)"

definition SendChannelUpdate :: "string \<Rightarrow> bool \<Rightarrow> 'v runtime_world \<Rightarrow> 'v runtime_world" where
  "SendChannelUpdate name listening = tell_client (Client_SendChannelUpdate name listening)"

definition RequestDartDeferredLibrary :: "int \<Rightarrow> 'v runtime_world \<Rightarrow> 'v runtime_world" where
  "RequestDartDeferredLibrary loading_unit_id = tell_client (Client_RequestDartDeferredLibrary loading_unit_id)"

text \<open>The deferred libraries are loaded without looking whether the root isolate is there.\<close>

definition on_root_isolate :: "'v operation \<Rightarrow> 'v runtime_world \<Rightarrow> 'v runtime_world res" where
  "on_root_isolate a x =
     (if \<not> root_isolate_lock x then Inl Undefined
      else bindR (a (rw_isolates x)) (\<lambda>(_, w). Inr (x\<lparr>rw_isolates := w\<rparr>)))"

definition LoadDartDeferredLibrary ::
  "'v dart_api \<Rightarrow> int \<Rightarrow> fml_mapping \<Rightarrow> fml_mapping \<Rightarrow> 'v runtime_world \<Rightarrow> 'v runtime_world res" where
  "LoadDartDeferredLibrary api unit data instructions = on_root_isolate (LoadLoadingUnit api unit data instructions)"

definition LoadDartDeferredLibraryError :: "'v dart_api \<Rightarrow> int \<Rightarrow> 'v runtime_world \<Rightarrow> 'v runtime_world res" where
  "LoadDartDeferredLibraryError api unit = on_root_isolate (LoadLoadingUnitError api unit)"

definition rc_ShutdownPlatformIsolates :: "'v dart_api \<Rightarrow> 'v runtime_world \<Rightarrow> 'v runtime_world" where
  "rc_ShutdownPlatformIsolates api x =
     (let w = rw_isolates x;
          (m, v) = ShutdownPlatformIsolates api (w_platform_isolates w) (w_vm w)
      in x\<lparr>rw_isolates := w\<lparr>w_platform_isolates := m, w_vm := v\<rparr>\<rparr>)"

definition SetRootIsolateOwnerToCurrentThread :: "'v dart_api \<Rightarrow> 'v runtime_world \<Rightarrow> 'v runtime_world" where
  "SetRootIsolateOwnerToCurrentThread api x =
     (if root_isolate_lock x then in_state_scope api (on_vm (api_SetCurrentThreadOwnsIsolate api)) x else x)"

text \<open>The lambda that \<open>LaunchRootIsolate\<close> installs as the return code callback of the isolate.\<close>

definition return_code_callback :: "32 word \<Rightarrow> 'v runtime_world \<Rightarrow> 'v runtime_world" where
  "return_code_callback code x =
     (if rc_return_code_callback (rw_controller x)
      then on_controller (\<lambda>r. r\<lparr>rc_root_isolate_return_code := Some code\<rparr>) x else x)"

subsection \<open>Launching and leaving\<close>

text \<open>The set-up of a root isolate that runs.\<close>

definition set_up_isolate :: "'v dart_api \<Rightarrow> 'v ui_api \<Rightarrow> int option \<Rightarrow> 'v runtime_world \<Rightarrow> 'v runtime_world" where
  "set_up_isolate api ui engine_id x =
     (if GetPlatformConfigurationIfAvailable x
      then in_state_scope api (\<lambda>x.
        let x = snd (FlushRuntimeStateToIsolate api ui (DidCreateIsolate api x))
        in case engine_id of None \<Rightarrow> x | Some n \<Rightarrow> snd (SetEngineId api ui n x)) x
      else x)"

definition root_arguments_of :: "RuntimeController \<Rightarrow> root_arguments" where
  "root_arguments_of r =
     \<lparr>arg_flags = \<lparr>null_safety = False, snapshot_is_dontneed_safe = False, load_vmservice_library = False\<rparr>,
      arg_runners = rc_runners r, arg_uri = rc_uri r, arg_entrypoint = rc_entrypoint r,
      arg_create_callback = rc_isolate_create_callback r, arg_shutdown_callback = rc_isolate_shutdown_callback r,
      arg_platform_configuration = Some 0, arg_spawning = rc_spawning_isolate r\<rparr>"

text \<open>The weak pointer that could not be locked stays as it is, whatever isolate the world has next.\<close>

definition LaunchRootIsolate ::
  "'v dart_api \<Rightarrow> 'v ui_api \<Rightarrow> isolate_settings \<Rightarrow> run_arguments \<Rightarrow> IsolateConfiguration option \<Rightarrow> int option \<Rightarrow>
   'v runtime_world \<Rightarrow> (bool \<times> 'v runtime_world) res" where
  "LaunchRootIsolate api ui settings run configuration engine_id x =
     (if root_isolate_lock x then Inr (False, x)
      else
        let r = rw_controller x
        in bindR (CreateRunningRootIsolate api settings (rc_isolate_snapshot r) (root_arguments_of r)
               configuration run (rw_isolates x)) (\<lambda>(ok, w).
             let x = on_controller (\<lambda>r. r\<lparr>rc_root_isolate := False\<rparr>)
                   (x\<lparr>rw_isolates := w, rw_configuration := PlatformConfiguration_new\<rparr>)
             in if \<not> ok then Inr (False, x)
                else
                  let x = tell_client Client_SetPlatformMessageHandler x;
                      x = on_controller (\<lambda>r. r\<lparr>rc_root_isolate := True, rc_return_code_callback := True\<rparr>) x;
                      x = set_up_isolate api ui engine_id x
                  in Inr (True, tell_client OnRootIsolateCreated x)))"

definition RuntimeController_delete :: "'v dart_api \<Rightarrow> 'v runtime_world \<Rightarrow> 'v runtime_world res" where
  "RuntimeController_delete api x =
     (if root_isolate_lock x
      then bindR (isolate_Shutdown api (rw_isolates x)) (\<lambda>(_, w).
        Inr (on_controller (\<lambda>r. r\<lparr>rc_return_code_callback := False, rc_root_isolate := False\<rparr>) (x\<lparr>rw_isolates := w\<rparr>)))
      else Inr x)"

text \<open>A controller for another isolate: a clone, or one whose isolate joins the group of this one.\<close>

definition Clone :: "RuntimeController \<Rightarrow> RuntimeController" where
  "Clone r = r\<lparr>rc_root_isolate := False, rc_spawning_isolate := None, rc_return_code_callback := False,
     rc_root_isolate_return_code := None, rc_has_flushed_runtime_state := False\<rparr>"

definition Spawn ::
  "string \<Rightarrow> string \<Rightarrow> bool \<Rightarrow> closure option \<Rightarrow> closure option \<Rightarrow> fml_mapping option \<Rightarrow> 'v runtime_world \<Rightarrow> RuntimeController" where
  "Spawn uri entrypoint idle create_callback shutdown_callback persistent_data x =
     (Clone (rw_controller x))\<lparr>rc_uri := uri, rc_entrypoint := entrypoint, rc_idle_notification_callback := idle,
        rc_isolate_create_callback := create_callback, rc_isolate_shutdown_callback := shutdown_callback,
        rc_persistent_isolate_data := persistent_data,
        rc_spawning_isolate := (if root_isolate_lock x then isolate (root_isolate x) else None)\<rparr>"

section \<open>What the calls into Dart leave alone\<close>

text \<open>The contract of the VM for the calls of this component: they need a current isolate and leave it current.\<close>

definition ui_conforms :: "'v dart_api \<Rightarrow> 'v ui_api \<Rightarrow> ('v \<Rightarrow> Dart_Isolate set) \<Rightarrow> bool" where
  "ui_conforms api ui live \<longleftrightarrow>
     (\<forall>c args. vm_frame api live (\<lambda>v. snd (ui_InvokeClosure ui c args v))) \<and>
     (\<forall>d. vm_frame api live (\<lambda>v. snd (ui_ByteData ui d v))) \<and>
     (\<forall>t. vm_frame api live (ui_NotifyIdle ui t))"

lemma check_frame: "vm_conforms api live \<Longrightarrow> vm_frame api live (\<lambda>v. snd (CheckAndHandleError api h v))"
  using conforms_frames(3) [of api live] by (simp add: CheckAndHandleError_def vm_frame_def)

definition at_isolate ::
  "'v dart_api \<Rightarrow> ('v \<Rightarrow> Dart_Isolate set) \<Rightarrow> Dart_Isolate option \<Rightarrow> Dart_Isolate \<Rightarrow> Dart_Isolate set \<Rightarrow> Phase \<Rightarrow> bool \<Rightarrow>
   'v runtime_world \<Rightarrow> bool" where
  "at_isolate api live c i L p b x \<longleftrightarrow>
     vm_at api live c i L (rw_isolates x) \<and> phase (root_isolate x) = p \<and> rc_root_isolate (rw_controller x) = b"

lemma invoke_frame:
  assumes "vm_conforms api live" "ui_conforms api ui live"
  shows "vm_frame api live (invoke_and_check api ui c args)"
proof -
  have "vm_frame api live (\<lambda>v. snd (ui_InvokeClosure ui c as v))" for as using assms(2) by (simp add: ui_conforms_def)
  with check_frame [OF assms(1)] show ?thesis
    unfolding vm_frame_def invoke_and_check_def DartInvoke_def Let_def case_prod_beta by (simp add: vm_frame_def)
qed

lemma ui_field_frame: "vm_conforms api live \<Longrightarrow> vm_frame api live (\<lambda>v. snd (ui_field api name v))"
  by (simp add: vm_conforms_def vm_frames_def vm_frame_def ui_field_def)

lemma at_on_vm:
  "vm_frame api live f \<Longrightarrow> at_isolate api live (Some j) i L p b x \<Longrightarrow> at_isolate api live (Some j) i L p b (on_vm f x)"
  by (simp add: at_isolate_def vm_at_def on_vm_def vm_frame_def)

lemma at_other [simp]:
  "at_isolate api live c i L p b (x\<lparr>rw_configuration := C\<rparr>) = at_isolate api live c i L p b x"
  "at_isolate api live c i L p b (tell_client m x) = at_isolate api live c i L p b x"
  "at_isolate api live c i L p b (on_controller (\<lambda>r. r\<lparr>rc_locale_data := l\<rparr>) x) = at_isolate api live c i L p b x"
  "at_isolate api live c i L p b (on_controller (\<lambda>r. r\<lparr>rc_has_flushed_runtime_state := fl\<rparr>) x) = at_isolate api live c i L p b x"
  by (simp_all add: at_isolate_def tell_client_def on_controller_def)

lemma at_in_scope:
  assumes "vm_conforms api live" "at_isolate api live c i L p b x" "c \<in> {None, Some i}"
    and body: "\<And>y. at_isolate api live (Some i) i L p b y \<Longrightarrow> at_isolate api live (Some i) i L p b (body y)"
  shows "at_isolate api live c i L p b (in_state_scope api body x)"
proof -
  define y where "y = x\<lparr>rw_isolates := (rw_isolates x)\<lparr>w_vm := scope_enter api (Some i) (w_vm (rw_isolates x))\<rparr>\<rparr>"
  have x: "isolate (root_isolate x) = Some i" "api_CurrentIsolate api (w_vm (rw_isolates x)) = c"
    using assms(2) by (simp_all add: at_isolate_def vm_at_def)
  have "at_isolate api live (Some i) i L p b y"
    using assms(1-3) by (auto simp: y_def at_isolate_def vm_at_def scope_enter_def vm_conforms_def)
  then have "at_isolate api live (Some i) i L p b (body y)" by (rule body)
  then have "at_isolate api live c i L p b ((body y)\<lparr>rw_isolates := (rw_isolates (body y))
      \<lparr>w_vm := scope_leave api (Some i) c (w_vm (rw_isolates (body y)))\<rparr>\<rparr>)"
    using assms(1,3) by (auto simp: at_isolate_def vm_at_def scope_leave_def vm_conforms_def)
  then show ?thesis unfolding in_state_scope_def Let_def x y_def .
qed

lemma at_call_dart:
  assumes "vm_conforms api live" "ui_conforms api ui live" "at_isolate api live c i L p b x" "c \<in> {None, Some i}"
  shows "at_isolate api live c i L p b (snd (call_dart api ui closure args x))"
  using assms(3) at_in_scope [OF assms(1,3,4), of "on_vm (invoke_and_check api ui k args)" for k]
    at_on_vm [OF invoke_frame [OF assms(1,2)]]
  by (simp add: call_dart_def split: option.split)

lemma at_DidCreateIsolate:
  assumes "vm_conforms api live" "at_isolate api live (Some j) i L p b x"
  shows "at_isolate api live (Some j) i L p b (DidCreateIsolate api x)"
  using assms ui_field_frame [OF assms(1)]
  by (simp add: DidCreateIsolate_def Let_def case_prod_beta at_isolate_def vm_at_def vm_frame_def)

lemma at_set_up:
  assumes "vm_conforms api live" "ui_conforms api ui live" "at_isolate api live None i L p b x"
  shows "at_isolate api live None i L p b (set_up_isolate api ui engine_id x)"
proof -
  have locales: "at_isolate api live (Some i) i L p b (snd (SetLocales api ui l y))"
    if "at_isolate api live (Some i) i L p b y" for l y
    using that at_call_dart [OF assms(1,2)] by (simp add: SetLocales_def UpdateLocales_def Let_def)
  then have flush: "at_isolate api live (Some i) i L p b (snd (FlushRuntimeStateToIsolate api ui y))"
    if "at_isolate api live (Some i) i L p b y" for y
    using that by (simp add: FlushRuntimeStateToIsolate_def Let_def)
  have "at_isolate api live (Some i) i L p b (case engine_id of None \<Rightarrow> snd (FlushRuntimeStateToIsolate api ui (DidCreateIsolate api y))
      | Some n \<Rightarrow> snd (SetEngineId api ui n (snd (FlushRuntimeStateToIsolate api ui (DidCreateIsolate api y)))))"
    if "at_isolate api live (Some i) i L p b y" for y
    using flush [OF at_DidCreateIsolate [OF assms(1) that]] at_call_dart [OF assms(1,2)]
    by (simp add: SetEngineId_def split: option.split)
  then show ?thesis
    using at_in_scope [OF assms(1,3)] assms(3) unfolding set_up_isolate_def Let_def by simp
qed

section \<open>One root isolate\<close>

lemma launch_refused:
  "root_isolate_lock x \<Longrightarrow> LaunchRootIsolate api ui settings run configuration engine_id x = Inr (False, x)"
  by (simp add: LaunchRootIsolate_def)

lemma delete_shuts_down:
  assumes "vm_conforms api live" "at_isolate api live None i L Running True x"
  shows "\<exists>x'. RuntimeController_delete api x = Inr x' \<and> api_CurrentIsolate api (w_vm (rw_isolates x')) = None \<and>
    live (w_vm (rw_isolates x')) = L - {i} \<and> \<not> root_isolate_lock x'"
proof -
  have "root_isolate_lock x" using assms(2) by (simp add: at_isolate_def root_isolate_lock_def isolate_alive_def)
  moreover obtain w where "isolate_Shutdown api (rw_isolates x) = Inr (True, w)"
    "api_CurrentIsolate api (w_vm w) = None" "live (w_vm w) = L - {i}"
    using isolate_Shutdown_removes [OF assms(1), of i L "rw_isolates x"] assms(2) by (auto simp: at_isolate_def)
  ultimately show ?thesis
    by (simp add: RuntimeController_delete_def on_controller_def root_isolate_lock_def)
qed

lemma LaunchRootIsolate_result:
  assumes "vm_conforms api live" "ui_conforms api ui live" "api_CurrentIsolate api (w_vm (rw_isolates x)) = None"
    and "\<not> root_isolate_lock x" "pred_option fresh_configuration configuration"
  shows "\<exists>ok x'. LaunchRootIsolate api ui settings run configuration engine_id x = Inr (ok, x') \<and>
    api_CurrentIsolate api (w_vm (rw_isolates x')) = None \<and>
    (if ok then \<exists>i. i \<notin> live (w_vm (rw_isolates x)) \<and> at_isolate api live None i (insert i (live (w_vm (rw_isolates x)))) Running True x'
     else \<not> root_isolate_lock x' \<and> live (w_vm (rw_isolates x')) = live (w_vm (rw_isolates x)))"
proof -
  let ?L = "live (w_vm (rw_isolates x))"
  let ?r = "rw_controller x"
  have fresh: "\<And>config. configuration = Some config \<Longrightarrow> fresh_configuration config" using assms(5) by auto
  obtain ok w where c: "CreateRunningRootIsolate api settings (rc_isolate_snapshot ?r) (root_arguments_of ?r)
      configuration run (rw_isolates x) = Inr (ok, w)" "api_CurrentIsolate api (w_vm w) = None"
    "if ok then phase (w_isolate w) = Running \<and> (\<exists>i. i \<notin> ?L \<and> vm_at api live None i (insert i ?L) w)
     else live (w_vm w) = ?L"
    using CreateRunningRootIsolate_result [OF assms(1,3) fresh, of configuration settings "rc_isolate_snapshot ?r" "root_arguments_of ?r" run]
    by blast
  define x1 where "x1 = on_controller (\<lambda>r. r\<lparr>rc_root_isolate := False\<rparr>)
      (x\<lparr>rw_isolates := w, rw_configuration := PlatformConfiguration_new\<rparr>)"
  define x2 where "x2 = on_controller (\<lambda>r. r\<lparr>rc_root_isolate := True, rc_return_code_callback := True\<rparr>)
      (tell_client Client_SetPlatformMessageHandler x1)"
  define x3 where "x3 = tell_client OnRootIsolateCreated (set_up_isolate api ui engine_id x2)"
  have l: "LaunchRootIsolate api ui settings run configuration engine_id x = Inr (if ok then (True, x3) else (False, x1))"
    using assms(4) c(1) by (simp add: LaunchRootIsolate_def Let_def x1_def x2_def x3_def)
  show ?thesis
  proof (cases ok)
    case False
    with l c(2,3) show ?thesis
      by (intro exI [of _ False] exI [of _ x1]) (simp add: x1_def on_controller_def root_isolate_lock_def)
  next
    case True
    with c(3) obtain i where i: "i \<notin> ?L" "vm_at api live None i (insert i ?L) w" "phase (w_isolate w) = Running" by auto
    then have "at_isolate api live None i (insert i ?L) Running True x2"
      by (simp add: x2_def x1_def at_isolate_def tell_client_def on_controller_def)
    from at_set_up [OF assms(1,2) this, of engine_id] have "at_isolate api live None i (insert i ?L) Running True x3"
      by (simp add: x3_def)
    moreover from this have "api_CurrentIsolate api (w_vm (rw_isolates x3)) = None"
      by (simp add: at_isolate_def vm_at_def)
    ultimately show ?thesis
      using l True i(1) by (intro exI [of _ True] exI [of _ x3]) auto
  qed
qed

lemma at_isolate_running:
  assumes "at_isolate api live c i L Running True x"
  shows "root_isolate_lock x" "IsRootIsolateRunning x" "live (w_vm (rw_isolates x)) = L"
    "api_CurrentIsolate api (w_vm (rw_isolates x)) = c"
  using assms by (simp_all add: at_isolate_def vm_at_def root_isolate_lock_def isolate_alive_def IsRootIsolateRunning_def)

text \<open>
  C17: a runtime controller owns at most one isolate, and takes it with it. Launching the root isolate
  returns on every path with no isolate current on the thread. If it succeeds, the isolate runs, it is the
  one isolate more in the VM, every other launch on the controller is refused and changes nothing, and
  deleting the controller shuts the isolate down, so that the VM has the isolates it had. If it fails the
  VM has them at once, and the controller can launch again.
\<close>

theorem controller_owns_one_isolate:
  assumes "vm_conforms api live" "ui_conforms api ui live" "api_CurrentIsolate api (w_vm (rw_isolates x)) = None"
    and "\<not> root_isolate_lock x" "pred_option fresh_configuration configuration"
  shows "\<exists>ok x'. LaunchRootIsolate api ui settings run configuration engine_id x = Inr (ok, x') \<and>
    api_CurrentIsolate api (w_vm (rw_isolates x')) = None \<and>
    (if ok then IsRootIsolateRunning x' \<and>
       (\<exists>i. i \<notin> live (w_vm (rw_isolates x)) \<and> live (w_vm (rw_isolates x')) = insert i (live (w_vm (rw_isolates x)))) \<and>
       (\<forall>settings run configuration engine_id.
          LaunchRootIsolate api ui settings run configuration engine_id x' = Inr (False, x')) \<and>
       (\<exists>x''. RuntimeController_delete api x' = Inr x'' \<and> \<not> IsRootIsolateRunning x'' \<and>
          api_CurrentIsolate api (w_vm (rw_isolates x'')) = None \<and>
          live (w_vm (rw_isolates x'')) = live (w_vm (rw_isolates x)))
     else \<not> root_isolate_lock x' \<and> live (w_vm (rw_isolates x')) = live (w_vm (rw_isolates x)))"
proof -
  let ?L = "live (w_vm (rw_isolates x))"
  obtain ok x' where l: "LaunchRootIsolate api ui settings run configuration engine_id x = Inr (ok, x')"
    "api_CurrentIsolate api (w_vm (rw_isolates x')) = None"
    "if ok then \<exists>i. i \<notin> ?L \<and> at_isolate api live None i (insert i ?L) Running True x'
     else \<not> root_isolate_lock x' \<and> live (w_vm (rw_isolates x')) = ?L"
    using LaunchRootIsolate_result [OF assms, of settings run engine_id] by blast
  show ?thesis
  proof (cases ok)
    case False
    with l show ?thesis by (intro exI [of _ False] exI [of _ x']) simp
  next
    case True
    with l(3) obtain i where i: "i \<notin> ?L" and at: "at_isolate api live None i (insert i ?L) Running True x'" by auto
    obtain x4 where x4: "RuntimeController_delete api x' = Inr x4" "api_CurrentIsolate api (w_vm (rw_isolates x4)) = None"
      "live (w_vm (rw_isolates x4)) = ?L" "\<not> root_isolate_lock x4"
      using delete_shuts_down [OF assms(1) at] i by auto
    have "\<not> IsRootIsolateRunning x4" using x4(4) by (simp add: IsRootIsolateRunning_def)
    then show ?thesis
      using l True i x4 launch_refused [OF at_isolate_running(1) [OF at]] at_isolate_running(2,3) [OF at]
      by (intro exI [of _ True] exI [of _ x']) auto
  qed
qed

text \<open>A deferred library that arrives after the root isolate is gone dereferences the empty pointer, unless the caller tests for it, as the engine does.\<close>

theorem deferred_library_without_isolate:
  assumes "\<not> root_isolate_lock x"
  shows "LoadDartDeferredLibrary api unit data instructions x = Inl Undefined \<and>
    LoadDartDeferredLibraryError api unit x = Inl Undefined"
  using assms by (simp add: LoadDartDeferredLibrary_def LoadDartDeferredLibraryError_def on_root_isolate_def)

text \<open>A controller of the example VM, for the witness.\<close>

definition example_ui :: "example_vm ui_api" where
  "example_ui = \<lparr>ui_InvokeClosure = (\<lambda>c args v. (Some 0, v)), ui_IntToDart = (\<lambda>n v. Some (nat n)),
     ui_ByteData = (\<lambda>d v. (Some 0, v)), ui_NotifyIdle = (\<lambda>t v. v), ui_TimelineGetMicros = (\<lambda>v. 0),
     ui_HasLivePorts = (\<lambda>v. False), ui_CurrentIsolateGroup = (\<lambda>v. 0)\<rparr>"

definition example_controller :: "example_vm runtime_world" where
  "example_controller =
     \<lparr>rw_controller = \<lparr>rc_isolate_snapshot = Some example_snapshot, rc_idle_notification_callback = False,
        rc_locale_data = [''en''], rc_isolate_create_callback = None, rc_isolate_shutdown_callback = None,
        rc_persistent_isolate_data = None, rc_runners = no_runners ''ui'', rc_uri = ''main.dart'', rc_entrypoint = ''main'',
        rc_root_isolate = False, rc_spawning_isolate = None, rc_return_code_callback = False,
        rc_root_isolate_return_code = None, rc_has_flushed_runtime_state = False, rc_client_calls = []\<rparr>,
      rw_isolates = example_world, rw_configuration = PlatformConfiguration_new\<rparr>"

lemma example_ui_conforms: "ui_conforms example_api example_ui live"
  by (simp add: ui_conforms_def example_ui_def vm_frame_def)

theorem controller_owns_one_isolate_witness:
  "\<exists>ok x'. LaunchRootIsolate example_api example_ui example_settings example_run (Some AppSnapshotIsolateConfiguration)
      (Some 7) example_controller = Inr (ok, x') \<and>
    api_CurrentIsolate example_api (w_vm (rw_isolates x')) = None \<and>
    (ok \<longrightarrow> IsRootIsolateRunning x') \<and>
    (\<not> ok \<longrightarrow> example_live (w_vm (rw_isolates x')) = example_live (w_vm (rw_isolates example_controller)))"
proof -
  have "api_CurrentIsolate example_api (w_vm (rw_isolates example_controller)) = None"
    "\<not> root_isolate_lock example_controller" "pred_option fresh_configuration (Some AppSnapshotIsolateConfiguration)"
    by (simp_all add: example_controller_def example_world_def example_api_def root_isolate_lock_def)
  from controller_owns_one_isolate [OF example_conforms example_ui_conforms this, of example_settings example_run "Some 7"]
  show ?thesis by (metis (full_types))
qed

section \<open>Responses of Dart code\<close>

text \<open>Messages dispatched to Dart code and responses that it sends, in any order, with any numbers.\<close>

datatype response_op = Dispatch PlatformMessage | Respond_to int "fml_mapping option"

fun response_step :: "response_op \<Rightarrow> PlatformConfiguration \<Rightarrow> PlatformConfiguration" where
  "response_step (Dispatch message) c = snd (store_response message c)"
| "response_step (Respond_to response_id data) c = RespondToPlatformMessage response_id data c"

definition responses_of :: "response_op list \<Rightarrow> nat list" where
  "responses_of ops = concat (map (\<lambda>op. case op of Dispatch m \<Rightarrow> (case pm_response m of None \<Rightarrow> [] | Some r \<Rightarrow> [r]) | _ \<Rightarrow> []) ops)"

definition responses_inv :: "nat list \<Rightarrow> PlatformConfiguration \<Rightarrow> bool" where
  "responses_inv R c \<longleftrightarrow>
     next_response_id c = int (length R) + 1 \<and> (\<forall>k \<in> dom (pending_responses c). 0 < k \<and> k < next_response_id c) \<and>
     inj_on (pending_responses c) (dom (pending_responses c)) \<and>
     distinct (map fst (completed_responses c)) \<and>
     ran (pending_responses c) \<inter> fst ` set (completed_responses c) = {} \<and>
     ran (pending_responses c) \<union> fst ` set (completed_responses c) = set R"

lemma ran_delete:
  assumes "inj_on m (dom m)" "m k = Some r"
  shows "ran (m(k := None)) = ran m - {r}"
proof (intro equalityI subsetI)
  fix y assume "y \<in> ran (m(k := None))"
  then obtain j where j: "j \<noteq> k" "m j = Some y" by (auto simp: ran_def split: if_splits)
  then have "y \<noteq> r" using assms by (metis domI inj_onD)
  with j(2) show "y \<in> ran m - {r}" by (auto simp: ran_def)
next
  fix y assume "y \<in> ran m - {r}"
  then obtain j where "m j = Some y" "y \<noteq> r" by (auto simp: ran_def)
  then have "(m(k := None)) j = Some y" using assms(2) by auto
  then show "y \<in> ran (m(k := None))" by (rule ranI)
qed

lemma store_response_inv:
  assumes "responses_inv R c" "pm_response message = Some r" "r \<notin> set R"
  shows "responses_inv (R @ [r]) (snd (store_response message c))"
proof -
  let ?k = "next_response_id c" and ?m = "pending_responses c"
  have k: "?m ?k = None" using assms(1) unfolding responses_inv_def by (metis domIff less_irrefl)
  have inj: "inj_on (?m(?k \<mapsto> r)) (dom (?m(?k \<mapsto> r)))"
  proof (rule inj_onI)
    fix a b assume *: "a \<in> dom (?m(?k \<mapsto> r))" "b \<in> dom (?m(?k \<mapsto> r))" "(?m(?k \<mapsto> r)) a = (?m(?k \<mapsto> r)) b"
    have "\<forall>j. ?m j \<noteq> Some r" using assms(1,3) by (auto simp: responses_inv_def ran_def)
    moreover have "?m a = ?m b \<Longrightarrow> a \<in> dom ?m \<Longrightarrow> b \<in> dom ?m \<Longrightarrow> a = b"
      using assms(1) by (auto simp: responses_inv_def dest: inj_onD)
    ultimately show "a = b" using * by (auto split: if_splits)
  qed
  have "ran (?m(?k \<mapsto> r)) = insert r (ran ?m)" using k by (rule ran_map_upd)
  moreover have "\<forall>j \<in> dom (?m(?k \<mapsto> r)). 0 < j \<and> j < ?k + 1"
  proof
    fix j assume "j \<in> dom (?m(?k \<mapsto> r))"
    then have "j = ?k \<or> j \<in> dom ?m" by (auto split: if_splits)
    moreover have "j \<in> dom ?m \<Longrightarrow> 0 < j \<and> j < ?k" using assms(1) unfolding responses_inv_def by blast
    moreover have "0 < ?k" using assms(1) by (simp add: responses_inv_def)
    ultimately show "0 < j \<and> j < ?k + 1" by linarith
  qed
  ultimately show ?thesis
    using assms inj unfolding responses_inv_def store_response_def by auto
qed

lemma respond_inv:
  assumes "responses_inv R c" shows "responses_inv R (RespondToPlatformMessage k data c)"
proof -
  have "responses_inv R (complete_response k d c)" for d
  proof (cases "k \<noteq> 0 \<and> (\<exists>r. pending_responses c k = Some r)")
    case True
    then obtain r where r: "k \<noteq> 0" "pending_responses c k = Some r" by blast
    let ?m = "(pending_responses c)(k := None)"
    have "ran ?m = ran (pending_responses c) - {r}" using assms r by (intro ran_delete) (simp_all add: responses_inv_def)
    moreover have "r \<in> ran (pending_responses c)" using r(2) by (rule ranI)
    moreover have "inj_on ?m (dom ?m)"
      using assms by (auto simp: responses_inv_def inj_on_def)
    ultimately show ?thesis
      using assms r unfolding responses_inv_def complete_response_def by auto
  next
    case False
    then show ?thesis using assms by (auto simp: complete_response_def split: option.split)
  qed
  then show ?thesis
    by (simp add: RespondToPlatformMessage_def CompletePlatformMessageEmptyResponse_def
        CompletePlatformMessageResponse_def split: option.split)
qed

lemma responses_of_snoc:
  "responses_of (ops @ [op]) = responses_of ops @
     (case op of Dispatch m \<Rightarrow> (case pm_response m of None \<Rightarrow> [] | Some r \<Rightarrow> [r]) | _ \<Rightarrow> [])"
  by (simp add: responses_of_def)

lemma run_responses_inv:
  "distinct (responses_of ops) \<Longrightarrow> responses_inv (responses_of ops) (fold response_step ops PlatformConfiguration_new)"
proof (induction ops rule: rev_induct)
  case Nil
  then show ?case by (simp add: responses_inv_def PlatformConfiguration_new_def responses_of_def)
next
  case (snoc op ops)
  then have IH: "responses_inv (responses_of ops) (fold response_step ops PlatformConfiguration_new)"
    by (simp add: responses_of_snoc)
  show ?case
  proof (cases op)
    case (Dispatch m)
    then show ?thesis using IH snoc.prems store_response_inv [OF IH]
      by (cases "pm_response m") (auto simp: responses_of_snoc store_response_def)
  next
    case (Respond_to k d)
    then show ?thesis using respond_inv [OF IH] by (simp add: responses_of_snoc)
  qed
qed

text \<open>
  C32: whatever numbers Dart code responds with and however often, a response object of a platform message
  is completed at most once, only if its message was dispatched, and stays pending until it is completed.
  The numbers are given out in order from 1, so the C++ \<open>int\<close> does not overflow before \<open>2 ^ 31 - 1\<close> responses.
\<close>

theorem dart_responses_complete_once:
  assumes "distinct (responses_of ops)" "c = fold response_step ops PlatformConfiguration_new"
  shows "distinct (map fst (completed_responses c)) \<and>
    ran (pending_responses c) \<inter> fst ` set (completed_responses c) = {} \<and>
    ran (pending_responses c) \<union> fst ` set (completed_responses c) = set (responses_of ops) \<and>
    next_response_id c = int (length (responses_of ops)) + 1 \<and>
    (\<forall>k \<in> dom (pending_responses c). 0 < k \<and> k < next_response_id c)"
  using run_responses_inv [OF assms(1)] unfolding assms(2) responses_inv_def by blast

theorem dart_responses_complete_once_witness:
  "distinct (map fst (completed_responses (fold response_step
      [Dispatch \<lparr>pm_channel = ''a'', pm_data = None, pm_response = Some 5\<rparr>, Respond_to 1 None, Respond_to 1 (Some [2])]
      PlatformConfiguration_new)))"
  using dart_responses_complete_once [OF _ refl,
      of "[Dispatch \<lparr>pm_channel = ''a'', pm_data = None, pm_response = Some 5\<rparr>, Respond_to 1 None, Respond_to 1 (Some [2])]"]
  by (simp add: responses_of_def)

end
