(* ===== verification/Service_Protocol.thy ===== *)
theory Service_Protocol
  imports Text_Numbers
begin

text \<open>
  \<open>runtime/service_protocol\<close>: the VM service extensions of the engine. Handlers (shells) register
  with a description; a request names the handler it is for by the id that the list of views gives
  it, which is its address printed in hexadecimal. What a handler answers is a parameter.
\<close>

section \<open>Data and operations\<close>

text \<open>The part of a JSON document that requests and replies use; a double is its bit pattern.\<close>

datatype json = JNull | JDouble "64 word" | JNumber int | JBool bool | JString string | JArray "json list" | JObject "(string \<times> json) list"

type_synonym Handler = "64 word"

record Description =
  isolate_port :: "64 word"
  isolate_name :: string

type_synonym ServiceProtocol = "(Handler, Description) omap"

type_synonym params = "string \<rightharpoonup> string"

text \<open>\<open>HandleServiceProtocolMessage\<close> of a handler.\<close>

type_synonym handle = "Handler \<Rightarrow> string \<Rightarrow> params \<Rightarrow> bool \<times> json"

definition kViewIdPrefx :: string where
  "kViewIdPrefx = ''_flutterView/''"

definition kListViewsExtensionName :: string where
  "kListViewsExtensionName = ''_flutter.listViews''"

definition kScreenshotExtensionName :: string where
  "kScreenshotExtensionName = ''_flutter.screenshot''"

definition kScreenshotSkpExtensionName :: string where
  "kScreenshotSkpExtensionName = ''_flutter.screenshotSkp''"

definition kFlushUIThreadTasksExtensionName :: string where
  "kFlushUIThreadTasksExtensionName = ''_flutter.flushUIThreadTasks''"

text \<open>The set of endpoints, in its order.\<close>

definition endpoints :: "string list" where
  "endpoints =
     [''_flutter.estimateRasterCacheMemory'', kFlushUIThreadTasksExtensionName,
      ''_flutter.getDisplayRefreshRate'', ''_flutter.getPipelineUsage'', ''_flutter.getSkSLs'',
      kListViewsExtensionName, ''_flutter.reloadAssetFonts'', ''_flutter.runInView'',
      kScreenshotExtensionName, kScreenshotSkpExtensionName, ''_flutter.setAssetBundlePath'']"

text \<open>\<open>register\<close> is \<open>Dart_RegisterIsolateServiceRequestCallback\<close>, told whether it gets user data.\<close>

definition ToggleHooks :: "(string \<Rightarrow> bool \<Rightarrow> 'v \<Rightarrow> 'v) \<Rightarrow> bool \<Rightarrow> 'v \<Rightarrow> 'v" where
  "ToggleHooks register enable v = fold (\<lambda>endpoint. register endpoint enable) endpoints v"

text \<open>\<open>emplace\<close> keeps a description that is there already.\<close>

definition AddHandler :: "Handler \<Rightarrow> Description \<Rightarrow> ServiceProtocol \<Rightarrow> ServiceProtocol" where
  "AddHandler handler description handlers =
     (if om_lookup handlers handler = None then om_update handler description handlers else handlers)"

definition RemoveHandler :: "Handler \<Rightarrow> ServiceProtocol \<Rightarrow> ServiceProtocol" where
  "RemoveHandler handler handlers = om_delete handler handlers"

definition SetHandlerDescription :: "Handler \<Rightarrow> Description \<Rightarrow> ServiceProtocol \<Rightarrow> ServiceProtocol" where
  "SetHandlerDescription handler description handlers =
     (if om_lookup handlers handler = None then handlers else om_update handler description handlers)"

definition WriteServerErrorResponse :: "string \<Rightarrow> json" where
  "WriteServerErrorResponse message =
     JObject [(''code'', JNumber (-32000)), (''message'', JString message)]"

definition CreateFlutterViewID :: "Handler \<Rightarrow> string" where
  "CreateFlutterViewID handler = kViewIdPrefx @ ''0x'' @ hex_string (unat handler)"

definition CreateIsolateID :: "64 word \<Rightarrow> string" where
  "CreateIsolateID isolate = ''isolates/'' @ int_string (sint isolate)"

definition Description_Write :: "Handler \<Rightarrow> Description \<Rightarrow> json" where
  "Description_Write handler d =
     JObject ([(''type'', JString ''FlutterView''), (''id'', JString (CreateFlutterViewID handler))] @
       (if isolate_port d \<noteq> 0
        then [(''isolate'', JObject
               [(''type'', JString ''@Isolate''), (''fixedId'', JBool True),
                (''id'', JString (CreateIsolateID (isolate_port d))),
                (''name'', JString (isolate_name d)),
                (''number'', JNumber (sint (isolate_port d)))])]
        else []))"

definition HandleListViewsMethod :: "ServiceProtocol \<Rightarrow> bool \<times> json" where
  "HandleListViewsMethod handlers =
     (True, JObject [(''type'', JString ''FlutterViewList''),
                     (''views'', JArray (map (\<lambda>(h, d). Description_Write h d) handlers))])"

text \<open>
  \<open>HandleMessageOnHandler\<close> runs the handler on the task runner it names and waits for it. The view
  id is read behind the prefix, unchecked: reading a shorter one starts behind its end.
\<close>

definition HandleMessageOnHandler :: "handle \<Rightarrow> Handler \<Rightarrow> string \<Rightarrow> params \<Rightarrow> bool \<times> json" where
  "HandleMessageOnHandler handle handler method params = handle handler method params"

definition view_id_handler :: "string \<Rightarrow> Handler res" where
  "view_id_handler view_id =
     (if length view_id < length kViewIdPrefx then Inl Undefined
      else stoull_16 (drop (length kViewIdPrefx) view_id))"

definition handle_without_view :: "handle \<Rightarrow> ServiceProtocol \<Rightarrow> string \<Rightarrow> params \<Rightarrow> bool \<times> json" where
  "handle_without_view handle handlers method params =
     (if method \<in> {kScreenshotExtensionName, kScreenshotSkpExtensionName, kFlushUIThreadTasksExtensionName}
      then HandleMessageOnHandler handle (fst (hd handlers)) method params
      else (False, WriteServerErrorResponse
        ''Service protocol could not handle or find a handler for the requested method.''))"

definition HandleMessage :: "handle \<Rightarrow> string \<Rightarrow> params \<Rightarrow> ServiceProtocol \<Rightarrow> (bool \<times> json) res" where
  "HandleMessage handle method params handlers =
     (if method = kListViewsExtensionName then Inr (HandleListViewsMethod handlers)
      else if handlers = []
      then Inr (False, WriteServerErrorResponse ''There are no running service protocol handlers.'')
      else case params ''viewId'' of
        None \<Rightarrow> Inr (handle_without_view handle handlers method params)
      | Some view_id \<Rightarrow> bindR (view_id_handler view_id) (\<lambda>handler.
          if om_lookup handlers handler \<noteq> None
          then Inr (HandleMessageOnHandler handle handler method params)
          else Inr (handle_without_view handle handlers method params)))"

definition HandleMessage_static ::
  "handle \<Rightarrow> string \<Rightarrow> params \<Rightarrow> ServiceProtocol option \<Rightarrow> (bool \<times> json) res" where
  "HandleMessage_static handle method params service_protocol =
     (case service_protocol of
        None \<Rightarrow> Inr (False, WriteServerErrorResponse ''Service protocol unavailable.'')
      | Some handlers \<Rightarrow> HandleMessage handle method params handlers)"

text \<open>The callback given to the VM; \<open>accept\<close> prints a document. A parameter given twice counts last.\<close>

definition HandleMessage_callback ::
  "handle \<Rightarrow> (json \<Rightarrow> string) \<Rightarrow> string \<Rightarrow> string list \<Rightarrow> string list \<Rightarrow> ServiceProtocol option
     \<Rightarrow> (bool \<times> string) res" where
  "HandleMessage_callback handle accept method param_keys param_values user_data =
     (let params = fold (\<lambda>(k, v) m. m(k \<mapsto> v)) (zip param_keys param_values) Map.empty in
      bindR (HandleMessage_static handle method params user_data) (\<lambda>(result, document).
        Inr (result, accept document)))"

section \<open>View ids\<close>

lemma view_id_handler_id: "view_id_handler (CreateFlutterViewID h) = Inr h"
  using stoull_hex_string [of "unat h"] unsigned_less [of h]
  by (simp add: view_id_handler_def CreateFlutterViewID_def kViewIdPrefx_def)

text \<open>The ids that a list of views shows.\<close>

fun json_member :: "string \<Rightarrow> json \<Rightarrow> json option" where
  "json_member name (JObject members) = map_of members name"
| "json_member name _ = None"

definition listed_ids :: "json \<Rightarrow> string set" where
  "listed_ids reply =
     (case json_member ''views'' reply of
        Some (JArray views) \<Rightarrow> {i. \<exists>view \<in> set views. json_member ''id'' view = Some (JString i)}
      | _ \<Rightarrow> {})"

lemma listed_ids_handlers:
  "listed_ids (snd (HandleListViewsMethod handlers)) = CreateFlutterViewID ` fst ` set handlers"
  by (force simp: listed_ids_def HandleListViewsMethod_def Description_Write_def)

text \<open>
  Every view that \<open>_flutter.listViews\<close> lists can be addressed by the id it lists: any other
  request with that \<open>viewId\<close> goes to the handler of the view and to no other, and returns its answer.
\<close>

theorem listed_view_is_addressable:
  assumes "HandleMessage handle kListViewsExtensionName Map.empty handlers = Inr (True, reply)"
    and "view_id \<in> listed_ids reply"
  shows "\<exists>handler description. (handler, description) \<in> set handlers \<and>
    view_id = CreateFlutterViewID handler \<and>
    (\<forall>method params. method \<noteq> kListViewsExtensionName \<longrightarrow> params ''viewId'' = Some view_id \<longrightarrow>
       HandleMessage handle method params handlers = Inr (handle handler method params))"
proof -
  from assms obtain handler description where
    h: "(handler, description) \<in> set handlers" "view_id = CreateFlutterViewID handler"
    using listed_ids_handlers [of handlers] by (auto simp: HandleMessage_def HandleListViewsMethod_def)
  then have "handlers \<noteq> []" "om_lookup handlers handler \<noteq> None"
    by (auto simp: om_lookup_def dest: weak_map_of_SomeI)
  with h show ?thesis
    by (auto simp: HandleMessage_def view_id_handler_id HandleMessageOnHandler_def)
qed

theorem listed_view_is_addressable_witness:
  "\<exists>handler description. (handler, description) \<in> set [(255, \<lparr>isolate_port = 7, isolate_name = ''main''\<rparr>)] \<and>
    ''_flutterView/0xff'' = CreateFlutterViewID handler \<and>
    (\<forall>method params. method \<noteq> kListViewsExtensionName \<longrightarrow>
       params ''viewId'' = Some ''_flutterView/0xff'' \<longrightarrow>
       HandleMessage (\<lambda>h m p. (h = 255, JString m)) method params
         [(255, \<lparr>isolate_port = 7, isolate_name = ''main''\<rparr>)] = Inr (handler = 255, JString method))"
proof -
  have "''_flutterView/0xff'' = CreateFlutterViewID 255"
    by (simp add: CreateFlutterViewID_def kViewIdPrefx_def hex_string.simps hex_digit_def)
  then show ?thesis
    by (intro listed_view_is_addressable
        [of "\<lambda>h m p. (h = 255, JString m)" "[(255, \<lparr>isolate_port = 7, isolate_name = ''main''\<rparr>)]"
            "snd (HandleListViewsMethod [(255, \<lparr>isolate_port = 7, isolate_name = ''main''\<rparr>)])"])
      (simp_all add: HandleMessage_def listed_ids_handlers, simp add: HandleListViewsMethod_def)
qed

end
