(* ===== verification/Engine.thy ===== *)
theory Engine
  imports Runtime_Controller Service_Protocol Task_Scheduling
begin

text \<open>
  The engine (\<open>shell/common/engine\<close>) and its run configuration (\<open>shell/common/run_configuration\<close>): the engine runs a
  configuration in the root isolate of its runtime controller, replaces the isolate on a restart, serves assets and
  passes messages between the isolate and its delegate, the shell. Its state has the world of the controller and the
  table of task queues, which \<open>Run\<close> merges when the UI thread is to move to the platform thread. What comes from
  outside is in the context: the VM, its service ids, the equality of asset resolvers, the JSON parser, and whether the
  build is a debug build. Calls of the delegate are recorded in order.
\<close>

section \<open>Run configurations\<close>

record RunConfiguration =
  isolate_configuration :: "IsolateConfiguration option"
  conf_asset_manager :: "AssetManager option"
  entrypoint :: string
  entrypoint_library :: string
  entrypoint_args :: "string list"
  conf_engine_id :: "int option"

definition RunConfiguration_new :: "IsolateConfiguration option \<Rightarrow> AssetManager option \<Rightarrow> RunConfiguration" where
  "RunConfiguration_new configuration assets =
     \<lparr>isolate_configuration = configuration, conf_asset_manager = assets, entrypoint = ''main'', entrypoint_library = [],
      entrypoint_args = [], conf_engine_id = None\<rparr>"

definition RunConfiguration_IsValid :: "RunConfiguration \<Rightarrow> bool" where
  "RunConfiguration_IsValid c \<longleftrightarrow> conf_asset_manager c \<noteq> None \<and> isolate_configuration c \<noteq> None"

text \<open>The asset manager is dereferenced without a test.\<close>

definition AddAssetResolver :: "AssetResolver option \<Rightarrow> RunConfiguration \<Rightarrow> (bool \<times> RunConfiguration) res" where
  "AddAssetResolver resolver c =
     (case resolver of
        None \<Rightarrow> Inr (False, c)
      | Some r \<Rightarrow>
          if \<not> resolver_IsValid r then Inr (False, c)
          else (case conf_asset_manager c of
              None \<Rightarrow> Inl Undefined
            | Some m \<Rightarrow> Inr (True, c\<lparr>conf_asset_manager := Some (snd (AssetManager_PushBack (Some r) m))\<rparr>)))"

definition SetEntrypointAndLibrary :: "string \<Rightarrow> string \<Rightarrow> RunConfiguration \<Rightarrow> RunConfiguration" where
  "SetEntrypointAndLibrary e library c = c\<lparr>entrypoint := e, entrypoint_library := library\<rparr>"

text \<open>\<open>open_directory\<close> makes the bundle of a directory; \<open>infer\<close> is \<open>IsolateConfiguration::InferFromSettings\<close>.\<close>

definition run_InferFromSettings ::
  "AssetResolver option \<Rightarrow> AssetResolver \<Rightarrow> (AssetManager \<Rightarrow> IsolateConfiguration option) \<Rightarrow> RunConfiguration" where
  "run_InferFromSettings assets_dir assets_path infer =
     (let m = (case assets_dir of None \<Rightarrow> [] | Some d \<Rightarrow> snd (AssetManager_PushBack (Some d) []));
          m = snd (AssetManager_PushBack (Some assets_path) m)
      in RunConfiguration_new (infer m) (Some m))"

section \<open>State\<close>

datatype RunStatus = Success | FailureAlreadyRunning | Failure

datatype delegate_call =
    OnPreEngineRestart
  | OnEngineHandlePlatformMessage PlatformMessage

record 'v engine_context =
  ctx_api :: "'v dart_api"
  ctx_ui :: "'v ui_api"
  ctx_service_id :: "Dart_Isolate option \<Rightarrow> 'v \<Rightarrow> string"
  ctx_resolver_eq :: "AssetResolver \<Rightarrow> AssetResolver \<Rightarrow> bool"
  ctx_registrant :: "string option"
  ctx_parse :: "fml_mapping \<Rightarrow> json option"
  ctx_debug :: bool

text \<open>
  \<open>native_assets\<close> is the manifest that the native assets manager has registered last, if there is a manager and a
  manifest; \<open>owner_tasks\<close> counts the tasks posted to the UI runner that make their thread the owner of the isolate.
\<close>

record 'v Engine =
  engine_settings :: isolate_settings
  engine_world :: "'v runtime_world"
  engine_queues :: MessageLoopTaskQueues
  platform_queue :: TaskQueueId
  ui_queue :: TaskQueueId
  last_entry_point :: string
  last_entry_point_library :: string
  last_entry_point_args :: "string list"
  last_engine_id :: "int option"
  asset_manager :: "AssetManager option"
  native_assets :: "fml_mapping option option"
  owner_tasks :: nat
  delegate_calls :: "delegate_call list"
  asset_responses :: "(nat \<times> fml_mapping option) list"

definition tell_delegate :: "delegate_call \<Rightarrow> 'v Engine \<Rightarrow> 'v Engine" where
  "tell_delegate c e = e\<lparr>delegate_calls := delegate_calls e @ [c]\<rparr>"

section \<open>Assets\<close>

definition RegisterNativeAssets :: "AssetManager \<Rightarrow> fml_mapping option \<Rightarrow> fml_mapping option" where
  "RegisterNativeAssets m manifest =
     (case AssetManager_GetAsMapping ''NativeAssetsManifest.json'' m of None \<Rightarrow> manifest | Some d \<Rightarrow> Some d)"

definition UpdateAssetManager :: "'v engine_context \<Rightarrow> AssetManager option \<Rightarrow> 'v Engine \<Rightarrow> bool \<times> 'v Engine" where
  "UpdateAssetManager ctx new_asset_manager e =
     (if (case (asset_manager e, new_asset_manager) of
            (Some m, Some n) \<Rightarrow> AssetManager_eq (ctx_resolver_eq ctx) m (Some n) | _ \<Rightarrow> False)
      then (False, e)
      else
        let e = e\<lparr>asset_manager := new_asset_manager\<rparr>
        in case new_asset_manager of
             None \<Rightarrow> (False, e)
           | Some n \<Rightarrow>
               (True, e\<lparr>native_assets := Some (RegisterNativeAssets n (case native_assets e of None \<Rightarrow> None | Some d \<Rightarrow> d))\<rparr>))"

definition kAssetChannel :: string where
  "kAssetChannel = ''flutter/assets''"

definition kLocalizationChannel :: string where
  "kLocalizationChannel = ''flutter/localization''"

definition kIsolateChannel :: string where
  "kIsolateChannel = ''flutter/isolate''"

definition message_data :: "PlatformMessage \<Rightarrow> fml_mapping" where
  "message_data message = (case pm_data message of None \<Rightarrow> [] | Some d \<Rightarrow> d)"

definition HandleAssetPlatformMessage :: "PlatformMessage \<Rightarrow> 'v Engine \<Rightarrow> 'v Engine" where
  "HandleAssetPlatformMessage message e =
     (case pm_response message of
        None \<Rightarrow> e
      | Some response \<Rightarrow>
          let asset_name = map (\<lambda>b. char_of (unat b)) (message_data message);
              asset_mapping = (case asset_manager e of None \<Rightarrow> None | Some m \<Rightarrow> AssetManager_GetAsMapping asset_name m)
          in e\<lparr>asset_responses := asset_responses e @ [(response, asset_mapping)]\<rparr>)"

definition engine_HandlePlatformMessage :: "PlatformMessage \<Rightarrow> 'v Engine \<Rightarrow> 'v Engine" where
  "engine_HandlePlatformMessage message e =
     (if pm_channel message = kAssetChannel then HandleAssetPlatformMessage message e
      else tell_delegate (OnEngineHandlePlatformMessage message) e)"

section \<open>Running and restarting\<close>

definition GetRootIsolateServiceID :: "'v engine_context \<Rightarrow> 'v runtime_world \<Rightarrow> string option" where
  "GetRootIsolateServiceID ctx x =
     (if root_isolate_lock x then Some (ctx_service_id ctx (isolate (root_isolate x)) (w_vm (rw_isolates x))) else None)"

text \<open>The callback that \<open>Run\<close> passes does nothing.\<close>

definition run_arguments_of :: "'v engine_context \<Rightarrow> RunConfiguration \<Rightarrow> run_arguments" where
  "run_arguments_of ctx c =
     \<lparr>run_registrant = ctx_registrant ctx, run_library = Some (entrypoint_library c), run_entrypoint = Some (entrypoint c),
      run_args = entrypoint_args c, run_create_callback = None\<rparr>"

definition merges_after_launch :: "'v Engine \<Rightarrow> bool" where
  "merges_after_launch e \<longleftrightarrow> merged_platform_ui_thread (engine_settings e) = kMergeAfterLaunch"

definition remember_entrypoint :: "'v engine_context \<Rightarrow> RunConfiguration \<Rightarrow> 'v Engine \<Rightarrow> 'v Engine" where
  "remember_entrypoint ctx c e =
     e\<lparr>last_entry_point := entrypoint c, last_entry_point_library := entrypoint_library c,
       last_entry_point_args := (if ctx_debug ctx then entrypoint_args c else last_entry_point_args e),
       last_engine_id := conf_engine_id c\<rparr>"

definition send_service_id :: "'v engine_context \<Rightarrow> 'v Engine \<Rightarrow> 'v Engine" where
  "send_service_id ctx e =
     (case GetRootIsolateServiceID ctx (engine_world e) of
        None \<Rightarrow> e
      | Some i \<Rightarrow>
          engine_HandlePlatformMessage \<lparr>pm_channel = kIsolateChannel, pm_data = Some (text_bytes i), pm_response = None\<rparr> e)"

definition merge_threads :: "'v Engine \<Rightarrow> 'v Engine res" where
  "merge_threads e =
     (if merges_after_launch e
      then bindR (Merge (platform_queue e) (ui_queue e) (engine_queues e)) (\<lambda>(success, q). Inr (e\<lparr>engine_queues := q\<rparr>))
      else Inr e)"

definition Run :: "'v engine_context \<Rightarrow> RunConfiguration \<Rightarrow> 'v Engine \<Rightarrow> (RunStatus \<times> 'v Engine) res" where
  "Run ctx c e =
     (if \<not> RunConfiguration_IsValid c then Inr (Failure, e)
      else
        let e = remember_entrypoint ctx c e;
            e = snd (UpdateAssetManager ctx (conf_asset_manager c) e)
        in if IsRootIsolateRunning (engine_world e) then Inr (FailureAlreadyRunning, e)
           else
             let e = (if merges_after_launch e then e\<lparr>owner_tasks := owner_tasks e + 1\<rparr> else e)
             in bindR (LaunchRootIsolate (ctx_api ctx) (ctx_ui ctx) (engine_settings e) (run_arguments_of ctx c)
                    (isolate_configuration c) (conf_engine_id c) (engine_world e)) (\<lambda>(ok, x).
                  let e = e\<lparr>engine_world := x\<rparr>
                  in if \<not> ok then Inr (Failure, e)
                     else bindR (merge_threads (send_service_id ctx e)) (\<lambda>e. Inr (Success, e))))"

text \<open>
  The new controller takes the place of the old one, which is deleted. It has a manager of platform isolates of its own,
  so those of the old program are nobody's from then on.
\<close>

definition replace_controller :: "'v engine_context \<Rightarrow> 'v Engine \<Rightarrow> 'v Engine res" where
  "replace_controller ctx e =
     bindR (RuntimeController_delete (ctx_api ctx) (engine_world e)) (\<lambda>x.
       Inr (e\<lparr>engine_world := x\<lparr>rw_controller := Clone (rw_controller x),
         rw_isolates := (rw_isolates x)\<lparr>w_platform_isolates := \<lparr>is_shutdown = False, platform_isolates = []\<rparr>\<rparr>\<rparr>\<rparr>))"

definition Restart :: "'v engine_context \<Rightarrow> RunConfiguration \<Rightarrow> 'v Engine \<Rightarrow> (bool \<times> 'v Engine) res" where
  "Restart ctx c e =
     (if \<not> RunConfiguration_IsValid c then Inr (False, e)
      else
        let x = engine_world e
        in if root_isolate_lock x \<and> platform_configuration (root_isolate x) = None then Inl Undefined
           else
             let e = (if root_isolate_lock x then e\<lparr>engine_world := InvokeHotRestartListeners (ctx_api ctx) (ctx_ui ctx) x\<rparr> else e);
                 e = tell_delegate OnPreEngineRestart e
             in bindR (replace_controller ctx e) (\<lambda>e.
                bindR (Run ctx c (snd (UpdateAssetManager ctx None e))) (\<lambda>(status, e).
                  Inr (status = Success, e))))"

section \<open>Messages\<close>

text \<open>The loop over the locales: only the first two strings of each are tested.\<close>

fun locale_data :: "json list \<Rightarrow> string list option res" where
  "locale_data [] = Inr (Some [])"
| "locale_data (a # b # c # d # rest) =
     (case (a, b) of
        (JString language, JString country) \<Rightarrow>
          (case (c, d) of
             (JString script, JString variant) \<Rightarrow>
               bindR (locale_data rest) (\<lambda>r. Inr (map_option (\<lambda>l. [language, country, script, variant] @ l) r))
           | _ \<Rightarrow> Inl Undefined)
      | _ \<Rightarrow> Inr None)"
| "locale_data _ = Inl Out_of_range"

definition HandleLocalizationPlatformMessage ::
  "'v engine_context \<Rightarrow> PlatformMessage \<Rightarrow> 'v Engine \<Rightarrow> (bool \<times> 'v Engine) res" where
  "HandleLocalizationPlatformMessage ctx message e =
     (case ctx_parse ctx (message_data message) of
        Some (JObject root) \<Rightarrow>
          (if map_of root ''method'' = Some (JString ''setLocale'') then
             (case map_of root ''args'' of
                Some (JArray values) \<Rightarrow>
                  if length values mod 4 \<noteq> 0 then Inr (False, e)
                  else bindR (locale_data values) (\<lambda>locales.
                    case locales of
                      None \<Rightarrow> Inr (False, e)
                    | Some l \<Rightarrow>
                        let (ok, x) = SetLocales (ctx_api ctx) (ctx_ui ctx) l (engine_world e)
                        in Inr (ok, e\<lparr>engine_world := x\<rparr>))
              | _ \<Rightarrow> Inr (False, e))
           else Inr (False, e))
      | _ \<Rightarrow> Inr (False, e))"

definition engine_DispatchPlatformMessage ::
  "'v engine_context \<Rightarrow> PlatformMessage \<Rightarrow> 'v Engine \<Rightarrow> 'v Engine res" where
  "engine_DispatchPlatformMessage ctx message e =
     bindR (if pm_channel message = kLocalizationChannel then HandleLocalizationPlatformMessage ctx message e
            else Inr (False, e)) (\<lambda>(handled, e).
       if handled then Inr e
       else if IsRootIsolateRunning (engine_world e)
       then Inr (e\<lparr>engine_world := snd (rc_DispatchPlatformMessage (ctx_api ctx) (ctx_ui ctx) message (engine_world e))\<rparr>)
       else Inr e)"

definition engine_LoadDartDeferredLibraryError :: "'v engine_context \<Rightarrow> int \<Rightarrow> 'v Engine \<Rightarrow> 'v Engine res" where
  "engine_LoadDartDeferredLibraryError ctx unit e =
     (if IsRootIsolateRunning (engine_world e)
      then bindR (LoadDartDeferredLibraryError (ctx_api ctx) unit (engine_world e)) (\<lambda>x. Inr (e\<lparr>engine_world := x\<rparr>))
      else Inr e)"

definition engine_LoadDartDeferredLibrary ::
  "'v engine_context \<Rightarrow> int \<Rightarrow> fml_mapping \<Rightarrow> fml_mapping \<Rightarrow> 'v Engine \<Rightarrow> 'v Engine res" where
  "engine_LoadDartDeferredLibrary ctx unit data instructions e =
     (if IsRootIsolateRunning (engine_world e)
      then bindR (LoadDartDeferredLibrary (ctx_api ctx) unit data instructions (engine_world e)) (\<lambda>x. Inr (e\<lparr>engine_world := x\<rparr>))
      else engine_LoadDartDeferredLibraryError ctx unit e)"

definition engine_ShutdownPlatformIsolates :: "'v engine_context \<Rightarrow> 'v Engine \<Rightarrow> 'v Engine" where
  "engine_ShutdownPlatformIsolates ctx e = e\<lparr>engine_world := rc_ShutdownPlatformIsolates (ctx_api ctx) (engine_world e)\<rparr>"

section \<open>What an operation leaves alone\<close>

lemma UpdateAssetManager_fields [simp]:
  "engine_world (snd (UpdateAssetManager ctx m e)) = engine_world e"
  "engine_queues (snd (UpdateAssetManager ctx m e)) = engine_queues e"
  "engine_settings (snd (UpdateAssetManager ctx m e)) = engine_settings e"
  "platform_queue (snd (UpdateAssetManager ctx m e)) = platform_queue e"
  "ui_queue (snd (UpdateAssetManager ctx m e)) = ui_queue e"
  "delegate_calls (snd (UpdateAssetManager ctx m e)) = delegate_calls e"
  "last_entry_point (snd (UpdateAssetManager ctx m e)) = last_entry_point e"
  by (simp_all add: UpdateAssetManager_def Let_def split: option.split)

lemma UpdateAssetManager_None [simp]: "asset_manager (snd (UpdateAssetManager ctx None e)) = None"
  by (simp add: UpdateAssetManager_def split: option.split)

lemma UpdateAssetManager_Some:
  "asset_manager (snd (UpdateAssetManager ctx (Some n) e)) =
    (case asset_manager e of
       None \<Rightarrow> Some n | Some m \<Rightarrow> Some (if AssetManager_eq (ctx_resolver_eq ctx) m (Some n) then m else n))"
  by (simp add: UpdateAssetManager_def Let_def split: option.split)

lemma remember_fields [simp]:
  "engine_world (remember_entrypoint ctx c e) = engine_world e"
  "engine_queues (remember_entrypoint ctx c e) = engine_queues e"
  "engine_settings (remember_entrypoint ctx c e) = engine_settings e"
  "platform_queue (remember_entrypoint ctx c e) = platform_queue e"
  "ui_queue (remember_entrypoint ctx c e) = ui_queue e"
  "delegate_calls (remember_entrypoint ctx c e) = delegate_calls e"
  "asset_manager (remember_entrypoint ctx c e) = asset_manager e"
  "last_entry_point (remember_entrypoint ctx c e) = entrypoint c"
  by (simp_all add: remember_entrypoint_def)

lemma send_service_id_fields [simp]:
  "engine_world (send_service_id ctx e) = engine_world e"
  "engine_queues (send_service_id ctx e) = engine_queues e"
  "engine_settings (send_service_id ctx e) = engine_settings e"
  "platform_queue (send_service_id ctx e) = platform_queue e"
  "ui_queue (send_service_id ctx e) = ui_queue e"
  "asset_manager (send_service_id ctx e) = asset_manager e"
  "last_entry_point (send_service_id ctx e) = last_entry_point e"
  by (simp_all add: send_service_id_def engine_HandlePlatformMessage_def HandleAssetPlatformMessage_def
      tell_delegate_def Let_def kIsolateChannel_def kAssetChannel_def split: option.split)

lemma send_service_id_calls:
  "root_isolate_lock (engine_world e) \<Longrightarrow> delegate_calls (send_service_id ctx e) = delegate_calls e @
    [OnEngineHandlePlatformMessage \<lparr>pm_channel = kIsolateChannel,
       pm_data = Some (text_bytes (ctx_service_id ctx (isolate (root_isolate (engine_world e))) (w_vm (rw_isolates (engine_world e))))),
       pm_response = None\<rparr>]"
  by (simp add: send_service_id_def GetRootIsolateServiceID_def engine_HandlePlatformMessage_def tell_delegate_def
      kIsolateChannel_def kAssetChannel_def)

section \<open>Running an engine\<close>

text \<open>The queues of the engine are in the table, and the table is consistent.\<close>

definition queues_ready :: "'v Engine \<Rightarrow> bool" where
  "queues_ready e \<longleftrightarrow> queues_wf (engine_queues e) \<and>
     queue_entries (engine_queues e) (platform_queue e) \<noteq> None \<and> queue_entries (engine_queues e) (ui_queue e) \<noteq> None"

text \<open>Nothing is merged with the two queues.\<close>

definition unmerged_queues :: "'v Engine \<Rightarrow> bool" where
  "unmerged_queues e \<longleftrightarrow> platform_queue e \<noteq> ui_queue e \<and>
     (\<forall>oe. queue_entries (engine_queues e) (platform_queue e) = Some oe \<longrightarrow>
        subsumed_by oe = kUnmerged \<and> ui_queue e |\<notin>| owner_of oe) \<and>
     (\<forall>se. queue_entries (engine_queues e) (ui_queue e) = Some se \<longrightarrow> subsumed_by se = kUnmerged \<and> owner_of se = {||})"

text \<open>The platform thread serves the queue of the UI runner.\<close>

definition ui_on_platform_thread :: "'v Engine \<Rightarrow> bool" where
  "ui_on_platform_thread e \<longleftrightarrow>
     (\<exists>se. queue_entries (engine_queues e) (ui_queue e) = Some se \<and> subsumed_by se = platform_queue e)"

text \<open>The table after the merge.\<close>

definition queues_moved :: "'v Engine \<Rightarrow> MessageLoopTaskQueues \<Rightarrow> bool" where
  "queues_moved e q \<longleftrightarrow>
     (\<exists>oe se l. queue_entries (engine_queues e) (platform_queue e) = Some oe \<and> queue_entries (engine_queues e) (ui_queue e) = Some se \<and>
        q = (merged (platform_queue e) (ui_queue e) oe se (engine_queues e))\<lparr>wake_log := l\<rparr>)"

lemma queues_moved_ui:
  "queues_moved e (engine_queues e') \<Longrightarrow> ui_queue e' = ui_queue e \<Longrightarrow> platform_queue e' = platform_queue e \<Longrightarrow>
    ui_on_platform_thread e'"
  by (auto simp: queues_moved_def ui_on_platform_thread_def merged_def)

lemma merge_threads_result:
  assumes "queues_ready e"
  shows "\<exists>q. merge_threads e = Inr (e\<lparr>engine_queues := q\<rparr>) \<and> queues_wf q \<and> (\<not> merges_after_launch e \<longrightarrow> q = engine_queues e) \<and>
    (merges_after_launch e \<and> unmerged_queues e \<longrightarrow> queues_moved e q)"
proof (cases "merges_after_launch e")
  case False
  with assms show ?thesis
    by (intro exI [of _ "engine_queues e"]) (simp add: merge_threads_def queues_ready_def)
next
  case True
  from assms obtain oe se where entries: "queue_entries (engine_queues e) (platform_queue e) = Some oe"
    "queue_entries (engine_queues e) (ui_queue e) = Some se" and wf: "queues_wf (engine_queues e)"
    by (auto simp: queues_ready_def)
  from Merge_cases [OF wf entries] obtain b q where q: "Merge (platform_queue e) (ui_queue e) (engine_queues e) = Inr (b, q)" "queues_wf q"
    "unmerged_queues e \<Longrightarrow> \<exists>l. q = (merged (platform_queue e) (ui_queue e) oe se (engine_queues e))\<lparr>wake_log := l\<rparr>"
    using entries by (auto simp: unmerged_queues_def)
  have "unmerged_queues e \<Longrightarrow> queues_moved e q"
    using q(3) entries by (auto simp: queues_moved_def)
  with True q(1,2) show ?thesis
    by (intro exI [of _ q]) (simp add: merge_threads_def)
qed

text \<open>What \<open>Run\<close> does up to the launch of the isolate, for a valid configuration and no running isolate.\<close>

definition ready_to_launch :: "'v engine_context \<Rightarrow> RunConfiguration \<Rightarrow> 'v Engine \<Rightarrow> 'v Engine" where
  "ready_to_launch ctx c e =
     (let e = snd (UpdateAssetManager ctx (conf_asset_manager c) (remember_entrypoint ctx c e))
      in if merges_after_launch e then e\<lparr>owner_tasks := owner_tasks e + 1\<rparr> else e)"

lemma ready_to_launch_fields [simp]:
  "engine_world (ready_to_launch ctx c e) = engine_world e"
  "engine_queues (ready_to_launch ctx c e) = engine_queues e"
  "engine_settings (ready_to_launch ctx c e) = engine_settings e"
  "platform_queue (ready_to_launch ctx c e) = platform_queue e"
  "ui_queue (ready_to_launch ctx c e) = ui_queue e"
  "delegate_calls (ready_to_launch ctx c e) = delegate_calls e"
  "last_entry_point (ready_to_launch ctx c e) = entrypoint c"
  "asset_manager (ready_to_launch ctx c e) =
    asset_manager (snd (UpdateAssetManager ctx (conf_asset_manager c) (remember_entrypoint ctx c e)))"
  by (simp_all add: ready_to_launch_def Let_def)

lemma Run_launches:
  assumes "RunConfiguration_IsValid c" "\<not> IsRootIsolateRunning (engine_world e)"
  shows "Run ctx c e = bindR (LaunchRootIsolate (ctx_api ctx) (ctx_ui ctx) (engine_settings e) (run_arguments_of ctx c)
    (isolate_configuration c) (conf_engine_id c) (engine_world e)) (\<lambda>(ok, x).
      let e = (ready_to_launch ctx c e)\<lparr>engine_world := x\<rparr>
      in if \<not> ok then Inr (Failure, e) else bindR (merge_threads (send_service_id ctx e)) (\<lambda>e. Inr (Success, e)))"
  using assms by (simp add: Run_def ready_to_launch_def Let_def)

text \<open>The delegate got one message more, the service id of an isolate on the channel \<open>flutter/isolate\<close>.\<close>

definition told_service_id :: "'v engine_context \<Rightarrow> Dart_Isolate \<Rightarrow> 'v Engine \<Rightarrow> 'v Engine \<Rightarrow> bool" where
  "told_service_id ctx i e e' \<longleftrightarrow> delegate_calls e' = delegate_calls e @
     [OnEngineHandlePlatformMessage \<lparr>pm_channel = ''flutter/isolate'',
        pm_data = Some (text_bytes (ctx_service_id ctx (Some i) (w_vm (rw_isolates (engine_world e'))))), pm_response = None\<rparr>]"

lemma Run_result:
  assumes "vm_conforms (ctx_api ctx) live" "ui_conforms (ctx_api ctx) (ctx_ui ctx) live"
    and "api_CurrentIsolate (ctx_api ctx) (w_vm (rw_isolates (engine_world e))) = None" "\<not> root_isolate_lock (engine_world e)"
    and "RunConfiguration_IsValid c" "pred_option fresh_configuration (isolate_configuration c)" "queues_ready e"
  defines "L \<equiv> live (w_vm (rw_isolates (engine_world e)))"
  shows "\<exists>status e'. Run ctx c e = Inr (status, e') \<and> status \<noteq> FailureAlreadyRunning \<and>
    asset_manager e' = asset_manager (snd (UpdateAssetManager ctx (conf_asset_manager c) (remember_entrypoint ctx c e))) \<and>
    last_entry_point e' = entrypoint c \<and>
    ui_queue e' = ui_queue e \<and> platform_queue e' = platform_queue e \<and> engine_settings e' = engine_settings e \<and>
    (if status = Success
     then (\<exists>i. i \<notin> L \<and> at_isolate (ctx_api ctx) live None i (insert i L) Running True (engine_world e') \<and>
         told_service_id ctx i e e') \<and>
       queues_wf (engine_queues e') \<and> (\<not> merges_after_launch e \<longrightarrow> engine_queues e' = engine_queues e) \<and>
       (merges_after_launch e \<and> unmerged_queues e \<longrightarrow> queues_moved e (engine_queues e'))
     else \<not> root_isolate_lock (engine_world e') \<and> live (w_vm (rw_isolates (engine_world e'))) = L \<and>
       api_CurrentIsolate (ctx_api ctx) (w_vm (rw_isolates (engine_world e'))) = None \<and> engine_queues e' = engine_queues e)"
proof -
  have "\<not> IsRootIsolateRunning (engine_world e)"
    using assms(4) by (simp add: IsRootIsolateRunning_def)
  note run = Run_launches [OF assms(5) this, of ctx]
  obtain ok x where l: "LaunchRootIsolate (ctx_api ctx) (ctx_ui ctx) (engine_settings e) (run_arguments_of ctx c)
      (isolate_configuration c) (conf_engine_id c) (engine_world e) = Inr (ok, x)"
    "api_CurrentIsolate (ctx_api ctx) (w_vm (rw_isolates x)) = None"
    "if ok then \<exists>i. i \<notin> L \<and> at_isolate (ctx_api ctx) live None i (insert i L) Running True x
     else \<not> root_isolate_lock x \<and> live (w_vm (rw_isolates x)) = L"
    unfolding L_def using LaunchRootIsolate_result [OF assms(1-4,6)] by blast
  let ?e = "(ready_to_launch ctx c e)\<lparr>engine_world := x\<rparr>"
  show ?thesis
  proof (cases ok)
    case False
    with run l show ?thesis
      by (intro exI [of _ Failure] exI [of _ ?e]) simp
  next
    case True
    then obtain i where i: "i \<notin> L" "at_isolate (ctx_api ctx) live None i (insert i L) Running True x"
      using l(3) by auto
    have "isolate (root_isolate x) = Some i" using i(2) by (simp add: at_isolate_def vm_at_def)
    then have calls: "told_service_id ctx i e ((send_service_id ctx ?e)\<lparr>engine_queues := q\<rparr>)" for q
      using send_service_id_calls [of ?e ctx] at_isolate_running(1) [OF i(2)] by (simp add: told_service_id_def kIsolateChannel_def)
    have "queues_ready (send_service_id ctx ?e)" "merges_after_launch (send_service_id ctx ?e) = merges_after_launch e"
      "unmerged_queues (send_service_id ctx ?e) = unmerged_queues e"
      "\<And>q. queues_moved (send_service_id ctx ?e) q = queues_moved e q"
      using assms(7) by (simp_all add: queues_ready_def merges_after_launch_def unmerged_queues_def queues_moved_def)
    with merge_threads_result obtain q where q: "merge_threads (send_service_id ctx ?e) = Inr ((send_service_id ctx ?e)\<lparr>engine_queues := q\<rparr>)"
      "queues_wf q" "\<not> merges_after_launch e \<longrightarrow> q = engine_queues e"
      "merges_after_launch e \<and> unmerged_queues e \<longrightarrow> queues_moved e q"
      by fastforce
    with run l(1) True i calls show ?thesis
      by (intro exI [of _ Success] exI [of _ "(send_service_id ctx ?e)\<lparr>engine_queues := q\<rparr>"]) auto
  qed
qed

text \<open>The part of it that a restart needs.\<close>

lemma Run_result_isolates:
  assumes "vm_conforms (ctx_api ctx) live" "ui_conforms (ctx_api ctx) (ctx_ui ctx) live"
    and "api_CurrentIsolate (ctx_api ctx) (w_vm (rw_isolates (engine_world e))) = None" "\<not> root_isolate_lock (engine_world e)"
    and "RunConfiguration_IsValid c" "pred_option fresh_configuration (isolate_configuration c)" "queues_ready e"
    and "live (w_vm (rw_isolates (engine_world e))) = L"
  shows "\<exists>status e'. Run ctx c e = Inr (status, e') \<and>
    asset_manager e' = asset_manager (snd (UpdateAssetManager ctx (conf_asset_manager c) (remember_entrypoint ctx c e))) \<and>
    last_entry_point e' = entrypoint c \<and>
    (if status = Success
     then \<exists>i. i \<notin> L \<and> at_isolate (ctx_api ctx) live None i (insert i L) Running True (engine_world e')
     else \<not> root_isolate_lock (engine_world e') \<and> live (w_vm (rw_isolates (engine_world e'))) = L)"
  using Run_result [OF assms(1-7)] unfolding assms(8)
  apply (elim exE conjE)
  subgoal for status e'
    by (intro exI [of _ status] exI [of _ e']) (cases "status = Success"; auto)
  done

text \<open>
  C6: running an engine returns on every path. An invalid configuration changes nothing. An engine whose root isolate
  runs keeps it, and reports so. Otherwise a valid configuration is launched: on success the root isolate runs, it is
  the one isolate more in the VM, the delegate gets one message, with the service id of that isolate, the assets are those of the configuration, and the
  queue of the UI runner is served by the platform thread if the settings say so and left alone if not; on failure the
  VM has the isolates it had and the queues are as they were.
\<close>

theorem engine_run_outcomes:
  assumes "vm_conforms (ctx_api ctx) live" "ui_conforms (ctx_api ctx) (ctx_ui ctx) live"
    and "api_CurrentIsolate (ctx_api ctx) (w_vm (rw_isolates (engine_world e))) = None"
    and "root_isolate_lock (engine_world e) \<longrightarrow> IsRootIsolateRunning (engine_world e)"
    and "pred_option fresh_configuration (isolate_configuration c)" "queues_ready e"
  shows "\<exists>status e'. Run ctx c e = Inr (status, e') \<and>
    (if \<not> RunConfiguration_IsValid c then status = Failure \<and> e' = e
     else if IsRootIsolateRunning (engine_world e)
     then status = FailureAlreadyRunning \<and> engine_world e' = engine_world e \<and> engine_queues e' = engine_queues e
     else if status = Success
     then IsRootIsolateRunning (engine_world e') \<and>
       (\<exists>i. i \<notin> live (w_vm (rw_isolates (engine_world e))) \<and>
          live (w_vm (rw_isolates (engine_world e'))) = insert i (live (w_vm (rw_isolates (engine_world e)))) \<and>
          delegate_calls e' = delegate_calls e @
            [OnEngineHandlePlatformMessage \<lparr>pm_channel = ''flutter/isolate'',
               pm_data = Some (text_bytes (ctx_service_id ctx (Some i) (w_vm (rw_isolates (engine_world e'))))),
               pm_response = None\<rparr>]) \<and>
       (\<exists>m n. asset_manager e' = Some m \<and> conf_asset_manager c = Some n \<and>
          (m = n \<or> AssetManager_eq (ctx_resolver_eq ctx) m (Some n))) \<and>
       (if merged_platform_ui_thread (engine_settings e) = kMergeAfterLaunch
        then unmerged_queues e \<longrightarrow> ui_on_platform_thread e' else engine_queues e' = engine_queues e)
     else status = Failure \<and> \<not> IsRootIsolateRunning (engine_world e') \<and> engine_queues e' = engine_queues e \<and>
       live (w_vm (rw_isolates (engine_world e'))) = live (w_vm (rw_isolates (engine_world e))))"
proof (cases "RunConfiguration_IsValid c \<and> \<not> IsRootIsolateRunning (engine_world e)")
  case False
  then show ?thesis
    by (cases "RunConfiguration_IsValid c") (simp_all add: Run_def Let_def)
next
  case True
  then have "\<not> root_isolate_lock (engine_world e)" "RunConfiguration_IsValid c"
    using assms(4) by simp_all
  from Run_result [OF assms(1-3) this assms(5,6)] obtain status e' where
    r: "Run ctx c e = Inr (status, e')" "status \<noteq> FailureAlreadyRunning"
      "asset_manager e' = asset_manager (snd (UpdateAssetManager ctx (conf_asset_manager c) (remember_entrypoint ctx c e)))"
      "ui_queue e' = ui_queue e \<and> platform_queue e' = platform_queue e"
      "if status = Success
       then (\<exists>i. i \<notin> live (w_vm (rw_isolates (engine_world e))) \<and>
           at_isolate (ctx_api ctx) live None i (insert i (live (w_vm (rw_isolates (engine_world e))))) Running True (engine_world e') \<and>
           told_service_id ctx i e e') \<and>
         queues_wf (engine_queues e') \<and> (\<not> merges_after_launch e \<longrightarrow> engine_queues e' = engine_queues e) \<and>
         (merges_after_launch e \<and> unmerged_queues e \<longrightarrow> queues_moved e (engine_queues e'))
       else \<not> root_isolate_lock (engine_world e') \<and>
         live (w_vm (rw_isolates (engine_world e'))) = live (w_vm (rw_isolates (engine_world e))) \<and>
         api_CurrentIsolate (ctx_api ctx) (w_vm (rw_isolates (engine_world e'))) = None \<and> engine_queues e' = engine_queues e"
    by blast
  obtain n where n: "conf_asset_manager c = Some n"
    using True by (auto simp: RunConfiguration_IsValid_def)
  then have m: "\<exists>m. asset_manager e' = Some m \<and> (m = n \<or> AssetManager_eq (ctx_resolver_eq ctx) m (Some n))"
    using r(3) by (simp add: UpdateAssetManager_Some split: option.split)
  show ?thesis
  proof (cases "status = Success")
    case success: True
    with r(5) at_isolate_running(2,3) have "IsRootIsolateRunning (engine_world e')"
      "\<exists>i. i \<notin> live (w_vm (rw_isolates (engine_world e))) \<and>
         live (w_vm (rw_isolates (engine_world e'))) = insert i (live (w_vm (rw_isolates (engine_world e)))) \<and> told_service_id ctx i e e'"
      by fastforce+
    moreover have "merges_after_launch e \<and> unmerged_queues e \<longrightarrow> ui_on_platform_thread e'"
      using success r(4,5) queues_moved_ui by fastforce
    ultimately show ?thesis
      using success True r(1,5) m n
      by (intro exI [of _ status] exI [of _ e']) (simp add: merges_after_launch_def told_service_id_def)
  next
    case False
    then have "status = Failure" using r(2) by (cases status) auto
    with False True r(1,5) show ?thesis
      by (intro exI [of _ status] exI [of _ e']) (simp add: IsRootIsolateRunning_def)
  qed
qed

section \<open>Restarting\<close>

lemma hot_restart_at:
  assumes "vm_conforms api live" "ui_conforms api ui live" "at_isolate api live None i L p b x"
  shows "at_isolate api live None i L p b (InvokeHotRestartListeners api ui x)"
  unfolding InvokeHotRestartListeners_def using at_call_dart [OF assms] by simp

lemma replace_controller_result:
  assumes "vm_conforms (ctx_api ctx) live" "at_isolate (ctx_api ctx) live None i L Running True (engine_world e)"
  shows "\<exists>x. replace_controller ctx e = Inr (e\<lparr>engine_world := x\<rparr>) \<and> \<not> root_isolate_lock x \<and>
    api_CurrentIsolate (ctx_api ctx) (w_vm (rw_isolates x)) = None \<and> live (w_vm (rw_isolates x)) = L - {i}"
proof -
  from delete_shuts_down [OF assms] obtain x where x: "RuntimeController_delete (ctx_api ctx) (engine_world e) = Inr x"
    "api_CurrentIsolate (ctx_api ctx) (w_vm (rw_isolates x)) = None" "live (w_vm (rw_isolates x)) = L - {i}"
    by blast
  then show ?thesis
    by (intro exI [of _ "x\<lparr>rw_controller := Clone (rw_controller x),
        rw_isolates := (rw_isolates x)\<lparr>w_platform_isolates := \<lparr>is_shutdown = False, platform_isolates = []\<rparr>\<rparr>\<rparr>"])
      (simp add: replace_controller_def root_isolate_lock_def Clone_def)
qed

lemma Restart_result:
  assumes "vm_conforms (ctx_api ctx) live" "ui_conforms (ctx_api ctx) (ctx_ui ctx) live"
    and "at_isolate (ctx_api ctx) live None i L Running True (engine_world e)"
    and "platform_configuration (root_isolate (engine_world e)) \<noteq> None"
    and "pred_option fresh_configuration (isolate_configuration c)" "queues_ready e"
  shows "\<exists>ok e'. Restart ctx c e = Inr (ok, e') \<and>
    (if \<not> RunConfiguration_IsValid c then \<not> ok \<and> e' = e
     else asset_manager e' = conf_asset_manager c \<and> last_entry_point e' = entrypoint c \<and>
       (if ok then IsRootIsolateRunning (engine_world e') \<and>
          (\<exists>j. j \<notin> L - {i} \<and> live (w_vm (rw_isolates (engine_world e'))) = insert j (L - {i}))
        else \<not> root_isolate_lock (engine_world e') \<and> live (w_vm (rw_isolates (engine_world e'))) = L - {i}))"
proof (cases "RunConfiguration_IsValid c")
  case False
  then show ?thesis by (intro exI [of _ False] exI [of _ e]) (simp add: Restart_def)
next
  case True
  let ?e1 = "tell_delegate OnPreEngineRestart
    (e\<lparr>engine_world := InvokeHotRestartListeners (ctx_api ctx) (ctx_ui ctx) (engine_world e)\<rparr>)"
  have "at_isolate (ctx_api ctx) live None i L Running True (engine_world ?e1)"
    using hot_restart_at [OF assms(1-3)] by (simp add: tell_delegate_def)
  from replace_controller_result [OF assms(1) this] obtain x where
    x: "replace_controller ctx ?e1 = Inr (?e1\<lparr>engine_world := x\<rparr>)" "\<not> root_isolate_lock x"
      "api_CurrentIsolate (ctx_api ctx) (w_vm (rw_isolates x)) = None" "live (w_vm (rw_isolates x)) = L - {i}"
    by blast
  let ?e2 = "snd (UpdateAssetManager ctx None (?e1\<lparr>engine_world := x\<rparr>))"
  have restart: "Restart ctx c e = bindR (Run ctx c ?e2) (\<lambda>(status, e). Inr (status = Success, e))"
    using True assms(4) at_isolate_running(1) [OF assms(3)] x(1) by (auto simp: Restart_def Let_def)
  have "queues_ready ?e2"
    using assms(6) by (simp add: queues_ready_def tell_delegate_def)
  from Run_result_isolates [OF assms(1,2) _ _ True assms(5) this, of "L - {i}"] x(2-4) obtain status e' where
    r: "Run ctx c ?e2 = Inr (status, e')"
      "asset_manager e' = asset_manager (snd (UpdateAssetManager ctx (conf_asset_manager c) (remember_entrypoint ctx c ?e2)))"
      "last_entry_point e' = entrypoint c"
      "if status = Success then \<exists>j. j \<notin> L - {i} \<and> at_isolate (ctx_api ctx) live None j (insert j (L - {i})) Running True (engine_world e')
       else \<not> root_isolate_lock (engine_world e') \<and> live (w_vm (rw_isolates (engine_world e'))) = L - {i}"
    unfolding UpdateAssetManager_fields by force
  have assets: "asset_manager e' = conf_asset_manager c"
    using True r(2) by (auto simp: UpdateAssetManager_Some RunConfiguration_IsValid_def)
  show ?thesis
  proof (cases "status = Success")
    case success: True
    then obtain j where "j \<notin> L - {i}" "at_isolate (ctx_api ctx) live None j (insert j (L - {i})) Running True (engine_world e')"
      using r(4) by auto
    with at_isolate_running(2,3) [OF this(2)] success True assets r(1,3) restart show ?thesis
      by (intro exI [of _ True] exI [of _ e']) auto
  next
    case False
    with True assets r(1,3,4) restart show ?thesis
      by (intro exI [of _ False] exI [of _ e']) simp
  qed
qed

text \<open>
  C8: a restart replaces the root isolate. With an invalid configuration nothing changes. With a valid one the isolate
  that runs is shut down, after its listeners and the delegate are told; if the restart succeeds another isolate runs in
  its place and no other one is left in the VM, and if it fails none. The assets and the entry point are those of the
  configuration.
\<close>

theorem engine_restart_replaces_isolate:
  assumes "vm_conforms (ctx_api ctx) live" "ui_conforms (ctx_api ctx) (ctx_ui ctx) live"
    and "at_isolate (ctx_api ctx) live None i L Running True (engine_world e)"
    and "platform_configuration (root_isolate (engine_world e)) \<noteq> None"
    and "pred_option fresh_configuration (isolate_configuration c)" "queues_ready e"
  shows "\<exists>ok e'. Restart ctx c e = Inr (ok, e') \<and>
    (if \<not> RunConfiguration_IsValid c then \<not> ok \<and> e' = e
     else asset_manager e' = conf_asset_manager c \<and> last_entry_point e' = entrypoint c \<and>
       (if ok then IsRootIsolateRunning (engine_world e') \<and>
          (\<exists>j. j \<notin> L - {i} \<and> live (w_vm (rw_isolates (engine_world e'))) = insert j (L - {i}))
        else \<not> root_isolate_lock (engine_world e') \<and> live (w_vm (rw_isolates (engine_world e'))) = L - {i}))"
  using Restart_result [OF assms] .

text \<open>The engine does not reach the unchecked pointer of the controller when a deferred library comes too late.\<close>

lemma deferred_library_is_guarded:
  assumes "\<not> IsRootIsolateRunning (engine_world e)"
  shows "engine_LoadDartDeferredLibrary ctx unit data instructions e = Inr e" "engine_LoadDartDeferredLibraryError ctx unit e = Inr e"
  using assms by (simp_all add: engine_LoadDartDeferredLibrary_def engine_LoadDartDeferredLibraryError_def)

text \<open>Every request for an asset with a response is answered at once, with the asset or with nothing, and never passed on.\<close>

lemma asset_request_answered:
  assumes "pm_channel message = kAssetChannel" "pm_response message = Some r"
  shows "\<exists>answer. engine_HandlePlatformMessage message e = e\<lparr>asset_responses := asset_responses e @ [(r, answer)]\<rparr> \<and>
    answer = (case asset_manager e of None \<Rightarrow> None
      | Some m \<Rightarrow> AssetManager_GetAsMapping (map (\<lambda>b. char_of (unat b)) (message_data message)) m)"
  using assms by (simp add: engine_HandlePlatformMessage_def HandleAssetPlatformMessage_def)

text \<open>
  Of the four strings of a locale the code tests two: a message whose third or fourth value is something else, here
  the null of a locale without a script, is read as a string all the same.
\<close>

theorem locale_without_script_is_undefined:
  assumes "ctx_parse ctx (message_data message) =
    Some (JObject [(''method'', JString ''setLocale''), (''args'', JArray [JString ''en'', JString ''US'', JNull, JNull])])"
    and "pm_channel message = kLocalizationChannel"
  shows "engine_DispatchPlatformMessage ctx message e = Inl Undefined"
  using assms by (simp add: engine_DispatchPlatformMessage_def HandleLocalizationPlatformMessage_def)

section \<open>An engine of the example VM\<close>

definition example_context :: "example_vm engine_context" where
  "example_context =
     \<lparr>ctx_api = example_api, ctx_ui = example_ui, ctx_service_id = (\<lambda>i v. ''isolates/1''), ctx_resolver_eq = (\<lambda>r s. False),
      ctx_registrant = None, ctx_parse = (\<lambda>d. None), ctx_debug = True\<rparr>"

definition example_engine :: "example_vm Engine" where
  "example_engine =
     \<lparr>engine_settings = example_settings\<lparr>merged_platform_ui_thread := kMergeAfterLaunch\<rparr>, engine_world = example_controller,
      engine_queues = example_queues, platform_queue = 0, ui_queue = 1, last_entry_point = [], last_entry_point_library = [],
      last_entry_point_args = [], last_engine_id = None, asset_manager = None, native_assets = None, owner_tasks = 0,
      delegate_calls = [], asset_responses = []\<rparr>"

definition example_configuration :: RunConfiguration where
  "example_configuration = RunConfiguration_new (Some AppSnapshotIsolateConfiguration) (Some [])"

lemma example_engine_ready:
  "queues_ready example_engine" "unmerged_queues example_engine" "\<not> root_isolate_lock (engine_world example_engine)"
  "\<not> IsRootIsolateRunning (engine_world example_engine)"
  "api_CurrentIsolate example_api (w_vm (rw_isolates (engine_world example_engine))) = None"
  using queues_reach_wf [OF example_reach]
  by (simp_all add: example_engine_def queues_ready_def unmerged_queues_def TaskQueueEntry_new_def example_controller_def
      example_world_def example_api_def root_isolate_lock_def IsRootIsolateRunning_def)

theorem engine_run_outcomes_witness:
  "\<exists>status e'. Run example_context example_configuration example_engine = Inr (status, e') \<and>
     (status = Success \<longrightarrow> IsRootIsolateRunning (engine_world e') \<and> ui_on_platform_thread e' \<and>
        delegate_calls e' = [OnEngineHandlePlatformMessage
          \<lparr>pm_channel = ''flutter/isolate'', pm_data = Some (text_bytes ''isolates/1''), pm_response = None\<rparr>]) \<and>
     (status \<noteq> Success \<longrightarrow> \<not> IsRootIsolateRunning (engine_world e'))"
proof -
  let ?e = example_engine
  have c: "ctx_api example_context = example_api" "ctx_ui example_context = example_ui" "delegate_calls ?e = []"
    "ctx_service_id example_context i v = ''isolates/1''" for i v
    by (simp_all add: example_context_def example_engine_def)
  have v: "RunConfiguration_IsValid example_configuration"
    "pred_option fresh_configuration (isolate_configuration example_configuration)"
    "merged_platform_ui_thread (engine_settings ?e) = kMergeAfterLaunch"
    by (simp_all add: example_configuration_def RunConfiguration_new_def RunConfiguration_IsValid_def example_engine_def)
  from engine_run_outcomes [of example_context example_live ?e example_configuration, unfolded c, OF example_conforms
      example_ui_conforms example_engine_ready(5) _ v(2) example_engine_ready(1)] example_engine_ready(3)
  obtain status e' where "Run example_context example_configuration ?e = Inr (status, e')"
    "if status = Success
     then IsRootIsolateRunning (engine_world e') \<and> ui_on_platform_thread e' \<and>
       delegate_calls e' = [OnEngineHandlePlatformMessage
         \<lparr>pm_channel = ''flutter/isolate'', pm_data = Some (text_bytes ''isolates/1''), pm_response = None\<rparr>]
     else \<not> IsRootIsolateRunning (engine_world e')"
    by (simp add: v example_engine_ready(2,4)) (elim exE conjE, rule that, assumption, auto simp: v(3) example_engine_ready(2) split: if_splits)
  then show ?thesis
    by (intro exI [of _ status] exI [of _ e']) (simp split: if_splits)
qed

text \<open>The same engine with isolate 1 of the VM running as its root isolate.\<close>

definition running_engine :: "example_vm Engine" where
  "running_engine = example_engine\<lparr>engine_world :=
     (on_controller (\<lambda>r. r\<lparr>rc_root_isolate := True\<rparr>) example_controller)\<lparr>rw_isolates :=
       example_world\<lparr>w_isolate := (w_isolate example_world)\<lparr>phase := Running, isolate := Some 1, platform_configuration := Some 0\<rparr>\<rparr>\<rparr>\<rparr>"

lemma running_engine_at:
  "at_isolate example_api example_live None 1 {0, 1} Running True (engine_world running_engine)"
  "queues_ready running_engine" "platform_configuration (root_isolate (engine_world running_engine)) \<noteq> None"
  using example_engine_ready(1)
  by (auto simp: running_engine_def at_isolate_def vm_at_def on_controller_def example_world_def example_api_def
      example_live_def DartIsolate_new_def queues_ready_def)

theorem engine_restart_replaces_isolate_witness:
  "\<exists>ok e'. Restart example_context example_configuration running_engine = Inr (ok, e') \<and> last_entry_point e' = ''main'' \<and>
     (ok \<longrightarrow> IsRootIsolateRunning (engine_world e')) \<and>
     (\<not> ok \<longrightarrow> example_live (w_vm (rw_isolates (engine_world e'))) = {0})"
proof -
  have ctx: "ctx_api example_context = example_api" "ctx_ui example_context = example_ui"
    by (simp_all add: example_context_def)
  have "RunConfiguration_IsValid example_configuration" "entrypoint example_configuration = ''main''"
    and fresh: "pred_option fresh_configuration (isolate_configuration example_configuration)"
    by (simp_all add: example_configuration_def RunConfiguration_new_def RunConfiguration_IsValid_def)
  moreover have "{0, 1} - {1} = {0 :: nat}"
    by auto
  ultimately show ?thesis
    using engine_restart_replaces_isolate [of example_context example_live 1 "{0, 1}" running_engine, unfolded ctx,
        OF example_conforms example_ui_conforms running_engine_at(1,3) fresh running_engine_at(2)]
    by (auto split: if_splits)
qed

end
