(* ===== verification/Shell.thy ===== *)
theory Shell
  imports Engine Paths "HOL-Library.Sublist"
begin

text \<open>
  The shell (\<open>shell/common/shell\<close>): it owns an engine on the UI thread and a platform view on the platform thread, sets
  them up and takes them down in order, routes messages between them, and answers requests of the VM service. Tasks that
  the shell posts to a runner are in the queue of that runner until they run, in order (as \<open>Task_Scheduling\<close> shows for
  tasks of one target time); where the shell waits for a task on a latch, or runs it at once, it is part of the
  operation. Weak pointers are tests whether the object is still there. Whether a platform message handler handles
  messages on the platform thread is what the handler says. \<open>RunEngine\<close>, which the code posts to the UI runner, is the
  operation that runs there: what is queued before it has run when it is taken as a step.
\<close>

section \<open>State\<close>

datatype shell_task =
    Stop_routing
  | Route_back PlatformMessage
  | Give_to_handler PlatformMessage
  | Give_to_view PlatformMessage
  | Update_channel string bool
  | Dispatch_to_engine PlatformMessage
  | Request_library int
  | Add_handler Description
  | Empty_task

text \<open>What the platform view and the platform message handler get to see.\<close>

datatype platform_call =
    Message_handled PlatformMessage
  | Channel_updated string bool
  | Restart_announced
  | Library_requested int

record 'v shell_context =
  ctx_engine :: "'v engine_context"
  ctx_main_port :: "'v runtime_world \<Rightarrow> 64 word"
  ctx_isolate_name :: "'v runtime_world \<Rightarrow> string"
  ctx_open_directory :: "string \<Rightarrow> AssetResolver"
  ctx_read_file :: "string \<Rightarrow> fml_mapping"
  ctx_write_json :: "json \<Rightarrow> string"

text \<open>
  \<open>ui_is_platform_thread\<close> tells whether the UI runner runs tasks on the platform thread; \<open>platform_message_handler\<close> is \<open>DoesHandlePlatformMessageOnPlatformThread\<close> of a handler that is there.
\<close>

record 'v Shell =
  shell_address :: Handler
  shell_merged_platform_ui_thread :: MergedPlatformUIThread
  ui_is_platform_thread :: bool
  shell_engine :: "'v Engine option"
  shell_has_view :: bool
  platform_message_handler :: "bool option"
  is_set_up :: bool
  route_messages_through_platform_thread :: bool
  is_added_to_service_protocol :: bool
  service_protocol :: ServiceProtocol
  platform_tasks :: "shell_task list"
  ui_tasks :: "shell_task list"
  platform_calls :: "platform_call list"

definition Shell_new :: "Handler \<Rightarrow> MergedPlatformUIThread \<Rightarrow> bool \<Rightarrow> ServiceProtocol \<Rightarrow> 'v Shell" where
  "Shell_new address merged_thread same_thread protocol =
     \<lparr>shell_address = address, shell_merged_platform_ui_thread = merged_thread, ui_is_platform_thread = same_thread, shell_engine = None, shell_has_view = False,
      platform_message_handler = None, is_set_up = False, route_messages_through_platform_thread = False,
      is_added_to_service_protocol = False, service_protocol = protocol, platform_tasks = [], ui_tasks = [], platform_calls = []\<rparr>"

definition post_platform :: "shell_task \<Rightarrow> 'v Shell \<Rightarrow> 'v Shell" where
  "post_platform t s = s\<lparr>platform_tasks := platform_tasks s @ [t]\<rparr>"

definition post_ui :: "shell_task \<Rightarrow> 'v Shell \<Rightarrow> 'v Shell" where
  "post_ui t s = s\<lparr>ui_tasks := ui_tasks s @ [t]\<rparr>"

definition call_platform :: "platform_call \<Rightarrow> 'v Shell \<Rightarrow> 'v Shell" where
  "call_platform c s = s\<lparr>platform_calls := platform_calls s @ [c]\<rparr>"

section \<open>Creation and destruction\<close>

text \<open>A view is given with its message handler.\<close>

definition Setup :: "bool option option \<Rightarrow> 'v Engine option \<Rightarrow> 'v Shell \<Rightarrow> bool \<times> 'v Shell" where
  "Setup view engine s =
     (if is_set_up s then (False, s)
      else case (view, engine) of
        (Some handler, Some e) \<Rightarrow>
          let s = s\<lparr>shell_has_view := True, platform_message_handler := handler, route_messages_through_platform_thread := True\<rparr>;
              s = post_platform Stop_routing s
          in (True, s\<lparr>shell_engine := Some e, is_set_up := True\<rparr>)
      | _ \<Rightarrow> (False, s))"

text \<open>What is left of the process when a shell is gone.\<close>

record 'v shell_remains =
  remaining_isolates :: "'v isolate_world"
  remaining_queues :: MessageLoopTaskQueues
  remaining_protocol :: ServiceProtocol

definition take_back_ui_queue :: "'v Shell \<Rightarrow> 'v Engine \<Rightarrow> MessageLoopTaskQueues res" where
  "take_back_ui_queue s e =
     (if shell_merged_platform_ui_thread s = kMergeAfterLaunch
      then bindR (Owns (engine_queues e) (platform_queue e) (ui_queue e)) (\<lambda>owns.
        if owns then bindR (Unmerge (platform_queue e) (ui_queue e) (engine_queues e)) (\<lambda>(_, q). Inr q)
        else Inr (engine_queues e))
      else Inr (engine_queues e))"

text \<open>The destructor uses the engine without a test: platform isolates first, then the engine, then the view.\<close>

definition Shell_delete :: "'v shell_context \<Rightarrow> 'v Shell \<Rightarrow> 'v shell_remains res" where
  "Shell_delete ctx s =
     (let protocol = RemoveHandler (shell_address s) (service_protocol s)
      in case shell_engine s of
           None \<Rightarrow> Inl Undefined
         | Some e \<Rightarrow>
             let e = engine_ShutdownPlatformIsolates (ctx_engine ctx) e
             in bindR (RuntimeController_delete (ctx_api (ctx_engine ctx)) (engine_world e)) (\<lambda>x.
                bindR (take_back_ui_queue s e) (\<lambda>q.
                  Inr \<lparr>remaining_isolates = rw_isolates x, remaining_queues = q, remaining_protocol = protocol\<rparr>)))"

definition CreateShellOnPlatformThread ::
  "'v shell_context \<Rightarrow> bool \<Rightarrow> bool option option \<Rightarrow> 'v Engine option \<Rightarrow> 'v Shell \<Rightarrow> 'v Shell option res" where
  "CreateShellOnPlatformThread ctx runners_valid view engine s =
     (if \<not> runners_valid then Inr None
      else if view = None then bindR (Shell_delete ctx s) (\<lambda>_. Inr None)
      else
        let (ok, s) = Setup view engine s
        in if \<not> ok then bindR (Shell_delete ctx s) (\<lambda>_. Inr None) else Inr (Some s))"

section \<open>Messages\<close>

definition shell_OnEngineHandlePlatformMessage :: "PlatformMessage \<Rightarrow> 'v Shell \<Rightarrow> 'v Shell" where
  "shell_OnEngineHandlePlatformMessage message s =
     (case platform_message_handler s of
        Some on_platform_thread \<Rightarrow>
          if route_messages_through_platform_thread s \<and> \<not> on_platform_thread then post_platform (Route_back message) s
          else call_platform (Message_handled message) s
      | None \<Rightarrow> post_platform (Give_to_view message) s)"

definition OnEngineChannelUpdate :: "string \<Rightarrow> bool \<Rightarrow> 'v Shell \<Rightarrow> 'v Shell" where
  "OnEngineChannelUpdate name listening = post_platform (Update_channel name listening)"

definition shell_OnPreEngineRestart :: "'v Shell \<Rightarrow> 'v Shell" where
  "shell_OnPreEngineRestart s = (if shell_has_view s then call_platform Restart_announced s else s)"

definition shell_RequestDartDeferredLibrary :: "int \<Rightarrow> 'v Shell \<Rightarrow> 'v Shell" where
  "shell_RequestDartDeferredLibrary unit = post_platform (Request_library unit)"

text \<open>The calls of the engine on its delegate, made while the shell was waiting for the engine.\<close>

definition answer_engine :: "'v Shell \<Rightarrow> 'v Shell" where
  "answer_engine s =
     (case shell_engine s of
        None \<Rightarrow> s
      | Some e \<Rightarrow>
          fold (\<lambda>c. case c of OnPreEngineRestart \<Rightarrow> shell_OnPreEngineRestart
                 | OnEngineHandlePlatformMessage m \<Rightarrow> shell_OnEngineHandlePlatformMessage m)
            (delegate_calls e) (s\<lparr>shell_engine := Some (e\<lparr>delegate_calls := []\<rparr>)\<rparr>))"

definition OnPlatformViewDispatchPlatformMessage ::
  "'v shell_context \<Rightarrow> bool \<Rightarrow> PlatformMessage \<Rightarrow> 'v Shell \<Rightarrow> 'v Shell res" where
  "OnPlatformViewDispatchPlatformMessage ctx on_ui_thread message s =
     (if on_ui_thread
      then (case shell_engine s of
          None \<Rightarrow> Inr (post_ui Empty_task s)
        | Some e \<Rightarrow>
            bindR (engine_DispatchPlatformMessage (ctx_engine ctx) message e) (\<lambda>e.
              Inr (post_ui Empty_task (answer_engine (s\<lparr>shell_engine := Some e\<rparr>)))))
      else Inr (post_ui (Dispatch_to_engine message) s))"

text \<open>The tasks of the two runners.\<close>

definition run_platform_task :: "'v Shell \<Rightarrow> 'v Shell" where
  "run_platform_task s =
     (case platform_tasks s of
        [] \<Rightarrow> s
      | t # ts \<Rightarrow>
          let s = s\<lparr>platform_tasks := ts\<rparr>
          in case t of
               Stop_routing \<Rightarrow> s\<lparr>route_messages_through_platform_thread := False\<rparr>
             | Route_back m \<Rightarrow> post_ui (Give_to_handler m) s
             | Give_to_view m \<Rightarrow> if shell_has_view s then call_platform (Message_handled m) s else s
             | Update_channel name listening \<Rightarrow> if shell_has_view s then call_platform (Channel_updated name listening) s else s
             | Request_library unit \<Rightarrow> if shell_has_view s then call_platform (Library_requested unit) s else s
             | Add_handler d \<Rightarrow> s\<lparr>service_protocol := AddHandler (shell_address s) d (service_protocol s)\<rparr>
             | _ \<Rightarrow> s)"

definition run_ui_task :: "'v shell_context \<Rightarrow> 'v Shell \<Rightarrow> 'v Shell res" where
  "run_ui_task ctx s =
     (case ui_tasks s of
        [] \<Rightarrow> Inr s
      | t # ts \<Rightarrow>
          let s = s\<lparr>ui_tasks := ts\<rparr>
          in case t of
               Give_to_handler m \<Rightarrow>
                 Inr (if platform_message_handler s \<noteq> None then call_platform (Message_handled m) s else s)
             | Dispatch_to_engine m \<Rightarrow>
                 (case shell_engine s of
                    None \<Rightarrow> Inr s
                  | Some e \<Rightarrow>
                      bindR (engine_DispatchPlatformMessage (ctx_engine ctx) m e) (\<lambda>e.
                        Inr (answer_engine (s\<lparr>shell_engine := Some e\<rparr>))))
             | _ \<Rightarrow> Inr s)"

section \<open>Running the engine\<close>

definition GetServiceProtocolDescription :: "'v shell_context \<Rightarrow> 'v Shell \<Rightarrow> Description" where
  "GetServiceProtocolDescription ctx s =
     (case shell_engine s of
        None \<Rightarrow> \<lparr>isolate_port = 0, isolate_name = []\<rparr>
      | Some e \<Rightarrow>
          if root_isolate_lock (engine_world e)
          then \<lparr>isolate_port = ctx_main_port ctx (engine_world e), isolate_name = ctx_isolate_name ctx (engine_world e)\<rparr>
          else \<lparr>isolate_port = 0, isolate_name = []\<rparr>)"

definition shell_OnRootIsolateCreated :: "'v shell_context \<Rightarrow> 'v Shell \<Rightarrow> 'v Shell" where
  "shell_OnRootIsolateCreated ctx s =
     (if is_added_to_service_protocol s then s
      else
        let description = GetServiceProtocolDescription ctx s;
            s = (if ui_is_platform_thread s
                 then s\<lparr>service_protocol := AddHandler (shell_address s) description (service_protocol s)\<rparr>
                 else post_platform (Add_handler description) s)
        in s\<lparr>is_added_to_service_protocol := True\<rparr>)"

definition shell_UpdateIsolateDescription :: "string \<Rightarrow> 64 word \<Rightarrow> 'v Shell \<Rightarrow> 'v Shell" where
  "shell_UpdateIsolateDescription name port s =
     s\<lparr>service_protocol :=
       SetHandlerDescription (shell_address s) \<lparr>isolate_port = port, isolate_name = name\<rparr> (service_protocol s)\<rparr>"

text \<open>After a launch the controller tells that the root isolate is there; then come the calls of the engine.\<close>

definition engine_ran :: "'v shell_context \<Rightarrow> bool \<Rightarrow> 'v Engine \<Rightarrow> 'v Shell \<Rightarrow> 'v Shell" where
  "engine_ran ctx launched e s =
     (let s = s\<lparr>shell_engine := Some e\<rparr>
      in answer_engine (if launched then shell_OnRootIsolateCreated ctx s else s))"

definition RunEngine :: "'v shell_context \<Rightarrow> RunConfiguration \<Rightarrow> 'v Shell \<Rightarrow> (RunStatus \<times> 'v Shell) res" where
  "RunEngine ctx configuration s =
     (case shell_engine s of
        None \<Rightarrow> Inr (Failure, s)
      | Some e \<Rightarrow>
          bindR (Run (ctx_engine ctx) configuration e) (\<lambda>(status, e).
            Inr (status, engine_ran ctx (status = Success) e s)))"

text \<open>\<open>Spawn\<close> creates a shell and runs it without looking at what it got.\<close>

definition shell_Spawn ::
  "'v shell_context \<Rightarrow> RunConfiguration \<Rightarrow> bool option option \<Rightarrow> 'v Engine \<Rightarrow> Handler \<Rightarrow> 'v Shell \<Rightarrow> 'v Shell option res" where
  "shell_Spawn ctx configuration view spawned address s =
     (if shell_merged_platform_ui_thread s = kMergeAfterLaunch then Inr None
      else
        bindR (CreateShellOnPlatformThread ctx True view (Some spawned)
          (Shell_new address (shell_merged_platform_ui_thread s) (ui_is_platform_thread s) (service_protocol s))) (\<lambda>result.
          case result of
            None \<Rightarrow> Inl Undefined
          | Some r \<Rightarrow> bindR (RunEngine ctx configuration r) (\<lambda>(_, r). Inr (Some r))))"

text \<open>The asset manager of the engine is dereferenced without a test.\<close>

definition UpdateAssetResolverByType_shell ::
  "AssetResolver option \<Rightarrow> AssetResolverType \<Rightarrow> 'v Shell \<Rightarrow> 'v Shell res" where
  "UpdateAssetResolverByType_shell resolver type s =
     (case shell_engine s of
        None \<Rightarrow> Inr s
      | Some e \<Rightarrow>
          (case asset_manager e of
             None \<Rightarrow> Inl Undefined
           | Some m \<Rightarrow> Inr (s\<lparr>shell_engine := Some (e\<lparr>asset_manager := Some (UpdateResolverByType resolver type m)\<rparr>)\<rparr>)))"

section \<open>Requests of the VM service\<close>

definition ServiceProtocolParameterError :: "string \<Rightarrow> json" where
  "ServiceProtocolParameterError details =
     JObject [(''code'', JNumber (-32602)), (''message'', JString ''Invalid params''),
       (''data'', JObject [(''details'', JString details)])]"

definition ServiceProtocolFailureError :: "string \<Rightarrow> json" where
  "ServiceProtocolFailureError message = JObject [(''code'', JNumber (-32000)), (''message'', JString message)]"

definition success_with_view :: "'v shell_context \<Rightarrow> 'v Shell \<Rightarrow> json" where
  "success_with_view ctx s =
     JObject [(''type'', JString ''Success''),
       (''view'', Description_Write (shell_address s) (GetServiceProtocolDescription ctx s))]"

text \<open>The loops that preserve the resolvers of the old asset manager, which loses all of them.\<close>

definition surviving_resolvers :: "AssetManager option \<Rightarrow> AssetResolver list" where
  "surviving_resolvers m =
     (case m of None \<Rightarrow> [] | Some rs \<Rightarrow> filter resolver_IsValidAfterAssetManagerChange (fst (TakeResolvers rs)))"

definition OnServiceProtocolRunInView ::
  "'v shell_context \<Rightarrow> params \<Rightarrow> 'v Shell \<Rightarrow> ((bool \<times> json) \<times> 'v Shell) res" where
  "OnServiceProtocolRunInView ctx params s =
     (case params ''mainScript'' of
        None \<Rightarrow> Inr ((False, ServiceProtocolParameterError (CHR 0x27 # ''mainScript'' @ CHR 0x27 # '' parameter is missing.'')), s)
      | Some main_script \<Rightarrow>
      (case params ''assetDirectory'' of
        None \<Rightarrow> Inr ((False, ServiceProtocolParameterError (CHR 0x27 # ''assetDirectory'' @ CHR 0x27 # '' parameter is missing.'')), s)
      | Some asset_directory \<Rightarrow>
          bindR (posix_FromURI main_script) (\<lambda>main_script_path.
          bindR (posix_FromURI asset_directory) (\<lambda>asset_directory_path.
          case shell_engine s of
            None \<Rightarrow> Inl Undefined
          | Some e \<Rightarrow>
              let configuration = RunConfiguration_new
                    (Some (KernelIsolateConfiguration (Some (ctx_read_file ctx main_script_path)))) (Some []);
                  configuration = SetEntrypointAndLibrary (last_entry_point e) (last_entry_point_library e) configuration;
                  configuration = configuration\<lparr>entrypoint_args := last_entry_point_args e, conf_engine_id := last_engine_id e\<rparr>
              in bindR (AddAssetResolver (Some (ctx_open_directory ctx asset_directory_path)) configuration) (\<lambda>(_, configuration).
                 bindR (foldR (\<lambda>r c. bindR (AddAssetResolver (Some r) c) (\<lambda>(_, c). Inr c))
                    (surviving_resolvers (asset_manager e)) configuration) (\<lambda>configuration.
                 let e = e\<lparr>asset_manager := map_option (snd \<circ> TakeResolvers) (asset_manager e)\<rparr>
                 in bindR (Restart (ctx_engine ctx) configuration e) (\<lambda>(ok, e).
                      let s = engine_ran ctx ok e s
                      in Inr (if ok then ((True, success_with_view ctx s), s)
                              else ((False, ServiceProtocolFailureError ''Could not run configuration in engine.''), s))))))))) "

definition OnServiceProtocolSetAssetBundlePath ::
  "'v shell_context \<Rightarrow> params \<Rightarrow> 'v Shell \<Rightarrow> ((bool \<times> json) \<times> 'v Shell) res" where
  "OnServiceProtocolSetAssetBundlePath ctx params s =
     (case params ''assetDirectory'' of
        None \<Rightarrow> Inr ((False, ServiceProtocolParameterError (CHR 0x27 # ''assetDirectory'' @ CHR 0x27 # '' parameter is missing.'')), s)
      | Some asset_directory \<Rightarrow>
          let (pushed, m) = AssetManager_PushFront (Some (ctx_open_directory ctx asset_directory)) []
          in if \<not> pushed then Inr ((False, ServiceProtocolFailureError ''Could not update asset directory.''), s)
             else (case shell_engine s of
                 None \<Rightarrow> Inl Undefined
               | Some e \<Rightarrow>
                   let m = fold (\<lambda>r m. snd (AssetManager_PushBack (Some r) m)) (surviving_resolvers (asset_manager e)) m;
                       e = e\<lparr>asset_manager := map_option (snd \<circ> TakeResolvers) (asset_manager e)\<rparr>;
                       (ok, e) = UpdateAssetManager (ctx_engine ctx) (Some m) e;
                       s = s\<lparr>shell_engine := Some e\<rparr>
                   in Inr (if ok then ((True, success_with_view ctx s), s)
                           else ((False, ServiceProtocolFailureError ''Could not update asset directory.''), s))))"

definition SendFontChangeNotification :: "'v shell_context \<Rightarrow> bool \<Rightarrow> 'v Shell \<Rightarrow> 'v Shell res" where
  "SendFontChangeNotification ctx on_ui_thread s =
     OnPlatformViewDispatchPlatformMessage ctx on_ui_thread
       \<lparr>pm_channel = ''flutter/system'',
        pm_data = Some (text_bytes (ctx_write_json ctx (JObject [(''type'', JString ''fontsChange'')]))), pm_response = None\<rparr> s"

text \<open>
  \<open>ReloadAssetFonts\<close> runs on the platform thread; without an engine it leaves the response as it was, which is null.
\<close>

definition OnServiceProtocolReloadAssetFonts :: "'v shell_context \<Rightarrow> 'v Shell \<Rightarrow> ((bool \<times> json) \<times> 'v Shell) res" where
  "OnServiceProtocolReloadAssetFonts ctx s =
     (if shell_engine s = None then Inr ((False, JNull), s)
      else bindR (SendFontChangeNotification ctx (ui_is_platform_thread s) s) (\<lambda>s.
        Inr ((True, JObject [(''type'', JString ''Success'')]), s)))"

text \<open>The handlers that only answer.\<close>

definition fixed_answers :: "(string \<times> (bool \<times> json)) list" where
  "fixed_answers =
     [(''_flutter.screenshot'', (False, ServiceProtocolFailureError ''Could not capture image screenshot.'')),
      (''_flutter.screenshotSkp'', (False, ServiceProtocolFailureError ''Could not capture SKP screenshot.'')),
      (''_flutter.flushUIThreadTasks'', (True, JObject [(''type'', JString ''Success'')])),
      (''_flutter.getDisplayRefreshRate'', (True, JObject [(''type'', JString ''DisplayRefreshRate''), (''fps'', JDouble 0)])),
      (''_flutter.getSkSLs'', (True, JObject [(''type'', JString ''GetSkSLs''), (''SkSLs'', JObject [])])),
      (''_flutter.estimateRasterCacheMemory'',
        (True, JObject [(''type'', JString ''EstimateRasterCacheMemory''), (''layerBytes'', JNumber 0), (''pictureBytes'', JNumber 0)])),
      (''_flutter.getPipelineUsage'', (True, JObject [(''Usages'', JObject [])]))]"

definition HandleServiceProtocolMessage ::
  "'v shell_context \<Rightarrow> string \<Rightarrow> params \<Rightarrow> 'v Shell \<Rightarrow> ((bool \<times> json) \<times> 'v Shell) res" where
  "HandleServiceProtocolMessage ctx name params s =
     (if name = ''_flutter.runInView'' then OnServiceProtocolRunInView ctx params s
      else if name = ''_flutter.setAssetBundlePath'' then OnServiceProtocolSetAssetBundlePath ctx params s
      else if name = ''_flutter.reloadAssetFonts'' then OnServiceProtocolReloadAssetFonts ctx s
      else (case map_of fixed_answers name of Some answer \<Rightarrow> Inr (answer, s) | None \<Rightarrow> Inr ((False, JNull), s)))"

text \<open>The runner a handler is called on: the platform runner for the fonts, else the UI runner.\<close>

definition handled_on_platform_runner :: "string \<Rightarrow> bool" where
  "handled_on_platform_runner name \<longleftrightarrow> name = ''_flutter.reloadAssetFonts''"

section \<open>What an operation leaves alone\<close>

lemma shell_message_fields [simp]:
  "shell_engine (shell_OnEngineHandlePlatformMessage m s) = shell_engine s"
  "shell_address (shell_OnEngineHandlePlatformMessage m s) = shell_address s"
  "shell_merged_platform_ui_thread (shell_OnEngineHandlePlatformMessage m s) = shell_merged_platform_ui_thread s"
  "service_protocol (shell_OnEngineHandlePlatformMessage m s) = service_protocol s"
  "shell_engine (shell_OnPreEngineRestart s) = shell_engine s"
  "shell_address (shell_OnPreEngineRestart s) = shell_address s"
  "shell_merged_platform_ui_thread (shell_OnPreEngineRestart s) = shell_merged_platform_ui_thread s"
  "service_protocol (shell_OnPreEngineRestart s) = service_protocol s"
  by (simp_all add: shell_OnEngineHandlePlatformMessage_def shell_OnPreEngineRestart_def post_platform_def call_platform_def
      split: option.split)

lemma answer_engine_fields [simp]:
  shows "shell_engine (answer_engine s) = map_option (\<lambda>e. e\<lparr>delegate_calls := []\<rparr>) (shell_engine s)"
    and "shell_address (answer_engine s) = shell_address s"
    and "service_protocol (answer_engine s) = service_protocol s"
    and "shell_merged_platform_ui_thread (answer_engine s) = shell_merged_platform_ui_thread s"
proof -
  let ?f = "\<lambda>c. case c of OnPreEngineRestart \<Rightarrow> shell_OnPreEngineRestart
    | OnEngineHandlePlatformMessage m \<Rightarrow> shell_OnEngineHandlePlatformMessage m"
  have "shell_engine (fold ?f cs t) = shell_engine t \<and> shell_address (fold ?f cs t) = shell_address t \<and>
    service_protocol (fold ?f cs t) = service_protocol t \<and>
    shell_merged_platform_ui_thread (fold ?f cs t) = shell_merged_platform_ui_thread t" for cs and t :: "'a Shell"
    by (induction cs arbitrary: t) (simp_all split: delegate_call.split)
  then show "shell_engine (answer_engine s) = map_option (\<lambda>e. e\<lparr>delegate_calls := []\<rparr>) (shell_engine s)"
    "shell_address (answer_engine s) = shell_address s" "service_protocol (answer_engine s) = service_protocol s"
    "shell_merged_platform_ui_thread (answer_engine s) = shell_merged_platform_ui_thread s"
    by (simp_all add: answer_engine_def split: option.split)
qed

lemma engine_ran_fields [simp]:
  "shell_engine (engine_ran ctx launched e s) = Some (e\<lparr>delegate_calls := []\<rparr>)"
  "shell_address (engine_ran ctx launched e s) = shell_address s"
  "shell_merged_platform_ui_thread (engine_ran ctx launched e s) = shell_merged_platform_ui_thread s"
  by (simp_all add: engine_ran_def shell_OnRootIsolateCreated_def Let_def post_platform_def)

lemma platform_task_fields [simp]:
  "shell_engine (run_platform_task s) = shell_engine s"
  "shell_address (run_platform_task s) = shell_address s"
  "shell_merged_platform_ui_thread (run_platform_task s) = shell_merged_platform_ui_thread s"
  by (simp_all add: run_platform_task_def Let_def post_ui_def call_platform_def split: list.split shell_task.split)

lemma platform_tasks_fields [simp]:
  "shell_engine ((run_platform_task ^^ n) s) = shell_engine s"
  "shell_address ((run_platform_task ^^ n) s) = shell_address s"
  "shell_merged_platform_ui_thread ((run_platform_task ^^ n) s) = shell_merged_platform_ui_thread s"
  by (induction n) simp_all

section \<open>The life of a shell\<close>

lemma platform_isolates_gone:
  assumes "vm_conforms (ctx_api ctx) live" "api_CurrentIsolate (ctx_api ctx) (w_vm (rw_isolates (engine_world e))) = None"
  defines "e' \<equiv> engine_ShutdownPlatformIsolates ctx e"
  shows "api_CurrentIsolate (ctx_api ctx) (w_vm (rw_isolates (engine_world e'))) = None"
    "live (w_vm (rw_isolates (engine_world e'))) =
      live (w_vm (rw_isolates (engine_world e))) - set (platform_isolates (w_platform_isolates (rw_isolates (engine_world e))))"
    "root_isolate_lock (engine_world e') = root_isolate_lock (engine_world e)"
    "at_isolate (ctx_api ctx) live None i L Running True (engine_world e) \<Longrightarrow>
      at_isolate (ctx_api ctx) live None i (L - set (platform_isolates (w_platform_isolates (rw_isolates (engine_world e))))) Running True
        (engine_world e')"
proof -
  let ?w = "rw_isolates (engine_world e)"
  obtain m v where "ShutdownPlatformIsolates (ctx_api ctx) (w_platform_isolates ?w) (w_vm ?w) = (m, v)"
    and v: "api_CurrentIsolate (ctx_api ctx) v = None" "live v = live (w_vm ?w) - set (platform_isolates (w_platform_isolates ?w))"
    using ShutdownPlatformIsolates_result [OF assms(1,2)] by metis
  then have e': "rw_isolates (engine_world e') = ?w\<lparr>w_platform_isolates := m, w_vm := v\<rparr>"
    "rw_controller (engine_world e') = rw_controller (engine_world e)"
    by (simp_all add: e'_def engine_ShutdownPlatformIsolates_def rc_ShutdownPlatformIsolates_def Let_def)
  with v show "api_CurrentIsolate (ctx_api ctx) (w_vm (rw_isolates (engine_world e'))) = None"
    "live (w_vm (rw_isolates (engine_world e'))) = live (w_vm ?w) - set (platform_isolates (w_platform_isolates ?w))"
    "root_isolate_lock (engine_world e') = root_isolate_lock (engine_world e)"
    "at_isolate (ctx_api ctx) live None i L Running True (engine_world e) \<Longrightarrow>
      at_isolate (ctx_api ctx) live None i (L - set (platform_isolates (w_platform_isolates ?w))) Running True (engine_world e')"
    by (simp_all add: root_isolate_lock_def isolate_alive_def at_isolate_def vm_at_def)
qed

text \<open>An engine with a running isolate or with none is deleted with its isolates.\<close>

lemma Shell_delete_result:
  assumes "vm_conforms (ctx_api (ctx_engine ctx)) live" "shell_engine s = Some e"
    and "(\<exists>i. i \<notin> L \<and> at_isolate (ctx_api (ctx_engine ctx)) live None i (insert i L) Running True (engine_world e)) \<or>
      \<not> root_isolate_lock (engine_world e) \<and> live (w_vm (rw_isolates (engine_world e))) = L \<and>
      api_CurrentIsolate (ctx_api (ctx_engine ctx)) (w_vm (rw_isolates (engine_world e))) = None"
    and "take_back_ui_queue s e = Inr q"
  shows "\<exists>r. Shell_delete ctx s = Inr r \<and> remaining_queues r = q \<and>
    remaining_protocol r = RemoveHandler (shell_address s) (service_protocol s) \<and>
    api_CurrentIsolate (ctx_api (ctx_engine ctx)) (w_vm (remaining_isolates r)) = None \<and>
    live (w_vm (remaining_isolates r)) = L - set (platform_isolates (w_platform_isolates (rw_isolates (engine_world e))))"
proof -
  let ?P = "set (platform_isolates (w_platform_isolates (rw_isolates (engine_world e))))"
  let ?e = "engine_ShutdownPlatformIsolates (ctx_engine ctx) e"
  have current: "api_CurrentIsolate (ctx_api (ctx_engine ctx)) (w_vm (rw_isolates (engine_world e))) = None"
    using assms(3) at_isolate_running(4) by blast
  note gone = platform_isolates_gone [OF assms(1) current]
  have q: "take_back_ui_queue s ?e = Inr q"
    using assms(4) by (simp add: take_back_ui_queue_def engine_ShutdownPlatformIsolates_def cong: if_cong)
  have "\<exists>x. RuntimeController_delete (ctx_api (ctx_engine ctx)) (engine_world ?e) = Inr x \<and>
    api_CurrentIsolate (ctx_api (ctx_engine ctx)) (w_vm (rw_isolates x)) = None \<and> live (w_vm (rw_isolates x)) = L - ?P"
    using assms(3)
  proof
    assume "\<exists>i. i \<notin> L \<and> at_isolate (ctx_api (ctx_engine ctx)) live None i (insert i L) Running True (engine_world e)"
    then obtain i where i: "i \<notin> L" "at_isolate (ctx_api (ctx_engine ctx)) live None i (insert i L) Running True (engine_world e)"
      by blast
    moreover have "insert i L - ?P - {i} = L - ?P"
      using i(1) by auto
    ultimately show ?thesis
      using delete_shuts_down [OF assms(1) gone(4) [OF i(2)]] by auto
  next
    assume "\<not> root_isolate_lock (engine_world e) \<and> live (w_vm (rw_isolates (engine_world e))) = L \<and>
      api_CurrentIsolate (ctx_api (ctx_engine ctx)) (w_vm (rw_isolates (engine_world e))) = None"
    then show ?thesis
      using gone(1-3) by (simp add: RuntimeController_delete_def)
  qed
  with assms(2) q show ?thesis
    by (auto simp: Shell_delete_def Let_def)
qed

lemma take_back_unmerged:
  assumes "queues_ready e" "unmerged_queues e"
  shows "take_back_ui_queue s e = Inr (engine_queues e)"
  using assms by (auto simp: take_back_ui_queue_def Owns_def at_key_def queues_ready_def unmerged_queues_def)

lemma take_back_moved:
  assumes "unmerged_queues e" "queues_ready e" "queues_moved e (engine_queues e')" "queues_wf (engine_queues e')"
    and "ui_queue e' = ui_queue e" "platform_queue e' = platform_queue e" "shell_merged_platform_ui_thread s = kMergeAfterLaunch"
  shows "\<exists>q. take_back_ui_queue s e' = Inr q \<and> queue_entries q = queue_entries (engine_queues e)"
proof -
  let ?i = "platform_queue e" and ?j = "ui_queue e"
  obtain oe se l where entries: "queue_entries (engine_queues e) ?i = Some oe" "queue_entries (engine_queues e) ?j = Some se"
    and q: "engine_queues e' = (merged ?i ?j oe se (engine_queues e))\<lparr>wake_log := l\<rparr>"
    using assms(3) by (auto simp: queues_moved_def)
  have ne: "?i \<noteq> ?j" "subsumed_by se = kUnmerged" "?j |\<notin>| owner_of oe"
    using assms(1) entries by (auto simp: unmerged_queues_def)
  have ids: "?i \<noteq> kUnmerged" "?j \<noteq> kUnmerged"
    using entries_wfD(1) assms(2) entries by (auto simp: queues_ready_def queues_wf_def)
  let ?oe = "oe\<lparr>owner_of := finsert ?j (owner_of oe)\<rparr>" and ?se = "se\<lparr>subsumed_by := ?i\<rparr>"
  have moved: "queue_entries (engine_queues e') ?i = Some ?oe" "queue_entries (engine_queues e') ?j = Some ?se"
    using ne(1) by (simp_all add: q merged_def)
  from Unmerge_cases [OF assms(4) moved] obtain q' l' where
    u: "Unmerge ?i ?j (engine_queues e') = Inr (True, q')" "q' = (unmerged ?i ?j ?oe ?se (engine_queues e'))\<lparr>wake_log := l'\<rparr>"
    by auto
  have "finsert ?j (owner_of oe) |-| {|?j|} = owner_of oe"
    using ne(3) by auto
  then have "queue_entries q' = queue_entries (engine_queues e)"
    using ne entries by (auto simp: u(2) q merged_def unmerged_def set_entry_def fun_eq_iff)
  with u(1) moved ids assms(5-7) show ?thesis
    by (simp add: take_back_ui_queue_def Owns_def at_key_def)
qed

text \<open>
  C9: a shell leaves nothing behind. Whether its engine runs the configuration or fails to, and however many tasks the
  platform thread runs before, destroying the shell succeeds: the VM has the isolates it had before the run, less the
  platform isolates that were registered; no isolate is current; the task queues are owned as before, with the queue of
  the UI runner back on its thread if it was moved; and the VM service does not know the shell any more.
\<close>

theorem shell_leaves_nothing_behind:
  assumes "vm_conforms (ctx_api (ctx_engine ctx)) live" "ui_conforms (ctx_api (ctx_engine ctx)) (ctx_ui (ctx_engine ctx)) live"
    and "shell_engine s = Some e" "\<not> root_isolate_lock (engine_world e)"
    and "api_CurrentIsolate (ctx_api (ctx_engine ctx)) (w_vm (rw_isolates (engine_world e))) = None"
    and "RunConfiguration_IsValid c" "pred_option fresh_configuration (isolate_configuration c)"
    and "queues_ready e" "unmerged_queues e"
    and "shell_merged_platform_ui_thread s = merged_platform_ui_thread (engine_settings e)"
  shows "\<exists>status s' e' r. RunEngine ctx c s = Inr (status, s') \<and> shell_engine s' = Some e' \<and>
    Shell_delete ctx ((run_platform_task ^^ n) s') = Inr r \<and>
    api_CurrentIsolate (ctx_api (ctx_engine ctx)) (w_vm (remaining_isolates r)) = None \<and>
    live (w_vm (remaining_isolates r)) = live (w_vm (rw_isolates (engine_world e))) -
      set (platform_isolates (w_platform_isolates (rw_isolates (engine_world e')))) \<and>
    queue_entries (remaining_queues r) = queue_entries (engine_queues e) \<and>
    om_lookup (remaining_protocol r) (shell_address s) = None"
proof -
  let ?L = "live (w_vm (rw_isolates (engine_world e)))"
  obtain status e1 where r: "Run (ctx_engine ctx) c e = Inr (status, e1)"
    "ui_queue e1 = ui_queue e" "platform_queue e1 = platform_queue e"
    "if status = Success
     then (\<exists>i. i \<notin> ?L \<and> at_isolate (ctx_api (ctx_engine ctx)) live None i (insert i ?L) Running True (engine_world e1)) \<and>
       queues_wf (engine_queues e1) \<and> (\<not> merges_after_launch e \<longrightarrow> engine_queues e1 = engine_queues e) \<and>
       (merges_after_launch e \<and> unmerged_queues e \<longrightarrow> queues_moved e (engine_queues e1))
     else \<not> root_isolate_lock (engine_world e1) \<and> live (w_vm (rw_isolates (engine_world e1))) = ?L \<and>
       api_CurrentIsolate (ctx_api (ctx_engine ctx)) (w_vm (rw_isolates (engine_world e1))) = None \<and>
       engine_queues e1 = engine_queues e"
    using Run_result [OF assms(1,2,5,4,6,7,8)]
    apply (elim exE conjE)
    subgoal for status e1
      by (cases "status = Success") auto
    done
  define s' where "s' = engine_ran ctx (status = Success) e1 s"
  have run: "RunEngine ctx c s = Inr (status, s')"
    using assms(3) r(1) by (simp add: RunEngine_def s'_def)
  let ?s = "(run_platform_task ^^ n) s'" and ?e = "e1\<lparr>delegate_calls := []\<rparr>"
  have "\<exists>q. take_back_ui_queue ?s ?e = Inr q \<and> queue_entries q = queue_entries (engine_queues e)"
  proof (cases "status = Success \<and> merges_after_launch e")
    case True
    with r(4) assms(9) have "queues_moved e (engine_queues ?e)" "queues_wf (engine_queues ?e)" by simp_all
    moreover have "shell_merged_platform_ui_thread ?s = kMergeAfterLaunch"
      using True assms(10) by (simp add: s'_def merges_after_launch_def)
    ultimately show ?thesis
      using take_back_moved [OF assms(9,8), of ?e ?s] r(2,3) by simp
  next
    case False
    then have same: "engine_queues ?e = engine_queues e"
      using r(4) by (auto split: if_splits)
    then have "queues_ready ?e" "unmerged_queues ?e"
      using assms(8,9) r(2,3) by (simp_all add: queues_ready_def unmerged_queues_def)
    from take_back_unmerged [OF this] same show ?thesis
      by simp
  qed
  then obtain q where q: "take_back_ui_queue ?s ?e = Inr q" "queue_entries q = queue_entries (engine_queues e)"
    by blast
  have "shell_engine ?s = Some ?e" "shell_address ?s = shell_address s"
    by (simp_all add: s'_def)
  moreover have "(\<exists>i. i \<notin> ?L \<and> at_isolate (ctx_api (ctx_engine ctx)) live None i (insert i ?L) Running True (engine_world ?e)) \<or>
      \<not> root_isolate_lock (engine_world ?e) \<and> live (w_vm (rw_isolates (engine_world ?e))) = ?L \<and>
      api_CurrentIsolate (ctx_api (ctx_engine ctx)) (w_vm (rw_isolates (engine_world ?e))) = None"
    using r(4) by (cases "status = Success") simp_all
  ultimately show ?thesis
    using Shell_delete_result [OF assms(1) _ _ q(1), of ?L] q(2) run
    by (fastforce simp: s'_def RemoveHandler_def om_lookup_delete)
qed

section \<open>Routing messages to the platform\<close>

text \<open>The messages that a task carries, and those that were handled.\<close>

fun carried :: "shell_task \<Rightarrow> PlatformMessage list" where
  "carried (Route_back m) = [m]"
| "carried (Give_to_handler m) = [m]"
| "carried (Give_to_view m) = [m]"
| "carried t = []"

definition handled_messages :: "'v Shell \<Rightarrow> PlatformMessage list" where
  "handled_messages s = concat (map (\<lambda>c. case c of Message_handled m \<Rightarrow> [m] | _ \<Rightarrow> []) (platform_calls s))"

abbreviation waiting :: "shell_task list \<Rightarrow> PlatformMessage list" where
  "waiting ts \<equiv> concat (map carried ts)"

text \<open>The executions of a shell that was set up: the messages that its engine sent, and where the shell is.\<close>

inductive shell_run :: "'v shell_context \<Rightarrow> PlatformMessage list \<Rightarrow> 'v Shell \<Rightarrow> bool" for ctx where
  Start: "Setup (Some handler) (Some e) (Shell_new address thread same protocol) = (True, s) \<Longrightarrow> delegate_calls e = [] \<Longrightarrow>
    shell_run ctx [] s"
| Send: "shell_run ctx ms s \<Longrightarrow> shell_run ctx (ms @ [m]) (shell_OnEngineHandlePlatformMessage m s)"
| Platform_turn: "shell_run ctx ms s \<Longrightarrow> shell_run ctx ms (run_platform_task s)"
| Ui_turn: "shell_run ctx ms s \<Longrightarrow> run_ui_task ctx s = Inr s' \<Longrightarrow> shell_run ctx ms s'"
| Channel: "shell_run ctx ms s \<Longrightarrow> shell_run ctx ms (OnEngineChannelUpdate name listening s)"
| Incoming: "shell_run ctx ms s \<Longrightarrow> OnPlatformViewDispatchPlatformMessage ctx on_ui_thread m s = Inr s' \<Longrightarrow> shell_run ctx ms s'"

definition fits_platform :: "bool option \<Rightarrow> shell_task \<Rightarrow> bool" where
  "fits_platform handler t =
     (case t of Give_to_handler _ \<Rightarrow> False | Dispatch_to_engine _ \<Rightarrow> False
      | Route_back _ \<Rightarrow> handler = Some False | Give_to_view _ \<Rightarrow> handler = None | _ \<Rightarrow> True)"

definition fits_ui :: "bool option \<Rightarrow> shell_task \<Rightarrow> bool" where
  "fits_ui handler t = (case t of Route_back _ \<Rightarrow> False | Give_to_view _ \<Rightarrow> False | Give_to_handler _ \<Rightarrow> handler = Some False | _ \<Rightarrow> True)"

definition route_inv :: "PlatformMessage list \<Rightarrow> 'v Shell \<Rightarrow> bool" where
  "route_inv ms s \<longleftrightarrow> shell_has_view s \<and> (\<forall>e. shell_engine s = Some e \<longrightarrow> delegate_calls e = []) \<and>
     list_all (fits_platform (platform_message_handler s)) (platform_tasks s) \<and>
     list_all (fits_ui (platform_message_handler s)) (ui_tasks s) \<and>
     mset ms = mset (handled_messages s) + mset (waiting (ui_tasks s)) + mset (waiting (platform_tasks s)) \<and>
     (platform_message_handler s \<noteq> Some False \<longrightarrow> ms = handled_messages s @ waiting (platform_tasks s))"

lemmas shell_step_defs =
  post_platform_def post_ui_def call_platform_def handled_messages_def fits_platform_def fits_ui_def

lemma nothing_waits: "list_all (fits_platform (Some True)) ts \<Longrightarrow> waiting ts = []"
  by (induction ts) (auto simp: fits_platform_def split: shell_task.splits)

lemma route_inv_Send: "route_inv ms s \<Longrightarrow> route_inv (ms @ [m]) (shell_OnEngineHandlePlatformMessage m s)"
  by (auto simp: route_inv_def shell_OnEngineHandlePlatformMessage_def shell_step_defs nothing_waits split: option.splits)

lemma route_inv_Channel: "route_inv ms s \<Longrightarrow> route_inv ms (OnEngineChannelUpdate name listening s)"
  by (auto simp: route_inv_def OnEngineChannelUpdate_def shell_step_defs)

lemma route_inv_platform: "route_inv ms s \<Longrightarrow> route_inv ms (run_platform_task s)"
  by (cases "platform_tasks s"; cases "hd (platform_tasks s)")
    (auto simp: route_inv_def run_platform_task_def shell_step_defs)

lemma dispatch_delegate_calls:
  "engine_DispatchPlatformMessage ctx m e = Inr e' \<Longrightarrow> delegate_calls e' = delegate_calls e"
  by (auto simp: engine_DispatchPlatformMessage_def HandleLocalizationPlatformMessage_def bindR_eq_Inr_iff Let_def case_prod_beta
      split: if_splits option.splits json.splits)

lemma answer_silent_engine: "shell_engine s = Some e \<Longrightarrow> delegate_calls e = [] \<Longrightarrow> answer_engine s = s"
  by (simp add: answer_engine_def)

lemma route_inv_engine:
  "route_inv ms s \<Longrightarrow> delegate_calls e = [] \<Longrightarrow> route_inv ms (s\<lparr>shell_engine := Some e\<rparr>)"
  by (simp add: route_inv_def handled_messages_def)

lemma route_inv_dispatch:
  assumes "route_inv ms s" "shell_engine s = Some e" "engine_DispatchPlatformMessage (ctx_engine ctx) m e = Inr e'"
  shows "route_inv ms (answer_engine (s\<lparr>shell_engine := Some e'\<rparr>))"
proof -
  have "delegate_calls e' = []"
    using assms dispatch_delegate_calls by (fastforce simp: route_inv_def)
  then show ?thesis
    using route_inv_engine [OF assms(1)] by (simp add: answer_silent_engine)
qed

lemma route_inv_empty_task: "route_inv ms s \<Longrightarrow> route_inv ms (post_ui Empty_task s)"
  and route_inv_post_dispatch: "route_inv ms s \<Longrightarrow> route_inv ms (post_ui (Dispatch_to_engine m) s)"
  by (auto simp: route_inv_def shell_step_defs)

lemma route_inv_incoming:
  "route_inv ms s \<Longrightarrow> OnPlatformViewDispatchPlatformMessage ctx on_ui_thread m s = Inr s' \<Longrightarrow> route_inv ms s'"
  by (auto simp: OnPlatformViewDispatchPlatformMessage_def bindR_eq_Inr_iff
      intro: route_inv_empty_task route_inv_post_dispatch route_inv_dispatch split: if_splits option.splits)

lemma route_inv_ui:
  assumes "route_inv ms s" "run_ui_task ctx s = Inr s'"
  shows "route_inv ms s'"
proof (cases "ui_tasks s")
  case Nil
  with assms show ?thesis by (simp add: run_ui_task_def)
next
  case (Cons t ts)
  let ?s = "s\<lparr>ui_tasks := ts\<rparr>"
  show ?thesis
  proof (cases "carried t = []")
    case True
    then have inv: "route_inv ms ?s"
      using assms(1) Cons by (simp add: route_inv_def handled_messages_def)
    then have "route_inv ms s'" if "t = Dispatch_to_engine m" for m
      using assms(2) Cons that route_inv_dispatch [OF inv]
      by (auto simp: run_ui_task_def bindR_eq_Inr_iff Let_def split: option.splits)
    with True inv assms(2) Cons show ?thesis
      by (cases t) (auto simp: run_ui_task_def Let_def)
  next
    case False
    moreover have "fits_ui (platform_message_handler s) t"
      using assms(1) Cons by (simp add: route_inv_def)
    ultimately obtain m where t: "t = Give_to_handler m" and handler: "platform_message_handler s = Some False"
      by (cases t) (auto simp: fits_ui_def)
    have "Ex Not"
      by (rule exI [of _ False]) simp
    then have "s' = call_platform (Message_handled m) ?s"
      using assms(2) Cons t by (simp add: run_ui_task_def Let_def handler)
    with assms(1) Cons t handler show ?thesis
      by (simp add: route_inv_def shell_step_defs)
  qed
qed

lemma shell_run_inv: "shell_run ctx ms s \<Longrightarrow> route_inv ms s"
proof (induction rule: shell_run.induct)
  case (Start handler e address thread same protocol s)
  then show ?case
    by (auto simp: Setup_def Shell_new_def Let_def route_inv_def shell_step_defs)
qed (auto intro: route_inv_Send route_inv_platform route_inv_ui route_inv_Channel route_inv_incoming)

text \<open>
  C11: in every execution of a shell the messages that its engine sent to the platform are, each once, those that were
  handled and those that wait in the queues of the two runners; and unless the platform message handler works on the UI
  thread they are handled in the order they were sent.
\<close>

theorem shell_delivers_messages:
  assumes "shell_run ctx ms s"
  shows "mset ms = mset (handled_messages s) + mset (waiting (ui_tasks s)) + mset (waiting (platform_tasks s)) \<and>
    (platform_message_handler s \<noteq> Some False \<longrightarrow> prefix (handled_messages s) ms)"
  using shell_run_inv [OF assms] by (auto simp: route_inv_def prefix_def)

section \<open>Running another program in a view\<close>

lemma add_resolvers:
  "conf_asset_manager c = Some m \<Longrightarrow>
    foldR (\<lambda>r c. bindR (AddAssetResolver (Some r) c) (\<lambda>(_, c). Inr c)) rs c =
      Inr (c\<lparr>conf_asset_manager := Some (m @ filter resolver_IsValid rs)\<rparr>)"
  by (induction rs arbitrary: c m) (auto simp: AddAssetResolver_def AssetManager_PushBack_def)

lemma add_first_resolver:
  "conf_asset_manager c = Some [] \<Longrightarrow>
    \<exists>b. AddAssetResolver (Some r) c = Inr (b, c\<lparr>conf_asset_manager := Some (filter resolver_IsValid [r])\<rparr>)"
  by (auto simp: AddAssetResolver_def AssetManager_PushBack_def)

lemma posix_FromURI_returns: "length uri < 2 ^ 63 \<Longrightarrow> \<exists>p. posix_FromURI uri = Inr p"
  using sanitize_from_decodes [of "drop 7 uri" 0 "[]"]
  by (simp add: posix_FromURI_def SanitizeURIEscapedCharacters_def)

text \<open>The configuration that the request makes.\<close>

definition view_configuration :: "'v shell_context \<Rightarrow> string \<Rightarrow> string \<Rightarrow> 'v Engine \<Rightarrow> RunConfiguration" where
  "view_configuration ctx main_script_path asset_directory_path e =
     \<lparr>isolate_configuration = Some (KernelIsolateConfiguration (Some (ctx_read_file ctx main_script_path))),
      conf_asset_manager = Some (filter resolver_IsValid
        (ctx_open_directory ctx asset_directory_path # surviving_resolvers (asset_manager e))),
      entrypoint = last_entry_point e, entrypoint_library = last_entry_point_library e,
      entrypoint_args = last_entry_point_args e, conf_engine_id = last_engine_id e\<rparr>"

lemma surviving_resolvers_eq:
  "surviving_resolvers m = (case m of None \<Rightarrow> [] | Some old \<Rightarrow> filter resolver_IsValidAfterAssetManagerChange old)"
  by (cases m) (simp_all add: surviving_resolvers_def TakeResolvers_def)

lemma emptied_manager: "map_option (snd \<circ> TakeResolvers) m = map_option (\<lambda>_. []) m"
  by (cases m) (simp_all add: TakeResolvers_def)

lemma RunInView_restarts:
  assumes "params ''mainScript'' = Some main_script" "params ''assetDirectory'' = Some asset_directory"
    and "posix_FromURI main_script = Inr main_path" "posix_FromURI asset_directory = Inr asset_path" "shell_engine s = Some e"
  shows "OnServiceProtocolRunInView ctx params s =
    bindR (Restart (ctx_engine ctx) (view_configuration ctx main_path asset_path e)
      (e\<lparr>asset_manager := map_option (snd \<circ> TakeResolvers) (asset_manager e)\<rparr>)) (\<lambda>(ok, e).
        let s = engine_ran ctx ok e s
        in Inr (if ok then ((True, success_with_view ctx s), s)
                else ((False, ServiceProtocolFailureError ''Could not run configuration in engine.''), s)))"
proof -
  let ?c = "(SetEntrypointAndLibrary (last_entry_point e) (last_entry_point_library e) (RunConfiguration_new
      (Some (KernelIsolateConfiguration (Some (ctx_read_file ctx main_path)))) (Some [])))
    \<lparr>entrypoint_args := last_entry_point_args e, conf_engine_id := last_engine_id e\<rparr>"
  have c: "conf_asset_manager ?c = Some []"
    by (simp add: SetEntrypointAndLibrary_def RunConfiguration_new_def)
  obtain b where b: "AddAssetResolver (Some (ctx_open_directory ctx asset_path)) ?c =
      Inr (b, ?c\<lparr>conf_asset_manager := Some (filter resolver_IsValid [ctx_open_directory ctx asset_path])\<rparr>)"
    using add_first_resolver [OF c] by blast
  have view: "?c\<lparr>conf_asset_manager := Some (filter resolver_IsValid [ctx_open_directory ctx asset_path] @
      filter resolver_IsValid (surviving_resolvers (asset_manager e)))\<rparr> = view_configuration ctx main_path asset_path e"
    by (simp add: view_configuration_def SetEntrypointAndLibrary_def RunConfiguration_new_def)
  show ?thesis
    using assms b add_resolvers [of "?c\<lparr>conf_asset_manager := Some (filter resolver_IsValid [ctx_open_directory ctx asset_path])\<rparr>"
        "filter resolver_IsValid [ctx_open_directory ctx asset_path]" "surviving_resolvers (asset_manager e)"] view
    by (simp add: OnServiceProtocolRunInView_def Let_def)
qed

text \<open>
  C25: a request of the VM service to run another program in a view, made to a shell whose engine runs, restarts the
  engine with the kernel of the given script and replaces the isolate. The assets are looked up in the given directory first and then in the resolvers of the old program that
  are valid after a change of the asset manager, in their order; the entry point stays. The answer tells whether the new program runs; if not, no
  isolate of the engine is left. A request without its parameters is an error and changes nothing.
\<close>

theorem run_in_view_replaces_program:
  assumes "vm_conforms (ctx_api (ctx_engine ctx)) live" "ui_conforms (ctx_api (ctx_engine ctx)) (ctx_ui (ctx_engine ctx)) live"
    and "shell_engine s = Some e" "at_isolate (ctx_api (ctx_engine ctx)) live None i L Running True (engine_world e)"
    and "platform_configuration (root_isolate (engine_world e)) \<noteq> None" "queues_ready e"
    and "\<forall>name value. params name = Some value \<longrightarrow> length value < 2 ^ 63"
  shows "\<exists>ok answer s'. HandleServiceProtocolMessage ctx ''_flutter.runInView'' params s = Inr ((ok, answer), s') \<and>
    (if params ''mainScript'' = None \<or> params ''assetDirectory'' = None
     then \<not> ok \<and> s' = s \<and> json_member ''code'' answer = Some (JNumber (-32602))
     else \<exists>e' main_path asset_path assets. shell_engine s' = Some e' \<and> last_entry_point e' = last_entry_point e \<and>
       posix_FromURI (the (params ''mainScript'')) = Inr main_path \<and>
       posix_FromURI (the (params ''assetDirectory'')) = Inr asset_path \<and>
       assets = filter resolver_IsValid (ctx_open_directory ctx asset_path #
         (case asset_manager e of None \<Rightarrow> [] | Some old \<Rightarrow> filter resolver_IsValidAfterAssetManagerChange old)) \<and>
       asset_manager e' = Some assets \<and>
       (\<exists>e''. Restart (ctx_engine ctx)
          \<lparr>isolate_configuration = Some (KernelIsolateConfiguration (Some (ctx_read_file ctx main_path))),
           conf_asset_manager = Some assets, entrypoint = last_entry_point e, entrypoint_library = last_entry_point_library e,
           entrypoint_args = last_entry_point_args e, conf_engine_id = last_engine_id e\<rparr>
          (e\<lparr>asset_manager := map_option (\<lambda>_. []) (asset_manager e)\<rparr>) = Inr (ok, e'')) \<and>
       (if ok
        then json_member ''type'' answer = Some (JString ''Success'') \<and> IsRootIsolateRunning (engine_world e') \<and>
          (\<exists>j. j \<notin> L - {i} \<and> live (w_vm (rw_isolates (engine_world e'))) = insert j (L - {i}))
        else json_member ''code'' answer = Some (JNumber (-32000)) \<and> \<not> root_isolate_lock (engine_world e') \<and>
          live (w_vm (rw_isolates (engine_world e'))) = L - {i}))"
proof (cases "params ''mainScript'' = None \<or> params ''assetDirectory'' = None")
  case True
  then show ?thesis
    by (auto simp: HandleServiceProtocolMessage_def OnServiceProtocolRunInView_def ServiceProtocolParameterError_def
        split: option.splits)
next
  case False
  then obtain main_script asset_directory where
    p: "params ''mainScript'' = Some main_script" "params ''assetDirectory'' = Some asset_directory"
    by auto
  then obtain main_path asset_path where main: "posix_FromURI main_script = Inr main_path"
    and asset: "posix_FromURI asset_directory = Inr asset_path"
    using assms(7) posix_FromURI_returns by blast
  let ?e = "e\<lparr>asset_manager := map_option (snd \<circ> TakeResolvers) (asset_manager e)\<rparr>"
  let ?c = "view_configuration ctx main_path asset_path e"
  have c: "RunConfiguration_IsValid ?c" "pred_option fresh_configuration (isolate_configuration ?c)"
    by (simp_all add: view_configuration_def RunConfiguration_IsValid_def)
  have "\<exists>ok e'. Restart (ctx_engine ctx) ?c ?e = Inr (ok, e') \<and> asset_manager e' = conf_asset_manager ?c \<and>
      last_entry_point e' = entrypoint ?c \<and>
      (if ok then IsRootIsolateRunning (engine_world e') \<and>
         (\<exists>j. j \<notin> L - {i} \<and> live (w_vm (rw_isolates (engine_world e'))) = insert j (L - {i}))
       else \<not> root_isolate_lock (engine_world e') \<and> live (w_vm (rw_isolates (engine_world e'))) = L - {i})"
    using Restart_result [OF assms(1,2) _ _ c(2), of i L ?e] assms(4-6) c(1) by (simp add: queues_ready_def)
  then obtain ok e' where r: "Restart (ctx_engine ctx) ?c ?e = Inr (ok, e')" "asset_manager e' = conf_asset_manager ?c"
    "last_entry_point e' = entrypoint ?c"
    "if ok then IsRootIsolateRunning (engine_world e') \<and>
         (\<exists>j. j \<notin> L - {i} \<and> live (w_vm (rw_isolates (engine_world e'))) = insert j (L - {i}))
       else \<not> root_isolate_lock (engine_world e') \<and> live (w_vm (rw_isolates (engine_world e'))) = L - {i}"
    by blast
  show ?thesis
    using False r RunInView_restarts [OF p main asset assms(3)] p main asset
    by (cases ok) (auto simp: HandleServiceProtocolMessage_def view_configuration_def success_with_view_def surviving_resolvers_eq
        ServiceProtocolFailureError_def Let_def emptied_manager)
qed

section \<open>Where the shell goes wrong\<close>

text \<open>
  When there is no platform view or no engine, the half-made shell is destroyed, and its destructor uses the engine
  that was never set.
\<close>

theorem failed_shell_creation_is_undefined:
  "CreateShellOnPlatformThread ctx True None engine (Shell_new address thread same protocol) = Inl Undefined \<and>
   CreateShellOnPlatformThread ctx True (Some handler) None (Shell_new address thread same protocol) = Inl Undefined"
  by (simp add: CreateShellOnPlatformThread_def Setup_def Shell_delete_def Shell_new_def)

text \<open>An engine has no asset manager before it runs.\<close>

theorem early_resolver_update_is_undefined:
  assumes "shell_engine s = Some e" "asset_manager e = None"
  shows "UpdateAssetResolverByType_shell resolver type s = Inl Undefined"
  using assms by (simp add: UpdateAssetResolverByType_shell_def)

text \<open>
  A message that is sent while messages are routed through the platform thread is overtaken by the next one, if the
  routing ends between the two.
\<close>

theorem routed_message_is_overtaken:
  assumes "platform_message_handler s = Some False" "route_messages_through_platform_thread s"
    and "platform_tasks s = [Stop_routing]" "ui_tasks s = []" "platform_calls s = []"
  shows "\<exists>s'. run_ui_task ctx (run_platform_task (shell_OnEngineHandlePlatformMessage second
      (run_platform_task (shell_OnEngineHandlePlatformMessage first s)))) = Inr s' \<and> handled_messages s' = [second, first]"
proof -
  have "Ex Not"
    by (rule exI [of _ False]) simp
  with assms show ?thesis
    by (simp add: shell_OnEngineHandlePlatformMessage_def run_platform_task_def run_ui_task_def Let_def
        post_platform_def post_ui_def call_platform_def handled_messages_def)
qed

section \<open>Shells of the example VM\<close>

definition example_shell_context :: "example_vm shell_context" where
  "example_shell_context =
     \<lparr>ctx_engine = example_context, ctx_main_port = (\<lambda>x. 1), ctx_isolate_name = (\<lambda>x. ''main''),
      ctx_open_directory = (\<lambda>path. \<lparr>resolver_IsValid = True, resolver_IsValidAfterAssetManagerChange = False,
        resolver_GetType = kDirectoryAssetBundle, resolver_GetAsMapping = (\<lambda>name. None), resolver_GetAsMappings = (\<lambda>name dir. [])\<rparr>),
      ctx_read_file = (\<lambda>path. []), ctx_write_json = (\<lambda>document. [])\<rparr>"

definition example_shell :: "example_vm Engine \<Rightarrow> example_vm Shell" where
  "example_shell e = snd (Setup (Some None) (Some e) (Shell_new 16 kMergeAfterLaunch False []))"

lemma example_shell_engine: "shell_engine (example_shell e) = Some e"
  "shell_merged_platform_ui_thread (example_shell e) = kMergeAfterLaunch"
  by (simp_all add: example_shell_def Setup_def Shell_new_def Let_def post_platform_def)

lemma example_contexts: "ctx_api (ctx_engine example_shell_context) = example_api" "ctx_ui (ctx_engine example_shell_context) = example_ui"
  by (simp_all add: example_shell_context_def example_context_def)

theorem shell_leaves_nothing_behind_witness:
  "\<exists>status s' r. RunEngine example_shell_context example_configuration (example_shell example_engine) = Inr (status, s') \<and>
     Shell_delete example_shell_context ((run_platform_task ^^ 3) s') = Inr r \<and>
     queue_entries (remaining_queues r) = queue_entries example_queues"
proof -
  have "RunConfiguration_IsValid example_configuration" "pred_option fresh_configuration (isolate_configuration example_configuration)"
    by (simp_all add: example_configuration_def RunConfiguration_new_def RunConfiguration_IsValid_def)
  moreover have "shell_merged_platform_ui_thread (example_shell example_engine) = merged_platform_ui_thread (engine_settings example_engine)"
    "engine_queues example_engine = example_queues"
    by (simp_all add: example_shell_engine example_engine_def)
  ultimately show ?thesis
    using shell_leaves_nothing_behind [of example_shell_context example_live "example_shell example_engine" example_engine
        example_configuration 3, unfolded example_contexts]
      example_conforms example_ui_conforms example_engine_ready example_shell_engine by auto
qed

theorem run_in_view_replaces_program_witness:
  "\<exists>ok answer s'. HandleServiceProtocolMessage example_shell_context ''_flutter.runInView''
      [''mainScript'' \<mapsto> ''main.dill'', ''assetDirectory'' \<mapsto> ''assets''] (example_shell running_engine) = Inr ((ok, answer), s') \<and>
    (ok \<longrightarrow> json_member ''type'' answer = Some (JString ''Success''))"
proof -
  let ?params = "[''mainScript'' \<mapsto> ''main.dill'', ''assetDirectory'' \<mapsto> ''assets'']"
  have "\<forall>name value. ?params name = Some value \<longrightarrow> length value < 2 ^ 63"
    by auto
  from run_in_view_replaces_program [of example_shell_context example_live "example_shell running_engine" running_engine 1 "{0, 1}"
      ?params, unfolded example_contexts, OF example_conforms example_ui_conforms example_shell_engine(1) running_engine_at(1,3,2) this]
  obtain ok answer s' where "HandleServiceProtocolMessage example_shell_context ''_flutter.runInView'' ?params
      (example_shell running_engine) = Inr ((ok, answer), s')" "ok \<longrightarrow> json_member ''type'' answer = Some (JString ''Success'')"
    by (elim exE conjE) (rule that, assumption, simp split: if_splits)
  then show ?thesis
    by blast
qed

theorem shell_delivers_messages_witness:
  "prefix (handled_messages (run_platform_task (run_platform_task (shell_OnEngineHandlePlatformMessage
       \<lparr>pm_channel = ''a'', pm_data = None, pm_response = None\<rparr> (example_shell example_engine)))))
     [\<lparr>pm_channel = ''a'', pm_data = None, pm_response = None\<rparr>]"
proof -
  let ?m = "\<lparr>pm_channel = ''a'', pm_data = None, pm_response = None\<rparr>"
  let ?s = "run_platform_task (run_platform_task (shell_OnEngineHandlePlatformMessage ?m (example_shell example_engine)))"
  have "Setup (Some None) (Some example_engine) (Shell_new 16 kMergeAfterLaunch False []) = (True, example_shell example_engine)"
    by (simp add: example_shell_def Setup_def Shell_new_def Let_def)
  moreover have "delegate_calls example_engine = []"
    by (simp add: example_engine_def)
  ultimately have "shell_run example_shell_context [] (example_shell example_engine)"
    by (rule shell_run.Start)
  then have "shell_run example_shell_context ([] @ [?m]) ?s"
    by (intro shell_run.Platform_turn shell_run.Send)
  moreover have "platform_message_handler ?s = None"
    by (simp add: example_shell_def Setup_def Shell_new_def Let_def post_platform_def run_platform_task_def
        shell_OnEngineHandlePlatformMessage_def call_platform_def)
  ultimately show ?thesis
    using shell_delivers_messages [of example_shell_context "[] @ [?m]" ?s] by simp
qed

end
