(* ===== verification/Fl_Task_Runner.thy ===== *)
theory Fl_Task_Runner
  imports Prelude
begin

text \<open>
  \<open>shell/platform/linux/fl_task_runner\<close>: the tasks the engine posts to the GTK main loop. They
  are kept in the order of posting; one GLib timeout is armed for the earliest of them. The clock is
  an argument. Executing a task is the engine's business and happens with the lock released, so the
  task may post others: \<open>execute\<close> is its effect on the runner.
\<close>

section \<open>State and operations\<close>

record 'a FlTaskRunnerTask =
  task_time_micros :: int
  task :: 'a

text \<open>A timeout source: when it was added, and its interval in milliseconds, a \<open>guint\<close>.\<close>

record timeout_source =
  added_at :: int
  interval :: "32 word"

record 'a FlTaskRunner =
  engine_alive :: bool
  timeout :: "timeout_source option"
  pending_tasks :: "'a FlTaskRunnerTask list"

definition G_MAXINT64 :: int where
  "G_MAXINT64 = 2 ^ 63 - 1"

definition fl_task_runner_new :: "'a FlTaskRunner" where
  "fl_task_runner_new = \<lparr>engine_alive = True, timeout = None, pending_tasks = []\<rparr>"

text \<open>The first loop: expired tasks are unlinked and collected in order.\<close>

fun take_expired ::
  "int \<Rightarrow> 'a FlTaskRunnerTask list \<Rightarrow> 'a FlTaskRunnerTask list \<times> 'a FlTaskRunnerTask list" where
  "take_expired current_time [] = ([], [])"
| "take_expired current_time (t # ts) =
     (let (expired, pending) = take_expired current_time ts in
      if task_time_micros t \<le> current_time then (t # expired, pending) else (expired, t # pending))"

definition fl_task_runner_process_expired_tasks_locked ::
  "('a \<Rightarrow> 'a FlTaskRunner \<Rightarrow> 'a FlTaskRunner) \<Rightarrow> int \<Rightarrow> 'a FlTaskRunner \<Rightarrow> 'a list \<times> 'a FlTaskRunner" where
  "fl_task_runner_process_expired_tasks_locked execute current_time self =
     (let (expired, pending) = take_expired current_time (pending_tasks self);
          self = self\<lparr>pending_tasks := pending\<rparr> in
      if engine_alive self then (map task expired, fold (\<lambda>t. execute (task t)) expired self)
      else ([], self))"

fun fl_task_runner_next_task_expiration_time_locked :: "'a FlTaskRunnerTask list \<Rightarrow> int" where
  "fl_task_runner_next_task_expiration_time_locked [] = G_MAXINT64"
| "fl_task_runner_next_task_expiration_time_locked (t # ts) =
     min (task_time_micros t) (fl_task_runner_next_task_expiration_time_locked ts)"

text \<open>The interval is a 64-bit number that the call takes as a \<open>guint\<close>.\<close>

definition fl_task_runner_tasks_did_change_locked :: "int \<Rightarrow> 'a FlTaskRunner \<Rightarrow> 'a FlTaskRunner" where
  "fl_task_runner_tasks_did_change_locked now self =
     (let self = self\<lparr>timeout := None\<rparr>;
          min_time = fl_task_runner_next_task_expiration_time_locked (pending_tasks self) in
      if min_time \<noteq> G_MAXINT64
      then (let remaining = max (min_time - now) 0 in
            self\<lparr>timeout := Some \<lparr>added_at = now, interval = word_of_int (remaining div 1000 + 1)\<rparr>\<rparr>)
      else self)"

definition fl_task_runner_on_expired_timeout ::
  "('a \<Rightarrow> 'a FlTaskRunner \<Rightarrow> 'a FlTaskRunner) \<Rightarrow> int \<Rightarrow> int \<Rightarrow> 'a FlTaskRunner \<Rightarrow> 'a list \<times> 'a FlTaskRunner" where
  "fl_task_runner_on_expired_timeout execute current_time now self =
     (let (done, self) = fl_task_runner_process_expired_tasks_locked execute current_time
            (self\<lparr>timeout := None\<rparr>) in
      (done, fl_task_runner_tasks_did_change_locked now self))"

definition fl_task_runner_post_flutter_task ::
  "'a \<Rightarrow> 64 word \<Rightarrow> int \<Rightarrow> 'a FlTaskRunner \<Rightarrow> 'a FlTaskRunner" where
  "fl_task_runner_post_flutter_task t target_time_nanos now self =
     fl_task_runner_tasks_did_change_locked now
       (self\<lparr>pending_tasks := pending_tasks self @
          [\<lparr>task_time_micros = uint (target_time_nanos div 1000), task = t\<rparr>]\<rparr>)"

text \<open>Waiting ends at \<open>current_time\<close>: a signal, or the time of the next task.\<close>

definition fl_task_runner_wait ::
  "('a \<Rightarrow> 'a FlTaskRunner \<Rightarrow> 'a FlTaskRunner) \<Rightarrow> int \<Rightarrow> int \<Rightarrow> 'a FlTaskRunner \<Rightarrow> 'a list \<times> 'a FlTaskRunner" where
  "fl_task_runner_wait execute current_time now self =
     (let (done, self) = fl_task_runner_process_expired_tasks_locked execute current_time self in
      (done, fl_task_runner_tasks_did_change_locked now self))"

section \<open>What a timeout does\<close>

lemma take_expired_filter:
  "take_expired now ts =
   (filter (\<lambda>t. task_time_micros t \<le> now) ts, filter (\<lambda>t. now < task_time_micros t) ts)"
  by (induction ts) auto

lemma next_expiration_Min:
  "fl_task_runner_next_task_expiration_time_locked ts = Min (insert G_MAXINT64 (task_time_micros ` set ts))"
  by (induction ts) (auto simp: insert_commute [of G_MAXINT64])

text \<open>A task that posts others while it runs; \<open>posted\<close> are the entries it adds.\<close>

definition posting :: "int \<Rightarrow> ('a \<Rightarrow> ('a \<times> 64 word) list) \<Rightarrow> 'a \<Rightarrow> 'a FlTaskRunner \<Rightarrow> 'a FlTaskRunner" where
  "posting now posts t self = fold (\<lambda>(u, nanos). fl_task_runner_post_flutter_task u nanos now) (posts t) self"

definition posted :: "('a \<Rightarrow> ('a \<times> 64 word) list) \<Rightarrow> 'a \<Rightarrow> 'a FlTaskRunnerTask list" where
  "posted posts t = map (\<lambda>(u, nanos). \<lparr>task_time_micros = uint (nanos div 1000), task = u\<rparr>) (posts t)"

lemma did_change_pending [simp]:
  "pending_tasks (fl_task_runner_tasks_did_change_locked now self) = pending_tasks self"
  "engine_alive (fl_task_runner_tasks_did_change_locked now self) = engine_alive self"
  by (simp_all add: fl_task_runner_tasks_did_change_locked_def Let_def)

lemma posting_pending: "pending_tasks (posting now posts t self) = pending_tasks self @ posted posts t"
proof -
  have "pending_tasks (fold (\<lambda>(u, nanos). fl_task_runner_post_flutter_task u nanos now) ps self) =
      pending_tasks self @ map (\<lambda>(u, nanos). \<lparr>task_time_micros = uint (nanos div 1000), task = u\<rparr>) ps" for ps
    by (induction ps arbitrary: self) (auto simp: fl_task_runner_post_flutter_task_def)
  then show ?thesis by (simp add: posting_def posted_def)
qed

lemma executed_pending:
  "pending_tasks (fold (\<lambda>t. posting now posts (task t)) ts self) =
   pending_tasks self @ concat (map (posted posts) (map task ts))"
  by (induction ts arbitrary: self) (auto simp: posting_pending)

text \<open>
  The timeout fits the pending tasks: there is one as long as there are tasks, and it fires after
  the earliest of them is due, by at most a millisecond (from \<open>now\<close>, when that task is due already).
\<close>

definition timeout_fits :: "int \<Rightarrow> 'a FlTaskRunner \<Rightarrow> bool" where
  "timeout_fits now self =
     (case timeout self of
        None \<Rightarrow> pending_tasks self = []
      | Some s \<Rightarrow> pending_tasks self \<noteq> [] \<and>
          (let earliest = Min (task_time_micros ` set (pending_tasks self));
               fires = added_at s + 1000 * uint (interval s) in
           earliest < fires \<and> fires \<le> max earliest now + 1000))"

lemma interval_fits:
  fixes d :: int
  assumes "0 \<le> d" "d < 4294967295000"
  shows "uint (word_of_int (d div 1000 + 1) :: 32 word) = d div 1000 + 1"
proof -
  from assms have "0 \<le> d div 1000 + 1" "d div 1000 + 1 < 2 ^ 32" by auto
  then show ?thesis by (simp only: uint_word_of_int) (simp add: mod_pos_pos_trivial)
qed

lemma did_change_fits:
  assumes "\<forall>t \<in> set (pending_tasks self). task_time_micros t < now + 4294967295000"
    and "now + 4294967295000 \<le> G_MAXINT64"
  shows "timeout_fits now (fl_task_runner_tasks_did_change_locked now self)"
proof (cases "pending_tasks self = []")
  case True
  then show ?thesis by (simp add: timeout_fits_def fl_task_runner_tasks_did_change_locked_def)
next
  case False
  define times where "times = task_time_micros ` set (pending_tasks self)"
  define e where "e = Min times"
  have times: "finite times" "times \<noteq> {}" "\<forall>t \<in> times. t < now + 4294967295000"
    using False assms(1) by (auto simp: times_def)
  have e: "e < now + 4294967295000" using times unfolding e_def by (metis Min_in)
  with times(1,2) assms(2) have "fl_task_runner_next_task_expiration_time_locked (pending_tasks self) = e"
    unfolding next_expiration_Min times_def [symmetric] by (simp add: Min_insert e_def [symmetric])
  then have armed: "fl_task_runner_tasks_did_change_locked now self =
      self\<lparr>timeout := Some \<lparr>added_at = now, interval = word_of_int (r div 1000 + 1)\<rparr>\<rparr>"
    if "r = max (e - now) 0" for r
    using that e assms(2) by (simp add: fl_task_runner_tasks_did_change_locked_def)
  define r where "r = max (e - now) 0"
  have "uint (word_of_int (r div 1000 + 1) :: 32 word) = r div 1000 + 1"
    using e by (intro interval_fits) (auto simp: r_def)
  moreover have "r < 1000 * (r div 1000 + 1)" "1000 * (r div 1000 + 1) \<le> r + 1000" by presburger+
  moreover have "e \<le> now + r" "now + r = max e now" by (simp_all add: r_def)
  ultimately show ?thesis
    using False unfolding timeout_fits_def armed [OF r_def]
    by (simp add: Let_def times_def [symmetric] e_def [symmetric])
qed

text \<open>
  C39: when the timeout fires, exactly the tasks that are due are executed, in the order in which
  they were posted; the others and those that the executed ones post remain, in that order too. A
  new timeout is armed for what remains, and none when nothing does: it fires once the earliest task
  is due and at most a millisecond later. (Tasks are due within the \<open>2\<^sup>3\<^sup>2\<close> milliseconds an interval can hold.)
\<close>

theorem timeout_runs_due_tasks:
  assumes "engine_alive self"
    and "due = map task (filter (\<lambda>t. task_time_micros t \<le> current_time) (pending_tasks self))"
    and "later = filter (\<lambda>t. current_time < task_time_micros t) (pending_tasks self) @
                 concat (map (posted posts) due)"
    and "\<forall>t \<in> set later. task_time_micros t < now + 4294967295000"
    and "now + 4294967295000 \<le> G_MAXINT64"
  shows "\<exists>self'. fl_task_runner_on_expired_timeout (posting t0 posts) current_time now self = (due, self') \<and>
    pending_tasks self' = later \<and> timeout_fits now self'"
proof -
  define u where "u = fold (\<lambda>t. posting t0 posts (task t))
    (filter (\<lambda>t. task_time_micros t \<le> current_time) (pending_tasks self))
    (self\<lparr>timeout := None, pending_tasks := filter (\<lambda>t. current_time < task_time_micros t) (pending_tasks self)\<rparr>)"
  have "pending_tasks u = later" by (simp add: u_def executed_pending assms(2,3))
  with did_change_fits [of u now] assms(4,5)
  have "timeout_fits now (fl_task_runner_tasks_did_change_locked now u)"
    "pending_tasks (fl_task_runner_tasks_did_change_locked now u) = later" by simp_all
  moreover have "fl_task_runner_on_expired_timeout (posting t0 posts) current_time now self =
      (due, fl_task_runner_tasks_did_change_locked now u)"
    using assms(1,2)
    by (simp add: fl_task_runner_on_expired_timeout_def fl_task_runner_process_expired_tasks_locked_def
        take_expired_filter u_def)
  ultimately show ?thesis by blast
qed

theorem timeout_runs_due_tasks_witness:
  "\<exists>self'. fl_task_runner_on_expired_timeout (posting 10 (\<lambda>t. if t = CHR ''a'' then [(CHR ''d'', 5000)] else [])) 10 11
     \<lparr>engine_alive = True, timeout = None, pending_tasks =
       [\<lparr>task_time_micros = 7, task = CHR ''a''\<rparr>, \<lparr>task_time_micros = 2500, task = CHR ''b''\<rparr>,
        \<lparr>task_time_micros = 3, task = CHR ''c''\<rparr>]\<rparr> = (''ac'', self') \<and>
     pending_tasks self' = [\<lparr>task_time_micros = 2500, task = CHR ''b''\<rparr>, \<lparr>task_time_micros = 5, task = CHR ''d''\<rparr>] \<and>
     timeout_fits 11 self'"
  by (rule timeout_runs_due_tasks) (simp_all add: posted_def G_MAXINT64_def)

end
