(* ===== verification/Method_Channel.thy ===== *)
theory Method_Channel
  imports Standard_Codec
begin

text \<open>
  The path of a method call in the desktop client wrapper: the dispatcher that finds the callback of
  a channel (\<open>incoming_message_dispatcher\<close>), the messenger that adapts callbacks to handlers
  (\<open>BinaryMessengerImpl\<close>, \<open>ForwardToHandler\<close>), the channel that decodes the call and gives the handler a
  result object (\<open>method_channel.h\<close>, \<open>engine_method_result.h\<close>), and the reply that goes back at most once.
  Calls are encoded with the standard method codec. The messenger of the platform is its state: whether
  the engine is still there, the responses and the messages sent to it.
\<close>

section \<open>State\<close>

type_synonym channel = "byte list"
type_synonym response_handle = nat

text \<open>The three calls on a \<open>MethodResult\<close>; a handler is what it calls on its result, in order.\<close>

datatype outcome = Result method_result | NotImplemented

type_synonym MethodCallHandler = "MethodCall \<Rightarrow> outcome list"

text \<open>
  \<open>callbacks\<close> are those of the dispatcher: the user data of the adaptor callback is the slot of the
  handler in \<open>handlers\<close>, the map of the \<open>BinaryMessengerImpl\<close>.
\<close>

record messenger =
  is_available :: bool
  responses :: "(response_handle \<times> byte list) list"
  messages_sent :: "(channel \<times> byte list \<times> bool) list"
  callbacks :: "channel \<rightharpoonup> channel"
  input_blocking_channels :: "channel set"
  input_blocked :: "bool list"
  handlers :: "channel \<rightharpoonup> MethodCallHandler"

record FlutterDesktopMessage =
  message_channel :: channel
  message_bytes :: "byte list"
  message_response_handle :: "response_handle option"

section \<open>Replying\<close>

definition SendResponse :: "response_handle \<Rightarrow> byte list \<Rightarrow> messenger \<Rightarrow> messenger" where
  "SendResponse h data m = m\<lparr>responses := responses m @ [(h, data)]\<rparr>"

text \<open>
  The reply lambda of \<open>ForwardToHandler\<close> owns the response handle, and gives it up when it has
  replied. A reply behind the end of the engine is dropped.
\<close>

definition binary_reply ::
  "byte list \<Rightarrow> response_handle option \<Rightarrow> messenger \<Rightarrow> response_handle option \<times> messenger" where
  "binary_reply data handle m =
     (if \<not> is_available m then (handle, m)
      else case handle of
        None \<Rightarrow> (None, m)
      | Some h \<Rightarrow> (None, SendResponse h data m))"

text \<open>A \<open>ReplyManager\<close> is the reply lambda it still has; null data is an empty response.\<close>

type_synonym ReplyManager = "response_handle option option"

definition SendResponseData ::
  "byte list option \<Rightarrow> ReplyManager \<times> messenger \<Rightarrow> ReplyManager \<times> messenger" where
  "SendResponseData data rm =
     (case fst rm of
        None \<Rightarrow> rm
      | Some handle \<Rightarrow>
          (None, snd (binary_reply (case data of None \<Rightarrow> [] | Some bytes \<Rightarrow> bytes) handle (snd rm))))"

definition EngineMethodResult_call :: "outcome \<Rightarrow> ReplyManager \<times> messenger \<Rightarrow> ReplyManager \<times> messenger" where
  "EngineMethodResult_call outcome =
     SendResponseData
       (case outcome of
          Result (Success v) \<Rightarrow> Some (EncodeSuccessEnvelope v)
        | Result (Error code message details) \<Rightarrow> Some (EncodeErrorEnvelope code message details)
        | NotImplemented \<Rightarrow> None)"

section \<open>Receiving\<close>

text \<open>The lambda that \<open>SetMethodCallHandler\<close> installs.\<close>

definition binary_handler ::
  "MethodCallHandler \<Rightarrow> byte list \<Rightarrow> response_handle option \<Rightarrow> messenger \<Rightarrow> messenger" where
  "binary_handler handler message reply m =
     snd (case DecodeMethodCall message of
            None \<Rightarrow> EngineMethodResult_call NotImplemented (Some reply, m)
          | Some call \<Rightarrow> fold EngineMethodResult_call (handler call) (Some reply, m))"

definition ForwardToHandler :: "FlutterDesktopMessage \<Rightarrow> channel \<Rightarrow> messenger \<Rightarrow> messenger res" where
  "ForwardToHandler message user_data m =
     (case handlers m user_data of
        None \<Rightarrow> Inl Undefined
      | Some handler \<Rightarrow>
          Inr (binary_handler handler (message_bytes message) (message_response_handle message) m))"

definition SetMessageCallback :: "channel \<Rightarrow> channel option \<Rightarrow> messenger \<Rightarrow> messenger" where
  "SetMessageCallback channel callback m =
     (case callback of
        None \<Rightarrow> m\<lparr>callbacks := (callbacks m)(channel := None)\<rparr>
      | Some user_data \<Rightarrow> m\<lparr>callbacks := (callbacks m)(channel \<mapsto> user_data)\<rparr>)"

definition EnableInputBlockingForChannel :: "channel \<Rightarrow> messenger \<Rightarrow> messenger" where
  "EnableInputBlockingForChannel channel m =
     m\<lparr>input_blocking_channels := insert channel (input_blocking_channels m)\<rparr>"

text \<open>
  A message on a channel without callback gets an empty response; one that carries no response
  handle cannot get any. Blocking and unblocking the input are the callbacks of the caller;
  \<open>input_blocked\<close> records them.
\<close>

definition dispatcher_HandleMessage :: "FlutterDesktopMessage \<Rightarrow> messenger \<Rightarrow> messenger res" where
  "dispatcher_HandleMessage message m =
     (case callbacks m (message_channel message) of
        None \<Rightarrow>
          (case message_response_handle message of
             None \<Rightarrow> Inr m
           | Some h \<Rightarrow> Inr (SendResponse h [] m))
      | Some user_data \<Rightarrow>
          (let block_input = message_channel message \<in> input_blocking_channels m;
               m = (if block_input then m\<lparr>input_blocked := input_blocked m @ [True]\<rparr> else m) in
           bindR (ForwardToHandler message user_data m) (\<lambda>m.
             Inr (if block_input then m\<lparr>input_blocked := input_blocked m @ [False]\<rparr> else m))))"

definition SetMessageHandler :: "channel \<Rightarrow> MethodCallHandler option \<Rightarrow> messenger \<Rightarrow> messenger" where
  "SetMessageHandler channel handler m =
     (case handler of
        None \<Rightarrow> SetMessageCallback channel None (m\<lparr>handlers := (handlers m)(channel := None)\<rparr>)
      | Some h \<Rightarrow> SetMessageCallback channel (Some channel) (m\<lparr>handlers := (handlers m)(channel \<mapsto> h)\<rparr>))"

definition SetMethodCallHandler :: "channel \<Rightarrow> MethodCallHandler option \<Rightarrow> messenger \<Rightarrow> messenger" where
  "SetMethodCallHandler name handler m = SetMessageHandler name handler m"

section \<open>Sending\<close>

definition Send :: "channel \<Rightarrow> byte list \<Rightarrow> bool \<Rightarrow> messenger \<Rightarrow> messenger" where
  "Send channel message wants_reply m =
     m\<lparr>messages_sent := messages_sent m @ [(channel, message, wants_reply)]\<rparr>"

definition InvokeMethod :: "channel \<Rightarrow> MethodCall \<Rightarrow> bool \<Rightarrow> messenger \<Rightarrow> messenger" where
  "InvokeMethod name call wants_result m = Send name (EncodeMethodCall call) wants_result m"

text \<open>What the reply lambda of \<open>InvokeMethod\<close> calls on the result object.\<close>

definition InvokeMethod_reply :: "byte list \<Rightarrow> codec_error + outcome" where
  "InvokeMethod_reply reply =
     (if reply = [] then Inr NotImplemented
      else bindR (DecodeAndProcessResponseEnvelope reply) (\<lambda>decoded.
        Inr (case decoded of None \<Rightarrow> NotImplemented | Some r \<Rightarrow> Result r)))"

definition kControlChannelName :: channel where
  "kControlChannelName = text_bytes ''dev.flutter/channel-buffers''"

definition ResizeChannel :: "channel \<Rightarrow> 32 word \<Rightarrow> messenger \<Rightarrow> messenger" where
  "ResizeChannel name new_size =
     InvokeMethod kControlChannelName
       \<lparr>method_name = text_bytes ''resize'',
        method_arguments = Some (EncodableList [String name, Int32 new_size])\<rparr> False"

definition SetChannelWarnsOnOverflow :: "channel \<Rightarrow> bool \<Rightarrow> messenger \<Rightarrow> messenger" where
  "SetChannelWarnsOnOverflow name warns =
     InvokeMethod kControlChannelName
       \<lparr>method_name = text_bytes ''overflow'',
        method_arguments = Some (EncodableList [String name, Bool (\<not> warns)])\<rparr> False"

section \<open>At most one answer\<close>

lemma answered_ignores: "fold EngineMethodResult_call outs (None, m) = (None, m)"
  by (induction outs) (simp_all add: EngineMethodResult_call_def SendResponseData_def)

text \<open>The bytes an outcome puts on the wire, and what the caller makes of them.\<close>

definition outcome_bytes :: "outcome \<Rightarrow> byte list" where
  "outcome_bytes outcome =
     (case outcome of
        Result (Success v) \<Rightarrow> EncodeSuccessEnvelope v
      | Result (Error code message details) \<Rightarrow> EncodeErrorEnvelope code message details
      | NotImplemented \<Rightarrow> [])"

lemma first_answer:
  "fold EngineMethodResult_call (out # outs) (Some reply, m) =
   (None, snd (binary_reply (outcome_bytes out) reply m))"
proof -
  have "EngineMethodResult_call out (Some reply, m) = (None, snd (binary_reply (outcome_bytes out) reply m))"
    by (simp add: EngineMethodResult_call_def SendResponseData_def outcome_bytes_def
        split: outcome.split method_result.split)
  then show ?thesis by (simp add: answered_ignores)
qed

fun sendable :: "outcome \<Rightarrow> bool" where
  "sendable (Result (Success v)) = pred_option serializable v"
| "sendable (Result (Error code message details)) =
     (length code < 2 ^ 32 \<and> length message < 2 ^ 32 \<and> pred_option serializable details)"
| "sendable NotImplemented = True"

text \<open>A null value and no value look the same to the receiver.\<close>

definition value_received :: "EncodableValue option \<Rightarrow> EncodableValue option" where
  "value_received v = (if opt_value v = Null then None else v)"

fun received :: "outcome \<Rightarrow> outcome" where
  "received (Result (Success v)) = Result (Success (value_received v))"
| "received (Result (Error code message details)) = Result (Error code message (value_received details))"
| "received NotImplemented = NotImplemented"

lemma envelopes_nonempty:
  assumes "pred_option serializable v"
  shows "EncodeSuccessEnvelope v \<noteq> []"
    and "length code < 2 ^ 32 \<Longrightarrow> length message < 2 ^ 32 \<Longrightarrow> EncodeErrorEnvelope code message v \<noteq> []"
proof -
  note sv = serializable_opt [OF assms]
  show "EncodeSuccessEnvelope v \<noteq> []"
    using standard.write_extends [OF sv, of "[0]"] by (auto simp: EncodeSuccessEnvelope_def WriteByte_def)
  assume "length code < 2 ^ 32" "length message < 2 ^ 32"
  then show "EncodeErrorEnvelope code message v \<noteq> []"
    using sv standard.fold_write_extends
      [of "[String code, if message = [] then Null else String message, opt_value v]" "[1]"]
    by (auto simp: EncodeErrorEnvelope_def WriteByte_def)
qed

lemma outcome_received: "sendable out \<Longrightarrow> InvokeMethod_reply (outcome_bytes out) = Inr (received out)"
proof (induction out rule: sendable.induct)
  case (1 v)
  then show ?case
    using envelopes_nonempty(1) [of v] DecodeEnvelope_encoded [of v "[]" "[]"]
    by (simp add: InvokeMethod_reply_def outcome_bytes_def value_received_def)
next
  case (2 code message details)
  then show ?case
    using envelopes_nonempty(2) [of details code message] DecodeEnvelope_encoded [of details code message]
    by (simp add: InvokeMethod_reply_def outcome_bytes_def value_received_def)
next
  case 3
  then show ?case by (simp add: InvokeMethod_reply_def outcome_bytes_def)
qed

text \<open>
  C26: a method call that the engine sends to a channel with a handler reaches that handler with its
  name and arguments, and is answered exactly once: with the first thing the handler calls on its
  result object, which the receiver of the response decodes as it was given. What the handler calls
  on the result after that is ignored.
\<close>

theorem method_call_answered_once:
  assumes "length (method_name call) < 2 ^ 32" "pred_option serializable (method_arguments call)"
    and "handler (call\<lparr>method_arguments := Some (opt_value (method_arguments call))\<rparr>) = out # ignored"
    and "sendable out" "is_available m"
  shows "\<exists>m' bytes. dispatcher_HandleMessage
      \<lparr>message_channel = name, message_bytes = EncodeMethodCall call, message_response_handle = Some h\<rparr>
      (SetMethodCallHandler name (Some handler) m) = Inr m' \<and>
    responses m' = responses m @ [(h, bytes)] \<and> InvokeMethod_reply bytes = Inr (received out)"
proof -
  have "DecodeMethodCall (EncodeMethodCall call) =
      Some (call\<lparr>method_arguments := Some (opt_value (method_arguments call))\<rparr>)"
    using DecodeMethodCall_encoded [OF assms(1,2), of "[]"] by simp
  then have "binary_handler handler (EncodeMethodCall call) (Some h) w = SendResponse h (outcome_bytes out) w"
    if "is_available w" for w
    using that by (simp only: binary_handler_def assms(3) option.case first_answer) (simp add: binary_reply_def)
  then show ?thesis
    using outcome_received [OF assms(4)] assms(5)
    by (simp add: dispatcher_HandleMessage_def SetMethodCallHandler_def SetMessageHandler_def
        SetMessageCallback_def ForwardToHandler_def SendResponse_def Let_def)
qed

theorem method_call_answered_once_witness:
  "\<exists>m' bytes. dispatcher_HandleMessage
      \<lparr>message_channel = [1], message_bytes = EncodeMethodCall \<lparr>method_name = [112], method_arguments = None\<rparr>,
       message_response_handle = Some 4\<rparr>
      (SetMethodCallHandler [1] (Some (\<lambda>call. [Result (Success (method_arguments call)), NotImplemented]))
        \<lparr>is_available = True, responses = [], messages_sent = [], callbacks = Map.empty,
         input_blocking_channels = {[1]}, input_blocked = [], handlers = Map.empty\<rparr>) = Inr m' \<and>
    responses m' = [] @ [(4, bytes)] \<and> InvokeMethod_reply bytes = Inr (received (Result (Success (Some Null))))"
proof -
  define m where "m = \<lparr>is_available = True, responses = [], messages_sent = [], callbacks = Map.empty,
         input_blocking_channels = {[1]}, input_blocked = [], handlers = Map.empty\<rparr>"
  have "responses m = []" "is_available m" by (simp_all add: m_def)
  with method_call_answered_once [of "\<lparr>method_name = [112], method_arguments = None\<rparr>"
      "\<lambda>call. [Result (Success (method_arguments call)), NotImplemented]"
      "Result (Success (Some Null))" "[NotImplemented]" m "[1]" 4]
  show ?thesis unfolding m_def [symmetric] by (simp add: opt_value_def)
qed

end
