(* ===== verification/Spec2Isabelle.thy ===== *)
theory Spec2Isabelle
  imports Task_Scheduling Message_Loop Thread_Merger_Correct Base64 Standard_Codec Switches
    Ascii_Trie Concurrent_Loop Windows_Runner Simplify_Path
    Fl_Channels_Correct Fl_Json_Codec_Correct Shell Fl_Task_Runner Method_Channel
begin

text \<open>
  A verification library for the engine of Flutter Zero (the C++ code under
  \<open>src/engine/src/flutter\<close>; the paths below are relative to it).

  \<^bold>\<open>The program.\<close> The engine runs Dart code for a host application. Its threads are message loops over a
  process-wide table of task queues (\<open>fml\<close>); queues can be merged so that one thread serves two. The
  runtime creates the Dart isolates (\<open>runtime\<close>), chooses and loads their code (\<open>assets\<close>, kernel files,
  snapshots) and answers requests of the VM service. The shells of the platforms pass messages
  between Dart and the host through channels: a message is encoded with a codec, dispatched by channel
  name and answered (\<open>shell/platform/common\<close>, \<open>shell/platform/linux\<close>). The settings of all of it come
  from the command line (\<open>shell/common/switches.cc\<close>).

  \<^bold>\<open>Theories, sources, and what is shown.\<close>

  \<^item> \<open>Prelude\<close>: results of operations that throw or abort, folds over them, \<open>std::map\<close> as a sorted
    association list. The locale \<open>std_map\<close> is the interface of ordered maps, interpreted on that list.
  \<^item> \<open>Task_Source\<close> (\<open>fml/delayed_task\<close>, \<open>task_source\<close>): delayed tasks and the primary and secondary
    priority queue of a queue. The locale \<open>min_queue\<close> is what the rest needs of a priority queue.
  \<^item> \<open>Task_Queues\<close> (\<open>fml/message_loop_task_queues\<close>): the table of queues with ownership and subsumption.
    \<open>Task_Queues_Correct\<close> has the invariant of the table and its preservation, \<open>Task_Scheduling\<close> the
    step relation over all operations and the properties of every reachable table: the next task is the
    least due one, registration is first in first out, merging moves tasks, unmerging undoes it.
  \<^item> \<open>Message_Loop\<close> (\<open>fml/message_loop_impl\<close>): flushing due tasks and the life of a loop. A flush may
    never end when tasks keep registering due ones, so it is a partial function in \<open>option\<close> (as is the loop over a path); that it
    returns is proved for closures that register nothing due.
  \<^item> \<open>Thread_Merger\<close>, \<open>Thread_Merger_Correct\<close> (\<open>fml/shared_thread_merger\<close>, \<open>raster_thread_merger\<close>): leases
    on the merged threads, shared by several callers; leases agree with the ownership of the queues, and the last one
    that ends unmerges them.
  \<^item> \<open>Concurrent_Loop\<close> (\<open>fml/concurrent_message_loop\<close>): the pool of worker threads as a step relation, with the wait set
    and the notifications of its condition variable; it accounts for every task, and comes to rest on every schedule with all
    of them run, or with every worker returned after a shutdown.
  \<^item> \<open>Embedder_Tasks\<close> (\<open>shell/platform/embedder\<close>): tasks that are handed to the embedder as batons run at most once,
    whatever the embedder does with them. \<open>Windows_Runner\<close> (\<open>shell/platform/windows/task_runner\<close>, \<open>task_runner_window\<close>):
    the embedder's side on Windows, a window and a timer thread that wake each other. In every interleaving no task is run
    twice, early or out of order; and none is forgotten as long as every message could be posted. The 64-bit counters wrap
    around in the model, and the theorems say how far they may have counted.
  \<^item> \<open>Ascii_Trie\<close> (\<open>fml/ascii_trie\<close>): which arguments a query accepts, which are not those its header says.
  \<^item> \<open>Command_Line\<close> (\<open>fml/command_line\<close>) and \<open>Base64\<close> (\<open>shell/common/base64\<close>): parsers and printers, their
    round trips, lookups, the exactness of the sizing call, and two over-reads. \<open>Text_Numbers\<close> has the
    number parsers of the standard library. \<open>Paths\<close> (\<open>fml/paths\<close> with its POSIX and Windows parts): unescaping of
    URIs is percent-decoding and stays in its string. \<open>Simplify_Path\<close> (\<open>third_party/tonic/filesystem\<close>): simplifying a path in
    place, equal to a fold over its components. The locale \<open>path_syntax\<close> is what the loop needs of a platform. \<open>Switches\<close> (\<open>shell/common/switches\<close>, \<open>switch_defs.h\<close>,
    \<open>common/settings.h\<close>): the whole of \<open>SettingsFromCommandLine\<close>, which command lines it accepts, and that
    the Dart VM gets no flag outside the allow list.
  \<^item> \<open>Byte_Streams\<close>, \<open>Standard_Codec\<close> (\<open>shell/platform/common/client_wrapper\<close>): the standard message and method
    codec of the desktop wrapper. The locale \<open>value_codec\<close> has the lemmas on reading back a sequence of
    values; it is interpreted for this codec and for the one below. \<open>Method_Channel\<close> (same directory, and
    \<open>incoming_message_dispatcher\<close>) carries a call to its handler and its one answer back.
  \<^item> \<open>Fl_Value\<close>, \<open>Fl_Codec\<close>, \<open>Fl_Codec_Correct\<close> (\<open>shell/platform/linux/fl_value\<close>,
    \<open>fl_standard_message_codec\<close>, \<open>fl_standard_method_codec\<close>): values as trees, their equality and maps as a
    refinement of finite maps, the codec with its error results, round trips, and that a decoder stays in
    its buffer, ends, and gives a value of the type its tag announces. \<open>Fl_Codec_Class\<close>
    (\<open>fl_message_codec\<close>, \<open>fl_method_codec\<close>, \<open>fl_string_codec\<close>, \<open>fl_binary_codec\<close>): codecs as tables of their functions, with
    the contracts \<open>message_codec_laws\<close> and \<open>method_codec_laws\<close> interpreted on each codec. \<open>Fl_Json_Codec\<close>,
    \<open>Fl_Json_Codec_Correct\<close> (\<open>fl_json_message_codec\<close>, \<open>fl_json_method_codec\<close>): the handler of parser events with its
    stack and the sharing of the values on it, and its round trips. \<open>Fl_Task_Runner\<close> (\<open>fl_task_runner\<close>): which tasks a timeout runs and when the
    next one fires.
  \<^item> \<open>Fl_Channels\<close>, \<open>Fl_Channels_Correct\<close> (\<open>fl_binary_messenger\<close>, \<open>fl_method_channel\<close>, \<open>fl_method_call\<close>,
    \<open>fl_basic_message_channel\<close>, \<open>fl_event_channel\<close>, the platform messages of \<open>fl_engine\<close>): channels as reference-counted
    objects of one world with the messenger and the engine. In every execution no message is answered
    twice; calls are answered with what the handler responds, invocations complete once, and event channels
    answer whatever they get. What an application does in a handler is a later operation of the execution.
  \<^item> \<open>Asset_Manager\<close> (\<open>assets/asset_manager\<close>) and \<open>Isolate_Configuration\<close> (\<open>runtime/isolate_configuration\<close>):
    where the code of an isolate comes from. \<open>Dart_Isolate\<close> and \<open>Root_Isolate\<close> (\<open>runtime/dart_isolate\<close>,
    \<open>platform_isolate_manager\<close>, \<open>dart_plugin_registrant\<close>, the scopes of \<open>third_party/tonic\<close>): the operations
    that take an isolate through its phases and those that create one. \<open>Isolate_Lifecycle\<close> shows that the
    phases only advance, \<open>Isolate_Creation\<close> that a root isolate comes up or is gone from the VM again.
    \<open>Runtime_Controller\<close> (\<open>runtime/runtime_controller\<close>, \<open>lib/ui/window/platform_configuration\<close>): the owner of the root
    isolate and its calls into \<open>dart:ui\<close>. It has at most one isolate, which goes with it, and a response that
    Dart code owes is completed at most once.
  \<^item> \<open>Service_Protocol\<close> (\<open>runtime/service_protocol\<close>): VM service requests reach the view they name.
  \<^item> \<open>Engine\<close> (\<open>shell/common/engine\<close>, \<open>run_configuration\<close>): the controller with its assets, delegate and task queues. Every
    outcome of \<open>Run\<close> is stated with the isolates, queues and assets it leaves; a restart puts one isolate in the place of
    another. \<open>Shell\<close> (\<open>shell/common/shell\<close>): the engine with the queues of the platform and UI runner, the platform view
    and the service protocol, as one world whose posted tasks run in later steps. A shell that was set up and run leaves
    no isolate, merged queue or service handler behind when it is deleted; in every execution each message reaches the view
    or handler once, and in the order sent unless the handler works on the UI thread; a service request runs another program in the view.

  \<^bold>\<open>How code is modelled.\<close> An object is a record of its fields and an operation takes and returns it. Where
  an operation acts on more than its object, the record is a world: the table of queues and a loop, an
  isolate with its group and the VM, a messenger with its dispatcher or its channels. Null pointers and \<open>std::optional\<close>
  are options. \<open>FML_CHECK\<close>, exceptions and calls outside a precondition of the standard library are values
  of the error type; \<open>FML_DCHECK\<close> and debug logs are left out, as in a release build. Locks make the
  operations atomic, so interleavings are sequences of operations: the step relations range over all of
  them. A wait on a condition variable is a state of its thread, which a notification, a deadline or a spurious wake-up ends. Counters, times and values that wrap are words of their width; sizes of containers are natural
  numbers, and where a size is written as 32 bits the theorems assume that it fits. Hosts are
  little-endian. Doubles are their bit patterns. Recursion over input is proved to end by a measure on
  what is left to read. One definition has a bound on its depth, \<open>object_value\<close>, which reads a value back from the
  store of the JSON handler: the bound is the number of objects in the store, and as an object is older than what
  it holds it is never reached (\<open>object_value_holds\<close>).

  \<^bold>\<open>Parameters.\<close> What the repository does not contain is an argument: the effect of a closure or task, the
  clock, the platform's loop, the JSON parser and writer, and the Dart VM, records of its API functions
  (\<open>dart_api\<close>, \<open>ui_api\<close>). An unordered
  container is a list in its iteration order. Theorems that need the VM to behave
  assume \<open>vm_conforms\<close>: enter, exit, create and shut down change the current and the live isolates as the
  API says, when they are called in the state the API asks for (\<open>ui_conforms\<close> for the calls into \<open>dart:ui\<close>).
  The JSON round trips assume that the parser reports the events that the writer was called with.

  \<^bold>\<open>Findings.\<close> The writer of the desktop codec leaves out the alignment of an empty vector that the reader
  skips (\<open>empty_vector_corrupts_list\<close>); option lookups compare a string view by its pointer
  (\<open>option_lookup_ignores_view_length\<close>); the Base64 decoder reads past an input that ends inside a group
  (\<open>base64_decode_overreads\<close>); a view id of a service request is parsed behind a prefix that is not checked.
  On Linux, a basic message channel that is replaced closes its successor
  (\<open>replaced_basic_channel_closes_its_successor\<close>), a message that cannot be decoded still reaches the handler of a
  basic channel (\<open>undecodable_message_reaches_handler\<close>) and is never answered by a method channel
  (\<open>undecodable_call_is_not_answered\<close>), a failed response is undefined behaviour (\<open>failed_response_is_undefined\<close>), and
  an invocation without an engine never completes (\<open>invocation_without_engine_never_completes\<close>). An ICU
  library that cannot be opened is a null dereference (\<open>missing_icu_library_is_undefined\<close>), as are a locale message
  with a locale whose later parts are not strings (\<open>locale_without_script_is_undefined\<close>), a shell whose set-up fails (\<open>failed_shell_creation_is_undefined\<close>) and
  resolvers that are updated before the first run (\<open>early_resolver_update_is_undefined\<close>). A message that takes the detour
  over the platform runner is overtaken by later ones (\<open>routed_message_is_overtaken\<close>). On Windows the directory of a network share
  is lost (\<open>directory_of_share_is_lost\<close>), as is the separator behind a share (\<open>share_separator_is_lost\<close>) and that of a drive
  (\<open>drive_root_is_trimmed\<close>); simplifying a path of parents overwrites the terminator of the string
  (\<open>parent_overwrites_terminator\<close>). Malformed ports of the VM service are accepted
  (\<open>malformed_port_is_accepted\<close>). The trie is no test for prefixes (\<open>trie_is_not_a_prefix_test\<close>). The worker pool drops
  tasks when it is shut down (\<open>shutdown_drops_tasks\<close>). An invalid UI runner of the embedder is replaced silently
  (\<open>invalid_ui_runner_is_ignored\<close>), and a description used for two runners is destroyed at once
  (\<open>shared_description_is_destroyed_early\<close>). On Windows a message that cannot be posted stops all task runners
  (\<open>failed_post_stops_the_runners\<close>), and timers are late by the time tasks took to run (\<open>timer_is_set_late\<close>).

  \<^bold>\<open>Not modelled.\<close> The Dart VM, JSON and regular expression libraries are only called. Of the shell, process-wide
  initialization, the thread host and the platform view are left out; the rest of the embedder API is wiring between the parts above; the platform shells other than the Linux messaging and the
  Windows task runner are glue to GTK, Win32, Android, Apple and Fuchsia frameworks, and \<open>fl_pointer_manager.cc\<close> belongs to no build target. Threads, files,
  tracing and logging are operating system calls. Of the isolates, native asset lookup and the native side of
  deferred library requests are left out, and a VM call does not change the embedder's object other than
  through the callbacks that are modelled. Reference counts are those of the Linux channels; values are
  immutable trees, except on the stack of the JSON handler, where containers are shared.

  \<^bold>\<open>Open.\<close> Code of the engine's own that a further extension would take first: the lifecycle of the VM and the
  message handler of \<open>tonic\<close>, the weak pointers of \<open>fml\<close>, and printing of \<open>FlValue\<close>.
\<close>

end
